(* ===== verification/Prelude.thy ===== *)
theory Prelude
  imports Complex_Main "HOL-Library.AList"
begin

text \<open>
  Generic vocabulary shared by the component theories: the Python string, number and
  container operations the backend uses, and the lemmas about them that the component
  proofs rest on.

  A Python \<open>str\<close> is a \<open>string\<close> (a list of characters); case mapping, digits and white
  space are those of the ASCII range.  A Python \<open>float\<close> is an exact rational (\<open>rat\<close>),
  so rounding of intermediate float results is not modelled; \<open>round\<close> itself is
  (\<open>py_round\<close>, half to even).  A \<open>datetime\<close> or \<open>timedelta\<close> is an integer number of
  microseconds, which is the resolution of the Python types.  A \<open>dict\<close> whose order can
  be observed is an association list updated in place (\<open>AList.update\<close>), any other one
  is a map.
\<close>

named_theorems model_defs \<open>definitions unfolded to evaluate a concrete case\<close>
named_theorems frame_rules \<open>what an operation leaves unchanged\<close>

subsection \<open>Time\<close>

type_synonym timestamp = int
type_synonym duration = int

abbreviation seconds :: "int \<Rightarrow> duration" where "seconds n \<equiv> n * 1000000"
abbreviation minutes :: "int \<Rightarrow> duration" where "minutes n \<equiv> seconds (n * 60)"
abbreviation hours :: "int \<Rightarrow> duration" where "hours n \<equiv> seconds (n * 3600)"
abbreviation days :: "int \<Rightarrow> duration" where "days n \<equiv> seconds (n * 86400)"

subsection \<open>Strings\<close>

definition is_space :: "char \<Rightarrow> bool" where
  "is_space c = (let n = (of_char c :: nat) in (9 \<le> n \<and> n \<le> 13) \<or> (28 \<le> n \<and> n \<le> 32))"

definition is_digit :: "char \<Rightarrow> bool" where
  "is_digit c = (let n = (of_char c :: nat) in 48 \<le> n \<and> n \<le> 57)"

definition char_lower :: "char \<Rightarrow> char" where
  "char_lower c = (let n = (of_char c :: nat) in if 65 \<le> n \<and> n \<le> 90 then char_of (n + 32) else c)"

definition char_upper :: "char \<Rightarrow> char" where
  "char_upper c = (let n = (of_char c :: nat) in if 97 \<le> n \<and> n \<le> 122 then char_of (n - 32) else c)"

definition str_lower :: "string \<Rightarrow> string" where "str_lower s = map char_lower s"
definition str_upper :: "string \<Rightarrow> string" where "str_upper s = map char_upper s"

definition str_lstrip :: "string \<Rightarrow> string" where "str_lstrip s = dropWhile is_space s"
definition str_strip :: "string \<Rightarrow> string" where
  "str_strip s = rev (dropWhile is_space (rev (dropWhile is_space s)))"
definition str_rstrip :: "string \<Rightarrow> string" where
  "str_rstrip s = rev (dropWhile is_space (rev s))"

definition str_isdigit :: "string \<Rightarrow> bool" where
  "str_isdigit s = (s \<noteq> [] \<and> list_all is_digit s)"

text \<open>\<open>s.split(c)\<close> for a one-character separator, and \<open>s.partition(c)\<close> without the
  separator itself.\<close>

fun split_on :: "char \<Rightarrow> string \<Rightarrow> string list" where
  "split_on c [] = [[]]"
| "split_on c (x # xs) =
     (if x = c then [] # split_on c xs
      else (case split_on c xs of [] \<Rightarrow> [[x]] | w # ws \<Rightarrow> (x # w) # ws))"

fun partition_on :: "char \<Rightarrow> string \<Rightarrow> string \<times> string" where
  "partition_on c [] = ([], [])"
| "partition_on c (x # xs) =
     (if x = c then ([], xs) else (let (a, b) = partition_on c xs in (x # a, b)))"

fun join :: "string \<Rightarrow> string list \<Rightarrow> string" where
  "join sep [] = []"
| "join sep [w] = w"
| "join sep (w # ws) = w @ sep @ join sep ws"

fun starts_with :: "string \<Rightarrow> string \<Rightarrow> bool" where
  "starts_with [] s = True"
| "starts_with (p # ps) [] = False"
| "starts_with (p # ps) (c # cs) = (p = c \<and> starts_with ps cs)"

text \<open>\<open>needle in hay\<close> on strings.\<close>

fun str_contains :: "string \<Rightarrow> string \<Rightarrow> bool" where
  "str_contains needle [] = (needle = [])"
| "str_contains needle (c # cs) = (starts_with needle (c # cs) \<or> str_contains needle cs)"

text \<open>\<open>s < t\<close>, by code points.\<close>

fun str_less :: "string \<Rightarrow> string \<Rightarrow> bool" where
  "str_less s [] = False"
| "str_less [] (d # ds) = True"
| "str_less (c # cs) (d # ds) = ((of_char c :: nat) < of_char d \<or> (c = d \<and> str_less cs ds))"

fun insort_str :: "string \<Rightarrow> string list \<Rightarrow> string list" where
  "insort_str s [] = [s]"
| "insort_str s (t # ts) = (if str_less t s then t # insort_str s ts else s # t # ts)"

text \<open>\<open>sorted(xs)\<close> on strings.\<close>

definition sort_str :: "string list \<Rightarrow> string list" where "sort_str xs = foldr insort_str xs []"

lemma set_sort_str [simp]: "set (sort_str xs) = set xs"
proof -
  have "set (insort_str s ts) = insert s (set ts)" for s ts
    by (induction ts) auto
  then show ?thesis by (induction xs) (simp_all add: sort_str_def)
qed

lemma starts_with_iff: "starts_with p s \<longleftrightarrow> (\<exists>r. s = p @ r)"
  by (induction p s rule: starts_with.induct) auto

lemma str_contains_iff: "str_contains p s \<longleftrightarrow> (\<exists>a b. s = a @ p @ b)"
proof (induction s)
  case (Cons c cs)
  have "(\<exists>a b. c # cs = a @ p @ b) \<longleftrightarrow> (\<exists>b. c # cs = p @ b) \<or> (\<exists>a b. cs = a @ p @ b)"
    (is "?l \<longleftrightarrow> ?r")
  proof
    assume ?l
    then obtain a b where "c # cs = a @ p @ b" by blast
    then show ?r by (cases a) auto
  next
    assume ?r
    then show ?l by (metis append_Cons append_Nil)
  qed
  with Cons.IH show ?case by (simp add: starts_with_iff)
qed simp

lemma str_contains_refl [simp]: "str_contains p p"
  by (metis append_Nil append_Nil2 str_contains_iff)

lemma str_contains_Nil [simp]: "str_contains [] s"
  by (cases s) auto

lemma str_strip_idem_space: "str_strip s = [] \<Longrightarrow> list_all is_space s"
  by (auto simp: str_strip_def list_all_iff dropWhile_eq_Nil_conv dest: set_dropWhileD)
    (metis Un_iff dropWhile_eq_Nil_conv set_append set_rev takeWhile_dropWhile_id set_takeWhileD)

lemma split_on_nonempty [simp]: "split_on c s \<noteq> []"
  by (induction s) (auto split: list.splits)

lemma join_split_on: "join [c] (split_on c s) = s"
proof (induction s)
  case (Cons x xs)
  obtain w ws where s: "split_on c xs = w # ws"
    by (cases "split_on c xs") auto
  with Cons.IH show ?case
    by (cases ws) auto
qed simp

lemma split_on_no_sep: "w \<in> set (split_on c s) \<Longrightarrow> c \<notin> set w"
  by (induction s arbitrary: w) (fastforce split: if_splits list.splits)+

subsection \<open>Decimal numerals\<close>

definition digit_char :: "nat \<Rightarrow> char" where "digit_char d = char_of (48 + d)"
definition digit_value :: "char \<Rightarrow> nat" where "digit_value c = of_char c - 48"

fun nat_str :: "nat \<Rightarrow> string" where
  "nat_str n = (if n < 10 then [digit_char n] else nat_str (n div 10) @ [digit_char (n mod 10)])"

declare nat_str.simps [simp del]

text \<open>\<open>int(s)\<close> on a string of digits.\<close>

definition str_nat :: "string \<Rightarrow> nat" where
  "str_nat s = fold (\<lambda>c n. 10 * n + digit_value c) s 0"

lemma digit_char_value [simp]: "d < 10 \<Longrightarrow> digit_value (digit_char d) = d"
  by (simp add: digit_char_def digit_value_def)

lemma digit_char_is_digit [simp]: "d < 10 \<Longrightarrow> is_digit (digit_char d)"
  by (simp add: digit_char_def is_digit_def)

lemma nat_str_digits: "list_all is_digit (nat_str n) \<and> nat_str n \<noteq> []"
proof (induction n rule: nat_str.induct)
  case (1 n)
  then show ?case by (cases "n < 10") (simp_all add: nat_str.simps [of n])
qed

lemma str_nat_nat_str [simp]: "str_nat (nat_str n) = n"
proof (induction n rule: nat_str.induct)
  case (1 n)
  then show ?case by (subst nat_str.simps) (simp add: str_nat_def)
qed

subsection \<open>The first row of a query\<close>

lemma find_mem: "List.find P xs = Some x \<Longrightarrow> x \<in> set xs \<and> P x"
  by (auto simp: find_Some_iff)

lemma find_unique:
  "x \<in> set xs \<Longrightarrow> P x \<Longrightarrow> (\<And>y. y \<in> set xs \<Longrightarrow> P y \<Longrightarrow> y = x) \<Longrightarrow> List.find P xs = Some x"
proof (induction xs)
  case (Cons a xs)
  show ?case
  proof (cases "P a")
    case True
    then have "a = x" by (intro Cons.prems(3)) simp_all
    with True show ?thesis by simp
  next
    case False
    with Cons.prems(1,2) have "x \<in> set xs" by auto
    then have "List.find P xs = Some x"
      by (rule Cons.IH [OF _ Cons.prems(2)]) (rule Cons.prems(3), simp_all)
    with False show ?thesis by simp
  qed
qed simp

lemma find_None: "List.find P xs = None \<longleftrightarrow> (\<forall>x\<in>set xs. \<not> P x)"
  by (induction xs) auto

lemma find_cong_pred: "(\<And>x. x \<in> set xs \<Longrightarrow> P x = Q x) \<Longrightarrow> List.find P xs = List.find Q xs"
  by (induction xs) auto

subsection \<open>Numbers\<close>

text \<open>Python's \<open>round(x)\<close>: to the nearest integer, ties to the even one.\<close>

definition py_round :: "rat \<Rightarrow> int" where
  "py_round r =
     (let f = \<lfloor>r\<rfloor>; d = r - of_int f in
      if d < 1/2 then f else if 1/2 < d then f + 1 else if even f then f else f + 1)"

text \<open>\<open>round(x, n)\<close>: to \<open>n\<close> decimal places.\<close>

definition py_round_to :: "nat \<Rightarrow> rat \<Rightarrow> rat" where
  "py_round_to n r = of_int (py_round (r * 10 ^ n)) / 10 ^ n"

lemma py_round_of_int [simp]: "py_round (of_int n) = n"
  by (simp add: py_round_def)

lemma py_round_numeral [simp]: "py_round (numeral n) = numeral n"
  using py_round_of_int [of "numeral n"] by simp

lemma py_round_0 [simp]: "py_round 0 = 0"
  using py_round_of_int [of 0] by simp

lemma py_round_1 [simp]: "py_round 1 = 1"
  using py_round_of_int [of 1] by simp

lemma py_round_bounds: "\<lfloor>r\<rfloor> \<le> py_round r \<and> py_round r \<le> \<lfloor>r\<rfloor> + 1"
  by (simp add: py_round_def Let_def)

lemma py_round_mono:
  assumes "a \<le> b"
  shows "py_round a \<le> py_round b"
proof (cases "\<lfloor>a\<rfloor> = \<lfloor>b\<rfloor>")
  case True
  with assms show ?thesis by (auto simp: py_round_def Let_def)
next
  case False
  with assms have "\<lfloor>a\<rfloor> + 1 \<le> \<lfloor>b\<rfloor>" by (meson floor_mono int_one_le_iff_zero_less le_neq_trans zless_imp_add1_zle)
  with py_round_bounds [of a] py_round_bounds [of b] show ?thesis by linarith
qed

lemma py_round_nonneg: "0 \<le> r \<Longrightarrow> 0 \<le> py_round r"
  using py_round_mono [of 0 r] by simp

lemma py_round_le_int: "r \<le> of_int n \<Longrightarrow> py_round r \<le> n"
  using py_round_mono [of r "of_int n"] by simp

lemma py_round_ge_int: "of_int n \<le> r \<Longrightarrow> n \<le> py_round r"
  using py_round_mono [of "of_int n" r] by simp

lemma py_round_to_mono: "a \<le> b \<Longrightarrow> py_round_to n a \<le> py_round_to n b"
  by (simp add: py_round_to_def divide_right_mono py_round_mono mult_right_mono)

lemma py_round_to_of_int: "py_round_to n (of_int k) = of_int k"
proof -
  have "(of_int k :: rat) * 10 ^ n = of_int (k * 10 ^ n)" by simp
  then show ?thesis unfolding py_round_to_def by (simp only: py_round_of_int) simp
qed

lemma py_round_to_0 [simp]: "py_round_to n 0 = 0"
  using py_round_to_of_int [of n 0] by simp

lemma py_round_to_numeral [simp]: "py_round_to n (numeral k) = numeral k"
  using py_round_to_of_int [of n "numeral k"] by simp

lemma py_round_to_bounds:
  assumes "of_int a \<le> r" and "r \<le> of_int b"
  shows "of_int a \<le> py_round_to n r" and "py_round_to n r \<le> of_int b"
  using assms py_round_to_mono [of "of_int a" r n] py_round_to_mono [of r "of_int b" n]
  by (simp_all add: py_round_to_of_int)

definition clamp :: "'a::linorder \<Rightarrow> 'a \<Rightarrow> 'a \<Rightarrow> 'a" where
  "clamp lo hi x = min hi (max lo x)"

lemma clamp_bounds: "lo \<le> hi \<Longrightarrow> lo \<le> clamp lo hi x \<and> clamp lo hi x \<le> hi"
  by (auto simp: clamp_def)

lemma clamp_id: "lo \<le> x \<Longrightarrow> x \<le> hi \<Longrightarrow> clamp lo hi x = x"
  by (auto simp: clamp_def)

end
