(* ===== verification/Models.thy ===== *)
theory Models
  imports Prelude
begin

text \<open>
  The rows and enumerations of \<open>backend/app/models/models.py\<close> the components below work
  on.  An SQLModel table class is a record holding the columns the modelled code reads or
  writes, a nullable column is an \<open>option\<close>, a foreign key is the integer id of the row it
  points to, and a table is the list of its rows in row order.  Field names carry a prefix
  per table, since two tables share column names.
\<close>

type_synonym row_id = int

subsection \<open>Enumerations\<close>

datatype severity = CRITICAL | HIGH | MEDIUM | LOW | INFO

fun severity_value :: "severity \<Rightarrow> string" where
  "severity_value CRITICAL = ''Critical''"
| "severity_value HIGH = ''High''"
| "severity_value MEDIUM = ''Medium''"
| "severity_value LOW = ''Low''"
| "severity_value INFO = ''Informational''"

fun SEVERITY_WEIGHT :: "severity \<Rightarrow> int" where
  "SEVERITY_WEIGHT CRITICAL = 5"
| "SEVERITY_WEIGHT HIGH = 4"
| "SEVERITY_WEIGHT MEDIUM = 3"
| "SEVERITY_WEIGHT LOW = 2"
| "SEVERITY_WEIGHT INFO = 1"

lemma severity_weight_range: "1 \<le> SEVERITY_WEIGHT s \<and> SEVERITY_WEIGHT s \<le> 5"
  by (cases s) auto

lemma severity_weight_inj: "SEVERITY_WEIGHT s = SEVERITY_WEIGHT t \<longleftrightarrow> s = t"
  by (cases s; cases t) auto

text \<open>Severities are ordered by their weight, from Informational to Critical.\<close>

instantiation severity :: linorder
begin

definition less_eq_severity :: "severity \<Rightarrow> severity \<Rightarrow> bool" where
  "s \<le> t \<longleftrightarrow> SEVERITY_WEIGHT s \<le> SEVERITY_WEIGHT t"

definition less_severity :: "severity \<Rightarrow> severity \<Rightarrow> bool" where
  "s < t \<longleftrightarrow> SEVERITY_WEIGHT s < SEVERITY_WEIGHT t"

instance
  by standard
    (auto simp: less_eq_severity_def less_severity_def severity_weight_inj)

end

datatype finding_state = OPEN | ACCEPTED_RISK | FALSE_POSITIVE | WONT_FIX | MITIGATED | REOPENED

definition OPEN_FINDING_STATES :: "finding_state list" where
  "OPEN_FINDING_STATES = [OPEN, REOPENED]"

definition RESOLVED_FINDING_STATES :: "finding_state list" where
  "RESOLVED_FINDING_STATES = [ACCEPTED_RISK, FALSE_POSITIVE, WONT_FIX, MITIGATED]"

lemma open_or_resolved: "s \<in> set OPEN_FINDING_STATES \<longleftrightarrow> s \<notin> set RESOLVED_FINDING_STATES"
  by (cases s) (simp_all add: OPEN_FINDING_STATES_def RESOLVED_FINDING_STATES_def)

datatype scan_schedule_type = FULL_SCAN | API_SCAN

datatype scoring_signal =
    S_SEVERITY | S_CVSS_EXPLOITABILITY | S_EPSS | S_KEV | S_INTERNET_EXPOSURE
  | S_BUSINESS_CRITICALITY | S_FIXABILITY | S_DEPENDENCY_SCOPE

datatype pr_guardrail_status = PR_RUNNING | PR_PASSED | PR_BLOCKED | PR_ERROR | PR_OVERRIDDEN

datatype ignore_status = IG_NONE | IG_REQUESTED | IG_APPROVED | IG_REJECTED | IG_REVOKED

datatype policy_rule_type = BLOCK_SEVERITY | SUPPRESS_RULE | SUPPRESS_LICENSE

subsection \<open>Tables\<close>

record workspace =
  ws_id :: row_id
  ws_enforcement_mode :: "string option"

record target =
  t_id :: row_id
  t_workspace_id :: row_id
  t_name :: string
  t_repo_url :: string
  t_default_branch :: string
  t_label :: string
  t_criticality_weight :: int
  t_owner :: "string option"
  t_environment :: "string option"
  t_enforcement_mode :: "string option"
  t_api_base_url :: "string option"
  t_api_auth_header_name :: "string option"
  t_api_auth_header_value_ciphertext :: "string option"
  t_diff_scoped_pr_scans :: bool
  t_auto_raise_fix_prs :: bool
  t_deactivated_at :: "timestamp option"
  t_deleted_at :: "timestamp option"
  t_malware_last_checked_at :: "timestamp option"
  t_malware_last_check_status :: "string option"
  t_malware_packages_checked :: "nat option"
  t_is_ai_repo :: bool
  t_is_ai_repo_signals :: string
  t_is_ai_repo_override :: "bool option"
  t_dependency_sync_status :: "string option"
  t_dependency_sync_error :: "string option"
  t_dependency_sync_at :: "timestamp option"
  t_dependency_component_count :: "int option"

record group_row =
  g_id :: row_id
  g_workspace_id :: row_id
  g_enforcement_mode :: "string option"

record target_group =
  tg_target_id :: row_id
  tg_group_id :: row_id

record scan =
  s_id :: row_id
  s_target_id :: row_id
  s_tool :: string
  s_branch :: string
  s_status :: string
  s_started_at :: timestamp
  s_completed_at :: "timestamp option"
  s_findings_count :: int
  s_error :: string
  s_health :: string
  s_health_note :: string

record finding =
  f_id :: row_id
  f_target_id :: row_id
  f_scan_id :: "row_id option"
  f_dedup_hash :: string
  f_tool :: string
  f_rule_id :: string
  f_title :: string
  f_description :: string
  f_file_path :: string
  f_line_start :: "int option"
  f_line_end :: "int option"
  f_severity :: severity
  f_priority_score :: int
  f_dependency_scope :: string
  f_package_name :: "string option"
  f_branch :: string
  f_state :: finding_state
  f_state_reason :: string
  f_cve_id :: "string option"
  f_epss_score :: "rat option"
  f_kev_listed :: bool
  f_first_seen :: timestamp
  f_last_seen :: timestamp
  f_mitigated_at :: "timestamp option"

record finding_state_log =
  l_finding_id :: row_id
  l_from_state :: finding_state
  l_to_state :: finding_state
  l_reason :: string
  l_actor :: string
  l_created_at :: timestamp
  l_batch_id :: "string option"

text \<open>
  \<open>CveEnrichment.fixed_versions\<close> holds JSON text.  The column is represented by what
  \<open>json.loads\<close> makes of it: no text at all, text that does not parse, or the list of
  entries, each giving the string values of the three keys the code reads.
\<close>

record fix_entry =
  fx_package :: "string option"
  fx_ecosystem :: "string option"
  fx_fixed :: "string option"

datatype fixed_versions_column = NoText | Unparseable | Entries "fix_entry list"

record cve_enrichment =
  ce_cve_id :: string
  ce_cvss_vector :: "string option"
  ce_cvss_version :: "string option"
  ce_cvss_attack_vector :: "string option"
  ce_cvss_attack_complexity :: "string option"
  ce_cvss_privileges_required :: "string option"
  ce_cvss_user_interaction :: "string option"
  ce_fixed_versions :: fixed_versions_column
  ce_osv_found :: bool

record github_token =
  gt_id :: row_id
  gt_workspace_id :: row_id
  gt_token_ciphertext :: string
  gt_created_by :: "row_id option"
  gt_created_at :: timestamp
  gt_expires_at :: "timestamp option"

record sbom_component =
  sc_id :: row_id
  sc_target_id :: row_id
  sc_branch :: string
  sc_name :: string
  sc_version :: string
  sc_package_type :: string
  sc_purl :: string
  sc_source :: string
  sc_first_seen :: timestamp
  sc_last_seen :: timestamp

record api_endpoint =
  ep_id :: row_id
  ep_target_id :: row_id
  ep_branch :: string
  ep_framework :: string
  ep_method :: string
  ep_route :: string
  ep_file_path :: string
  ep_line :: "int option"
  ep_first_seen :: timestamp
  ep_last_seen :: timestamp
  ep_excluded :: bool
  ep_exclusion_reason :: "string option"

text \<open>Why a scan ended up with its scope: the wordings the executor writes to \<open>scope_reason\<close>.\<close>

datatype scope_reason =
  NoReason | FilesUnavailable | TooManyFiles nat | NoScannableFiles | RadiusNote string

record pr_guardrail_scan =
  ps_id :: row_id
  ps_target_id :: row_id
  ps_pr_number :: int
  ps_pr_title :: string
  ps_branch :: string
  ps_status :: pr_guardrail_status
  ps_new_findings_count :: int
  ps_highest_new_severity :: "string option"
  ps_new_endpoints_count :: int
  ps_tools_run :: "string list"
  ps_tools_failed :: "string list"
  ps_tools_skipped :: "string list"
  ps_scan_scope :: string
  ps_files_scanned :: int
  ps_blast_radius_files :: int
  ps_scope_reason :: scope_reason
  ps_override_reason :: string
  ps_status_delivery_error :: string
  ps_baseline_missing :: bool
  ps_completed_at :: "timestamp option"

record pr_guardrail_finding =
  pg_id :: row_id
  pg_pr_scan_id :: row_id
  pg_tool :: string
  pg_rule_id :: string
  pg_title :: string
  pg_file_path :: string
  pg_line_start :: "int option"
  pg_severity :: string
  pg_ignore_status :: ignore_status
  pg_ignore_requested_by :: string
  pg_ignore_requested_reason :: string
  pg_ignore_reviewed_by :: string
  pg_ignore_reviewed_at :: "timestamp option"
  pg_reject_reason :: "string option"

record policy_rule =
  p_workspace_id :: row_id
  p_rule_type :: policy_rule_type
  p_value :: string
  p_active :: bool

record sla_rule =
  sr_workspace_id :: row_id
  sr_group_id :: "row_id option"
  sr_severity :: severity
  sr_days_to_fix :: int

record scan_schedule =
  ss_id :: row_id
  ss_workspace_id :: row_id
  ss_target_id :: "row_id option"
  ss_scan_type :: scan_schedule_type
  ss_interval_hours :: "int option"
  ss_enabled :: "bool option"
  ss_last_run_at :: "timestamp option"
  ss_last_dispatched_count :: "int option"
  ss_next_run_at :: "timestamp option"
  ss_created_at :: timestamp
  ss_updated_at :: timestamp

record false_positive_rule =
  r_id :: row_id
  r_workspace_id :: row_id
  r_rule_id :: string
  r_tool :: string
  r_file_path_pattern :: "string option"
  r_source_finding_id :: "row_id option"
  r_created_by :: string
  r_created_at :: timestamp
  r_active :: bool
  r_match_count :: int
  r_last_matched_at :: "timestamp option"

end
