(* ===== verification/Cvss.thy ===== *)
theory Cvss
  imports Models
begin

text \<open>
  \<open>backend/app/core/cvss.py\<close>: decomposing a CVSS base vector into the four
  exploitability metrics and the 0..1 sub-score.  The four dictionaries are association
  lists, a decomposition is a record of optional metric values, and subscripting a table
  with a value it does not hold is the error \<open>KeyError\<close>, as it is in Python.
\<close>

datatype cvss_metric = AttackVector | AttackComplexity | PrivilegesRequired | UserInteraction

definition ATTACK_VECTOR_VALUES :: "(string \<times> string) list" where
  "ATTACK_VECTOR_VALUES =
     [(''N'', ''network''), (''A'', ''adjacent''), (''L'', ''local''), (''P'', ''physical'')]"

definition ATTACK_COMPLEXITY_VALUES :: "(string \<times> string) list" where
  "ATTACK_COMPLEXITY_VALUES = [(''L'', ''low''), (''H'', ''high''), (''M'', ''medium'')]"

definition PRIVILEGES_REQUIRED_VALUES :: "(string \<times> string) list" where
  "PRIVILEGES_REQUIRED_VALUES = [(''N'', ''none''), (''L'', ''low''), (''H'', ''high'')]"

definition USER_INTERACTION_VALUES :: "(string \<times> string) list" where
  "USER_INTERACTION_VALUES =
     [(''N'', ''none''), (''R'', ''required''), (''P'', ''passive''), (''A'', ''active'')]"

fun exploitability_table :: "cvss_metric \<Rightarrow> (string \<times> rat) list" where
  "exploitability_table AttackVector =
     [(''network'', 1), (''adjacent'', 62/100), (''local'', 35/100), (''physical'', 15/100)]"
| "exploitability_table AttackComplexity =
     [(''low'', 1), (''medium'', 70/100), (''high'', 44/100)]"
| "exploitability_table PrivilegesRequired =
     [(''none'', 1), (''low'', 62/100), (''high'', 27/100)]"
| "exploitability_table UserInteraction =
     [(''none'', 1), (''passive'', 62/100), (''required'', 45/100), (''active'', 45/100)]"

text \<open>\<open>_METRICS\<close>: the order the metrics are read in, and for each its vector key and
  accepted values.\<close>

definition METRICS :: "cvss_metric list" where
  "METRICS = [AttackVector, AttackComplexity, PrivilegesRequired, UserInteraction]"

fun vector_key :: "cvss_metric \<Rightarrow> string" where
  "vector_key AttackVector = ''AV''"
| "vector_key AttackComplexity = ''AC''"
| "vector_key PrivilegesRequired = ''PR''"
| "vector_key UserInteraction = ''UI''"

fun accepted_values :: "cvss_metric \<Rightarrow> (string \<times> string) list" where
  "accepted_values AttackVector = ATTACK_VECTOR_VALUES"
| "accepted_values AttackComplexity = ATTACK_COMPLEXITY_VALUES"
| "accepted_values PrivilegesRequired = PRIVILEGES_REQUIRED_VALUES"
| "accepted_values UserInteraction = USER_INTERACTION_VALUES"

fun METRIC_LABELS :: "cvss_metric \<Rightarrow> string" where
  "METRIC_LABELS AttackVector = ''Attack Vector''"
| "METRIC_LABELS AttackComplexity = ''Attack Complexity''"
| "METRIC_LABELS PrivilegesRequired = ''Privileges Required''"
| "METRIC_LABELS UserInteraction = ''User Interaction''"

record cvss_decomposition =
  version :: "string option"
  attack_vector :: "string option"
  attack_complexity :: "string option"
  privileges_required :: "string option"
  user_interaction :: "string option"

fun metric_value :: "cvss_decomposition \<Rightarrow> cvss_metric \<Rightarrow> string option" where
  "metric_value d AttackVector = attack_vector d"
| "metric_value d AttackComplexity = attack_complexity d"
| "metric_value d PrivilegesRequired = privileges_required d"
| "metric_value d UserInteraction = user_interaction d"

definition known_metrics :: "cvss_decomposition \<Rightarrow> (cvss_metric \<times> string) list" where
  "known_metrics d =
     concat (map (\<lambda>m. case metric_value d m of None \<Rightarrow> [] | Some v \<Rightarrow> [(m, v)]) METRICS)"

definition is_unknown :: "cvss_decomposition \<Rightarrow> bool" where
  "is_unknown d \<longleftrightarrow> known_metrics d = []"

datatype cvss_error = KeyError string

fun table_scores :: "(cvss_metric \<times> string) list \<Rightarrow> cvss_error + rat list" where
  "table_scores [] = Inr []"
| "table_scores ((m, v) # ms) =
     (case map_of (exploitability_table m) v of
        None \<Rightarrow> Inl (KeyError v)
      | Some x \<Rightarrow> (case table_scores ms of Inl e \<Rightarrow> Inl e | Inr xs \<Rightarrow> Inr (x # xs)))"

definition exploitability :: "cvss_decomposition \<Rightarrow> cvss_error + rat option" where
  "exploitability d =
     (if version d = Some ''2.0'' then Inr None
      else (case table_scores (known_metrics d) of
              Inl e \<Rightarrow> Inl e
            | Inr scores \<Rightarrow>
                (if scores = [] then Inr None
                 else Inr (Some (sum_list scores / of_nat (length scores))))))"

definition describe :: "cvss_decomposition \<Rightarrow> string" where
  "describe d =
     (let known = known_metrics d in
      if known = [] then ''no CVSS metrics decoded''
      else join '', '' (map (\<lambda>(m, v). METRIC_LABELS m @ '': '' @ v) known))"

definition UNKNOWN_CVSS :: cvss_decomposition where
  "UNKNOWN_CVSS = \<lparr>version = None, attack_vector = None, attack_complexity = None,
     privileges_required = None, user_interaction = None\<rparr>"

text \<open>One token of the vector: the loop body of \<open>parse_cvss_vector\<close>.\<close>

definition parse_token ::
  "string \<Rightarrow> (string \<rightharpoonup> string) \<times> string option \<Rightarrow> (string \<rightharpoonup> string) \<times> string option" where
  "parse_token token = (\<lambda>(flds, ver).
     (let (key, value) = partition_on CHR '':'' token in
      if value = [] then (flds, ver)
      else
        (let key = str_upper (str_strip key); value = str_upper (str_strip value) in
         if key = ''CVSS'' then
           (let (major, minor) = partition_on CHR ''.'' value in
            if str_isdigit major \<and> str_isdigit minor
            then (flds, Some (major @ ''.'' @ minor)) else (flds, ver))
         else (flds(key \<mapsto> value), ver))))"

definition vector_tokens :: "string \<Rightarrow> string list" where
  "vector_tokens raw =
     filter (\<lambda>t. t \<noteq> []) (map str_strip (split_on CHR ''/'' (str_strip raw)))"

definition decode_metric :: "(string \<rightharpoonup> string) \<Rightarrow> cvss_metric \<Rightarrow> string option" where
  "decode_metric flds m =
     map_of (accepted_values m) (case flds (vector_key m) of None \<Rightarrow> [] | Some v \<Rightarrow> v)"

definition parse_cvss_vector :: "string option \<Rightarrow> cvss_decomposition" where
  "parse_cvss_vector raw =
     (case raw of
        None \<Rightarrow> UNKNOWN_CVSS
      | Some s \<Rightarrow>
          (if s = [] \<or> vector_tokens s = [] then UNKNOWN_CVSS
           else
             (let (flds, ver) = fold parse_token (vector_tokens s) (Map.empty, None);
                  ver = (if ver = None \<and> flds ''AU'' \<noteq> None then Some ''2.0'' else ver);
                  result = \<lparr>version = ver,
                            attack_vector = decode_metric flds AttackVector,
                            attack_complexity = decode_metric flds AttackComplexity,
                            privileges_required = decode_metric flds PrivilegesRequired,
                            user_interaction = decode_metric flds UserInteraction\<rparr>
              in if is_unknown result then UNKNOWN_CVSS else result)))"

lemmas cvss_tables =
  ATTACK_VECTOR_VALUES_def ATTACK_COMPLEXITY_VALUES_def
  PRIVILEGES_REQUIRED_VALUES_def USER_INTERACTION_VALUES_def

lemmas cvss_eval =
  parse_cvss_vector_def vector_tokens_def parse_token_def decode_metric_def cvss_tables
  UNKNOWN_CVSS_def is_unknown_def known_metrics_def METRICS_def exploitability_def
  str_strip_def str_upper_def str_isdigit_def is_space_def is_digit_def char_upper_def

subsection \<open>Decoded metrics come from the tables\<close>

definition well_formed :: "cvss_decomposition \<Rightarrow> bool" where
  "well_formed d \<longleftrightarrow>
     list_all (\<lambda>m. case metric_value d m of None \<Rightarrow> True
                   | Some v \<Rightarrow> v \<in> snd ` set (accepted_values m)) METRICS"

lemma accepted_scores:
  "list_all (\<lambda>v. case map_of (exploitability_table m) v of None \<Rightarrow> False
                  | Some x \<Rightarrow> 0 < x \<and> x \<le> 1) (map snd (accepted_values m))"
  by (cases m) (simp_all add: cvss_tables)

lemma accepted_in_table:
  assumes "v \<in> snd ` set (accepted_values m)"
  shows "\<exists>x. map_of (exploitability_table m) v = Some x \<and> 0 < x \<and> x \<le> 1"
proof -
  from assms have "v \<in> set (map snd (accepted_values m))" by simp
  with accepted_scores [of m] show ?thesis
    unfolding list_all_iff by (metis (no_types, lifting) option.case_eq_if option.collapse)
qed

lemma decode_metric_accepted:
  "decode_metric flds m = Some v \<Longrightarrow> v \<in> snd ` set (accepted_values m)"
  unfolding decode_metric_def by (drule map_of_SomeD) force

lemma UNKNOWN_well_formed [simp]: "well_formed UNKNOWN_CVSS"
  by (simp add: well_formed_def UNKNOWN_CVSS_def METRICS_def)

lemma UNKNOWN_is_unknown [simp]: "is_unknown UNKNOWN_CVSS"
  by (simp add: is_unknown_def known_metrics_def UNKNOWN_CVSS_def METRICS_def)

lemma decoded_well_formed:
  "well_formed \<lparr>version = ver, attack_vector = decode_metric flds AttackVector,
     attack_complexity = decode_metric flds AttackComplexity,
     privileges_required = decode_metric flds PrivilegesRequired,
     user_interaction = decode_metric flds UserInteraction\<rparr>" (is "well_formed ?d")
proof -
  have "metric_value ?d m = decode_metric flds m" for m
    by (cases m) simp_all
  then show ?thesis
    using decode_metric_accepted
    by (simp add: well_formed_def list_all_iff del: metric_value.simps split: option.split)
qed

lemma parse_well_formed: "well_formed (parse_cvss_vector raw)"
  by (simp add: parse_cvss_vector_def Let_def decoded_well_formed split: option.split prod.split)

lemma known_metrics_accepted:
  "well_formed d \<Longrightarrow> (m, v) \<in> set (known_metrics d) \<Longrightarrow> v \<in> snd ` set (accepted_values m)"
  by (auto simp: known_metrics_def well_formed_def list_all_iff split: option.splits)

lemma table_scores_accepted:
  "list_all (\<lambda>(m, v). v \<in> snd ` set (accepted_values m)) ms \<Longrightarrow>
     \<exists>xs. table_scores ms = Inr xs \<and> length xs = length ms \<and> list_all (\<lambda>x. 0 < x \<and> x \<le> 1) xs"
proof (induction ms)
  case (Cons mv ms)
  obtain m v where mv: "mv = (m, v)" by fastforce
  with Cons.prems have acc: "v \<in> snd ` set (accepted_values m)"
    and rest: "list_all (\<lambda>(m, v). v \<in> snd ` set (accepted_values m)) ms" by simp_all
  from accepted_in_table [OF acc] obtain x where
    x: "map_of (exploitability_table m) v = Some x" "0 < x" "x \<le> 1" by blast
  from Cons.IH [OF rest] obtain xs where "table_scores ms = Inr xs" "length xs = length ms"
    "list_all (\<lambda>x. 0 < x \<and> x \<le> 1) xs" by blast
  with x mv show ?case by simp
qed simp

lemma sum_list_in_unit:
  "list_all (\<lambda>x::rat. 0 < x \<and> x \<le> 1) xs \<Longrightarrow>
     0 \<le> sum_list xs \<and> sum_list xs \<le> of_nat (length xs) \<and> (xs \<noteq> [] \<longrightarrow> 0 < sum_list xs)"
  by (induction xs) auto

text \<open>The sub-score of a well-formed decomposition: never an error, absent exactly for a
  v2 vector or when nothing is known, and otherwise in (0, 1].\<close>

lemma exploitability_well_formed:
  assumes "well_formed d"
  obtains "exploitability d = Inr None" and "version d = Some ''2.0'' \<or> is_unknown d"
  | x where "exploitability d = Inr (Some x)" and "0 < x" and "x \<le> 1"
      and "version d \<noteq> Some ''2.0''" and "\<not> is_unknown d"
proof -
  have "list_all (\<lambda>(m, v). v \<in> snd ` set (accepted_values m)) (known_metrics d)"
    using known_metrics_accepted [OF assms] by (simp add: list_all_iff split_beta)
  from table_scores_accepted [OF this] obtain xs where
    xs: "table_scores (known_metrics d) = Inr xs" "length xs = length (known_metrics d)"
      "list_all (\<lambda>x. 0 < x \<and> x \<le> 1) xs" by blast
  have unk: "is_unknown d \<longleftrightarrow> xs = []"
    using xs(2) by (auto simp: is_unknown_def)
  show thesis
  proof (cases "version d = Some ''2.0'' \<or> is_unknown d")
    case True
    then show thesis using xs unk that(1) by (auto simp: exploitability_def)
  next
    case False
    with unk sum_list_in_unit [OF xs(3)] have
      "0 < sum_list xs / of_nat (length xs)" "sum_list xs / of_nat (length xs) \<le> 1"
      by (auto simp: divide_le_eq)
    with False xs(1) unk show thesis
      using that(2) by (auto simp: exploitability_def)
  qed
qed

lemma exploitability_tables_unit:
  "map_of (exploitability_table m) v = Some x \<Longrightarrow> 0 < x \<and> x \<le> 1"
  by (cases m) (auto split: if_splits)

lemma table_scores_unit:
  "table_scores ms = Inr xs \<Longrightarrow> list_all (\<lambda>x. 0 < x \<and> x \<le> 1) xs"
proof (induction ms arbitrary: xs)
  case (Cons mv ms)
  then show ?case
    by (cases mv)
      (auto split: option.splits sum.splits simp del: exploitability_table.simps
        dest: exploitability_tables_unit)
qed simp

lemma exploitability_range:
  assumes "exploitability d = Inr (Some x)"
  shows "0 < x" and "x \<le> 1"
proof -
  from assms obtain xs where "table_scores (known_metrics d) = Inr xs" "xs \<noteq> []"
    "x = sum_list xs / of_nat (length xs)"
    by (auto simp: exploitability_def split: if_splits sum.splits)
  with sum_list_in_unit [OF table_scores_unit [OF this(1)]]
  show "0 < x" and "x \<le> 1" by (auto simp: divide_le_eq)
qed

end
