(* ===== verification/Scoring.thy ===== *)
theory Scoring
  imports Cvss
begin

text \<open>
  \<open>backend/app/core/scoring.py\<close>: the weighted priority engine.  Weights are a total map
  from signals to rationals (\<open>resolve_weights\<close> always starts from the full baseline).  An
  explanation sentence (\<open>detail\<close>) is a datatype value: one constructor per f-string of
  the source, holding the values the f-string interpolates.  \<open>compute_score_breakdown\<close>
  is split into its sections, each of which passes on the running score and the \<open>capped\<close>
  flag and returns the contribution it appends.
\<close>

subsection \<open>Calibration\<close>

definition BASE_UNIT :: int where "BASE_UNIT = 40"
definition MAX_SCORE :: int where "MAX_SCORE = 1000"
definition KEV_FLOOR :: int where "KEV_FLOOR = 900"
definition EPSS_BUMP :: int where "EPSS_BUMP = 160"
definition EPSS_NOTABLE_THRESHOLD :: rat where "EPSS_NOTABLE_THRESHOLD = 1/2"
definition CVSS_EXPLOITABILITY_MAX_POINTS :: int where "CVSS_EXPLOITABILITY_MAX_POINTS = 200"
definition INTERNET_EXPOSURE_MAX_POINTS :: int where "INTERNET_EXPOSURE_MAX_POINTS = 180"
definition FIXABILITY_POINTS :: int where "FIXABILITY_POINTS = 120"
definition DEPENDENCY_SCOPE_POINTS :: int where "DEPENDENCY_SCOPE_POINTS = 140"
definition PRODUCTION_EXPOSURE_FACTOR :: rat where "PRODUCTION_EXPOSURE_FACTOR = 1/2"
definition MIN_WEIGHT :: rat where "MIN_WEIGHT = 0"
definition MAX_WEIGHT :: rat where "MAX_WEIGHT = 5"

lemmas calibration =
  BASE_UNIT_def MAX_SCORE_def KEV_FLOOR_def EPSS_BUMP_def EPSS_NOTABLE_THRESHOLD_def
  CVSS_EXPLOITABILITY_MAX_POINTS_def INTERNET_EXPOSURE_MAX_POINTS_def FIXABILITY_POINTS_def
  DEPENDENCY_SCOPE_POINTS_def PRODUCTION_EXPOSURE_FACTOR_def MIN_WEIGHT_def MAX_WEIGHT_def

type_synonym weights = "scoring_signal \<Rightarrow> rat"

fun BASELINE_WEIGHTS :: weights where
  "BASELINE_WEIGHTS S_SEVERITY = 1"
| "BASELINE_WEIGHTS S_BUSINESS_CRITICALITY = 1"
| "BASELINE_WEIGHTS S_KEV = 1"
| "BASELINE_WEIGHTS S_EPSS = 1"
| "BASELINE_WEIGHTS S_CVSS_EXPLOITABILITY = 0"
| "BASELINE_WEIGHTS S_INTERNET_EXPOSURE = 0"
| "BASELINE_WEIGHTS S_FIXABILITY = 0"
| "BASELINE_WEIGHTS S_DEPENDENCY_SCOPE = 0"

fun SIGNAL_LABELS :: "scoring_signal \<Rightarrow> string" where
  "SIGNAL_LABELS S_SEVERITY = ''Tool severity''"
| "SIGNAL_LABELS S_BUSINESS_CRITICALITY = ''Business criticality''"
| "SIGNAL_LABELS S_CVSS_EXPLOITABILITY = ''CVSS exploitability''"
| "SIGNAL_LABELS S_EPSS = ''EPSS''"
| "SIGNAL_LABELS S_KEV = ''CISA KEV''"
| "SIGNAL_LABELS S_INTERNET_EXPOSURE = ''Internet exposure''"
| "SIGNAL_LABELS S_FIXABILITY = ''Fixability''"
| "SIGNAL_LABELS S_DEPENDENCY_SCOPE = ''Dependency scope''"

datatype contribution_kind = CONTRIBUTION_MULTIPLIER | CONTRIBUTION_POINTS | CONTRIBUTION_FLOOR

fun SIGNAL_CONTRIBUTION :: "scoring_signal \<Rightarrow> contribution_kind" where
  "SIGNAL_CONTRIBUTION S_SEVERITY = CONTRIBUTION_MULTIPLIER"
| "SIGNAL_CONTRIBUTION S_BUSINESS_CRITICALITY = CONTRIBUTION_MULTIPLIER"
| "SIGNAL_CONTRIBUTION S_CVSS_EXPLOITABILITY = CONTRIBUTION_POINTS"
| "SIGNAL_CONTRIBUTION S_EPSS = CONTRIBUTION_POINTS"
| "SIGNAL_CONTRIBUTION S_KEV = CONTRIBUTION_FLOOR"
| "SIGNAL_CONTRIBUTION S_INTERNET_EXPOSURE = CONTRIBUTION_POINTS"
| "SIGNAL_CONTRIBUTION S_FIXABILITY = CONTRIBUTION_POINTS"
| "SIGNAL_CONTRIBUTION S_DEPENDENCY_SCOPE = CONTRIBUTION_POINTS"

fun SIGNAL_MAX_POINTS :: "scoring_signal \<Rightarrow> int option" where
  "SIGNAL_MAX_POINTS S_SEVERITY = None"
| "SIGNAL_MAX_POINTS S_BUSINESS_CRITICALITY = None"
| "SIGNAL_MAX_POINTS S_CVSS_EXPLOITABILITY = Some CVSS_EXPLOITABILITY_MAX_POINTS"
| "SIGNAL_MAX_POINTS S_EPSS = Some EPSS_BUMP"
| "SIGNAL_MAX_POINTS S_KEV = Some KEV_FLOOR"
| "SIGNAL_MAX_POINTS S_INTERNET_EXPOSURE = Some INTERNET_EXPOSURE_MAX_POINTS"
| "SIGNAL_MAX_POINTS S_FIXABILITY = Some FIXABILITY_POINTS"
| "SIGNAL_MAX_POINTS S_DEPENDENCY_SCOPE = Some DEPENDENCY_SCOPE_POINTS"

subsection \<open>Internet exposure\<close>

definition PUBLIC_LABELS :: "string list" where
  "PUBLIC_LABELS =
     [''public'', ''external'', ''internet'', ''internet-facing'', ''edge'', ''dmz'']"
definition PRIVATE_LABELS :: "string list" where
  "PRIVATE_LABELS = [''internal'', ''private'', ''intranet'']"
definition PRODUCTION_VALUES :: "string list" where
  "PRODUCTION_VALUES = [''prod'', ''production'', ''live'']"
definition NON_PRODUCTION_VALUES :: "string list" where
  "NON_PRODUCTION_VALUES =
     [''dev'', ''development'', ''staging'', ''stage'', ''test'', ''testing'', ''qa'',
      ''sandbox'', ''local'']"

lemmas recognition_sets =
  PUBLIC_LABELS_def PRIVATE_LABELS_def PRODUCTION_VALUES_def NON_PRODUCTION_VALUES_def

datatype exposure_source =
    LabelledAndRuns string string
  | RunsIn string
  | LabelWinsOver string string
  | Labelled string

datatype exposure_detail =
    InternetFacing string
  | NotInternetFacing string
  | NotInternetFacingOver string string
  | ProductionOnly exposure_source
  | RecordedAs string
  | NotEstablished string
  | NothingRecorded

record exposure_signal =
  factor :: rat
  exposure_established :: bool
  exposure_detail :: exposure_detail

definition resolve_exposure :: "string option \<Rightarrow> string option \<Rightarrow> exposure_signal" where
  "resolve_exposure label environment =
     (let raw_label = str_strip (case label of None \<Rightarrow> [] | Some l \<Rightarrow> l);
          raw_env = str_strip (case environment of None \<Rightarrow> [] | Some e \<Rightarrow> e);
          lowered_label = str_lower raw_label;
          lowered_env = str_lower raw_env;
          env_is_production = (lowered_env \<in> set PRODUCTION_VALUES);
          label_is_production = (lowered_label \<in> set PRODUCTION_VALUES);
          recorded = join '' / '' (filter (\<lambda>p. p \<noteq> []) [raw_label, raw_env]) in
      if lowered_label \<in> set PUBLIC_LABELS then
        \<lparr>factor = 1, exposure_established = True, exposure_detail = InternetFacing raw_label\<rparr>
      else if lowered_label \<in> set PRIVATE_LABELS then
        \<lparr>factor = 0, exposure_established = True,
         exposure_detail =
           (if lowered_env \<in> set PRODUCTION_VALUES then NotInternetFacingOver raw_label raw_env
            else NotInternetFacing raw_label)\<rparr>
      else if env_is_production \<or> label_is_production then
        \<lparr>factor = PRODUCTION_EXPOSURE_FACTOR, exposure_established = True,
         exposure_detail = ProductionOnly
           (if env_is_production \<and> label_is_production then LabelledAndRuns raw_label raw_env
            else if env_is_production then RunsIn raw_env
            else if lowered_env \<in> set NON_PRODUCTION_VALUES then LabelWinsOver raw_label raw_env
            else Labelled raw_label)\<rparr>
      else if lowered_env \<in> set NON_PRODUCTION_VALUES then
        \<lparr>factor = 0, exposure_established = True, exposure_detail = RecordedAs recorded\<rparr>
      else if raw_label \<noteq> [] \<or> raw_env \<noteq> [] then
        \<lparr>factor = 0, exposure_established = False, exposure_detail = NotEstablished recorded\<rparr>
      else
        \<lparr>factor = 0, exposure_established = False, exposure_detail = NothingRecorded\<rparr>)"

lemma exposure_factor_range:
  "0 \<le> factor (resolve_exposure l e) \<and> factor (resolve_exposure l e) \<le> 1"
  by (simp add: resolve_exposure_def Let_def calibration)

lemma exposure_unestablished_zero:
  "\<not> exposure_established (resolve_exposure l e) \<Longrightarrow> factor (resolve_exposure l e) = 0"
  by (auto simp: resolve_exposure_def Let_def split: if_splits)

lemma exposure_nothing_recorded: "factor (resolve_exposure None None) = 0"
  by (simp add: resolve_exposure_def recognition_sets str_strip_def str_lower_def)

subsection \<open>Weights\<close>

text \<open>A stored weight as \<open>float(value)\<close> and \<open>isfinite\<close> see it, and a key of the
  overrides, which may name no known signal.\<close>

datatype raw_weight = NotANumber | NaN | PosInf | NegInf | Finite rat

datatype signal_key = Known scoring_signal | Unrecognised string

definition apply_override :: "signal_key \<times> raw_weight \<Rightarrow> weights \<Rightarrow> weights" where
  "apply_override = (\<lambda>(key, v) w.
     case key of
       Unrecognised _ \<Rightarrow> w
     | Known s \<Rightarrow>
         (case v of
            Finite x \<Rightarrow> w(s := min MAX_WEIGHT (max MIN_WEIGHT x))
          | _ \<Rightarrow> w))"

definition resolve_weights :: "(signal_key \<times> raw_weight) list \<Rightarrow> weights" where
  "resolve_weights overrides = fold apply_override overrides BASELINE_WEIGHTS"

definition weights_ok :: "weights \<Rightarrow> bool" where
  "weights_ok w \<longleftrightarrow> (\<forall>s. MIN_WEIGHT \<le> w s \<and> w s \<le> MAX_WEIGHT)"

lemma weights_ok_nonneg: "weights_ok w \<Longrightarrow> 0 \<le> w s"
  by (simp add: weights_ok_def calibration)

lemma baseline_weights_ok: "weights_ok BASELINE_WEIGHTS"
  unfolding weights_ok_def
proof
  fix s show "MIN_WEIGHT \<le> BASELINE_WEIGHTS s \<and> BASELINE_WEIGHTS s \<le> MAX_WEIGHT"
    by (cases s) (simp_all add: calibration)
qed

lemma apply_override_ok: "weights_ok w \<Longrightarrow> weights_ok (apply_override o' w)"
  by (auto simp: apply_override_def weights_ok_def calibration split: prod.split signal_key.split raw_weight.split)

lemma resolve_weights_ok: "weights_ok (resolve_weights overrides)"
proof -
  have "weights_ok w \<Longrightarrow> weights_ok (fold apply_override os w)" for os w
    by (induction os arbitrary: w) (simp_all add: apply_override_ok)
  then show ?thesis by (simp add: resolve_weights_def baseline_weights_ok)
qed

text \<open>The effective weights as overrides of their own: what
  \<open>compute_score_breakdown\<close> resolves a second time.\<close>

definition all_signals :: "scoring_signal list" where
  "all_signals = [S_SEVERITY, S_CVSS_EXPLOITABILITY, S_EPSS, S_KEV, S_INTERNET_EXPOSURE,
     S_BUSINESS_CRITICALITY, S_FIXABILITY, S_DEPENDENCY_SCOPE]"

definition as_overrides :: "weights \<Rightarrow> (signal_key \<times> raw_weight) list" where
  "as_overrides w = map (\<lambda>s. (Known s, Finite (w s))) all_signals"

lemma all_signals_complete: "s \<in> set all_signals"
  by (cases s) (simp_all add: all_signals_def)

lemma resolve_effective: "weights_ok w \<Longrightarrow> resolve_weights (as_overrides w) = w"
proof
  fix s assume "weights_ok w"
  then have "min MAX_WEIGHT (max MIN_WEIGHT (w s)) = w s" for s
    by (simp add: weights_ok_def)
  then show "resolve_weights (as_overrides w) s = w s"
    by (cases s) (simp_all add: resolve_weights_def as_overrides_def all_signals_def apply_override_def)
qed

end
