(* ===== verification/Breakdown.thy ===== *)
theory Breakdown
  imports Scoring
begin

text \<open>
  \<open>compute_score_breakdown\<close> and \<open>compute_priority_score\<close> of
  \<open>backend/app/core/scoring.py\<close>.  The local variables \<open>score\<close> and \<open>capped\<close> are the
  record \<open>tally\<close>; every section of the function maps a tally to the next one and the
  contribution it appends.
\<close>

subsection \<open>Breakdown types\<close>

datatype detail =
    SeverityDetail string int
  | CriticalityDetail int "string list"
  | KevRaisesTo int | KevAlreadyAbove | KevNotPresent
  | EpssUnresolved | EpssSuperseded rat | EpssExceeds rat | EpssBelow rat
  | CvssV2NotComparable "string option" string | CvssNotComparable "string option" string
  | CvssNotEnriched string | CvssNoCve | CvssDecoded "string option" string rat
  | ScopeUnrecorded | ScopeRuntime | ScopeDevelopment
  | ExposureDetail exposure_detail
  | FixAvailable | FixNotPublished | FixNotEnriched string | FixNoAdvisory

record signal_contribution =
  c_signal :: scoring_signal
  c_label :: string
  c_weight :: rat
  c_points :: int
  c_established :: bool
  c_detail :: detail

record score_breakdown =
  b_score :: int
  b_base_points :: int
  b_contributions :: "signal_contribution list"
  b_capped :: bool

definition contribution :: "score_breakdown \<Rightarrow> scoring_signal \<Rightarrow> signal_contribution option" where
  "contribution b s = List.find (\<lambda>c. c_signal c = s) (b_contributions b)"

record tally =
  score :: int
  capped :: bool

definition mk_contribution ::
  "weights \<Rightarrow> scoring_signal \<Rightarrow> int \<Rightarrow> bool \<Rightarrow> detail \<Rightarrow> signal_contribution" where
  "mk_contribution w s points est det =
     \<lparr>c_signal = s, c_label = SIGNAL_LABELS s, c_weight = w s, c_points = points,
      c_established = est, c_detail = det\<rparr>"

subsection \<open>The sections of \<open>compute_score_breakdown\<close>\<close>

definition clamped_criticality :: "int \<Rightarrow> int" where
  "clamped_criticality c = max 1 (min 5 c)"

definition effective_severity :: "weights \<Rightarrow> severity \<Rightarrow> rat" where
  "effective_severity w sev = 1 + of_int (SEVERITY_WEIGHT sev - 1) * w S_SEVERITY"

definition effective_criticality :: "weights \<Rightarrow> int \<Rightarrow> rat" where
  "effective_criticality w c =
     1 + of_int (clamped_criticality c - 1) * w S_BUSINESS_CRITICALITY"

definition after_severity :: "weights \<Rightarrow> severity \<Rightarrow> int" where
  "after_severity w sev = py_round (of_int BASE_UNIT * effective_severity w sev)"

definition after_criticality :: "weights \<Rightarrow> severity \<Rightarrow> int \<Rightarrow> int" where
  "after_criticality w sev c =
     py_round (of_int BASE_UNIT * effective_severity w sev * effective_criticality w c)"

definition criticality_context ::
  "string option \<Rightarrow> string option \<Rightarrow> string option \<Rightarrow> string list" where
  "criticality_context owner environment label =
     concat (map (\<lambda>(name, v). case v of None \<Rightarrow> [] | Some s \<Rightarrow>
                    (if s = [] then [] else [name @ '': '' @ s]))
        [(''owner'', owner), (''environment'', environment), (''label'', label)])"

definition base_section ::
  "weights \<Rightarrow> severity \<Rightarrow> int \<Rightarrow> string list \<Rightarrow> tally \<times> signal_contribution list" where
  "base_section w sev c context =
     (let running = after_criticality w sev c in
      (\<lparr>score = min MAX_SCORE running, capped = (running > MAX_SCORE)\<rparr>,
       [mk_contribution w S_SEVERITY (after_severity w sev - BASE_UNIT) True
          (SeverityDetail (severity_value sev) (SEVERITY_WEIGHT sev)),
        mk_contribution w S_BUSINESS_CRITICALITY (running - after_severity w sev) True
          (CriticalityDetail (clamped_criticality c) context)]))"

definition kev_section :: "weights \<Rightarrow> bool \<Rightarrow> tally \<Rightarrow> tally \<times> signal_contribution" where
  "kev_section w kev_listed t =
     (if kev_listed then
        (let floor = min MAX_SCORE (py_round (of_int KEV_FLOOR * w S_KEV));
             raised = max (score t) floor;
             kev_points = raised - score t in
         (t\<lparr>score := raised\<rparr>,
          mk_contribution w S_KEV kev_points True
            (if kev_points \<noteq> 0 then KevRaisesTo floor else KevAlreadyAbove)))
      else (t, mk_contribution w S_KEV 0 False KevNotPresent))"

definition epss_section ::
  "weights \<Rightarrow> bool \<Rightarrow> rat option \<Rightarrow> tally \<Rightarrow> tally \<times> signal_contribution" where
  "epss_section w kev_listed epss_score t =
     (case epss_score of
        None \<Rightarrow> (t, mk_contribution w S_EPSS 0 False EpssUnresolved)
      | Some p \<Rightarrow>
          (if kev_listed then (t, mk_contribution w S_EPSS 0 True (EpssSuperseded p))
           else if p > EPSS_NOTABLE_THRESHOLD then
             (let bump = py_round (of_int EPSS_BUMP * w S_EPSS);
                  raised = min MAX_SCORE (score t + bump) in
              (\<lparr>score = raised, capped = (capped t \<or> score t + bump > MAX_SCORE)\<rparr>,
               mk_contribution w S_EPSS (raised - score t) True (EpssExceeds p)))
           else (t, mk_contribution w S_EPSS 0 True (EpssBelow p))))"

text \<open>The closure \<open>_add\<close>: the points actually added under the cap.\<close>

definition add_points :: "int \<Rightarrow> tally \<Rightarrow> tally \<times> int" where
  "add_points points t =
     (let raised = min MAX_SCORE (score t + points);
          actual = raised - score t in
      (\<lparr>score = raised, capped = (capped t \<or> points > actual)\<rparr>, actual))"

text \<open>Why the CVSS signal is unknown, when it is.\<close>

definition cvss_unknown_detail :: "cvss_decomposition option \<Rightarrow> string option \<Rightarrow> detail" where
  "cvss_unknown_detail cvss cve_id =
     (case cvss of
        Some d \<Rightarrow>
          (if \<not> is_unknown d then
             (if version d = Some ''2.0'' then CvssV2NotComparable (version d) (describe d)
              else CvssNotComparable (version d) (describe d))
           else (case cve_id of None \<Rightarrow> CvssNoCve
                 | Some i \<Rightarrow> (if i = [] then CvssNoCve else CvssNotEnriched i)))
      | None \<Rightarrow> (case cve_id of None \<Rightarrow> CvssNoCve
                 | Some i \<Rightarrow> (if i = [] then CvssNoCve else CvssNotEnriched i)))"

definition cvss_known_detail :: "cvss_decomposition option \<Rightarrow> rat \<Rightarrow> detail" where
  "cvss_known_detail cvss x =
     (case cvss of None \<Rightarrow> CvssNoCve | Some d \<Rightarrow> CvssDecoded (version d) (describe d) x)"

definition cvss_scored_section ::
  "weights \<Rightarrow> rat option \<Rightarrow> cvss_decomposition option \<Rightarrow> string option \<Rightarrow> tally
     \<Rightarrow> tally \<times> signal_contribution" where
  "cvss_scored_section w expl cvss cve_id t =
     (case expl of
        None \<Rightarrow> (t, mk_contribution w S_CVSS_EXPLOITABILITY 0 False (cvss_unknown_detail cvss cve_id))
      | Some x \<Rightarrow>
          (let (t', pts) = add_points
                 (py_round (of_int CVSS_EXPLOITABILITY_MAX_POINTS * w S_CVSS_EXPLOITABILITY * x)) t
           in (t', mk_contribution w S_CVSS_EXPLOITABILITY pts True (cvss_known_detail cvss x))))"

definition cvss_section ::
  "weights \<Rightarrow> cvss_decomposition option \<Rightarrow> string option \<Rightarrow> tally
     \<Rightarrow> cvss_error + tally \<times> signal_contribution" where
  "cvss_section w cvss cve_id t =
     (case (case cvss of None \<Rightarrow> Inr None | Some d \<Rightarrow> exploitability d) of
        Inl e \<Rightarrow> Inl e
      | Inr expl \<Rightarrow> Inr (cvss_scored_section w expl cvss cve_id t))"

definition scope_section :: "weights \<Rightarrow> string option \<Rightarrow> tally \<Rightarrow> tally \<times> signal_contribution" where
  "scope_section w dependency_scope t =
     (if dependency_scope = Some ''runtime'' then
        (let (t', pts) = add_points
               (py_round (of_int DEPENDENCY_SCOPE_POINTS * w S_DEPENDENCY_SCOPE)) t
         in (t', mk_contribution w S_DEPENDENCY_SCOPE pts True ScopeRuntime))
      else if dependency_scope = Some ''development'' then
        (t, mk_contribution w S_DEPENDENCY_SCOPE 0 True ScopeDevelopment)
      else (t, mk_contribution w S_DEPENDENCY_SCOPE 0 False ScopeUnrecorded))"

definition exposure_section ::
  "weights \<Rightarrow> string option \<Rightarrow> string option \<Rightarrow> tally \<Rightarrow> tally \<times> signal_contribution" where
  "exposure_section w target_label target_environment t =
     (let exposure = resolve_exposure target_label target_environment;
          (t', pts) = add_points
            (py_round (of_int INTERNET_EXPOSURE_MAX_POINTS * w S_INTERNET_EXPOSURE * factor exposure)) t
      in (t', mk_contribution w S_INTERNET_EXPOSURE pts (exposure_established exposure)
                (ExposureDetail (exposure_detail exposure))))"

definition fixability_section ::
  "weights \<Rightarrow> string option \<Rightarrow> string option \<Rightarrow> tally \<Rightarrow> tally \<times> signal_contribution" where
  "fixability_section w fixability cve_id t =
     (if fixability = Some ''fixable'' then
        (let (t', pts) = add_points (py_round (of_int FIXABILITY_POINTS * w S_FIXABILITY)) t
         in (t', mk_contribution w S_FIXABILITY pts True FixAvailable))
      else if fixability = Some ''no_known_fix'' then
        (t, mk_contribution w S_FIXABILITY 0 True FixNotPublished)
      else
        (t, mk_contribution w S_FIXABILITY 0 False
              (case cve_id of None \<Rightarrow> FixNoAdvisory
               | Some i \<Rightarrow> (if i = [] then FixNoAdvisory else FixNotEnriched i))))"

text \<open>The keyword arguments after \<open>kev_listed\<close>.\<close>

record signals =
  sg_epss_score :: "rat option"
  sg_kev_listed :: bool
  sg_cvss :: "cvss_decomposition option"
  sg_cve_id :: "string option"
  sg_target_label :: "string option"
  sg_target_environment :: "string option"
  sg_target_owner :: "string option"
  sg_fixability :: "string option"
  sg_dependency_scope :: "string option"

text \<open>The sections after CVSS, in the source's order.\<close>

definition late_sections ::
  "weights \<Rightarrow> signals \<Rightarrow> tally \<Rightarrow> tally \<times> signal_contribution list" where
  "late_sections w sg t =
     (let (t1, c1) = scope_section w (sg_dependency_scope sg) t;
          (t2, c2) = exposure_section w (sg_target_label sg) (sg_target_environment sg) t1;
          (t3, c3) = fixability_section w (sg_fixability sg) (sg_cve_id sg) t2
      in (t3, [c1, c2, c3]))"

definition early_sections ::
  "weights \<Rightarrow> severity \<Rightarrow> int \<Rightarrow> signals \<Rightarrow> tally \<times> signal_contribution list" where
  "early_sections w sev c sg =
     (let (t1, cs) = base_section w sev c
            (criticality_context (sg_target_owner sg) (sg_target_environment sg) (sg_target_label sg));
          (t2, c2) = kev_section w (sg_kev_listed sg) t1;
          (t3, c3) = epss_section w (sg_kev_listed sg) (sg_epss_score sg) t2
      in (t3, cs @ [c2, c3]))"

definition compute_score_breakdown ::
  "severity \<Rightarrow> int \<Rightarrow> signals \<Rightarrow> (signal_key \<times> raw_weight) list \<Rightarrow> cvss_error + score_breakdown" where
  "compute_score_breakdown sev c sg overrides =
     (let w = resolve_weights overrides;
          (t1, cs1) = early_sections w sev c sg in
      case cvss_section w (sg_cvss sg) (sg_cve_id sg) t1 of
        Inl e \<Rightarrow> Inl e
      | Inr (t2, c2) \<Rightarrow>
          (let (t3, cs3) = late_sections w sg t2 in
           Inr \<lparr>b_score = score t3, b_base_points = BASE_UNIT,
                b_contributions = cs1 @ c2 # cs3, b_capped = capped t3\<rparr>))"

definition compute_priority_score ::
  "severity \<Rightarrow> int \<Rightarrow> signals \<Rightarrow> (signal_key \<times> raw_weight) list \<Rightarrow> cvss_error + int" where
  "compute_priority_score sev c sg overrides =
     (case compute_score_breakdown sev c sg overrides of Inl e \<Rightarrow> Inl e | Inr b \<Rightarrow> Inr (b_score b))"

end
