(* ===== verification/ScoreAccount.thy ===== *)
theory ScoreAccount
  imports Breakdown
begin

text \<open>
  The contract every additive section of the scoring engine honours, as a locale over an
  arbitrary section; its interpretations on the model's sections, and what the engine
  promises about the whole breakdown: the parts add up, nothing subtracts, and a signal
  that was not established never costs a finding anything.
\<close>

definition points_of :: "signal_contribution list \<Rightarrow> int" where
  "points_of cs = sum_list (map c_points cs)"

lemma points_of_simps [simp]:
  "points_of [] = 0"
  "points_of (c # cs) = c_points c + points_of cs"
  "points_of (cs @ ds) = points_of cs + points_of ds"
  by (simp_all add: points_of_def)

lemma mk_contribution_sel [simp]:
  "c_points (mk_contribution w s p e d) = p"
  "c_signal (mk_contribution w s p e d) = s"
  "c_established (mk_contribution w s p e d) = e"
  by (simp_all add: mk_contribution_def)

definition single :: "(tally \<Rightarrow> tally \<times> signal_contribution) \<Rightarrow> tally \<Rightarrow> tally \<times> signal_contribution list" where
  "single f t = (fst (f t), [snd (f t)])"

definition seq_sections ::
  "(tally \<Rightarrow> tally \<times> signal_contribution list) \<Rightarrow> (tally \<Rightarrow> tally \<times> signal_contribution list)
     \<Rightarrow> tally \<Rightarrow> tally \<times> signal_contribution list" where
  "seq_sections f g t =
     (fst (g (fst (f t))), snd (f t) @ snd (g (fst (f t))))"

text \<open>What one section may do to the running score.\<close>

locale scoring_section =
  fixes run :: "tally \<Rightarrow> tally \<times> signal_contribution list"
  assumes within_max: "score t \<le> MAX_SCORE \<Longrightarrow> score (fst (run t)) \<le> MAX_SCORE"
    and accounted: "points_of (snd (run t)) = score (fst (run t)) - score t"
    and nonneg: "score t \<le> MAX_SCORE \<Longrightarrow> c \<in> set (snd (run t)) \<Longrightarrow> 0 \<le> c_points c"
    and monotone: "score t \<le> score u \<Longrightarrow> score (fst (run t)) \<le> score (fst (run u))"
    and cap_sticks: "capped t \<Longrightarrow> capped (fst (run t))"
    and cap_means_full:
      "score t \<le> MAX_SCORE \<Longrightarrow> capped (fst (run t)) \<Longrightarrow> \<not> capped t \<Longrightarrow> score (fst (run t)) = MAX_SCORE"
begin

lemma never_subtracts:
  assumes "score t \<le> MAX_SCORE"
  shows "score t \<le> score (fst (run t))"
proof -
  have "0 \<le> points_of (snd (run t))"
    unfolding points_of_def by (rule sum_list_nonneg) (use nonneg [OF assms] in auto)
  then show ?thesis using accounted by simp
qed

lemma full_stays_full:
  "score t = MAX_SCORE \<Longrightarrow> score (fst (run t)) = MAX_SCORE"
  using within_max [of t] never_subtracts [of t] by simp

end

locale two_sections = first: scoring_section f + second: scoring_section g
  for f g :: "tally \<Rightarrow> tally \<times> signal_contribution list"

sublocale two_sections \<subseteq> both: scoring_section "seq_sections f g"
proof (unfold_locales, goal_cases)
  case (1 t)
  then show ?case by (simp add: seq_sections_def first.within_max second.within_max)
next
  case (2 t)
  show ?case by (simp add: seq_sections_def first.accounted second.accounted)
next
  case (3 t c)
  then show ?case
    by (auto simp: seq_sections_def intro: first.nonneg second.nonneg first.within_max)
next
  case (4 t u)
  then show ?case by (simp add: seq_sections_def first.monotone second.monotone)
next
  case (5 t)
  then show ?case by (simp add: seq_sections_def first.cap_sticks second.cap_sticks)
next
  case (6 t)
  then have g: "score (fst (f t)) \<le> MAX_SCORE" "capped (fst (g (fst (f t))))"
    by (simp_all add: seq_sections_def first.within_max)
  show ?case
  proof (cases "capped (fst (f t))")
    case True
    with 6 have "score (fst (f t)) = MAX_SCORE" by (simp add: first.cap_means_full)
    then show ?thesis by (simp add: seq_sections_def second.full_stays_full)
  next
    case False
    with g show ?thesis by (simp add: seq_sections_def second.cap_means_full)
  qed
qed

context two_sections
begin

lemma contract: "scoring_section (seq_sections f g)"
  by (rule both.scoring_section_axioms)

end

lemma seq_sections_contract:
  "scoring_section f \<Longrightarrow> scoring_section g \<Longrightarrow> scoring_section (seq_sections f g)"
  by (simp add: two_sections.contract two_sections.intro)

subsection \<open>The model's sections honour the contract\<close>

lemma add_points_sel:
  "score (fst (add_points p t)) = min MAX_SCORE (score t + p)"
  "snd (add_points p t) = min MAX_SCORE (score t + p) - score t"
  "capped (fst (add_points p t)) \<longleftrightarrow> capped t \<or> MAX_SCORE < score t + p"
  by (auto simp: add_points_def Let_def)

lemma scaled_points_nonneg:
  "weights_ok w \<Longrightarrow> 0 \<le> k \<Longrightarrow> 0 \<le> x \<Longrightarrow> 0 \<le> py_round (of_int k * w s * x)"
  by (intro py_round_nonneg mult_nonneg_nonneg) (simp_all add: weights_ok_nonneg)

lemma weighted_points_nonneg:
  "weights_ok w \<Longrightarrow> 0 \<le> k \<Longrightarrow> 0 \<le> py_round (of_int k * w s)"
  using scaled_points_nonneg [of w k 1 s] by simp

lemma additive_section:
  assumes "0 \<le> p"
    and "\<And>t. run t = (fst (add_points p t), [mk_contribution w s (snd (add_points p t)) e d])"
  shows "scoring_section run"
  using assms(1) unfolding scoring_section_def assms(2) by (auto simp: add_points_sel)

lemma silent_section:
  assumes "\<And>t. run t = (t, [mk_contribution w s 0 e d])"
  shows "scoring_section run"
  unfolding scoring_section_def assms by simp

lemma kev_section_contract:
  "scoring_section (single (kev_section w listed))"
  unfolding scoring_section_def by (auto simp: single_def kev_section_def Let_def calibration)

lemma epss_section_contract:
  assumes "weights_ok w"
  shows "scoring_section (single (epss_section w listed p))"
proof -
  have "0 \<le> py_round (of_int EPSS_BUMP * w S_EPSS)"
    using assms by (intro weighted_points_nonneg) (simp_all add: calibration)
  then show ?thesis
    unfolding scoring_section_def
    by (auto simp: single_def epss_section_def Let_def split: option.split)
qed

lemma cvss_scored_section_contract:
  assumes "weights_ok w" and "\<And>x. expl = Some x \<Longrightarrow> 0 \<le> x"
  shows "scoring_section (single (cvss_scored_section w expl cvss cve_id))"
proof (cases expl)
  case None
  then show ?thesis
    by (intro silent_section) (simp add: single_def cvss_scored_section_def)
next
  case (Some x)
  have "0 \<le> py_round (of_int CVSS_EXPLOITABILITY_MAX_POINTS * w S_CVSS_EXPLOITABILITY * x)"
    using assms Some by (intro scaled_points_nonneg) (simp_all add: calibration)
  with Some show ?thesis
    by (intro additive_section) (simp_all add: single_def cvss_scored_section_def split_beta)
qed

lemma scope_section_contract:
  assumes "weights_ok w"
  shows "scoring_section (single (scope_section w scope))"
proof -
  have p: "0 \<le> py_round (of_int DEPENDENCY_SCOPE_POINTS * w S_DEPENDENCY_SCOPE)"
    using assms by (intro weighted_points_nonneg) (simp_all add: calibration)
  consider "scope = Some ''runtime''" | "scope = Some ''development''"
    | "scope \<noteq> Some ''runtime''" "scope \<noteq> Some ''development''" by blast
  then show ?thesis
  proof cases
    case 1
    then show ?thesis
      by (intro additive_section [OF p]) (simp add: single_def scope_section_def split_beta)
  qed (rule silent_section, simp add: single_def scope_section_def)+
qed

lemma exposure_section_contract:
  assumes "weights_ok w"
  shows "scoring_section (single (exposure_section w label env))"
proof -
  have "0 \<le> py_round (of_int INTERNET_EXPOSURE_MAX_POINTS * w S_INTERNET_EXPOSURE *
                        factor (resolve_exposure label env))"
    using assms exposure_factor_range by (intro scaled_points_nonneg) (simp_all add: calibration)
  then show ?thesis
    by (rule additive_section) (simp add: single_def exposure_section_def Let_def split_beta)
qed

lemma fixability_section_contract:
  assumes "weights_ok w"
  shows "scoring_section (single (fixability_section w fixability cve_id))"
proof -
  have p: "0 \<le> py_round (of_int FIXABILITY_POINTS * w S_FIXABILITY)"
    using assms by (intro weighted_points_nonneg) (simp_all add: calibration)
  consider "fixability = Some ''fixable''" | "fixability = Some ''no_known_fix''"
    | "fixability \<noteq> Some ''fixable''" "fixability \<noteq> Some ''no_known_fix''" by blast
  then show ?thesis
  proof cases
    case 1
    then show ?thesis
      by (intro additive_section [OF p]) (simp add: single_def fixability_section_def split_beta)
  qed (rule silent_section, simp add: single_def fixability_section_def)+
qed


subsection \<open>The whole breakdown as a base and a tail of sections\<close>

definition sub_score :: "cvss_decomposition option \<Rightarrow> rat option" where
  "sub_score cvss =
     (case cvss of None \<Rightarrow> None
      | Some d \<Rightarrow> (case exploitability d of Inl _ \<Rightarrow> None | Inr x \<Rightarrow> x))"

definition tail_sections :: "weights \<Rightarrow> signals \<Rightarrow> tally \<Rightarrow> tally \<times> signal_contribution list" where
  "tail_sections w sg =
     seq_sections
       (seq_sections (single (kev_section w (sg_kev_listed sg)))
                     (single (epss_section w (sg_kev_listed sg) (sg_epss_score sg))))
       (seq_sections
         (single (cvss_scored_section w (sub_score (sg_cvss sg)) (sg_cvss sg) (sg_cve_id sg)))
         (seq_sections (single (scope_section w (sg_dependency_scope sg)))
            (seq_sections
              (single (exposure_section w (sg_target_label sg) (sg_target_environment sg)))
              (single (fixability_section w (sg_fixability sg) (sg_cve_id sg))))))"

lemma sub_score_nonneg: "sub_score cvss = Some x \<Longrightarrow> 0 \<le> x"
  using exploitability_range(1) by (fastforce simp: sub_score_def split: option.splits sum.splits)

interpretation observed: two_sections
  "single (kev_section (resolve_weights ovr) listed)"
  "single (epss_section (resolve_weights ovr) listed p)" for ovr listed p
  unfolding two_sections_def
  by (simp add: kev_section_contract epss_section_contract resolve_weights_ok)

interpretation placement: two_sections
  "single (exposure_section (resolve_weights ovr) label env)"
  "single (fixability_section (resolve_weights ovr) fx cve_id)" for ovr label env fx cve_id
  unfolding two_sections_def
  by (simp add: exposure_section_contract fixability_section_contract resolve_weights_ok)

interpretation shipped: two_sections
  "single (scope_section (resolve_weights ovr) scope)"
  "seq_sections (single (exposure_section (resolve_weights ovr) label env))
     (single (fixability_section (resolve_weights ovr) fx cve_id))" for ovr scope label env fx cve_id
  unfolding two_sections_def
  by (simp add: scope_section_contract resolve_weights_ok placement.both.scoring_section_axioms)

interpretation additive: two_sections
  "single (cvss_scored_section (resolve_weights ovr) (sub_score cvss) cvss cve_id)"
  "seq_sections (single (scope_section (resolve_weights ovr) scope))
     (seq_sections (single (exposure_section (resolve_weights ovr) label env))
       (single (fixability_section (resolve_weights ovr) fx cve_id)))"
  for ovr cvss scope label env fx cve_id
  unfolding two_sections_def
  by (simp add: cvss_scored_section_contract sub_score_nonneg resolve_weights_ok
      shipped.both.scoring_section_axioms)

interpretation tail: scoring_section "tail_sections (resolve_weights ovr) sg" for ovr sg
  unfolding tail_sections_def
  by (rule seq_sections_contract)
    (rule observed.both.scoring_section_axioms additive.both.scoring_section_axioms)+

end
