(* ===== verification/ScoreProps.thy ===== *)
theory ScoreProps
  imports ScoreAccount
begin

text \<open>
  What the scoring engine promises, stated over \<open>compute_score_breakdown\<close>: the account
  adds up, nothing subtracts, an unknown signal is never punished, and an unconfigured
  install scores by the documented formula.
\<close>

lemma score_breakdown_cases:
  assumes "compute_score_breakdown sev c sg ovr = Inr b"
  obtains t1 cs t2 cs' where
    "(t1, cs) = base_section (resolve_weights ovr) sev c
       (criticality_context (sg_target_owner sg) (sg_target_environment sg) (sg_target_label sg))"
    and "(t2, cs') = tail_sections (resolve_weights ovr) sg t1"
    and "b = \<lparr>b_score = score t2, b_base_points = BASE_UNIT,
              b_contributions = cs @ cs', b_capped = capped t2\<rparr>"
proof -
  let ?w = "resolve_weights ovr"
  obtain t1 cs where base: "base_section ?w sev c
      (criticality_context (sg_target_owner sg) (sg_target_environment sg) (sg_target_label sg)) = (t1, cs)"
    by fastforce
  have "\<exists>expl. (case sg_cvss sg of None \<Rightarrow> Inr None | Some d \<Rightarrow> exploitability d) = Inr expl
               \<and> expl = sub_score (sg_cvss sg)"
    using assms
    by (auto simp: compute_score_breakdown_def cvss_section_def sub_score_def Let_def split_beta
        split: option.splits sum.splits)
  then have "b = \<lparr>b_score = score (fst (tail_sections ?w sg t1)), b_base_points = BASE_UNIT,
      b_contributions = cs @ snd (tail_sections ?w sg t1), b_capped = capped (fst (tail_sections ?w sg t1))\<rparr>"
    using assms base
    by (auto simp: compute_score_breakdown_def cvss_section_def early_sections_def late_sections_def
        tail_sections_def seq_sections_def single_def Let_def split_beta)
  with base show thesis using that [of t1 cs] by (metis prod.collapse)
qed

lemma score_breakdown_defined:
  assumes "\<And>d. sg_cvss sg = Some d \<Longrightarrow> well_formed d"
  shows "\<exists>b. compute_score_breakdown sev c sg ovr = Inr b"
proof (cases "sg_cvss sg")
  case None
  then show ?thesis
    by (simp add: compute_score_breakdown_def cvss_section_def Let_def split_beta)
next
  case (Some d)
  from assms [OF Some] obtain x where "exploitability d = Inr x"
    by (rule exploitability_well_formed) auto
  with Some show ?thesis
    by (simp add: compute_score_breakdown_def cvss_section_def Let_def split_beta)
qed

subsection \<open>The base section\<close>

lemma clamped_criticality_range: "1 \<le> clamped_criticality c \<and> clamped_criticality c \<le> 5"
  by (simp add: clamped_criticality_def)

lemma effective_factors:
  assumes "weights_ok w"
  shows "1 \<le> effective_severity w sev" and "1 \<le> effective_criticality w c"
  using assms severity_weight_range [of sev] clamped_criticality_range [of c]
  by (simp_all add: effective_severity_def effective_criticality_def weights_ok_nonneg)

lemma base_points_nonneg:
  assumes "weights_ok w"
  shows "BASE_UNIT \<le> after_severity w sev" and "after_severity w sev \<le> after_criticality w sev c"
proof -
  note e = effective_factors [OF assms]
  show "BASE_UNIT \<le> after_severity w sev"
    unfolding after_severity_def
    by (rule py_round_ge_int) (use e(1) in \<open>simp add: calibration\<close>)
  have "of_int BASE_UNIT * effective_severity w sev * 1
          \<le> of_int BASE_UNIT * effective_severity w sev * effective_criticality w c"
    using e by (intro mult_left_mono) (simp_all add: calibration order_trans [OF _ e(1)])
  then show "after_severity w sev \<le> after_criticality w sev c"
    unfolding after_severity_def after_criticality_def by (intro py_round_mono) simp
qed

lemma base_section_sel:
  assumes "(t1, cs) = base_section w sev c ctx"
  shows "score t1 = min MAX_SCORE (after_criticality w sev c)"
    and "capped t1 \<longleftrightarrow> MAX_SCORE < after_criticality w sev c"
    and "BASE_UNIT + points_of cs = after_criticality w sev c"
    and "weights_ok w \<Longrightarrow> x \<in> set cs \<Longrightarrow> 0 \<le> c_points x"
  using assms base_points_nonneg [of w]
  by (auto simp: base_section_def Let_def)

lemma base_score_nonneg:
  assumes "weights_ok w"
  shows "BASE_UNIT \<le> after_criticality w sev c"
  using base_points_nonneg [OF assms] order_trans by blast

subsection \<open>The account\<close>

text \<open>C18: The displayed parts add up to the displayed score.  Whatever the configured
  weights (corrupt rows included), the base points plus the points of all eight
  contributions equal the score unless the breakdown is flagged as capped; a capped one
  has the maximal score and its parts come to at least that.\<close>

theorem breakdown_adds_up:
  assumes "compute_score_breakdown sev c sg ovr = Inr b"
  shows "if b_capped b
         then b_score b = MAX_SCORE \<and> MAX_SCORE \<le> b_base_points b + points_of (b_contributions b)
         else b_base_points b + points_of (b_contributions b) = b_score b"
proof -
  from assms obtain t1 cs t2 cs' where
    base: "(t1, cs) = base_section (resolve_weights ovr) sev c
       (criticality_context (sg_target_owner sg) (sg_target_environment sg) (sg_target_label sg))"
    and t: "(t2, cs') = tail_sections (resolve_weights ovr) sg t1"
    and b: "b = \<lparr>b_score = score t2, b_base_points = BASE_UNIT,
              b_contributions = cs @ cs', b_capped = capped t2\<rparr>"
    by (rule score_breakdown_cases)
  note base = base_section_sel [OF base]
  have m: "score t1 \<le> MAX_SCORE" using base(1) by simp
  have acc: "points_of cs' = score t2 - score t1"
    using tail.accounted [of ovr sg t1] t by (metis fst_conv snd_conv)
  have up: "score t1 \<le> score t2" "score t2 \<le> MAX_SCORE"
    using tail.never_subtracts [OF m, of ovr sg] tail.within_max [OF m, of ovr sg] t
    by (metis fst_conv)+
  show ?thesis
  proof (cases "capped t1")
    case True
    then have "capped t2" "score t1 = MAX_SCORE"
      using tail.cap_sticks [of t1 ovr sg] t base by (metis fst_conv, simp)
    then show ?thesis using b base acc up True by simp
  next
    case False
    then have "score t1 = BASE_UNIT + points_of cs" using base by simp
    moreover have "capped t2 \<Longrightarrow> score t2 = MAX_SCORE"
      using tail.cap_means_full [OF m, of ovr sg] t False by (metis fst_conv)
    ultimately show ?thesis using b acc by auto
  qed
qed

definition example_signals :: signals where
  "example_signals = \<lparr>sg_epss_score = Some (9/10), sg_kev_listed = False,
     sg_cvss = None, sg_cve_id = Some ''CVE-2024-1'', sg_target_label = Some ''Public'',
     sg_target_environment = None, sg_target_owner = None,
     sg_fixability = Some ''fixable'', sg_dependency_scope = Some ''runtime''\<rparr>"

lemma example_breakdown:
  "\<exists>b. compute_score_breakdown HIGH 3 example_signals
         [(Known S_FIXABILITY, Finite 1), (Known S_KEV, NaN), (Known S_EPSS, Finite (-3))] = Inr b"
  by (rule score_breakdown_defined) (simp add: example_signals_def)

theorem breakdown_adds_up_witness:
  "\<exists>b. compute_score_breakdown HIGH 3 example_signals
         [(Known S_FIXABILITY, Finite 1), (Known S_KEV, NaN), (Known S_EPSS, Finite (-3))] = Inr b \<and>
       (if b_capped b
         then b_score b = MAX_SCORE \<and> MAX_SCORE \<le> b_base_points b + points_of (b_contributions b)
         else b_base_points b + points_of (b_contributions b) = b_score b)"
  using example_breakdown breakdown_adds_up by blast

text \<open>C20: Nothing ever subtracts.  For every configuration of weights, every contribution
  of a breakdown has a non-negative number of points, and the score lies between the base
  unit and the maximum.\<close>

theorem breakdown_never_subtracts:
  assumes "compute_score_breakdown sev c sg ovr = Inr b"
  shows "(\<forall>x \<in> set (b_contributions b). 0 \<le> c_points x) \<and>
         BASE_UNIT \<le> b_score b \<and> b_score b \<le> MAX_SCORE"
proof -
  from assms obtain t1 cs t2 cs' where
    base: "(t1, cs) = base_section (resolve_weights ovr) sev c
       (criticality_context (sg_target_owner sg) (sg_target_environment sg) (sg_target_label sg))"
    and t: "(t2, cs') = tail_sections (resolve_weights ovr) sg t1"
    and b: "b = \<lparr>b_score = score t2, b_base_points = BASE_UNIT,
              b_contributions = cs @ cs', b_capped = capped t2\<rparr>"
    by (rule score_breakdown_cases)
  note base = base_section_sel [OF base]
  have m: "score t1 \<le> MAX_SCORE" using base(1) by simp
  have "score t1 \<le> score t2" "score t2 \<le> MAX_SCORE"
    using tail.never_subtracts [OF m, of ovr sg] tail.within_max [OF m, of ovr sg] t
    by (metis fst_conv)+
  moreover have "BASE_UNIT \<le> score t1"
    using base(1) base_score_nonneg [OF resolve_weights_ok [of ovr], of sev c]
    by (simp add: calibration)
  moreover have "x \<in> set cs' \<Longrightarrow> 0 \<le> c_points x" for x
    using tail.nonneg [OF m, of x ovr sg] t by (metis snd_conv)
  ultimately show ?thesis
    using b base(4) [OF resolve_weights_ok] by auto
qed

theorem breakdown_never_subtracts_witness:
  "\<exists>b. compute_score_breakdown HIGH 3 example_signals
         [(Known S_FIXABILITY, Finite 1), (Known S_KEV, NaN), (Known S_EPSS, Finite (-3))] = Inr b \<and>
       (\<forall>x \<in> set (b_contributions b). 0 \<le> c_points x) \<and>
         BASE_UNIT \<le> b_score b \<and> b_score b \<le> MAX_SCORE"
  using example_breakdown breakdown_never_subtracts by blast

subsection \<open>Unknown is never punished\<close>

text \<open>\<open>forgets sg' sg\<close>: \<open>sg'\<close> is \<open>sg\<close> with any of the optional evidence forgotten (the
  two exposure columns together), and the same KEV verdict.\<close>

definition forgets :: "signals \<Rightarrow> signals \<Rightarrow> bool" where
  "forgets sg' sg \<longleftrightarrow>
     sg_kev_listed sg' = sg_kev_listed sg \<and>
     sg_epss_score sg' \<in> {None, sg_epss_score sg} \<and>
     sg_cvss sg' \<in> {None, sg_cvss sg} \<and>
     (sg_target_label sg', sg_target_environment sg')
        \<in> {(None, None), (sg_target_label sg, sg_target_environment sg)} \<and>
     sg_fixability sg' \<in> {None, sg_fixability sg} \<and>
     sg_dependency_scope sg' \<in> {None, sg_dependency_scope sg}"

definition dominated ::
  "(tally \<Rightarrow> tally \<times> signal_contribution list) \<Rightarrow> (tally \<Rightarrow> tally \<times> signal_contribution list) \<Rightarrow> bool" where
  "dominated f g \<longleftrightarrow>
     (\<forall>t u. score t \<le> score u \<and> score u \<le> MAX_SCORE \<longrightarrow>
        score (fst (f t)) \<le> score (fst (g u)) \<and> score (fst (g u)) \<le> MAX_SCORE)"

lemma dominated_seq:
  "dominated f g \<Longrightarrow> dominated f' g' \<Longrightarrow> dominated (seq_sections f f') (seq_sections g g')"
  unfolding dominated_def seq_sections_def by (metis fst_conv)

lemma dominated_same_score:
  assumes "scoring_section g" and "\<And>t. score (fst (f t)) = score (fst (g t))"
  shows "dominated f g"
  unfolding dominated_def assms(2)
  using scoring_section.monotone [OF assms(1)] scoring_section.within_max [OF assms(1)] by blast

lemma dominated_silent:
  assumes "scoring_section g" and "\<And>t. score (fst (f t)) = score t"
  shows "dominated f g"
  unfolding dominated_def assms(2)
  using scoring_section.never_subtracts [OF assms(1)] scoring_section.within_max [OF assms(1)]
  by (meson order_trans)

lemma dominated_choice:
  assumes "scoring_section g" and "P \<or> f = g" and "\<And>t. P \<Longrightarrow> score (fst (f t)) = score t"
  shows "dominated f g"
  using assms dominated_same_score dominated_silent by blast

lemma sections_silent:
  "score (fst (single (epss_section w k None) t)) = score t"
  "score (fst (single (cvss_scored_section w None cv i) t)) = score t"
  "score (fst (single (scope_section w None) t)) = score t"
  "score (fst (single (fixability_section w None i) t)) = score t"
  by (simp_all add: single_def epss_section_def cvss_scored_section_def scope_section_def
      fixability_section_def)

lemma exposure_silent:
  "score t \<le> MAX_SCORE \<Longrightarrow> score (fst (single (exposure_section w None None) t)) = score t"
  by (simp add: single_def exposure_section_def exposure_nothing_recorded add_points_sel Let_def split_beta)

lemma dominated_exposure:
  assumes "weights_ok w" and "(l', e') \<in> {(None, None), (l, e)}"
  shows "dominated (single (exposure_section w l' e')) (single (exposure_section w l e))"
proof (cases "(l', e') = (l, e)")
  case True
  then show ?thesis by (auto intro: dominated_same_score exposure_section_contract assms)
next
  case False
  with assms(2) have eq: "l' = None" "e' = None" by auto
  note con = exposure_section_contract [OF assms(1), of l e]
  show ?thesis
    unfolding dominated_def eq
    using scoring_section.never_subtracts [OF con] scoring_section.within_max [OF con] exposure_silent
    by (metis order_trans)
qed

lemma dominated_tail:
  assumes "forgets sg' sg"
  shows "dominated (tail_sections (resolve_weights ovr) sg') (tail_sections (resolve_weights ovr) sg)"
proof -
  let ?w = "resolve_weights ovr"
  note ok = resolve_weights_ok [of ovr] and f = assms [unfolded forgets_def]
  have kev: "dominated (single (kev_section ?w (sg_kev_listed sg'))) (single (kev_section ?w (sg_kev_listed sg)))"
    using f by (intro dominated_same_score kev_section_contract) simp
  have epss: "dominated (single (epss_section ?w (sg_kev_listed sg') (sg_epss_score sg')))
      (single (epss_section ?w (sg_kev_listed sg) (sg_epss_score sg)))"
  proof (rule dominated_choice [OF epss_section_contract [OF ok]])
    show "sg_epss_score sg' = None \<or>
        single (epss_section ?w (sg_kev_listed sg') (sg_epss_score sg')) =
        single (epss_section ?w (sg_kev_listed sg) (sg_epss_score sg))"
      using f by auto
  qed (simp add: sections_silent)
  have cvss: "dominated
      (single (cvss_scored_section ?w (sub_score (sg_cvss sg')) (sg_cvss sg') (sg_cve_id sg')))
      (single (cvss_scored_section ?w (sub_score (sg_cvss sg)) (sg_cvss sg) (sg_cve_id sg)))"
  proof (cases "sg_cvss sg' = sg_cvss sg")
    case True
    then show ?thesis
      by (intro dominated_same_score cvss_scored_section_contract ok sub_score_nonneg)
        (simp_all add: single_def cvss_scored_section_def split_beta split: option.split)
  next
    case False
    with f have "sg_cvss sg' = None" by simp
    then show ?thesis
      by (intro dominated_silent cvss_scored_section_contract ok sub_score_nonneg)
        (simp_all add: sub_score_def single_def cvss_scored_section_def)
  qed
  have scope: "dominated (single (scope_section ?w (sg_dependency_scope sg')))
      (single (scope_section ?w (sg_dependency_scope sg)))"
  proof (rule dominated_choice [OF scope_section_contract [OF ok]])
    show "sg_dependency_scope sg' = None \<or>
        single (scope_section ?w (sg_dependency_scope sg')) =
        single (scope_section ?w (sg_dependency_scope sg))"
      using f by auto
  qed (simp add: sections_silent)
  have expo: "dominated (single (exposure_section ?w (sg_target_label sg') (sg_target_environment sg')))
      (single (exposure_section ?w (sg_target_label sg) (sg_target_environment sg)))"
    using f by (intro dominated_exposure ok) simp
  have fixa: "dominated (single (fixability_section ?w (sg_fixability sg') (sg_cve_id sg')))
      (single (fixability_section ?w (sg_fixability sg) (sg_cve_id sg)))"
  proof (cases "sg_fixability sg' = sg_fixability sg")
    case True
    then show ?thesis
      by (intro dominated_same_score fixability_section_contract ok)
        (simp add: single_def fixability_section_def split_beta)
  next
    case False
    with f have "sg_fixability sg' = None" by simp
    then show ?thesis
      by (intro dominated_silent fixability_section_contract ok)
        (simp add: sections_silent(4))
  qed
  show ?thesis
    unfolding tail_sections_def
    by (intro dominated_seq kev epss cvss scope expo fixa)
qed

text \<open>C21: A signal that was not established never lowers a score.  Forgetting any
  combination of the EPSS score, the CVSS vector, the target's exposure columns, the
  fixability verdict and the dependency scope gives a score that is at most the score with
  the evidence, under every configuration of weights.\<close>

theorem unknown_never_raises:
  assumes "forgets sg' sg"
    and "compute_priority_score sev c sg ovr = Inr s"
    and "compute_priority_score sev c sg' ovr = Inr s'"
  shows "s' \<le> s"
proof -
  let ?w = "resolve_weights ovr"
  from assms(2,3) obtain b b' where
    b: "compute_score_breakdown sev c sg ovr = Inr b" "s = b_score b" and
    b': "compute_score_breakdown sev c sg' ovr = Inr b'" "s' = b_score b'"
    by (auto simp: compute_priority_score_def split: sum.splits)
  obtain t1 cs t2 cs2 where 1: "(t1, cs) = base_section ?w sev c
       (criticality_context (sg_target_owner sg) (sg_target_environment sg) (sg_target_label sg))"
      "(t2, cs2) = tail_sections ?w sg t1" "b_score b = score t2"
    using score_breakdown_cases [OF b(1)] by (metis score_breakdown.select_convs(1))
  obtain u1 ds u2 ds2 where 2: "(u1, ds) = base_section ?w sev c
       (criticality_context (sg_target_owner sg') (sg_target_environment sg') (sg_target_label sg'))"
      "(u2, ds2) = tail_sections ?w sg' u1" "b_score b' = score u2"
    using score_breakdown_cases [OF b'(1)] by (metis score_breakdown.select_convs(1))
  have "score u1 \<le> score t1" "score t1 \<le> MAX_SCORE"
    using base_section_sel(1) [OF 1(1)] base_section_sel(1) [OF 2(1)] by simp_all
  then have "score (fst (tail_sections ?w sg' u1)) \<le> score (fst (tail_sections ?w sg t1))"
    using dominated_tail [OF assms(1), of ovr] unfolding dominated_def by blast
  then show ?thesis using b(2) b'(2) 1 2 by (metis fst_conv)
qed


definition forgotten_signals :: signals where
  "forgotten_signals = example_signals\<lparr>sg_epss_score := None, sg_target_label := None,
     sg_fixability := None, sg_dependency_scope := None\<rparr>"

lemma example_scores:
  "compute_priority_score HIGH 3 example_signals [(Known S_FIXABILITY, Finite 1)] = Inr 760"
  "compute_priority_score HIGH 3 forgotten_signals [(Known S_FIXABILITY, Finite 1)] = Inr 480"
  by code_simp+

theorem unknown_never_raises_witness:
  "forgets forgotten_signals example_signals \<and> (480::int) \<le> 760"
proof -
  have f: "forgets forgotten_signals example_signals"
    by (simp add: forgets_def forgotten_signals_def example_signals_def)
  from unknown_never_raises [OF f example_scores] f show ?thesis by simp
qed

subsection \<open>The baseline is the documented formula\<close>

text \<open>The formula of \<open>compute_priority_score\<close>'s docstring.\<close>

definition documented_base :: "severity \<Rightarrow> int \<Rightarrow> int" where
  "documented_base sev c = min 1000 (SEVERITY_WEIGHT sev * max 1 (min 5 c) * 40)"

definition documented_formula :: "severity \<Rightarrow> int \<Rightarrow> rat option \<Rightarrow> bool \<Rightarrow> int" where
  "documented_formula sev c epss kev =
     (if kev then max (documented_base sev c) 900
      else (case epss of
              None \<Rightarrow> documented_base sev c
            | Some p \<Rightarrow> (if p > 1/2 then min 1000 (documented_base sev c + 160)
                        else documented_base sev c)))"

lemma documented_product_bounds:
  "40 \<le> SEVERITY_WEIGHT sev * max 1 (min 5 c) * 40 \<and> SEVERITY_WEIGHT sev * max 1 (min 5 c) * 40 \<le> 1000"
proof -
  have "1 * 1 \<le> SEVERITY_WEIGHT sev * max 1 (min 5 c)"
    using severity_weight_range [of sev] by (intro mult_mono) auto
  moreover have "SEVERITY_WEIGHT sev * max 1 (min 5 c) \<le> 5 * 5"
    using severity_weight_range [of sev] by (intro mult_mono) auto
  ultimately show ?thesis by simp
qed

lemma baseline_after_criticality:
  "after_criticality BASELINE_WEIGHTS sev c = SEVERITY_WEIGHT sev * max 1 (min 5 c) * 40"
proof -
  have "(of_int BASE_UNIT :: rat) * effective_severity BASELINE_WEIGHTS sev
          * effective_criticality BASELINE_WEIGHTS c
        = of_int (SEVERITY_WEIGHT sev * max 1 (min 5 c) * 40)"
    by (simp add: effective_severity_def effective_criticality_def clamped_criticality_def calibration)
  then show ?thesis unfolding after_criticality_def by (simp only: py_round_of_int)
qed

lemma baseline_early_score:
  "score (fst (early_sections BASELINE_WEIGHTS sev c sg)) =
     documented_formula sev c (sg_epss_score sg) (sg_kev_listed sg)"
  using documented_product_bounds [of sev c]
  by (auto simp: early_sections_def base_section_def kev_section_def epss_section_def Let_def split_beta
      baseline_after_criticality documented_formula_def documented_base_def calibration
      split: option.split)

lemma baseline_additive_silent:
  assumes "score t \<le> MAX_SCORE"
  shows "score (fst (cvss_scored_section BASELINE_WEIGHTS expl cv i t)) = score t"
    and "score (fst (late_sections BASELINE_WEIGHTS sg t)) = score t"
  using assms
  by (auto simp: cvss_scored_section_def late_sections_def scope_section_def exposure_section_def
      fixability_section_def add_points_def Let_def split_beta split: option.split)

lemma documented_formula_bounds: "documented_formula sev c epss kev \<le> 1000"
  by (auto simp: documented_formula_def documented_base_def split: option.split)

lemma baseline_score_value:
  assumes "compute_priority_score sev c sg [] = Inr s"
  shows "s = documented_formula sev c (sg_epss_score sg) (sg_kev_listed sg)"
proof -
  let ?w = BASELINE_WEIGHTS
  let ?t = "fst (early_sections ?w sev c sg)"
  have w: "resolve_weights [] = ?w" by (simp add: resolve_weights_def)
  have t: "score ?t \<le> MAX_SCORE"
    by (simp add: baseline_early_score documented_formula_bounds calibration)
  from assms obtain expl where
    "s = score (fst (late_sections ?w sg
           (fst (cvss_scored_section ?w expl (sg_cvss sg) (sg_cve_id sg) ?t))))"
    by (auto simp: compute_priority_score_def compute_score_breakdown_def cvss_section_def w Let_def
        split_beta split: sum.splits) (metis fst_conv)
  then show ?thesis
    using baseline_additive_silent t by (simp add: baseline_early_score)
qed

text \<open>An install that configures nothing scores by the documented formula, exactly:
  severity weight times clamped criticality times 40, a floor of 900 for a KEV-listed CVE
  and a bump of 160 for an EPSS score above one half, at most 1000.  The CVSS vector, the
  exposure columns, the fixability verdict and the dependency scope do not enter it.\<close>

theorem baseline_is_documented_formula:
  "compute_priority_score sev c (sg\<lparr>sg_cvss := Some (parse_cvss_vector raw)\<rparr>) [] =
     Inr (documented_formula sev c (sg_epss_score sg) (sg_kev_listed sg))"
proof -
  let ?sg = "sg\<lparr>sg_cvss := Some (parse_cvss_vector raw)\<rparr>"
  obtain b where "compute_score_breakdown sev c ?sg [] = Inr b"
    using score_breakdown_defined [of ?sg sev c "[]"] parse_well_formed by auto
  then have "compute_priority_score sev c ?sg [] = Inr (b_score b)"
    by (simp add: compute_priority_score_def)
  with baseline_score_value [OF this] show ?thesis by simp
qed

lemma documented_kev_lower:
  "documented_formula sev c epss True < documented_formula sev c epss False \<longleftrightarrow>
     SEVERITY_WEIGHT sev * max 1 (min 5 c) = 20 \<and> (\<exists>p. epss = Some p \<and> p > 1/2)"
proof -
  have "max 1 (min 5 c) \<in> {1, 2, 3, 4, 5}" by auto
  then show ?thesis
    by (cases sev) (auto simp: documented_formula_def documented_base_def split: option.split)
qed

text \<open>The one place a signal costs a finding points.  The KEV floor replaces the EPSS
  bump instead of being combined with it, so under the baseline weights listing a finding's
  CVE in the KEV catalog lowers its score exactly when its EPSS score is above one half and
  severity weight times clamped criticality is 20 (960 becomes 900).\<close>

theorem kev_listing_can_lower:
  assumes "compute_priority_score sev c (sg\<lparr>sg_kev_listed := True\<rparr>) [] = Inr listed"
    and "compute_priority_score sev c (sg\<lparr>sg_kev_listed := False\<rparr>) [] = Inr unlisted"
  shows "listed < unlisted \<longleftrightarrow>
     SEVERITY_WEIGHT sev * clamped_criticality c = 20 \<and>
     (\<exists>p. sg_epss_score sg = Some p \<and> p > EPSS_NOTABLE_THRESHOLD)"
  using baseline_score_value [OF assms(1)] baseline_score_value [OF assms(2)] documented_kev_lower
  by (simp add: clamped_criticality_def calibration)

lemma kev_example_scores:
  "compute_priority_score CRITICAL 4 (example_signals\<lparr>sg_kev_listed := True\<rparr>) [] = Inr 900"
  "compute_priority_score CRITICAL 4 (example_signals\<lparr>sg_kev_listed := False\<rparr>) [] = Inr 960"
  by code_simp+

theorem kev_listing_can_lower_witness:
  "(900::int) < 960 \<longleftrightarrow>
     SEVERITY_WEIGHT CRITICAL * clamped_criticality 4 = 20 \<and>
     (\<exists>p. sg_epss_score example_signals = Some p \<and> p > EPSS_NOTABLE_THRESHOLD)"
  by (rule kev_listing_can_lower [OF kev_example_scores])

subsection \<open>Weights and exposure\<close>

text \<open>Configured weights are repaired, never trusted.  Whatever rows the table holds,
  the effective weights are all within [0, 5]; a signal none of whose rows is a finite
  number keeps its baseline weight; and resolving effective weights again changes nothing,
  so the second resolution inside the engine is harmless.\<close>

theorem resolve_weights_repairs:
  "weights_ok (resolve_weights rows) \<and>
   resolve_weights (as_overrides (resolve_weights rows)) = resolve_weights rows \<and>
   ((\<forall>x. (Known s, Finite x) \<notin> set rows) \<longrightarrow> resolve_weights rows s = BASELINE_WEIGHTS s)"
proof -
  have "(\<forall>x. (Known s, Finite x) \<notin> set os) \<Longrightarrow> fold apply_override os w s = w s" for os w
  proof (induction os arbitrary: w)
    case (Cons o' os)
    have "apply_override o' w s = w s"
      using Cons.prems
      by (auto simp: apply_override_def split: prod.split signal_key.split raw_weight.split)
    with Cons show ?case by simp
  qed simp
  then show ?thesis
    by (simp add: resolve_weights_ok resolve_effective) (simp add: resolve_weights_def)
qed

theorem resolve_weights_repairs_witness:
  "resolve_weights [(Known S_KEV, NaN), (Known S_EPSS, Finite 9)] S_KEV = BASELINE_WEIGHTS S_KEV"
  using resolve_weights_repairs [of "[(Known S_KEV, NaN), (Known S_EPSS, Finite 9)]" S_KEV] by simp

lemma recognised_disjoint:
  "set PUBLIC_LABELS \<inter> set PRIVATE_LABELS = {}"
  "set PRODUCTION_VALUES \<inter> set NON_PRODUCTION_VALUES = {}"
  "set PRODUCTION_VALUES \<inter> (set PUBLIC_LABELS \<union> set PRIVATE_LABELS) = {}"
  by (simp_all add: recognition_sets)

text \<open>The label decides the exposure before the environment is looked at.  A public
  label gives the full uplift and a private label none, both as established facts and
  whatever the environment says; without either, a production label or environment gives
  exactly half; and nothing else gives any uplift.\<close>

theorem label_decides_exposure:
  defines "label_of \<equiv> \<lambda>l. str_lower (str_strip l)"
  shows "(label_of l \<in> set PUBLIC_LABELS \<longrightarrow>
            factor (resolve_exposure (Some l) env) = 1 \<and>
            exposure_established (resolve_exposure (Some l) env)) \<and>
         (label_of l \<in> set PRIVATE_LABELS \<longrightarrow>
            factor (resolve_exposure (Some l) env) = 0 \<and>
            exposure_established (resolve_exposure (Some l) env)) \<and>
         (label_of l \<notin> set PUBLIC_LABELS \<union> set PRIVATE_LABELS \<longrightarrow>
            factor (resolve_exposure (Some l) env) =
              (if label_of l \<in> set PRODUCTION_VALUES \<or>
                  (\<exists>e. env = Some e \<and> label_of e \<in> set PRODUCTION_VALUES) then 1/2 else 0))"
proof -
  have "label_of [] \<notin> set PRODUCTION_VALUES"
    by (simp add: label_of_def str_lower_def str_strip_def PRODUCTION_VALUES_def)
  moreover have "label_of l \<in> set PRIVATE_LABELS \<Longrightarrow> label_of l \<notin> set PUBLIC_LABELS"
    using recognised_disjoint(1) by blast
  ultimately show ?thesis
    by (cases env) (auto simp: resolve_exposure_def Let_def calibration label_of_def)
qed

theorem label_decides_exposure_witness:
  "factor (resolve_exposure (Some '' Internal '') (Some ''production'')) = 0"
proof -
  have "str_lower (str_strip '' Internal '') \<in> set PRIVATE_LABELS" by code_simp
  with label_decides_exposure [of "'' Internal ''" "Some ''production''"] show ?thesis by blast
qed

end
