(* ===== verification/Lifecycle.thy ===== *)
theory Lifecycle
  imports Models
begin

text \<open>
  \<open>backend/app/core/target_lifecycle.py\<close>: the two nullable timestamps of a target and the
  predicates everything else reads them through.  A query-narrowing function is a filter on
  the list of rows the query ranges over; a function that mutates the target takes the
  time of the call (\<open>utcnow()\<close>) and returns its result with the updated row.
\<close>

datatype target_not_scannable = TargetNotScannable string

definition is_deleted :: "target \<Rightarrow> bool" where
  "is_deleted t \<longleftrightarrow> t_deleted_at t \<noteq> None"

definition is_active :: "target \<Rightarrow> bool" where
  "is_active t \<longleftrightarrow> t_deactivated_at t = None"

definition scan_refusal_reason :: "target \<Rightarrow> string option" where
  "scan_refusal_reason t =
     (if is_deleted t then Some ''target not found''
      else if \<not> is_active t then
        Some (t_name t @ '' is deactivated; scanning is off for this target. ''
              @ ''Reactivate it to resume scans.'')
      else None)"

definition require_scannable :: "target \<Rightarrow> target_not_scannable + unit" where
  "require_scannable t =
     (case scan_refusal_reason t of None \<Rightarrow> Inr () | Some r \<Rightarrow> Inl (TargetNotScannable r))"

definition live_targets :: "target list \<Rightarrow> target list" where
  "live_targets ts = filter (\<lambda>t. t_deleted_at t = None) ts"

definition scannable_targets :: "target list \<Rightarrow> target list" where
  "scannable_targets ts = filter (\<lambda>t. t_deleted_at t = None \<and> t_deactivated_at t = None) ts"

definition deleted_target_ids :: "target list \<Rightarrow> row_id list" where
  "deleted_target_ids ts = map t_id (filter (\<lambda>t. t_deleted_at t \<noteq> None) ts)"

definition exclude_deleted_targets :: "target list \<Rightarrow> ('r \<Rightarrow> row_id) \<Rightarrow> 'r list \<Rightarrow> 'r list" where
  "exclude_deleted_targets ts target_id_column rows =
     filter (\<lambda>r. target_id_column r \<notin> set (deleted_target_ids ts)) rows"

definition deactivate :: "timestamp \<Rightarrow> target \<Rightarrow> bool \<times> target" where
  "deactivate now t =
     (if t_deactivated_at t \<noteq> None then (False, t)
      else (True, t\<lparr>t_deactivated_at := Some now\<rparr>))"

definition reactivate :: "target \<Rightarrow> bool \<times> target" where
  "reactivate t =
     (if t_deactivated_at t = None then (False, t) else (True, t\<lparr>t_deactivated_at := None\<rparr>))"

definition soft_delete :: "timestamp \<Rightarrow> target \<Rightarrow> bool \<times> target" where
  "soft_delete now t =
     (if t_deleted_at t \<noteq> None then (False, t) else (True, t\<lparr>t_deleted_at := Some now\<rparr>))"

lemmas lifecycle_defs =
  is_deleted_def is_active_def scan_refusal_reason_def require_scannable_def live_targets_def
  scannable_targets_def deleted_target_ids_def exclude_deleted_targets_def
  deactivate_def reactivate_def soft_delete_def

text \<open>A target's life as the sequence of operations called on it, with the answers they
  gave.\<close>

datatype lifecycle_op = Deactivate timestamp | Reactivate | SoftDelete timestamp

fun lifecycle_step :: "lifecycle_op \<Rightarrow> target \<Rightarrow> bool \<times> target" where
  "lifecycle_step (Deactivate now) t = deactivate now t"
| "lifecycle_step Reactivate t = reactivate t"
| "lifecycle_step (SoftDelete now) t = soft_delete now t"

fun lifecycle_run :: "lifecycle_op list \<Rightarrow> target \<Rightarrow> target" where
  "lifecycle_run [] t = t"
| "lifecycle_run (x # xs) t = lifecycle_run xs (snd (lifecycle_step x t))"

lemma lifecycle_step_changed:
  "fst (lifecycle_step x t) \<longleftrightarrow> snd (lifecycle_step x t) \<noteq> t"
  by (cases x) (auto simp: lifecycle_defs dest: arg_cong [where f = t_deactivated_at]
      arg_cong [where f = t_deleted_at])

lemma lifecycle_step_again:
  "fst (lifecycle_step x (snd (lifecycle_step x t))) = False"
  by (cases x) (auto simp: lifecycle_defs)

lemma lifecycle_step_deleted:
  "t_deleted_at t = Some d \<Longrightarrow> t_deleted_at (snd (lifecycle_step x t)) = Some d"
  by (cases x) (auto simp: lifecycle_defs)

lemma lifecycle_run_deleted:
  "t_deleted_at t = Some d \<Longrightarrow> t_deleted_at (lifecycle_run xs t) = Some d"
  by (induction xs arbitrary: t) (simp_all add: lifecycle_step_deleted)

lemma lifecycle_step_delete_frame:
  "t_deactivated_at (snd (lifecycle_step (SoftDelete now) t)) = t_deactivated_at t"
  by (simp add: lifecycle_defs)

lemma lifecycle_step_identity:
  "t_id (snd (lifecycle_step x t)) = t_id t"
  "t_workspace_id (snd (lifecycle_step x t)) = t_workspace_id t"
  by (cases x; simp add: lifecycle_defs)+

lemma refusal_iff: "scan_refusal_reason t = None \<longleftrightarrow> t_deleted_at t = None \<and> t_deactivated_at t = None"
  by (simp add: lifecycle_defs)

lemma scannable_is_refusal: "scannable_targets ts = filter (\<lambda>t. scan_refusal_reason t = None) ts"
  by (simp add: scannable_targets_def refusal_iff)

text \<open>One answer to ``may work be dispatched''.  The refusal reason, the raising check
  and the bulk filter agree on every target, and a scannable target is always live; so no
  dispatch path that uses any of them can start work on a deleted or deactivated target.\<close>

theorem scannable_agree:
  "(require_scannable t = Inr () \<longleftrightarrow> scan_refusal_reason t = None) \<and>
   (t \<in> set (scannable_targets ts) \<longleftrightarrow> t \<in> set ts \<and> scan_refusal_reason t = None) \<and>
   set (scannable_targets ts) \<subseteq> set (live_targets ts) \<and>
   (scan_refusal_reason t = None \<longleftrightarrow> \<not> is_deleted t \<and> is_active t)"
  by (auto simp: lifecycle_defs split: option.split)

text \<open>Deletion is permanent and loses nothing.  Once a target is deleted, no sequence of
  lifecycle calls makes it scannable again or moves the time of deletion; deleting keeps the
  deactivation state; and each call reports a change exactly when it made one, so repeating
  it reports none.\<close>

theorem deletion_is_permanent:
  "(t_deleted_at t = Some d \<longrightarrow>
      t_deleted_at (lifecycle_run xs t) = Some d \<and> scan_refusal_reason (lifecycle_run xs t) \<noteq> None) \<and>
   t_deactivated_at (snd (soft_delete now t)) = t_deactivated_at t \<and>
   (fst (lifecycle_step x t) \<longleftrightarrow> snd (lifecycle_step x t) \<noteq> t) \<and>
   \<not> fst (lifecycle_step x (snd (lifecycle_step x t)))"
  using lifecycle_run_deleted [of t d xs] lifecycle_step_delete_frame [of now t]
    lifecycle_step_changed [of x t] lifecycle_step_again [of x t]
  by (auto simp: refusal_iff)

definition example_target :: target where
  "example_target = \<lparr>t_id = 1, t_workspace_id = 7, t_name = ''api'', t_repo_url = ''https://github.com/acme/api'', t_default_branch = ''main'',
     t_label = ''Prod'', t_criticality_weight = 3, t_owner = None, t_environment = None,
     t_enforcement_mode = None, t_api_base_url = None, t_api_auth_header_name = None,
     t_api_auth_header_value_ciphertext = None,
     t_diff_scoped_pr_scans = False, t_auto_raise_fix_prs = False, t_deactivated_at = None,
     t_deleted_at = None, t_malware_last_checked_at = None, t_malware_last_check_status = None,
     t_malware_packages_checked = None, t_is_ai_repo = False, t_is_ai_repo_signals = [],
     t_is_ai_repo_override = None, t_dependency_sync_status = None, t_dependency_sync_error = None,
     t_dependency_sync_at = None, t_dependency_component_count = None\<rparr>"

theorem deletion_is_permanent_witness:
  "scan_refusal_reason (lifecycle_run [Reactivate, SoftDelete 9] (example_target\<lparr>t_deleted_at := Some 5\<rparr>)) \<noteq> None"
  using deletion_is_permanent [of "example_target\<lparr>t_deleted_at := Some 5\<rparr>" 5 "[Reactivate, SoftDelete 9]"]
  by simp

end
