(* ===== verification/Schedules.thy ===== *)
theory Schedules
  imports Lifecycle
begin

text \<open>
  \<open>backend/app/core/scan_schedules.py\<close>: inheritance of schedule fields, the due clock and
  the conditional UPDATE that claims a due schedule.  The session is a record of the three
  tables involved; a function that writes returns the new one.  \<open>random.uniform\<close> is an
  argument: the drawn offset in microseconds, whose documented range is the hypothesis
  \<open>valid_draw\<close>.
\<close>

record sched_db =
  db_schedules :: "scan_schedule list"
  db_targets :: "target list"
  db_workspaces :: "workspace list"

record shipped_default =
  sd_enabled :: bool
  sd_interval_hours :: int

fun SHIPPED_DEFAULTS :: "scan_schedule_type \<Rightarrow> shipped_default" where
  "SHIPPED_DEFAULTS FULL_SCAN = \<lparr>sd_enabled = True, sd_interval_hours = 24\<rparr>"
| "SHIPPED_DEFAULTS API_SCAN = \<lparr>sd_enabled = False, sd_interval_hours = 24\<rparr>"

definition MIN_INTERVAL_HOURS :: int where "MIN_INTERVAL_HOURS = 1"
definition MAX_INTERVAL_HOURS :: int where "MAX_INTERVAL_HOURS = 24 * 365"

datatype schedule_source = FromTarget | FromWorkspace | FromDefault

datatype scan_schedule_error = ScanScheduleError int

record resolved_scan_schedule =
  rs_scan_type :: scan_schedule_type
  rs_enabled :: bool
  rs_interval_hours :: int
  rs_enabled_source :: schedule_source
  rs_interval_source :: schedule_source
  rs_schedule_id :: "row_id option"
  rs_last_run_at :: "timestamp option"
  rs_last_dispatched_count :: "int option"
  rs_next_run_at :: "timestamp option"

definition is_dispatchable_target :: "target \<Rightarrow> bool" where
  "is_dispatchable_target t \<longleftrightarrow> scan_refusal_reason t = None"

definition validate_interval_hours :: "int option \<Rightarrow> scan_schedule_error + int option" where
  "validate_interval_hours interval_hours =
     (case interval_hours of
        None \<Rightarrow> Inr None
      | Some h \<Rightarrow> (if h < MIN_INTERVAL_HOURS \<or> h > MAX_INTERVAL_HOURS
                  then Inl (ScanScheduleError h) else Inr (Some h)))"

definition workspace_default_row ::
  "sched_db \<Rightarrow> row_id \<Rightarrow> scan_schedule_type \<Rightarrow> scan_schedule option" where
  "workspace_default_row db ws ty =
     List.find (\<lambda>r. ss_workspace_id r = ws \<and> ss_target_id r = None \<and> ss_scan_type r = ty)
       (db_schedules db)"

definition target_row :: "sched_db \<Rightarrow> row_id \<Rightarrow> scan_schedule_type \<Rightarrow> scan_schedule option" where
  "target_row db tid ty =
     List.find (\<lambda>r. ss_target_id r = Some tid \<and> ss_scan_type r = ty) (db_schedules db)"

type_synonym overlay_state = "bool \<times> int \<times> schedule_source \<times> schedule_source"

definition overlay ::
  "overlay_state \<Rightarrow> scan_schedule option \<Rightarrow> schedule_source \<Rightarrow> overlay_state" where
  "overlay = (\<lambda>(base_enabled, base_interval, base_enabled_source, base_interval_source) row source.
     case row of
       None \<Rightarrow> (base_enabled, base_interval, base_enabled_source, base_interval_source)
     | Some r \<Rightarrow>
         (let (enabled, enabled_source) =
                (case ss_enabled r of None \<Rightarrow> (base_enabled, base_enabled_source)
                 | Some e \<Rightarrow> (e, source));
              (interval, interval_source) =
                (case ss_interval_hours r of None \<Rightarrow> (base_interval, base_interval_source)
                 | Some h \<Rightarrow> (h, source))
          in (enabled, interval, enabled_source, interval_source)))"

definition shipped_base :: "scan_schedule_type \<Rightarrow> overlay_state" where
  "shipped_base ty =
     (sd_enabled (SHIPPED_DEFAULTS ty), sd_interval_hours (SHIPPED_DEFAULTS ty), FromDefault, FromDefault)"

definition resolve_scan_schedule ::
  "sched_db \<Rightarrow> target \<Rightarrow> scan_schedule_type \<Rightarrow> resolved_scan_schedule" where
  "resolve_scan_schedule db t ty =
     (let ws_row = workspace_default_row db (t_workspace_id t) ty;
          own_row = target_row db (t_id t) ty;
          (enabled, interval, enabled_source, interval_source) =
            overlay (overlay (shipped_base ty) ws_row FromWorkspace) own_row FromTarget;
          governing = (case own_row of Some r \<Rightarrow> Some r | None \<Rightarrow> ws_row)
      in \<lparr>rs_scan_type = ty, rs_enabled = enabled, rs_interval_hours = interval,
          rs_enabled_source = enabled_source, rs_interval_source = interval_source,
          rs_schedule_id = map_option ss_id governing,
          rs_last_run_at = Option.bind governing ss_last_run_at,
          rs_last_dispatched_count = Option.bind governing ss_last_dispatched_count,
          rs_next_run_at = (if enabled then Option.bind governing ss_next_run_at else None)\<rparr>)"

definition effective_for_row :: "sched_db \<Rightarrow> scan_schedule \<Rightarrow> bool \<times> int" where
  "effective_for_row db row =
     (if ss_target_id row = None then
        (let (enabled, interval, _, _) = overlay (shipped_base (ss_scan_type row)) (Some row) FromWorkspace
         in (enabled, interval))
      else
        (let ws_row = workspace_default_row db (ss_workspace_id row) (ss_scan_type row);
             (enabled, interval, _, _) =
               overlay (overlay (shipped_base (ss_scan_type row)) ws_row FromWorkspace) (Some row) FromTarget
         in (enabled, interval)))"

definition MAX_JITTER :: duration where "MAX_JITTER = minutes 30"

text \<open>\<open>interval * JITTER_FRACTION\<close> is a tenth of a whole number of hours, hence exact.\<close>

definition jitter_spread :: "int \<Rightarrow> duration" where
  "jitter_spread interval_hours = min (hours interval_hours div 10) MAX_JITTER"

definition jittered_interval :: "int \<Rightarrow> duration \<Rightarrow> duration" where
  "jittered_interval interval_hours draw = hours interval_hours + draw"

definition valid_draw :: "int \<Rightarrow> duration \<Rightarrow> bool" where
  "valid_draw interval_hours draw \<longleftrightarrow> 0 \<le> draw \<and> draw \<le> jitter_spread interval_hours"

definition next_run_after :: "int \<Rightarrow> timestamp \<Rightarrow> bool \<Rightarrow> duration \<Rightarrow> timestamp" where
  "next_run_after interval_hours now jitter draw =
     now + (if jitter then jittered_interval interval_hours draw else hours interval_hours)"

definition compute_next_run_at ::
  "sched_db \<Rightarrow> scan_schedule \<Rightarrow> timestamp \<Rightarrow> duration \<Rightarrow> timestamp" where
  "compute_next_run_at db row now draw =
     (let interval_hours = snd (effective_for_row db row) in
      case ss_next_run_at row of
        None \<Rightarrow> next_run_after interval_hours now True draw
      | Some prev \<Rightarrow>
          (let anchored = prev + hours interval_hours in
           if anchored > now then anchored else next_run_after interval_hours now True draw))"

definition due_at :: "scan_schedule \<Rightarrow> timestamp \<Rightarrow> bool" where
  "due_at r now \<longleftrightarrow> (case ss_next_run_at r of None \<Rightarrow> True | Some n \<Rightarrow> n \<le> now)"

definition stamp_claimed :: "timestamp \<Rightarrow> timestamp \<Rightarrow> scan_schedule \<Rightarrow> scan_schedule" where
  "stamp_claimed now nxt r =
     r\<lparr>ss_last_run_at := Some now, ss_next_run_at := Some nxt,
       ss_last_dispatched_count := None, ss_updated_at := now\<rparr>"

text \<open>The claim: the UPDATE applied to every row its WHERE clause selects, and the verdict by
  the number of rows it selected.  On success the refreshed row is returned.\<close>

definition claim_due_schedule ::
  "sched_db \<Rightarrow> scan_schedule \<Rightarrow> timestamp \<Rightarrow> duration \<Rightarrow> sched_db \<times> scan_schedule option" where
  "claim_due_schedule db row now draw =
     (let next_run_at = compute_next_run_at db row now draw;
          hit = (\<lambda>r. ss_id r = ss_id row \<and> due_at r now);
          db' = db\<lparr>db_schedules :=
                  map (\<lambda>r. if hit r then stamp_claimed now next_run_at r else r) (db_schedules db)\<rparr>
      in if length (filter hit (db_schedules db)) \<noteq> 1 then (db', None)
         else (db', List.find (\<lambda>r. ss_id r = ss_id row) (db_schedules db')))"

definition due_schedules :: "sched_db \<Rightarrow> timestamp \<Rightarrow> scan_schedule list" where
  "due_schedules db now =
     filter (\<lambda>row. fst (effective_for_row db row))
       (sort_key ss_id (filter (\<lambda>r. due_at r now) (db_schedules db)))"

definition overridden_targets :: "sched_db \<Rightarrow> scan_schedule \<Rightarrow> row_id option set" where
  "overridden_targets db row =
     ss_target_id ` set (filter (\<lambda>r. ss_workspace_id r = ss_workspace_id row \<and>
        ss_scan_type r = ss_scan_type row \<and> ss_target_id r \<noteq> None) (db_schedules db))"

definition targets_covered_by :: "sched_db \<Rightarrow> scan_schedule \<Rightarrow> target list" where
  "targets_covered_by db row =
     (case ss_target_id row of
        Some tid \<Rightarrow>
          (case List.find (\<lambda>t. t_id t = tid) (db_targets db) of
             None \<Rightarrow> []
           | Some t \<Rightarrow>
               (if t_workspace_id t \<noteq> ss_workspace_id row then []
                else if is_dispatchable_target t then [t] else []))
      | None \<Rightarrow>
          filter (\<lambda>t. Some (t_id t) \<notin> overridden_targets db row \<and> is_dispatchable_target t)
            (filter (\<lambda>t. t_workspace_id t = ss_workspace_id row) (db_targets db)))"

text \<open>
  \<open>ensure_workspace_default_rows\<close>, one (workspace, scan type) at a time.  \<open>race ws ty\<close> is the
  row another dispatcher commits between this one's lookup and its insert, if any: the
  insert then fails on the partial unique index and is rolled back.  A new row's id is one
  above the largest in use, and each new row draws its own jitter.
\<close>

definition fresh_id :: "sched_db \<Rightarrow> row_id" where
  "fresh_id db = (if db_schedules db = [] then 1 else Max (ss_id ` set (db_schedules db)) + 1)"

type_synonym race = "row_id \<Rightarrow> scan_schedule_type \<Rightarrow> scan_schedule option"

definition new_default_row ::
  "row_id \<Rightarrow> row_id \<Rightarrow> scan_schedule_type \<Rightarrow> timestamp \<Rightarrow> duration \<Rightarrow> scan_schedule" where
  "new_default_row i ws ty now draw =
     \<lparr>ss_id = i, ss_workspace_id = ws, ss_target_id = None, ss_scan_type = ty,
      ss_interval_hours = None, ss_enabled = None, ss_last_run_at = None,
      ss_last_dispatched_count = None,
      ss_next_run_at = Some (next_run_after (sd_interval_hours (SHIPPED_DEFAULTS ty)) now True draw),
      ss_created_at = now, ss_updated_at = now\<rparr>"

definition ensure_default_row ::
  "race \<Rightarrow> timestamp \<Rightarrow> (row_id \<Rightarrow> scan_schedule_type \<Rightarrow> duration) \<Rightarrow> row_id \<times> scan_schedule_type
     \<Rightarrow> sched_db \<times> scan_schedule list \<Rightarrow> sched_db \<times> scan_schedule list" where
  "ensure_default_row race now draws = (\<lambda>(ws, ty) (db, created).
     (if workspace_default_row db ws ty \<noteq> None then (db, created)
      else (case race ws ty of
              Some winner \<Rightarrow> (db\<lparr>db_schedules := db_schedules db @ [winner]\<rparr>, created)
            | None \<Rightarrow>
                (let row = new_default_row (fresh_id db) ws ty now (draws ws ty)
                 in (db\<lparr>db_schedules := db_schedules db @ [row]\<rparr>, created @ [row])))))"

definition ensure_workspace_default_rows ::
  "race \<Rightarrow> sched_db \<Rightarrow> timestamp \<Rightarrow> (row_id \<Rightarrow> scan_schedule_type \<Rightarrow> duration)
     \<Rightarrow> sched_db \<times> scan_schedule list" where
  "ensure_workspace_default_rows race db now draws =
     fold (ensure_default_row race now draws)
       (List.product (map ws_id (db_workspaces db)) [FULL_SCAN, API_SCAN]) (db, [])"

end
