(* ===== verification/ScheduleLock.thy ===== *)
theory ScheduleLock
  imports Schedules
begin

text \<open>
  The due clock as a lock.  The locale \<open>lease\<close> states what the conditional UPDATE of
  \<open>claim_due_schedule\<close> relies on: a renewed row is no longer due at any time up to the
  renewing claim's.  From it follows that the winning claims of one row happen at strictly
  increasing times.  The clock of a schedule row is an interpretation, and the claims of a
  whole table, made from arbitrarily stale snapshots, are reduced to it row by row.
\<close>

subsection \<open>The interface\<close>

locale lease =
  fixes due :: "'r \<Rightarrow> 't::linorder \<Rightarrow> bool"
    and renew :: "'c \<Rightarrow> 't \<Rightarrow> 'r \<Rightarrow> 'r"
    and ok :: "'c \<Rightarrow> 't \<Rightarrow> bool"
  assumes renewed: "ok c now \<Longrightarrow> t \<le> now \<Longrightarrow> \<not> due (renew c now r) t"
begin

fun wins :: "'r \<Rightarrow> ('c \<times> 't) list \<Rightarrow> 't list" where
  "wins r [] = []"
| "wins r ((c, now) # as) = (if due r now then now # wins (renew c now r) as else wins r as)"

lemma wins_after:
  "\<forall>t\<le>b. \<not> due r t \<Longrightarrow> \<forall>(c, now)\<in>set as. ok c now \<Longrightarrow> \<forall>t\<in>set (wins r as). b < t"
proof (induction as arbitrary: r b)
  case (Cons a as)
  obtain c now where a: "a = (c, now)" by fastforce
  show ?case
  proof (cases "due r now")
    case True
    with Cons.prems have "b < now" by (meson not_le)
    moreover have "\<forall>t\<le>now. \<not> due (renew c now r) t"
      using Cons.prems a renewed [of c now] by auto
    with Cons have "\<forall>t\<in>set (wins (renew c now r) as). now < t" by simp
    ultimately show ?thesis using True a by auto
  next
    case False
    with Cons a show ?thesis by simp
  qed
qed simp

lemma wins_increasing:
  "\<forall>(c, now)\<in>set as. ok c now \<Longrightarrow> sorted_wrt (<) (wins r as)"
proof (induction as arbitrary: r)
  case (Cons a as)
  obtain c now where a: "a = (c, now)" by fastforce
  have "\<forall>t\<le>now. \<not> due (renew c now r) t"
    using Cons.prems a renewed [of c now] by auto
  from wins_after [OF this] Cons.prems Cons.IH a show ?case by auto
qed simp

lemma one_winner_at_an_instant:
  "\<forall>(c, now)\<in>set as. ok c now \<Longrightarrow> distinct (wins r as)"
  using wins_increasing [of as r] strict_sorted_iff [of "wins r as"] by simp

end

interpretation lock: lease due_at "\<lambda>nxt now r. stamp_claimed now nxt r" "\<lambda>nxt now. now < nxt"
  by unfold_locales (simp add: due_at_def stamp_claimed_def)

subsection \<open>The clock moves past now\<close>

definition valid_interval :: "scan_schedule \<Rightarrow> bool" where
  "valid_interval r \<longleftrightarrow> (case ss_interval_hours r of None \<Rightarrow> True | Some h \<Rightarrow> MIN_INTERVAL_HOURS \<le> h)"

definition valid_rows :: "sched_db \<Rightarrow> bool" where
  "valid_rows db \<longleftrightarrow> list_all valid_interval (db_schedules db) \<and> distinct (map ss_id (db_schedules db))"

lemma overlay_interval:
  "1 \<le> fst (snd base) \<Longrightarrow> (\<And>r. row = Some r \<Longrightarrow> valid_interval r)
   \<Longrightarrow> 1 \<le> fst (snd (overlay base row src))"
  by (cases base; cases row)
    (auto simp: overlay_def valid_interval_def MIN_INTERVAL_HOURS_def split: option.splits)

lemma shipped_interval: "1 \<le> fst (snd (shipped_base ty))"
  by (cases ty) (simp_all add: shipped_base_def)

lemma effective_interval_positive:
  assumes "list_all valid_interval (db_schedules db)" and "valid_interval row"
  shows "1 \<le> snd (effective_for_row db row)"
proof -
  have ws: "valid_interval r" if "workspace_default_row db w ty = Some r" for w ty r
    using that assms(1) by (auto simp: workspace_default_row_def list_all_iff dest: find_mem)
  have a: "1 \<le> fst (snd (overlay (shipped_base (ss_scan_type row)) (Some row) FromWorkspace))"
    using assms(2) by (intro overlay_interval shipped_interval) auto
  have b: "1 \<le> fst (snd (overlay (overlay (shipped_base (ss_scan_type row))
      (workspace_default_row db (ss_workspace_id row) (ss_scan_type row)) FromWorkspace) (Some row) FromTarget))"
    using assms(2) ws by (intro overlay_interval shipped_interval) auto
  show ?thesis
    using a b by (cases "ss_target_id row") (simp_all add: effective_for_row_def split_beta Let_def)
qed

lemma next_run_later:
  assumes "list_all valid_interval (db_schedules db)" and "valid_interval row" and "0 \<le> draw"
  shows "now < compute_next_run_at db row now draw"
  using effective_interval_positive [OF assms(1,2)] assms(3)
  by (simp add: compute_next_run_at_def next_run_after_def jittered_interval_def Let_def
      split: option.split)

subsection \<open>One claim\<close>

lemma find_id_map:
  "List.find (\<lambda>r. ss_id r = i) (map (\<lambda>r. if P r then stamp_claimed now nxt r else r) rs) =
   map_option (\<lambda>r. if P r then stamp_claimed now nxt r else r) (List.find (\<lambda>r. ss_id r = i) rs)"
  by (induction rs) (auto simp: stamp_claimed_def)

lemma filter_id_due:
  "distinct (map ss_id rs) \<Longrightarrow>
   length (filter (\<lambda>r. ss_id r = i \<and> due_at r now) rs) =
     (case List.find (\<lambda>r. ss_id r = i) rs of None \<Rightarrow> 0 | Some r \<Rightarrow> if due_at r now then 1 else 0)"
proof (induction rs)
  case (Cons x rs)
  show ?case
  proof (cases "ss_id x = i")
    case True
    with Cons.prems have "filter (\<lambda>r. ss_id r = i \<and> due_at r now) rs = []"
      by (auto simp: filter_empty_conv) (metis imageI)
    with True show ?thesis by simp
  qed (use Cons in simp)
qed simp

definition row_of :: "sched_db \<Rightarrow> row_id \<Rightarrow> scan_schedule option" where
  "row_of db i = List.find (\<lambda>r. ss_id r = i) (db_schedules db)"

lemma claim_row:
  "row_of (fst (claim_due_schedule db row now draw)) i =
     map_option (\<lambda>r. if ss_id row = i \<and> due_at r now
                     then stamp_claimed now (compute_next_run_at db row now draw) r else r) (row_of db i)"
proof -
  have "List.find (\<lambda>r. ss_id r = i)
      (map (\<lambda>r. if ss_id r = ss_id row \<and> due_at r now
                then stamp_claimed now (compute_next_run_at db row now draw) r else r) (db_schedules db)) =
    map_option (\<lambda>r. if ss_id row = i \<and> due_at r now
                     then stamp_claimed now (compute_next_run_at db row now draw) r else r) (row_of db i)"
    unfolding find_id_map row_of_def
    by (cases "List.find (\<lambda>r. ss_id r = i) (db_schedules db)") (auto dest: find_mem)
  then show ?thesis by (simp add: claim_due_schedule_def row_of_def Let_def)
qed

lemma claim_verdict:
  assumes "distinct (map ss_id (db_schedules db))"
  shows "snd (claim_due_schedule db row now draw) =
     (case row_of db (ss_id row) of
        Some r \<Rightarrow> if due_at r now then Some (stamp_claimed now (compute_next_run_at db row now draw) r) else None
      | None \<Rightarrow> None)"
  using claim_row [of db row now draw "ss_id row"] filter_id_due [OF assms, of "ss_id row" now]
  by (auto simp: claim_due_schedule_def row_of_def Let_def split: option.splits if_splits)

lemma claim_ids: "map ss_id (db_schedules (fst (claim_due_schedule db row now draw))) = map ss_id (db_schedules db)"
  by (auto simp: claim_due_schedule_def Let_def stamp_claimed_def)

lemma claim_valid: "valid_rows db \<Longrightarrow> valid_rows (fst (claim_due_schedule db row now draw))"
  unfolding valid_rows_def claim_ids
  by (auto simp: claim_due_schedule_def Let_def list_all_iff valid_interval_def stamp_claimed_def)

subsection \<open>Many claims\<close>

type_synonym claim_attempt = "scan_schedule \<times> timestamp \<times> duration"

text \<open>Dispatchers claim in the order the database serialises their UPDATEs.  An attempt carries
  the snapshot its dispatcher read, however long ago.  The result is the (row, time) of each
  claim that reported success.\<close>

fun claim_all :: "sched_db \<Rightarrow> claim_attempt list \<Rightarrow> (row_id \<times> timestamp) list" where
  "claim_all db [] = []"
| "claim_all db ((row, now, draw) # as) =
     (let (db', won) = claim_due_schedule db row now draw
      in (if won \<noteq> None then [(ss_id row, now)] else []) @ claim_all db' as)"

definition valid_attempt :: "claim_attempt \<Rightarrow> bool" where
  "valid_attempt = (\<lambda>(row, now, draw). valid_interval row \<and> 0 \<le> draw)"

fun clock_attempts :: "sched_db \<Rightarrow> row_id \<Rightarrow> claim_attempt list \<Rightarrow> (timestamp \<times> timestamp) list" where
  "clock_attempts db i [] = []"
| "clock_attempts db i ((row, now, draw) # as) =
     (if ss_id row = i then [(compute_next_run_at db row now draw, now)] else []) @
     clock_attempts (fst (claim_due_schedule db row now draw)) i as"

lemma clock_attempts_ok:
  "valid_rows db \<Longrightarrow> list_all valid_attempt as \<Longrightarrow> \<forall>(nxt, now)\<in>set (clock_attempts db i as). now < nxt"
proof (induction as arbitrary: db)
  case (Cons a as)
  obtain row now draw where a: "a = (row, now, draw)" by (cases a) auto
  have "now < compute_next_run_at db row now draw"
    using Cons.prems a by (intro next_run_later) (auto simp: valid_rows_def valid_attempt_def)
  moreover have "\<forall>(nxt, now)\<in>set (clock_attempts (fst (claim_due_schedule db row now draw)) i as). now < nxt"
    using Cons.prems by (intro Cons.IH claim_valid) auto
  ultimately show ?case using a by auto
qed simp

lemma claims_of_row:
  "distinct (map ss_id (db_schedules db)) \<Longrightarrow>
   map snd (filter (\<lambda>w. fst w = i) (claim_all db as)) =
     (case row_of db i of None \<Rightarrow> [] | Some r \<Rightarrow> lock.wins r (clock_attempts db i as))"
proof (induction as arbitrary: db)
  case Nil
  show ?case by (simp split: option.split)
next
  case (Cons a as)
  obtain row now draw where a: "a = (row, now, draw)" by (cases a) auto
  let ?db = "fst (claim_due_schedule db row now draw)"
  from Cons.prems have d: "distinct (map ss_id (db_schedules ?db))" by (simp only: claim_ids)
  have IH: "map snd (filter (\<lambda>w. fst w = i) (claim_all ?db as)) =
     (case row_of ?db i of None \<Rightarrow> [] | Some r \<Rightarrow> lock.wins r (clock_attempts ?db i as))"
    by (rule Cons.IH [OF d])
  show ?case
    using IH claim_row [of db row now draw i] claim_verdict [OF Cons.prems, of row now draw]
    by (cases "row_of db i"; cases "ss_id row = i") (auto simp: a split_beta)
qed

text \<open>C2: A due schedule is dispatched by one dispatcher.  Whatever snapshots the dispatchers
  hold and in whatever order their claims reach the database, the successful claims of one
  schedule row happen at strictly increasing times; in particular no two claims made at the
  same instant both succeed.\<close>

theorem claims_are_exclusive:
  assumes "valid_rows db" and "list_all valid_attempt as"
  shows "sorted_wrt (<) (map snd (filter (\<lambda>w. fst w = i) (claim_all db as)))"
  using assms clock_attempts_ok lock.wins_increasing
  by (simp add: claims_of_row valid_rows_def split: option.split)

definition example_default :: scan_schedule where
  "example_default = \<lparr>ss_id = 1, ss_workspace_id = 7, ss_target_id = None, ss_scan_type = FULL_SCAN,
     ss_interval_hours = None, ss_enabled = None, ss_last_run_at = None,
     ss_last_dispatched_count = None, ss_next_run_at = Some 100, ss_created_at = 0, ss_updated_at = 0\<rparr>"

definition example_db :: sched_db where
  "example_db = \<lparr>db_schedules = [example_default], db_targets = [example_target],
     db_workspaces = [\<lparr>ws_id = 7, ws_enforcement_mode = None\<rparr>]\<rparr>"

theorem claims_are_exclusive_witness:
  "claim_all example_db [(example_default, 100, 0), (example_default, 100, 5)] = [(1, 100)] \<and>
   sorted_wrt (<) (map snd (filter (\<lambda>w. fst w = 1)
     (claim_all example_db [(example_default, 100, 0), (example_default, 100, 5)])))"
  using claims_are_exclusive [of example_db "[(example_default, 100, 0), (example_default, 100, 5)]" 1]
  by code_simp

text \<open>What a claim does, on every branch.  It succeeds exactly when the stored row is due
  now; then the returned row, which is the stored one, was run now, is next due strictly
  later, and has no dispatch count yet.  Otherwise the stored row is untouched.  Rows with
  another id are never touched.\<close>

theorem claim_outcome:
  assumes "valid_rows db" and "valid_interval row" and "0 \<le> draw"
    and "claim_due_schedule db row now draw = (db', won)"
  shows "(won \<noteq> None \<longleftrightarrow> (\<exists>r. row_of db (ss_id row) = Some r \<and> due_at r now)) \<and>
    (\<forall>r. won = Some r \<longrightarrow> row_of db' (ss_id row) = Some r \<and> ss_last_run_at r = Some now \<and>
       ss_last_dispatched_count r = None \<and> \<not> due_at r now) \<and>
    (won = None \<longrightarrow> db' = db) \<and>
    (\<forall>i. i \<noteq> ss_id row \<longrightarrow> row_of db' i = row_of db i) \<and> valid_rows db'"
proof -
  have later: "now < compute_next_run_at db row now draw"
    using assms by (intro next_run_later) (auto simp: valid_rows_def)
  have d: "distinct (map ss_id (db_schedules db))" using assms(1) by (simp add: valid_rows_def)
  have v: "won = (case row_of db (ss_id row) of
        Some r \<Rightarrow> if due_at r now then Some (stamp_claimed now (compute_next_run_at db row now draw) r) else None
      | None \<Rightarrow> None)"
    using claim_verdict [OF d, of row now draw] assms(4) by simp
  have rows: "row_of db' i = map_option (\<lambda>r. if ss_id row = i \<and> due_at r now
        then stamp_claimed now (compute_next_run_at db row now draw) r else r) (row_of db i)" for i
    using claim_row [of db row now draw i] assms(4) by simp
  have same: "db' = db" if "won = None"
  proof -
    have "length (filter (\<lambda>r. ss_id r = ss_id row \<and> due_at r now) (db_schedules db)) = 0"
      using that v filter_id_due [OF d, of "ss_id row" now]
      by (auto simp: row_of_def split: option.splits if_splits)
    then have "map (\<lambda>r. if ss_id r = ss_id row \<and> due_at r now
        then stamp_claimed now (compute_next_run_at db row now draw) r else r) (db_schedules db) = db_schedules db"
      by (intro map_idI) (auto simp: filter_empty_conv)
    with assms(4) show ?thesis by (auto simp: claim_due_schedule_def Let_def split: if_splits)
  qed
  have idem: "map_option (\<lambda>r. if ss_id row = i \<and> P r then f r else r) x = x"
    if "i \<noteq> ss_id row" for i P f and x :: "scan_schedule option"
    using that by (cases x) auto
  have won: "row_of db' (ss_id row) = Some r \<and> ss_last_run_at r = Some now \<and>
      ss_last_dispatched_count r = None \<and> \<not> due_at r now" if "won = Some r" for r
    using that v rows [of "ss_id row"] later
    by (simp add: due_at_def stamp_claimed_def split: option.splits if_splits)
      (auto simp: due_at_def stamp_claimed_def)
  have iff: "won \<noteq> None \<longleftrightarrow> (\<exists>r. row_of db (ss_id row) = Some r \<and> due_at r now)"
    using v by (auto split: option.splits)
  have "\<forall>i. i \<noteq> ss_id row \<longrightarrow> row_of db' i = row_of db i"
    using rows idem by simp
  moreover have "valid_rows db'"
    using claim_valid [OF assms(1), of row now draw] assms(4) by simp
  ultimately show ?thesis using won iff same by blast
qed

theorem claim_outcome_witness:
  "snd (claim_due_schedule example_db example_default 100 0) \<noteq> None \<and>
   snd (claim_due_schedule example_db example_default 99 0) = None \<and>
   fst (claim_due_schedule example_db example_default 99 0) = example_db"
proof -
  have v: "valid_rows example_db" "valid_interval example_default" by code_simp+
  have due: "\<exists>r. row_of example_db (ss_id example_default) = Some r \<and> due_at r 100"
    "\<not> (\<exists>r. row_of example_db (ss_id example_default) = Some r \<and> due_at r 99)"
    by (simp_all add: row_of_def example_db_def example_default_def due_at_def)
  have "won \<noteq> None" if "claim_due_schedule example_db example_default 100 0 = (db', won)" for db' won
    using claim_outcome [OF v order_refl that] due by blast
  moreover have "won = None \<and> db' = example_db"
    if "claim_due_schedule example_db example_default 99 0 = (db', won)" for db' won
    using claim_outcome [OF v order_refl that] due by blast
  ultimately show ?thesis
    by (cases "claim_due_schedule example_db example_default 100 0";
        cases "claim_due_schedule example_db example_default 99 0") auto
qed

end
