(* ===== verification/ScheduleCoverage.thy ===== *)
theory ScheduleCoverage
  imports ScheduleLock
begin

text \<open>
  Which row is responsible for a target, and what it says: the two unique constraints of
  the schedule table give every dispatchable target exactly one covering row per scan type,
  the dispatcher's view of that row (\<open>effective_for_row\<close>) is the one the UI shows
  (\<open>resolve_scan_schedule\<close>), and \<open>ensure_workspace_default_rows\<close> establishes the default
  rows the coverage needs while keeping the constraints.
\<close>

subsection \<open>The table's constraints\<close>

definition row_key :: "scan_schedule \<Rightarrow> row_id \<times> row_id option \<times> scan_schedule_type" where
  "row_key r = (ss_workspace_id r, ss_target_id r, ss_scan_type r)"

definition schema_unique :: "sched_db \<Rightarrow> bool" where
  "schema_unique db \<longleftrightarrow> distinct (map row_key (db_schedules db))"

lemma schema_unique_eq:
  "schema_unique db \<Longrightarrow> r \<in> set (db_schedules db) \<Longrightarrow> r' \<in> set (db_schedules db)
   \<Longrightarrow> row_key r = row_key r' \<Longrightarrow> r = r'"
  by (auto simp: schema_unique_def distinct_map dest: inj_onD)

lemma default_row_iff:
  "schema_unique db \<Longrightarrow> workspace_default_row db w ty = Some r \<longleftrightarrow>
     r \<in> set (db_schedules db) \<and> row_key r = (w, None, ty)"
  unfolding workspace_default_row_def
  using schema_unique_eq [of db]
  by (auto simp: row_key_def dest: find_mem intro!: find_unique)

lemma find_target:
  "distinct (map t_id ts) \<Longrightarrow> t \<in> set ts \<Longrightarrow> List.find (\<lambda>x. t_id x = t_id t) ts = Some t"
  by (rule find_unique) (auto simp: distinct_map dest: inj_onD)

subsection \<open>Coverage\<close>

definition own_row :: "sched_db \<Rightarrow> target \<Rightarrow> scan_schedule_type \<Rightarrow> scan_schedule \<Rightarrow> bool" where
  "own_row db t ty r \<longleftrightarrow> r \<in> set (db_schedules db) \<and> row_key r = (t_workspace_id t, Some (t_id t), ty)"

lemma covered_iff:
  assumes "distinct (map t_id (db_targets db))" and "t \<in> set (db_targets db)"
    and "r \<in> set (db_schedules db)"
  shows "t \<in> set (targets_covered_by db r) \<longleftrightarrow> scan_refusal_reason t = None \<and>
     (own_row db t (ss_scan_type r) r \<or>
      row_key r = (t_workspace_id t, None, ss_scan_type r) \<and> (\<forall>q. \<not> own_row db t (ss_scan_type r) q))"
proof (cases "ss_target_id r")
  case None
  have "Some (t_id t) \<in> overridden_targets db r \<longleftrightarrow>
      (\<exists>q\<in>set (db_schedules db). row_key q = (ss_workspace_id r, Some (t_id t), ss_scan_type r))"
    by (auto simp: overridden_targets_def row_key_def image_iff)
  with None assms show ?thesis
    by (auto simp: targets_covered_by_def is_dispatchable_target_def own_row_def row_key_def)
next
  case (Some tid)
  show ?thesis
  proof (cases "tid = t_id t")
    case True
    with Some assms find_target [OF assms(1,2)] show ?thesis
      by (auto simp: targets_covered_by_def is_dispatchable_target_def own_row_def row_key_def)
  next
    case False
    with Some show ?thesis
      by (auto simp: targets_covered_by_def own_row_def row_key_def
          dest: find_mem find_mem [OF sym] split: option.splits if_splits)
  qed
qed

lemma covered_is_target:
  "t \<in> set (targets_covered_by db r) \<Longrightarrow>
     t \<in> set (db_targets db) \<and> t_workspace_id t = ss_workspace_id r \<and> scan_refusal_reason t = None"
  by (auto simp: targets_covered_by_def is_dispatchable_target_def
      dest: find_mem find_mem [OF sym] split: option.splits if_splits)

text \<open>C5: Every target is scanned by exactly one schedule.  Under the table's unique
  constraints, a target that may be scanned, in a workspace that has its default row for a
  scan type, is covered by exactly one row of that type; a deactivated or deleted target is
  covered by none.  So no target is scanned twice per cycle and none is forgotten.\<close>

theorem exactly_one_row_covers:
  assumes "schema_unique db" and "distinct (map t_id (db_targets db))" and "t \<in> set (db_targets db)"
    and "workspace_default_row db (t_workspace_id t) ty \<noteq> None"
  shows "if scan_refusal_reason t = None
    then \<exists>!r. r \<in> set (db_schedules db) \<and> ss_scan_type r = ty \<and> t \<in> set (targets_covered_by db r)
    else \<forall>r. t \<notin> set (targets_covered_by db r)"
proof (cases "scan_refusal_reason t = None")
  case True
  obtain d where d: "d \<in> set (db_schedules db)" "row_key d = (t_workspace_id t, None, ty)"
    using assms(1,4) default_row_iff by blast
  have cov: "t \<in> set (targets_covered_by db r) \<longleftrightarrow>
      own_row db t ty r \<or> row_key r = row_key d \<and> (\<forall>q. \<not> own_row db t ty q)"
    if "r \<in> set (db_schedules db)" and "ss_scan_type r = ty" for r
    using covered_iff [OF assms(2,3) that(1)] that(2) True d by simp
  have ty: "ss_scan_type d = ty" "\<And>q. own_row db t ty q \<Longrightarrow> ss_scan_type q = ty"
    "\<And>q. own_row db t ty q \<Longrightarrow> q \<in> set (db_schedules db)"
    using d by (auto simp: row_key_def own_row_def)
  have "\<exists>!r. r \<in> set (db_schedules db) \<and> ss_scan_type r = ty \<and> t \<in> set (targets_covered_by db r)"
  proof (cases "\<exists>q. own_row db t ty q")
    case True
    then obtain q where q: "own_row db t ty q" ..
    then have "x = q" if "own_row db t ty x" for x
      using that schema_unique_eq [OF assms(1)] by (metis own_row_def)
    with q ty cov show ?thesis by metis
  next
    case False
    with d(1) ty cov schema_unique_eq [OF assms(1)] show ?thesis by metis
  qed
  with True show ?thesis by simp
qed (use covered_is_target in auto)

theorem exactly_one_row_covers_witness:
  "\<exists>!r. r \<in> set (db_schedules example_db) \<and> ss_scan_type r = FULL_SCAN \<and>
     example_target \<in> set (targets_covered_by example_db r)"
proof -
  have "schema_unique example_db" "distinct (map t_id (db_targets example_db))"
    "example_target \<in> set (db_targets example_db)"
    "workspace_default_row example_db (t_workspace_id example_target) FULL_SCAN \<noteq> None"
    "scan_refusal_reason example_target = None"
    by (simp_all add: schema_unique_def example_db_def example_target_def example_default_def
        workspace_default_row_def refusal_iff)
  with exactly_one_row_covers [of example_db example_target FULL_SCAN] show ?thesis by simp
qed

subsection \<open>The dispatcher and the UI agree\<close>

text \<open>A row for the target that is filed under a workspace other than the target's, which nothing in the schema forbids.\<close>

definition misfiled :: "sched_db \<Rightarrow> target \<Rightarrow> scan_schedule_type \<Rightarrow> bool" where
  "misfiled db t ty \<longleftrightarrow> (\<exists>q\<in>set (db_schedules db). ss_target_id q = Some (t_id t) \<and> ss_scan_type q = ty \<and>
     ss_workspace_id q \<noteq> t_workspace_id t)"

lemma own_row_target_row:
  assumes "schema_unique db" and "\<not> misfiled db t ty"
  shows "target_row db (t_id t) ty = Some r \<longleftrightarrow> own_row db t ty r"
proof -
  have key: "row_key q = (t_workspace_id t, Some (t_id t), ty)"
    if "q \<in> set (db_schedules db)" "ss_target_id q = Some (t_id t)" "ss_scan_type q = ty" for q
    using that assms(2) by (auto simp: misfiled_def row_key_def)
  show ?thesis
    unfolding target_row_def own_row_def
    using key schema_unique_eq [OF assms(1)]
    by (auto simp: row_key_def intro!: find_unique dest: find_mem)
qed

text \<open>C40: The dispatcher acts on the schedule the UI shows.  Under the table's unique constraints, for each target a
  row covers, the row's own (enabled, interval) pair, which the dispatcher reads, equals the pair resolved for the
  target; the resolved schedule names that row as the one governing the target and reports that row's last run and last
  dispatched count; and no next run is shown while the schedule is off.  The one exception is a target with a row filed
  under a workspace that is not its own: the resolution follows that row, and the dispatcher passes over it.\<close>

theorem dispatcher_agrees_with_resolution:
  assumes "schema_unique db" and "distinct (map t_id (db_targets db))"
    and "r \<in> set (db_schedules db)" and "t \<in> set (targets_covered_by db r)"
    and "rs = resolve_scan_schedule db t (ss_scan_type r)"
  shows "misfiled db t (ss_scan_type r) \<or>
    effective_for_row db r = (rs_enabled rs, rs_interval_hours rs) \<and>
    rs_schedule_id rs = Some (ss_id r) \<and> rs_last_run_at rs = ss_last_run_at r \<and>
    rs_last_dispatched_count rs = ss_last_dispatched_count r \<and>
    rs_next_run_at rs = (if rs_enabled rs then ss_next_run_at r else None)"
proof (cases "misfiled db t (ss_scan_type r)")
  case False
  have t: "t \<in> set (db_targets db)" and ws: "t_workspace_id t = ss_workspace_id r"
    using assms(4) covered_is_target by auto
  note tr = own_row_target_row [OF assms(1) False]
  consider (own) "own_row db t (ss_scan_type r) r"
    | (default) "row_key r = (t_workspace_id t, None, ss_scan_type r)" "\<forall>q. \<not> own_row db t (ss_scan_type r) q"
    using covered_iff [OF assms(2) t assms(3)] assms(4) by blast
  then show ?thesis
  proof cases
    case own
    then have "target_row db (t_id t) (ss_scan_type r) = Some r" using tr by blast
    with own ws assms(5) show ?thesis
      by (simp add: resolve_scan_schedule_def effective_for_row_def Let_def split_beta
          own_row_def row_key_def)
  next
    case default
    then have "target_row db (t_id t) (ss_scan_type r) = None" using tr by (metis not_None_eq)
    moreover have "workspace_default_row db (t_workspace_id t) (ss_scan_type r) = Some r"
      using default(1) assms(1,3) default_row_iff by blast
    ultimately show ?thesis
      using default ws assms(5)
      by (simp add: resolve_scan_schedule_def effective_for_row_def Let_def split_beta
          overlay_def row_key_def)
  qed
qed simp

theorem dispatcher_agrees_with_resolution_witness:
  "effective_for_row example_db example_default = (True, 24) \<and>
   rs_schedule_id (resolve_scan_schedule example_db example_target FULL_SCAN) = Some 1"
proof -
  have "schema_unique example_db" "\<not> misfiled example_db example_target FULL_SCAN" "distinct (map t_id (db_targets example_db))"
    "example_default \<in> set (db_schedules example_db)" "ss_scan_type example_default = FULL_SCAN"
    "example_target \<in> set (targets_covered_by example_db example_default)" "ss_id example_default = 1"
    by (simp_all add: schema_unique_def misfiled_def example_db_def example_target_def
        example_default_def targets_covered_by_def overridden_targets_def
        is_dispatchable_target_def refusal_iff)
  moreover have "rs_enabled (resolve_scan_schedule example_db example_target FULL_SCAN)"
    "rs_interval_hours (resolve_scan_schedule example_db example_target FULL_SCAN) = 24"
    by code_simp+
  ultimately show ?thesis
    using dispatcher_agrees_with_resolution [of example_db example_default example_target] by simp
qed

text \<open>The exception: another workspace's row for the target turns its schedule off in the UI, and the dispatcher
  goes on by the default row.\<close>

definition misfiled_row :: scan_schedule where
  "misfiled_row = example_default\<lparr>ss_id := 2, ss_workspace_id := 9, ss_target_id := Some 1, ss_enabled := Some False\<rparr>"

lemma misfiled_row_divides:
  "(let db = example_db\<lparr>db_schedules := [example_default, misfiled_row]\<rparr> in
    (map t_id (targets_covered_by db example_default), fst (effective_for_row db example_default),
     rs_enabled (resolve_scan_schedule db example_target FULL_SCAN))) = ([1], True, False)"
  by code_simp

subsection \<open>Materialising the default rows\<close>

text \<open>What the database guarantees of a row committed by the winner of the race: it is the
  workspace's default row for the type, under an id not in use.\<close>

definition race_ok :: "race \<Rightarrow> sched_db \<Rightarrow> bool" where
  "race_ok race db \<longleftrightarrow> (\<forall>ws ty r. race ws ty = Some r \<longrightarrow> row_key r = (ws, None, ty))"

definition has_default :: "sched_db \<Rightarrow> row_id \<times> scan_schedule_type \<Rightarrow> bool" where
  "has_default db = (\<lambda>(ws, ty). workspace_default_row db ws ty \<noteq> None)"

lemma has_default_iff: "has_default db p \<longleftrightarrow> (fst p, None, snd p) \<in> row_key ` set (db_schedules db)"
  by (cases p) (auto simp: has_default_def workspace_default_row_def find_None row_key_def image_iff)

lemma ensure_step:
  assumes "race_ok race db" and "ensure_default_row race now draws p (db, cs) = (db', cs')"
  shows "\<exists>new. db' = db\<lparr>db_schedules := db_schedules db @ new\<rparr> \<and>
     (has_default db p \<longrightarrow> new = [] \<and> cs' = cs) \<and>
     (\<not> has_default db p \<longrightarrow> map row_key new = [(fst p, None, snd p)] \<and> (cs' = cs \<or> cs' = cs @ new))"
  using assms
  by (cases p; cases "workspace_default_row db (fst p) (snd p)"; cases "race (fst p) (snd p)")
    (auto simp: ensure_default_row_def has_default_def race_ok_def Let_def new_default_row_def row_key_def)

lemma ensure_fold:
  assumes "race_ok race db"
  shows "\<exists>new. fst (fold (ensure_default_row race now draws) ps (db, cs)) =
       db\<lparr>db_schedules := db_schedules db @ new\<rparr> \<and>
     set (snd (fold (ensure_default_row race now draws) ps (db, cs))) \<subseteq> set cs \<union> set new \<and>
     (\<forall>p\<in>set ps. has_default (fst (fold (ensure_default_row race now draws) ps (db, cs))) p) \<and>
     (schema_unique db \<longrightarrow> schema_unique (fst (fold (ensure_default_row race now draws) ps (db, cs)))) \<and>
     ((\<forall>p\<in>set ps. has_default db p) \<longrightarrow>
        fold (ensure_default_row race now draws) ps (db, cs) = (db, cs))"
  using assms
proof (induction ps arbitrary: db cs)
  case (Cons p ps)
  obtain db1 cs1 where step: "ensure_default_row race now draws p (db, cs) = (db1, cs1)" by fastforce
  obtain new where new: "db1 = db\<lparr>db_schedules := db_schedules db @ new\<rparr>"
    "has_default db p \<longrightarrow> new = [] \<and> cs1 = cs"
    "\<not> has_default db p \<longrightarrow> map row_key new = [(fst p, None, snd p)] \<and> (cs1 = cs \<or> cs1 = cs @ new)"
    using ensure_step [OF Cons.prems step] by (elim exE conjE) (rule that; assumption)
  let ?res = "fold (ensure_default_row race now draws) ps (db1, cs1)"
  have "race_ok race db1" using Cons.prems by (simp add: race_ok_def)
  from Cons.IH [OF this, of cs1] obtain more where more:
    "fst ?res = db1\<lparr>db_schedules := db_schedules db1 @ more\<rparr>"
    "set (snd ?res) \<subseteq> set cs1 \<union> set more"
    "\<forall>p\<in>set ps. has_default (fst ?res) p"
    "schema_unique db1 \<longrightarrow> schema_unique (fst ?res)"
    "(\<forall>p\<in>set ps. has_default db1 p) \<longrightarrow> ?res = (db1, cs1)"
    by (elim exE conjE) (rule that; assumption)
  have "set cs1 \<subseteq> set cs \<union> set new" using new(2,3) by (cases "has_default db p") auto
  moreover have "(fst p, None, snd p) \<in> row_key ` set (db_schedules db1)"
  proof (cases "has_default db p")
    case False
    with new have "row_key ` set new = {(fst p, None, snd p)}" by (metis list.set(1,2) list.set_map)
    with new(1) show ?thesis by (auto simp: image_Un)
  qed (use new in \<open>auto simp: has_default_iff\<close>)
  then have "has_default (fst ?res) p"
    by (auto simp: has_default_iff more(1))
  moreover have "schema_unique db \<longrightarrow> schema_unique db1"
    using new by (cases "has_default db p") (auto simp: schema_unique_def has_default_iff)
  moreover have "db1 = db" if "has_default db p" using new that by simp
  ultimately have "fst ?res = db\<lparr>db_schedules := db_schedules db @ new @ more\<rparr> \<and>
     set (snd ?res) \<subseteq> set cs \<union> set (new @ more) \<and> (\<forall>p\<in>set (p # ps). has_default (fst ?res) p) \<and>
     (schema_unique db \<longrightarrow> schema_unique (fst ?res)) \<and>
     ((\<forall>p\<in>set (p # ps). has_default db p) \<longrightarrow> ?res = (db, cs))"
    using more new(1,2) by auto
  then show ?case unfolding fold_simps(2) step by blast
qed (auto intro: exI [of _ "[]"])

text \<open>Materialising the defaults is safe on every tick.  Even when another dispatcher wins
  an insert, the call only appends rows: it keeps the table's unique constraints, leaves
  every workspace with a default row for each scan type, returns only rows it added, and
  repeating it, at any time, changes nothing and creates nothing.\<close>

theorem default_rows_idempotent:
  assumes "schema_unique db" and "race_ok race db"
    and "ensure_workspace_default_rows race db now draws = (db', created)"
  shows "(\<exists>new. db_schedules db' = db_schedules db @ new \<and> set created \<subseteq> set new) \<and>
    schema_unique db' \<and>
    (\<forall>w ty. w \<in> set (db_workspaces db') \<longrightarrow> workspace_default_row db' (ws_id w) ty \<noteq> None) \<and>
    ensure_workspace_default_rows race db' later draws' = (db', [])"
proof -
  define ps where "ps = List.product (map ws_id (db_workspaces db)) [FULL_SCAN, API_SCAN]"
  have res: "fold (ensure_default_row race now draws) ps (db, []) = (db', created)"
    using assms(3) by (simp only: ensure_workspace_default_rows_def ps_def)
  from ensure_fold [OF assms(2), of now draws ps "[]", unfolded res fst_conv snd_conv] assms(1)
  obtain new where new: "db' = db\<lparr>db_schedules := db_schedules db @ new\<rparr>"
    "set created \<subseteq> set new" "\<forall>p\<in>set ps. has_default db' p" "schema_unique db'"
    by (simp only: list.set) blast
  have ws: "db_workspaces db' = db_workspaces db" using new(1) by simp
  have "race_ok race db'" using assms(2) by (simp add: race_ok_def)
  from ensure_fold [OF this, of later draws' ps "[]"] new(3)
  have "fold (ensure_default_row race later draws') ps (db', []) = (db', [])" by blast
  then have again: "ensure_workspace_default_rows race db' later draws' = (db', [])"
    using ws by (simp only: ensure_workspace_default_rows_def ps_def)
  have "workspace_default_row db' (ws_id w) ty \<noteq> None" if "w \<in> set (db_workspaces db')" for w ty
  proof -
    have "(ws_id w, ty) \<in> set ps" using that new(1) by (cases ty) (auto simp: ps_def)
    with new(3) show ?thesis by (auto simp: has_default_def)
  qed
  with new again show ?thesis by auto
qed

theorem default_rows_idempotent_witness:
  "workspace_default_row (fst (ensure_workspace_default_rows (\<lambda>_ _. None) example_db 0 (\<lambda>_ _. 7))) 7 API_SCAN \<noteq> None \<and>
   map ss_id (snd (ensure_workspace_default_rows (\<lambda>_ _. None) example_db 0 (\<lambda>_ _. 7))) = [2]"
proof -
  have 1: "schema_unique example_db" by (simp add: schema_unique_def example_db_def)
  have 2: "race_ok (\<lambda>_ _. None) example_db" by (simp add: race_ok_def)
  obtain db' cs where r: "ensure_workspace_default_rows (\<lambda>_ _. None) example_db 0 (\<lambda>_ _. 7) = (db', cs)"
    by fastforce
  from default_rows_idempotent [OF 1 2 r]
  have "\<forall>w ty. w \<in> set (db_workspaces db') \<longrightarrow> workspace_default_row db' (ws_id w) ty \<noteq> None" by blast
  moreover have "map ws_id (db_workspaces (fst (ensure_workspace_default_rows (\<lambda>_ _. None) example_db 0 (\<lambda>_ _. 7)))) = [7]"
    "map ss_id (snd (ensure_workspace_default_rows (\<lambda>_ _. None) example_db 0 (\<lambda>_ _. 7))) = [2]"
    by code_simp+
  ultimately show ?thesis using r by auto
qed

definition fresh_default :: "timestamp \<Rightarrow> scan_schedule \<Rightarrow> bool" where
  "fresh_default now r \<longleftrightarrow> ss_target_id r = None \<and> ss_enabled r = None \<and> ss_interval_hours r = None \<and>
     ss_last_run_at r = None \<and> \<not> due_at r now"

lemma new_default_fresh: "0 \<le> draw \<Longrightarrow> fresh_default now (new_default_row i ws ty now draw)"
  by (cases ty) (simp_all add: fresh_default_def new_default_row_def due_at_def next_run_after_def
      jittered_interval_def)

lemma ensure_fold_fresh:
  "\<forall>w ty. 0 \<le> draws w ty \<Longrightarrow> \<forall>r\<in>set cs. fresh_default now r \<Longrightarrow>
     \<forall>r\<in>set (snd (fold (ensure_default_row race now draws) ps (db, cs))). fresh_default now r"
proof (induction ps arbitrary: db cs)
  case (Cons p ps)
  obtain db1 cs1 where step: "ensure_default_row race now draws p (db, cs) = (db1, cs1)" by fastforce
  then have "\<forall>r\<in>set cs1. fresh_default now r"
    using Cons.prems new_default_fresh
    by (cases p) (auto simp: ensure_default_row_def Let_def split: if_splits option.splits)
  with Cons.IH [OF Cons.prems(1), of cs1 db1] step show ?case by simp
qed simp

text \<open>A materialised row never fires at once.  Each row the call creates is a workspace
  default that inherits every field, has never run, and is not due at the time of the call,
  so a worker restart does not start a fan-out of full scans.\<close>

theorem materialised_rows_wait:
  assumes "\<forall>w ty. valid_draw (sd_interval_hours (SHIPPED_DEFAULTS ty)) (draws w ty)"
    and "r \<in> set (snd (ensure_workspace_default_rows race db now draws))"
  shows "fresh_default now r \<and> r \<notin> set (due_schedules (fst (ensure_workspace_default_rows race db now draws)) now)"
proof -
  have "fresh_default now r"
    using assms ensure_fold_fresh [of draws "[]" now]
    by (auto simp: ensure_workspace_default_rows_def valid_draw_def)
  then show ?thesis by (simp add: due_schedules_def fresh_default_def)
qed

theorem materialised_rows_wait_witness:
  "\<exists>r. r \<in> set (snd (ensure_workspace_default_rows (\<lambda>_ _. None) example_db 0 (\<lambda>_ _. 7))) \<and> fresh_default 0 r"
proof -
  have "map ss_id (snd (ensure_workspace_default_rows (\<lambda>_ _. None) example_db 0 (\<lambda>_ _. 7))) = [2]"
    by code_simp
  then obtain r where r: "r \<in> set (snd (ensure_workspace_default_rows (\<lambda>_ _. None) example_db 0 (\<lambda>_ _. 7)))"
    by (metis list.map_disc_iff list.set_intros(1) not_Cons_self2 list.exhaust)
  moreover have "valid_draw (sd_interval_hours (SHIPPED_DEFAULTS ty)) 7" for ty
    by (cases ty) (simp_all add: valid_draw_def jitter_spread_def MAX_JITTER_def)
  ultimately show ?thesis
    using materialised_rows_wait [of "\<lambda>_ _. 7" r "\<lambda>_ _. None" example_db 0] by blast
qed

end
