(* ===== verification/Choice.thy ===== *)
theory Choice
  imports Prelude
begin

text \<open>
  Picking the strongest of several settings.  Several components let independent settings
  disagree and keep the one of the highest rank: the enforcement modes of a target's groups,
  the days-to-fix of its SLA rules, the severities of a set of findings.  The locale states
  what they share; each component interprets it on its own picking function.
\<close>

locale strongest =
  fixes pick :: "'a list \<Rightarrow> 'a option"
    and rank :: "'a \<Rightarrow> int"
    and eligible :: "'a \<Rightarrow> bool"
  assumes pick_mem: "pick xs = Some x \<Longrightarrow> x \<in> set xs \<and> eligible x"
    and pick_best: "y \<in> set xs \<Longrightarrow> eligible y \<Longrightarrow> \<exists>x. pick xs = Some x \<and> rank y \<le> rank x"
begin

lemma pick_None: "pick xs = None \<longleftrightarrow> (\<forall>x\<in>set xs. \<not> eligible x)"
  using pick_best pick_mem by (metis not_None_eq)

lemma pick_max: "pick xs = Some x \<Longrightarrow> y \<in> set xs \<Longrightarrow> eligible y \<Longrightarrow> rank y \<le> rank x"
  using pick_best by (metis option.inject)

text \<open>More settings never weaken the choice, and only the set of them matters.\<close>

lemma pick_mono: "set xs \<subseteq> set ys \<Longrightarrow> pick xs = Some x \<Longrightarrow> \<exists>y. pick ys = Some y \<and> rank x \<le> rank y"
  using pick_best pick_mem by (meson subsetD)

lemma pick_set_rank:
  "set xs = set ys \<Longrightarrow> pick xs = Some x \<Longrightarrow> pick ys = Some y \<Longrightarrow> rank x = rank y"
  by (metis order_antisym pick_max pick_mem)

lemma pick_set:
  assumes "\<And>x y. eligible x \<Longrightarrow> eligible y \<Longrightarrow> rank x = rank y \<Longrightarrow> x = y" and "set xs = set ys"
  shows "pick xs = pick ys"
proof (cases "pick xs")
  case None
  with assms(2) pick_None show ?thesis by metis
next
  case (Some x)
  then obtain y where y: "pick ys = Some y" using assms(2) pick_mono [of xs ys x] by auto
  with Some assms show ?thesis using pick_set_rank pick_mem by metis
qed

end

text \<open>Python's \<open>max(xs, key=...)\<close>: the first element of the largest key.\<close>

fun first_max_from :: "('a \<Rightarrow> int) \<Rightarrow> 'a \<Rightarrow> 'a list \<Rightarrow> 'a" where
  "first_max_from key best [] = best"
| "first_max_from key best (x # xs) = first_max_from key (if key x > key best then x else best) xs"

definition first_max :: "('a \<Rightarrow> int) \<Rightarrow> 'a list \<Rightarrow> 'a option" where
  "first_max key xs = (case xs of [] \<Rightarrow> None | x # xs \<Rightarrow> Some (first_max_from key x xs))"

lemma first_max_from_in: "first_max_from key b xs \<in> insert b (set xs)"
  by (induction xs arbitrary: b) fastforce+

lemma first_max_from_ge: "y \<in> insert b (set xs) \<Longrightarrow> key y \<le> key (first_max_from key b xs)"
proof (induction xs arbitrary: b y)
  case (Cons x xs)
  let ?b = "if key x > key b then x else b"
  from Cons.IH [of ?b ?b] have "key ?b \<le> key (first_max_from key ?b xs)" by simp
  moreover have "key b \<le> key ?b" "key x \<le> key ?b" by auto
  ultimately show ?case using Cons.prems Cons.IH [of y ?b] by fastforce
qed simp

lemma strongest_first_max: "strongest (first_max key) key (\<lambda>_. True)"
proof unfold_locales
  show "x \<in> set xs \<and> True" if "first_max key xs = Some x" for xs and x :: 'a
    using that first_max_from_in by (fastforce simp: first_max_def split: list.splits)
  show "\<exists>x. first_max key xs = Some x \<and> key y \<le> key x" if "y \<in> set xs" for xs and y :: 'a
    using that first_max_from_ge [of y _ _ key] by (cases xs) (auto simp: first_max_def)
qed

end
