(* ===== verification/Tables.thy ===== *)
theory Tables
  imports Breakdown Lifecycle Choice
begin

text \<open>
  The database the findings components share: a record of tables, each the list of its rows
  in row order.  A query is a filter, \<open>.first()\<close> is \<open>List.find\<close>, \<open>session.get\<close> looks a row up by
  its id, an UPDATE through the ORM maps over the rows with that id, and an INSERT appends a
  row under an id above every one in use.
\<close>

record scoring_weight =
  sw_workspace_id :: row_id
  sw_signal :: scoring_signal
  sw_weight :: raw_weight

record platform_config =
  pc_jira_url :: string
  pc_jira_api_token :: string
  pc_jira_auto_create_severity :: "string option"
  pc_siem_webhook_url :: string
  pc_siem_export_severity :: "string option"

record db =
  d_workspaces :: "workspace list"
  d_targets :: "target list"
  d_groups :: "group_row list"
  d_target_groups :: "target_group list"
  d_scans :: "scan list"
  d_findings :: "finding list"
  d_logs :: "finding_state_log list"
  d_fp_rules :: "false_positive_rule list"
  d_policies :: "policy_rule list"
  d_sla_rules :: "sla_rule list"
  d_endpoints :: "api_endpoint list"
  d_pr_scans :: "pr_guardrail_scan list"
  d_pr_findings :: "pr_guardrail_finding list"
  d_enrichments :: "cve_enrichment list"
  d_weights :: "scoring_weight list"
  d_sbom :: "sbom_component list"
  d_config :: "platform_config option"

definition empty_db :: db where
  "empty_db = \<lparr>d_workspaces = [], d_targets = [], d_groups = [], d_target_groups = [], d_scans = [],
     d_findings = [], d_logs = [], d_fp_rules = [], d_policies = [], d_sla_rules = [],
     d_endpoints = [], d_pr_scans = [], d_pr_findings = [], d_enrichments = [], d_weights = [], d_sbom = [],
     d_config = None\<rparr>"

subsection \<open>Rows by id\<close>

definition next_id :: "('r \<Rightarrow> row_id) \<Rightarrow> 'r list \<Rightarrow> row_id" where
  "next_id key rows = fold (\<lambda>r n. max n (key r + 1)) rows 1"

definition get_target :: "db \<Rightarrow> row_id \<Rightarrow> target option" where
  "get_target db i = List.find (\<lambda>t. t_id t = i) (d_targets db)"

definition get_finding :: "db \<Rightarrow> row_id \<Rightarrow> finding option" where
  "get_finding db i = List.find (\<lambda>f. f_id f = i) (d_findings db)"

definition update_rows :: "('r \<Rightarrow> row_id) \<Rightarrow> row_id \<Rightarrow> ('r \<Rightarrow> 'r) \<Rightarrow> 'r list \<Rightarrow> 'r list" where
  "update_rows key i g rows = map (\<lambda>r. if key r = i then g r else r) rows"

definition update_finding :: "row_id \<Rightarrow> (finding \<Rightarrow> finding) \<Rightarrow> db \<Rightarrow> db" where
  "update_finding i g db = db\<lparr>d_findings := update_rows f_id i g (d_findings db)\<rparr>"

definition add_log :: "finding_state_log \<Rightarrow> db \<Rightarrow> db" where
  "add_log l db = db\<lparr>d_logs := d_logs db @ [l]\<rparr>"

lemma next_id_fold_ge: "(n :: int) \<le> fold (\<lambda>r n. max n (key r + 1)) rows n"
proof (induction rows arbitrary: n)
  case (Cons x rows)
  from Cons.IH [of "max n (key x + 1)"] show ?case by simp
qed simp

lemma next_id_fold: "r \<in> set rows \<Longrightarrow> key r < fold (\<lambda>r n. max n (key r + 1 :: int)) rows n"
proof (induction rows arbitrary: n)
  case (Cons x rows)
  then show ?case using next_id_fold_ge [of "max n (key x + 1)" key rows] by (cases "r = x") auto
qed simp

lemma next_id_fresh: "r \<in> set rows \<Longrightarrow> key r < next_id key rows"
  by (simp add: next_id_def next_id_fold)

lemma next_id_notin: "next_id key rows \<notin> key ` set rows"
  using next_id_fresh [of _ rows key] by (metis imageE less_irrefl)

lemma update_rows_keys:
  "(\<And>r. key (g r) = key r) \<Longrightarrow> map key (update_rows key i g rows) = map key rows"
  by (simp add: update_rows_def)

lemma update_rows_mem:
  "r \<in> set (update_rows key i g rows) \<longleftrightarrow>
     (\<exists>q\<in>set rows. (key q = i \<and> r = g q) \<or> (key q \<noteq> i \<and> r = q))"
  by (auto simp: update_rows_def image_iff)

lemma update_rows_filter:
  "(\<And>r. P (g r) = P r) \<Longrightarrow> filter P (update_rows key i g rows) = update_rows key i g (filter P rows)"
  by (simp add: update_rows_def filter_map comp_def if_distrib [of P] cong: if_cong)

end
