(* ===== verification/ScoringConfig.thy ===== *)
theory ScoringConfig
  imports Tables
begin

text \<open>
  Where the scoring engine's signals come from: \<open>core/fixability.py\<close> (can the finding be
  closed today) and \<open>core/scoring_config.py\<close> (the weights of a workspace and the signals of
  a finding, read from the tables and never from the network).
\<close>

subsection \<open>\<open>fixability.py\<close>\<close>

definition FIXABLE :: string where "FIXABLE = ''fixable''"
definition NO_KNOWN_FIX :: string where "NO_KNOWN_FIX = ''no_known_fix''"
definition UNKNOWN :: string where "UNKNOWN = ''unknown''"
definition VALID_FIXABILITY :: "string list" where
  "VALID_FIXABILITY = [FIXABLE, NO_KNOWN_FIX, UNKNOWN]"

definition fixability_for_enrichment :: "cve_enrichment option \<Rightarrow> string" where
  "fixability_for_enrichment row =
     (case row of
        None \<Rightarrow> UNKNOWN
      | Some r \<Rightarrow>
          if \<not> ce_osv_found r then UNKNOWN
          else (case ce_fixed_versions r of
                  NoText \<Rightarrow> NO_KNOWN_FIX
                | Unparseable \<Rightarrow> UNKNOWN
                | Entries versions \<Rightarrow> if versions \<noteq> [] then FIXABLE else NO_KNOWN_FIX))"

definition enrichment_of :: "db \<Rightarrow> string \<Rightarrow> cve_enrichment option" where
  "enrichment_of db cve = List.find (\<lambda>r. ce_cve_id r = cve) (d_enrichments db)"

definition has_cve :: "string option \<Rightarrow> bool" where
  "has_cve cve \<longleftrightarrow> cve \<noteq> None \<and> cve \<noteq> Some []"

definition fixability_for_finding :: "db \<Rightarrow> finding \<Rightarrow> string" where
  "fixability_for_finding db f =
     (if \<not> has_cve (f_cve_id f) then UNKNOWN
      else fixability_for_enrichment (enrichment_of db (the (f_cve_id f))))"

text \<open>The sort key of a version: each dotted chunk is a number or, failing that, text, and
  numbers sort below text.\<close>

datatype version_chunk = Num nat | Txt string

fun chunk_less :: "version_chunk \<Rightarrow> version_chunk \<Rightarrow> bool" where
  "chunk_less (Num m) (Num n) = (m < n)"
| "chunk_less (Num m) (Txt t) = True"
| "chunk_less (Txt s) (Num n) = False"
| "chunk_less (Txt s) (Txt t) = str_less s t"

fun chunks_less :: "version_chunk list \<Rightarrow> version_chunk list \<Rightarrow> bool" where
  "chunks_less [] [] = False"
| "chunks_less [] (y # ys) = True"
| "chunks_less (x # xs) [] = False"
| "chunks_less (x # xs) (y # ys) = (chunk_less x y \<or> (x = y \<and> chunks_less xs ys))"

definition version_key :: "fix_entry \<Rightarrow> version_chunk list" where
  "version_key e =
     map (\<lambda>chunk. if str_isdigit chunk then Num (str_nat chunk) else Txt chunk)
       (split_on CHR ''.'' (case fx_fixed e of None \<Rightarrow> [] | Some s \<Rightarrow> s))"

fun lowest_entry :: "fix_entry \<Rightarrow> fix_entry list \<Rightarrow> fix_entry" where
  "lowest_entry best [] = best"
| "lowest_entry best (e # es) =
     lowest_entry (if chunks_less (version_key e) (version_key best) then e else best) es"

definition fixed_version_summary :: "cve_enrichment option \<Rightarrow> string option" where
  "fixed_version_summary row =
     (case row of
        None \<Rightarrow> None
      | Some r \<Rightarrow>
          (case ce_fixed_versions r of
             Entries (v # vs) \<Rightarrow>
               (let best = lowest_entry v vs in
                case fx_fixed best of
                  None \<Rightarrow> None
                | Some fixed \<Rightarrow>
                    if fixed = [] then None
                    else (case fx_package best of
                            None \<Rightarrow> Some fixed
                          | Some p \<Rightarrow> if p = [] then Some fixed
                                      else Some (fixed @ '' ('' @ p @ '')'')))
           | _ \<Rightarrow> None))"

subsection \<open>\<open>scoring_config.py\<close>\<close>

definition workspace_scoring_weights :: "db \<Rightarrow> row_id option \<Rightarrow> weights" where
  "workspace_scoring_weights db workspace_id =
     (case workspace_id of
        None \<Rightarrow> BASELINE_WEIGHTS
      | Some ws \<Rightarrow>
          resolve_weights (map (\<lambda>r. (Known (sw_signal r), sw_weight r))
            (filter (\<lambda>r. sw_workspace_id r = ws) (d_weights db))))"

definition SIGNAL_ORDER :: "scoring_signal list" where
  "SIGNAL_ORDER = [S_SEVERITY, S_CVSS_EXPLOITABILITY, S_EPSS, S_KEV, S_INTERNET_EXPOSURE,
     S_DEPENDENCY_SCOPE, S_BUSINESS_CRITICALITY, S_FIXABILITY]"

record catalog_entry =
  cat_signal :: scoring_signal
  cat_label :: string
  cat_baseline_weight :: rat
  cat_max_points :: "int option"
  cat_contribution :: contribution_kind

definition signal_catalog :: "catalog_entry list" where
  "signal_catalog =
     map (\<lambda>s. \<lparr>cat_signal = s, cat_label = SIGNAL_LABELS s, cat_baseline_weight = BASELINE_WEIGHTS s,
               cat_max_points = SIGNAL_MAX_POINTS s, cat_contribution = SIGNAL_CONTRIBUTION s\<rparr>)
       SIGNAL_ORDER"

definition cvss_for_enrichment :: "cve_enrichment option \<Rightarrow> cvss_decomposition" where
  "cvss_for_enrichment row =
     (case row of
        None \<Rightarrow> parse_cvss_vector None
      | Some r \<Rightarrow>
          (let stored = \<lparr>version = ce_cvss_version r, attack_vector = ce_cvss_attack_vector r,
                         attack_complexity = ce_cvss_attack_complexity r,
                         privileges_required = ce_cvss_privileges_required r,
                         user_interaction = ce_cvss_user_interaction r\<rparr>
           in if \<not> is_unknown stored then stored else parse_cvss_vector (ce_cvss_vector r)))"

definition breakdown_for_signals ::
  "finding \<Rightarrow> target option \<Rightarrow> cve_enrichment option \<Rightarrow> weights \<Rightarrow> cvss_error + score_breakdown" where
  "breakdown_for_signals f t enrichment w =
     compute_score_breakdown (f_severity f)
       (case t of None \<Rightarrow> 1 | Some t \<Rightarrow> t_criticality_weight t)
       \<lparr>sg_epss_score = f_epss_score f, sg_kev_listed = f_kev_listed f,
        sg_cvss = Some (cvss_for_enrichment enrichment), sg_cve_id = f_cve_id f,
        sg_target_label = map_option t_label t,
        sg_target_environment = Option.bind t t_environment,
        sg_target_owner = Option.bind t t_owner,
        sg_fixability = Some (if has_cve (f_cve_id f) then fixability_for_enrichment enrichment else UNKNOWN),
        sg_dependency_scope = Some (f_dependency_scope f)\<rparr>
       (as_overrides w)"

definition score_breakdown_for_finding :: "db \<Rightarrow> finding \<Rightarrow> cvss_error + score_breakdown" where
  "score_breakdown_for_finding db f =
     (let t = get_target db (f_target_id f);
          enrichment = (if has_cve (f_cve_id f) then enrichment_of db (the (f_cve_id f)) else None);
          w = workspace_scoring_weights db (map_option t_workspace_id t)
      in breakdown_for_signals f t enrichment w)"

text \<open>A dict comprehension over the rows: the last row of a CVE wins.\<close>

definition enrichment_map :: "db \<Rightarrow> string list \<Rightarrow> string \<rightharpoonup> cve_enrichment" where
  "enrichment_map db cve_ids =
     (if cve_ids = [] then Map.empty
      else map_of (rev (map (\<lambda>r. (ce_cve_id r, r)) (filter (\<lambda>r. ce_cve_id r \<in> set cve_ids) (d_enrichments db)))))"

lemma signal_order_covers: "set SIGNAL_ORDER = UNIV \<and> distinct SIGNAL_ORDER"
proof -
  have "s \<in> set SIGNAL_ORDER" for s by (cases s) (simp_all add: SIGNAL_ORDER_def)
  then show ?thesis by (auto simp: SIGNAL_ORDER_def)
qed

end
