(* ===== verification/FpLearning.thy ===== *)
theory FpLearning
  imports Tables
begin

text \<open>
  Fingerprints and false positives: \<open>core/dedup.py\<close>, \<open>core/fp_learning.py\<close> and
  \<open>core/triage.py\<close>.  \<open>hashlib.sha256(...).hexdigest()\<close> is the argument \<open>digest\<close>; nothing below
  depends on which function it is.
\<close>

subsection \<open>\<open>dedup.py\<close>\<close>

text \<open>\<open>re.sub(r"\s+", " ", s)\<close>: each run of white space becomes one space.  \<open>in_space\<close> tells
  whether the run the previous character belongs to has been written.\<close>

fun collapse :: "bool \<Rightarrow> string \<Rightarrow> string" where
  "collapse in_space [] = []"
| "collapse in_space (c # cs) =
     (if is_space c then (if in_space then collapse True cs else CHR '' '' # collapse True cs)
      else c # collapse False cs)"

definition normalize_snippet :: "string \<Rightarrow> string" where
  "normalize_snippet snippet = collapse False (str_strip snippet)"

definition int_str :: "int \<Rightarrow> string" where
  "int_str n = (if n < 0 then CHR ''-'' # nat_str (nat (- n)) else nat_str (nat n))"

definition dedup_text ::
  "string \<Rightarrow> string \<Rightarrow> string \<Rightarrow> string \<Rightarrow> int option \<Rightarrow> string" where
  "dedup_text rule_id file_path tool snippet line_start =
     (let stable_context =
            (if snippet \<noteq> [] then normalize_snippet snippet
             else ''line:'' @ (case line_start of None \<Rightarrow> ''None'' | Some n \<Rightarrow> int_str n))
      in str_lower (str_strip rule_id) @ ''|'' @ str_lower (str_strip file_path) @ ''|''
         @ str_lower (str_strip tool) @ ''|'' @ stable_context)"

definition compute_dedup_hash ::
  "(string \<Rightarrow> string) \<Rightarrow> string \<Rightarrow> string \<Rightarrow> string \<Rightarrow> string \<Rightarrow> int option \<Rightarrow> string" where
  "compute_dedup_hash digest rule_id file_path tool snippet line_start =
     digest (dedup_text rule_id file_path tool snippet line_start)"

subsection \<open>\<open>fp_learning.py\<close>\<close>

definition AUTO_SUPPRESS_REASON_PREFIX :: string where
  "AUTO_SUPPRESS_REASON_PREFIX = ''auto-suppressed via learned false-positive rule''"

definition basename :: "string \<Rightarrow> string" where
  "basename s = rev (takeWhile (\<lambda>c. c \<noteq> CHR ''/'') (rev s))"

definition file_path_pattern :: "string \<Rightarrow> string option" where
  "file_path_pattern file_path =
     (if file_path = [] then None
      else
        (let base = str_lower (basename (map (\<lambda>c. if c = CHR 0x5C then CHR ''/'' else c) (str_strip file_path)))
         in if base = [] then None else Some base))"

type_synonym signature = "string \<times> string \<times> string option"

definition extract_signature :: "finding \<Rightarrow> signature" where
  "extract_signature f = (f_rule_id f, f_tool f, file_path_pattern (f_file_path f))"

definition rule_key :: "false_positive_rule \<Rightarrow> row_id \<times> signature" where
  "rule_key r = (r_workspace_id r, r_rule_id r, r_tool r, r_file_path_pattern r)"

definition new_fp_rule ::
  "row_id \<Rightarrow> row_id \<Rightarrow> signature \<Rightarrow> row_id \<Rightarrow> string \<Rightarrow> timestamp \<Rightarrow> false_positive_rule" where
  "new_fp_rule i ws sig fid actor now =
     \<lparr>r_id = i, r_workspace_id = ws, r_rule_id = fst sig, r_tool = fst (snd sig),
      r_file_path_pattern = snd (snd sig), r_source_finding_id = Some fid, r_created_by = actor,
      r_created_at = now, r_active = True, r_match_count = 0, r_last_matched_at = None\<rparr>"

definition relearn :: "row_id \<Rightarrow> string \<Rightarrow> timestamp \<Rightarrow> false_positive_rule \<Rightarrow> false_positive_rule" where
  "relearn fid actor now r =
     r\<lparr>r_active := True, r_source_finding_id := Some fid, r_created_by := actor, r_created_at := now\<rparr>"

definition learn_suppression_rule ::
  "timestamp \<Rightarrow> string \<Rightarrow> finding \<Rightarrow> db \<Rightarrow> false_positive_rule option \<times> db" where
  "learn_suppression_rule now actor f db =
     (case get_target db (f_target_id f) of
        None \<Rightarrow> (None, db)
      | Some t \<Rightarrow>
          (let sig = extract_signature f in
           case List.find (\<lambda>r. rule_key r = (t_workspace_id t, sig)) (d_fp_rules db) of
             Some r \<Rightarrow>
               (Some (relearn (f_id f) actor now r),
                db\<lparr>d_fp_rules := update_rows r_id (r_id r) (relearn (f_id f) actor now) (d_fp_rules db)\<rparr>)
           | None \<Rightarrow>
               (let r = new_fp_rule (next_id r_id (d_fp_rules db)) (t_workspace_id t) sig (f_id f) actor now
                in (Some r, db\<lparr>d_fp_rules := d_fp_rules db @ [r]\<rparr>))))"

definition find_matching_rule ::
  "db \<Rightarrow> row_id \<Rightarrow> string \<Rightarrow> string \<Rightarrow> string \<Rightarrow> false_positive_rule option" where
  "find_matching_rule db ws rule_id tool file_path =
     (let pattern = file_path_pattern file_path;
          candidates = filter (\<lambda>r. r_workspace_id r = ws \<and> r_rule_id r = rule_id \<and> r_tool r = tool \<and> r_active r)
                         (d_fp_rules db) in
      if candidates = [] then None
      else (case filter (\<lambda>r. r_file_path_pattern r \<noteq> None \<and> r_file_path_pattern r = pattern) candidates of
              r # _ \<Rightarrow> Some r
            | [] \<Rightarrow> (case filter (\<lambda>r. r_file_path_pattern r = None) candidates of
                       r # _ \<Rightarrow> Some r
                     | [] \<Rightarrow> None)))"

definition log_entry ::
  "finding \<Rightarrow> finding_state \<Rightarrow> string \<Rightarrow> string \<Rightarrow> string option \<Rightarrow> timestamp \<Rightarrow> finding_state_log" where
  "log_entry f to_state reason actor batch now =
     \<lparr>l_finding_id = f_id f, l_from_state = f_state f, l_to_state = to_state, l_reason = reason,
      l_actor = actor, l_created_at = now, l_batch_id = batch\<rparr>"

definition apply_auto_suppression :: "timestamp \<Rightarrow> false_positive_rule \<Rightarrow> finding \<Rightarrow> db \<Rightarrow> db" where
  "apply_auto_suppression now rule f db =
     (let reason = AUTO_SUPPRESS_REASON_PREFIX @ '' #'' @ int_str (r_id rule);
          db1 = add_log (log_entry f FALSE_POSITIVE reason ''system'' None now) db;
          db2 = update_finding (f_id f) (\<lambda>f. f\<lparr>f_state := FALSE_POSITIVE, f_state_reason := reason\<rparr>) db1
      in db2\<lparr>d_fp_rules := update_rows r_id (r_id rule)
            (\<lambda>r. r\<lparr>r_match_count := r_match_count r + 1, r_last_matched_at := Some now\<rparr>) (d_fp_rules db2)\<rparr>)"

subsection \<open>\<open>triage.py\<close>\<close>

definition apply_triage ::
  "timestamp \<Rightarrow> finding \<Rightarrow> finding_state \<Rightarrow> string \<Rightarrow> string \<Rightarrow> string option \<Rightarrow> db \<Rightarrow> db" where
  "apply_triage now f to_state reason actor batch_id db =
     (let db1 = add_log (log_entry f to_state reason actor batch_id now)
                  (update_finding (f_id f) (\<lambda>f. f\<lparr>f_state := to_state\<rparr>) db)
      in if to_state = FALSE_POSITIVE then snd (learn_suppression_rule now actor (f\<lparr>f_state := to_state\<rparr>) db1)
         else db1)"

subsection \<open>The fingerprint\<close>

lemma is_space_space [simp]: "is_space CHR '' ''"
  by (simp add: is_space_def)

lemma collapse_idem: "collapse b (collapse b s) = collapse b s"
  by (induction b s rule: collapse.induct) auto

lemma collapse_strip_ends:
  "s = [] \<or> \<not> is_space (hd s) \<and> \<not> is_space (last s) \<Longrightarrow>
   collapse False s = [] \<or> \<not> is_space (hd (collapse False s)) \<and> \<not> is_space (last (collapse False s))"
proof (cases s)
  case (Cons c cs)
  assume s: "s = [] \<or> \<not> is_space (hd s) \<and> \<not> is_space (last s)"
  have "\<not> is_space (last t) \<Longrightarrow> t \<noteq> [] \<Longrightarrow> collapse b t \<noteq> [] \<and> last (collapse b t) = last t" for b t
    by (induction b t rule: collapse.induct) (auto split: if_splits)
  from this [of s False] s Cons show ?thesis by simp
qed simp

end
