(* ===== verification/Ingestion.thy ===== *)
theory Ingestion
  imports ScoringConfig FpLearning
begin

text \<open>
  \<open>core/ingestion.py\<close> and \<open>core/scan_health.py\<close>: one scan's parsed findings are merged into
  the findings table.  What the function fetches is in the record \<open>ingest_world\<close>: the
  digest of the fingerprint, the clock, the EPSS and KEV lookups and the enrichment warm-up,
  which may add rows to the cache.  The calls to Jira, the SIEM webhook and the
  notification channels are the result's list of alerts.  A scoring error (\<open>KeyError\<close> on a
  stored metric value) aborts the run; what its caller then commits is up to the caller
  (\<open>partial_ingest\<close> of ScanTask).
\<close>

subsection \<open>\<open>scan_health.py\<close>\<close>

record scan_health =
  sh_tool :: string
  sh_reasons :: "string list"

definition HEALTHY :: string where "HEALTHY = ''healthy''"
definition SUSPECT :: string where "SUSPECT = ''suspect''"
definition HEALTH_UNKNOWN :: string where "HEALTH_UNKNOWN = ''unknown''"
definition MAX_NOTE_LENGTH :: nat where "MAX_NOTE_LENGTH = 500"

definition healthy :: "scan_health \<Rightarrow> bool" where "healthy h \<longleftrightarrow> sh_reasons h = []"

definition health_status :: "scan_health \<Rightarrow> string" where
  "health_status h = (if healthy h then HEALTHY else SUSPECT)"

definition degrade :: "string \<Rightarrow> scan_health \<Rightarrow> scan_health" where
  "degrade reason h =
     (if reason \<noteq> [] \<and> reason \<notin> set (sh_reasons h) then h\<lparr>sh_reasons := sh_reasons h @ [reason]\<rparr> else h)"

text \<open>The one-character ellipsis, which is not among the first 256 code points, is written as
  the character 0x85.\<close>

definition summary :: "scan_health \<Rightarrow> string" where
  "summary h =
     (let text = join ''; '' (sh_reasons h) in
      if length text > MAX_NOTE_LENGTH then take (MAX_NOTE_LENGTH - 1) text @ [CHR 0x85] else text)"

definition trusted :: "string \<Rightarrow> scan_health" where
  "trusted tool = \<lparr>sh_tool = tool, sh_reasons = []\<rparr>"

subsection \<open>The input of a run\<close>

record scan_item =
  i_rule_id :: string
  i_title :: string
  i_description :: string
  i_file_path :: string
  i_snippet :: string
  i_line_start :: "int option"
  i_line_end :: "int option"
  i_severity :: severity
  i_cve_id :: "string option"
  i_dependency_scope :: string
  i_package_name :: "string option"

record ingest_world =
  iw_digest :: "string \<Rightarrow> string"
  iw_now :: timestamp
  iw_epss :: "string list \<Rightarrow> string \<rightharpoonup> rat"
  iw_kev :: "string list"
  iw_warm :: "string list \<Rightarrow> cve_enrichment list \<Rightarrow> cve_enrichment list"
  iw_lost :: "string list \<Rightarrow> cve_enrichment list \<Rightarrow> bool"

datatype notification_event = CRITICAL_FINDING | KEV_CVE | MALICIOUS_PACKAGE

datatype alert = JiraTicket row_id | SiemExport row_id | Notify notification_event row_id

subsection \<open>Hooks on new findings\<close>

definition severity_of_value :: "string \<Rightarrow> severity option" where
  "severity_of_value s = List.find (\<lambda>v. severity_value v = s) [CRITICAL, HIGH, MEDIUM, LOW, INFO]"

definition meets_auto_create_threshold :: "severity \<Rightarrow> string \<Rightarrow> bool" where
  "meets_auto_create_threshold sev threshold =
     (case severity_of_value threshold of None \<Rightarrow> False | Some t \<Rightarrow> t \<le> sev)"

definition maybe_auto_create_jira_ticket :: "db \<Rightarrow> finding \<Rightarrow> alert list" where
  "maybe_auto_create_jira_ticket db f =
     (case d_config db of
        None \<Rightarrow> []
      | Some c \<Rightarrow>
          (case pc_jira_auto_create_severity c of
             None \<Rightarrow> []
           | Some s \<Rightarrow>
               if s = [] \<or> pc_jira_url c = [] \<or> pc_jira_api_token c = [] then []
               else if meets_auto_create_threshold (f_severity f) s then [JiraTicket (f_id f)] else []))"

definition maybe_export_to_siem :: "db \<Rightarrow> finding \<Rightarrow> alert list" where
  "maybe_export_to_siem db f =
     (case d_config db of
        None \<Rightarrow> []
      | Some c \<Rightarrow>
          (case pc_siem_export_severity c of
             None \<Rightarrow> []
           | Some s \<Rightarrow>
               if pc_siem_webhook_url c = [] \<or> s = [] then []
               else if meets_auto_create_threshold (f_severity f) s then [SiemExport (f_id f)] else []))"

definition maybe_notify_new_finding :: "finding \<Rightarrow> alert list" where
  "maybe_notify_new_finding f =
     (if f_severity f = CRITICAL then [Notify CRITICAL_FINDING (f_id f)] else []) @
     (if f_kev_listed f then [Notify KEV_CVE (f_id f)] else []) @
     (if f_tool f = ''osv-malware'' then [Notify MALICIOUS_PACKAGE (f_id f)] else [])"

definition new_finding_alerts :: "db \<Rightarrow> finding \<Rightarrow> alert list" where
  "new_finding_alerts db f =
     maybe_auto_create_jira_ticket db f @ maybe_export_to_siem db f @ maybe_notify_new_finding f"

subsection \<open>May this run clear findings?\<close>

definition NO_EVIDENCE :: string where
  "NO_EVIDENCE = ''this run reported no findings and supplied no evidence that it completed, ''
     @ ''so existing findings were left as they are''"

definition may_mitigate :: "scan_item list \<Rightarrow> scan_health option \<Rightarrow> bool \<times> string" where
  "may_mitigate parsed health =
     (case health of
        Some h \<Rightarrow> if healthy h then (True, []) else (False, summary h)
      | None \<Rightarrow> if parsed \<noteq> [] then (True, []) else (False, NO_EVIDENCE))"

subsection \<open>The run\<close>

definition transition ::
  "timestamp \<Rightarrow> finding_state \<Rightarrow> string \<Rightarrow> string \<Rightarrow> finding \<Rightarrow> db \<Rightarrow> db" where
  "transition now to_state reason actor f db =
     update_finding (f_id f)
       (\<lambda>f. f\<lparr>f_state := to_state,
              f_mitigated_at := (if to_state = MITIGATED then Some now else f_mitigated_at f)\<rparr>)
       (add_log (log_entry f to_state reason actor None now) db)"

definition batch_cve_ids :: "scan_item list \<Rightarrow> string list" where
  "batch_cve_ids parsed =
     sort_str (remdups (map (\<lambda>i. the (i_cve_id i)) (filter (\<lambda>i. has_cve (i_cve_id i)) parsed)))"

text \<open>What the loop closes over: the run's arguments and the lookups made before it.\<close>

record ingest_run =
  ir_world :: ingest_world
  ir_target :: target
  ir_scan_id :: row_id
  ir_tool :: string
  ir_branch :: string
  ir_weights :: weights
  ir_enrichments :: "string \<rightharpoonup> cve_enrichment"
  ir_epss :: "string \<rightharpoonup> rat"
  ir_kev :: "string list"

definition score_for ::
  "ingest_run \<Rightarrow> severity \<Rightarrow> string option \<Rightarrow> rat option \<Rightarrow> bool \<Rightarrow> string \<Rightarrow> cvss_error + int" where
  "score_for run sev cve epss kev scope =
     (let t = ir_target run;
          enrichment = (if has_cve cve then ir_enrichments run (the cve) else None)
      in compute_priority_score sev (t_criticality_weight t)
           \<lparr>sg_epss_score = epss, sg_kev_listed = kev,
            sg_cvss = Some (cvss_for_enrichment enrichment), sg_cve_id = cve,
            sg_target_label = Some (t_label t), sg_target_environment = t_environment t,
            sg_target_owner = t_owner t,
            sg_fixability = Some (if has_cve cve then fixability_for_enrichment enrichment else UNKNOWN),
            sg_dependency_scope = Some scope\<rparr>
           (as_overrides (ir_weights run)))"

definition item_hash :: "ingest_run \<Rightarrow> scan_item \<Rightarrow> string" where
  "item_hash run item =
     compute_dedup_hash (iw_digest (ir_world run)) (i_rule_id item) (i_file_path item) (ir_tool run)
       (i_snippet item) (i_line_start item)"

definition same_finding :: "ingest_run \<Rightarrow> string \<Rightarrow> finding \<Rightarrow> bool" where
  "same_finding run h f \<longleftrightarrow>
     f_dedup_hash f = h \<and> f_target_id f = t_id (ir_target run) \<and> f_branch f = ir_branch run"

definition observe_again :: "ingest_run \<Rightarrow> scan_item \<Rightarrow> int \<Rightarrow> finding \<Rightarrow> finding" where
  "observe_again run item points f =
     f\<lparr>f_last_seen := iw_now (ir_world run), f_scan_id := Some (ir_scan_id run),
       f_package_name := i_package_name item, f_priority_score := points\<rparr>"

definition new_finding ::
  "ingest_run \<Rightarrow> scan_item \<Rightarrow> row_id \<Rightarrow> rat option \<Rightarrow> bool \<Rightarrow> int \<Rightarrow> finding" where
  "new_finding run item i epss kev points =
     \<lparr>f_id = i, f_target_id = t_id (ir_target run), f_scan_id = Some (ir_scan_id run),
      f_dedup_hash = item_hash run item, f_tool = ir_tool run, f_rule_id = i_rule_id item,
      f_title = (if i_title item = [] then i_rule_id item else i_title item),
      f_description = i_description item, f_file_path = i_file_path item,
      f_line_start = i_line_start item, f_line_end = i_line_end item,
      f_severity = i_severity item, f_priority_score = points,
      f_dependency_scope = i_dependency_scope item, f_package_name = i_package_name item,
      f_branch = ir_branch run, f_state = OPEN, f_state_reason = [], f_cve_id = i_cve_id item,
      f_epss_score = epss, f_kev_listed = kev, f_first_seen = iw_now (ir_world run),
      f_last_seen = iw_now (ir_world run), f_mitigated_at = None\<rparr>"

text \<open>The loop body; the second component collects the ids of \<open>newly_created\<close>.\<close>

definition ingest_item ::
  "ingest_run \<Rightarrow> scan_item \<Rightarrow> db \<times> row_id list \<Rightarrow> cvss_error + db \<times> row_id list" where
  "ingest_item run item = (\<lambda>(db, created).
     case List.find (same_finding run (item_hash run item)) (d_findings db) of
       Some f \<Rightarrow>
         (case score_for run (f_severity f) (f_cve_id f) (f_epss_score f) (f_kev_listed f) ''unknown'' of
            Inl e \<Rightarrow> Inl e
          | Inr points \<Rightarrow>
              (let db1 = update_finding (f_id f) (observe_again run item points) db
               in Inr (if f_state f = MITIGATED
                       then transition (iw_now (ir_world run)) REOPENED ''reappeared in scan'' ''system''
                              (observe_again run item points f) db1
                       else db1, created)))
     | None \<Rightarrow>
         (let cve = i_cve_id item;
              epss = (if has_cve cve then ir_epss run (the cve) else None);
              kev = (has_cve cve \<and> the cve \<in> set (ir_kev run)) in
          case score_for run (i_severity item) cve epss kev (i_dependency_scope item) of
            Inl e \<Rightarrow> Inl e
          | Inr points \<Rightarrow>
              (let f = new_finding run item (next_id f_id (d_findings db)) epss kev points
               in Inr (db\<lparr>d_findings := d_findings db @ [f]\<rparr>, created @ [f_id f]))))"

fun ingest_items ::
  "ingest_run \<Rightarrow> scan_item list \<Rightarrow> db \<times> row_id list \<Rightarrow> cvss_error + db \<times> row_id list" where
  "ingest_items run [] st = Inr st"
| "ingest_items run (item # items) st =
     (case ingest_item run item st of Inl e \<Rightarrow> Inl e | Inr st' \<Rightarrow> ingest_items run items st')"

definition suppress_created :: "ingest_run \<Rightarrow> row_id \<Rightarrow> db \<Rightarrow> db" where
  "suppress_created run i db =
     (case get_finding db i of
        None \<Rightarrow> db
      | Some f \<Rightarrow>
          (case find_matching_rule db (t_workspace_id (ir_target run)) (f_rule_id f) (f_tool f) (f_file_path f) of
             None \<Rightarrow> db
           | Some rule \<Rightarrow> apply_auto_suppression (iw_now (ir_world run)) rule f db))"

definition created_alerts :: "db \<Rightarrow> row_id \<Rightarrow> alert list" where
  "created_alerts db i =
     (case get_finding db i of
        None \<Rightarrow> []
      | Some f \<Rightarrow> if f_state f = FALSE_POSITIVE then [] else new_finding_alerts db f)"

definition stale_findings :: "ingest_run \<Rightarrow> string list \<Rightarrow> db \<Rightarrow> finding list" where
  "stale_findings run seen db =
     filter (\<lambda>f. f_target_id f = t_id (ir_target run) \<and> f_branch f = ir_branch run \<and>
        f_tool f = ir_tool run \<and> f_state f = OPEN \<and> f_dedup_hash f \<notin> set seen) (d_findings db)"

definition mitigate_stale :: "ingest_run \<Rightarrow> string list \<Rightarrow> db \<Rightarrow> db" where
  "mitigate_stale run seen db =
     fold (\<lambda>f. transition (iw_now (ir_world run)) MITIGATED ''not present in latest scan'' ''system'' f)
       (stale_findings run seen db) db"

definition CONSEQUENCE :: string where
  "CONSEQUENCE = ''Existing findings were left open rather than mitigated.''"

definition finish_scan ::
  "timestamp \<Rightarrow> nat \<Rightarrow> scan_health option \<Rightarrow> bool \<times> string \<Rightarrow> scan \<Rightarrow> scan" where
  "finish_scan now n health verdict s =
     (let hs = (case health of None \<Rightarrow> HEALTH_UNKNOWN | Some h \<Rightarrow> health_status h);
          note = (case health of None \<Rightarrow> if fst verdict then [] else snd verdict | Some h \<Rightarrow> summary h);
          note' = (if \<not> fst verdict \<and> hs = SUSPECT then
                     (if note \<noteq> [] then note @ ''. '' @ CONSEQUENCE else CONSEQUENCE)
                   else note)
      in s\<lparr>s_findings_count := int n, s_status := ''completed'', s_completed_at := Some now,
           s_health := hs, s_health_note := note'\<rparr>)"

definition start_run ::
  "ingest_world \<Rightarrow> target \<Rightarrow> row_id \<Rightarrow> string \<Rightarrow> string \<Rightarrow> scan_item list \<Rightarrow> db \<Rightarrow> ingest_run \<times> db" where
  "start_run w t scan_id tool branch parsed db =
     (let cve_ids = batch_cve_ids parsed;
          db1 = (if cve_ids \<noteq> [] then db\<lparr>d_enrichments := iw_warm w cve_ids (d_enrichments db)\<rparr> else db)
      in (\<lparr>ir_world = w, ir_target = t, ir_scan_id = scan_id, ir_tool = tool, ir_branch = branch,
           ir_weights = workspace_scoring_weights db (Some (t_workspace_id t)),
           ir_enrichments = enrichment_map db1 cve_ids,
           ir_epss = (if cve_ids \<noteq> [] then iw_epss w cve_ids else Map.empty),
           ir_kev = (if cve_ids \<noteq> [] then iw_kev w else [])\<rparr>, db1))"

text \<open>A run that raises: on a metric outside its table, or because a statement failed while the cache was warmed,
  after which the session runs no other until it is rolled back, and nothing rolls it back.\<close>

datatype ingest_error = ScoringError cvss_error | SessionLost

definition ingest_findings ::
  "ingest_world \<Rightarrow> target \<Rightarrow> row_id \<Rightarrow> string \<Rightarrow> string \<Rightarrow> scan_item list \<Rightarrow> scan_health option \<Rightarrow> db
     \<Rightarrow> ingest_error + db \<times> alert list" where
  "ingest_findings w t scan_id tool branch parsed health db =
     (let (run, db1) = start_run w t scan_id tool branch parsed db in
      if batch_cve_ids parsed \<noteq> [] \<and> iw_lost w (batch_cve_ids parsed) (d_enrichments db) then Inl SessionLost
      else case ingest_items run parsed (db1, []) of
        Inl e \<Rightarrow> Inl (ScoringError e)
      | Inr (db2, created) \<Rightarrow>
          (let db3 = fold (suppress_created run) created db2;
               alerts = concat (map (created_alerts db3) created);
               verdict = may_mitigate parsed health;
               db4 = (if fst verdict then mitigate_stale run (map (item_hash run) parsed) db3 else db3);
               db5 = db4\<lparr>d_scans := update_rows s_id scan_id
                       (finish_scan (iw_now w) (length parsed) health verdict) (d_scans db4)\<rparr>
           in Inr (db5, alerts)))"

end
