(* ===== verification/FpProps.thy ===== *)
theory FpProps
  imports FpLearning
begin

text \<open>
  What the fingerprint of a finding depends on, and what marking one finding as a false
  positive does to later ones.
\<close>

subsection \<open>The fingerprint\<close>

text \<open>The words of a snippet: its maximal runs of characters that are not white space.\<close>

fun words_from :: "string \<Rightarrow> string \<Rightarrow> string list" where
  "words_from w [] = (if w = [] then [] else [w])"
| "words_from w (c # cs) =
     (if is_space c then (if w = [] then words_from [] cs else w # words_from [] cs)
      else words_from (w @ [c]) cs)"

definition words :: "string \<Rightarrow> string list" where "words s = words_from [] s"

lemma words_from_nonempty: "w \<noteq> [] \<or> (s \<noteq> [] \<and> \<not> is_space (last s)) \<Longrightarrow> words_from w s \<noteq> []"
  by (induction w s rule: words_from.induct) (auto split: if_splits)

lemma join_words:
  shows "w \<noteq> [] \<Longrightarrow> s = [] \<or> \<not> is_space (last s) \<Longrightarrow> join '' '' (words_from w s) = w @ collapse False s"
    and "w = [] \<Longrightarrow> s \<noteq> [] \<Longrightarrow> \<not> is_space (last s) \<Longrightarrow> join '' '' (words_from w s) = collapse True s"
proof (induction s arbitrary: w)
  case (Cons c cs)
  {
    case 1
    show ?case
    proof (cases "is_space c")
      case True
      with 1(2) have cs: "cs \<noteq> []" "\<not> is_space (last cs)" by (auto split: if_splits)
      then obtain v vs where v: "words_from [] cs = v # vs"
        using words_from_nonempty [of "[]" cs] by (cases "words_from [] cs") auto
      from True 1(1) v Cons.IH(2) [of "[]"] cs show ?thesis by simp
    next
      case False
      with 1 Cons.IH(1) [of "w @ [c]"] show ?thesis by (auto split: if_splits)
    qed
  next
    case 2
    show ?case
    proof (cases "is_space c")
      case True
      with 2(3) have "cs \<noteq> []" "\<not> is_space (last cs)" by (auto split: if_splits)
      with True 2(1) Cons.IH(2) [of "[]"] show ?thesis by simp
    next
      case False
      with 2 Cons.IH(1) [of "[c]"] show ?thesis by (auto split: if_splits)
    qed
  }
qed auto

lemma words_lead: "words_from [] (dropWhile is_space s) = words_from [] s"
  by (induction s) auto

lemma words_trail: "list_all is_space t \<Longrightarrow> words_from w (s @ t) = words_from w s"
proof (induction w s rule: words_from.induct)
  case (1 w)
  have "list_all is_space t \<Longrightarrow> words_from [] t = []" for t
    by (induction t) auto
  with 1 show ?case by (cases t) auto
qed auto

lemma strip_parts:
  obtains t where "dropWhile is_space s = str_strip s @ t" and "list_all is_space t"
    and "str_strip s = [] \<or> \<not> is_space (hd (str_strip s)) \<and> \<not> is_space (last (str_strip s))"
proof -
  let ?d = "dropWhile is_space s"
  have strip: "str_strip s = rev (dropWhile is_space (rev ?d))" by (simp add: str_strip_def)
  have split: "?d = str_strip s @ rev (takeWhile is_space (rev ?d))"
    by (metis strip rev_append rev_rev_ident takeWhile_dropWhile_id)
  have sp: "list_all is_space (rev (takeWhile is_space (rev ?d)))"
    by (auto simp: list_all_iff dest: set_takeWhileD)
  have "\<not> is_space (last (str_strip s))" if "str_strip s \<noteq> []"
    using that hd_dropWhile [of is_space "rev ?d"] by (simp add: strip last_rev)
  moreover have "\<not> is_space (hd (str_strip s))" if "str_strip s \<noteq> []"
  proof -
    have "hd ?d = hd (str_strip s)" "?d \<noteq> []" using split that by (metis hd_append, metis append_is_Nil_conv)
    then show ?thesis using hd_dropWhile by metis
  qed
  ultimately show thesis using that split sp by blast
qed

lemma normalize_is_words: "normalize_snippet s = join '' '' (words s)"
proof -
  obtain t where t: "dropWhile is_space s = str_strip s @ t" "list_all is_space t"
    and ends: "str_strip s = [] \<or> \<not> is_space (hd (str_strip s)) \<and> \<not> is_space (last (str_strip s))"
    by (rule strip_parts)
  have w: "words s = words_from [] (str_strip s)"
    using words_lead [of s] t words_trail unfolding words_def by metis
  show ?thesis
  proof (cases "str_strip s")
    case Nil
    then show ?thesis by (simp add: normalize_snippet_def w)
  next
    case (Cons c cs)
    with ends have "\<not> is_space c" "cs = [] \<or> \<not> is_space (last cs)" by (auto split: if_splits)
    with Cons show ?thesis using join_words(1) [of "[c]" cs] by (simp add: normalize_snippet_def w)
  qed
qed

definition plain :: "string \<Rightarrow> bool" where "plain s \<longleftrightarrow> CHR ''|'' \<notin> set s"

definition canonical :: "string \<Rightarrow> string" where "canonical s = str_lower (str_strip s)"

lemma strip_subset: "set (str_strip s) \<subseteq> set s"
  by (auto simp: str_strip_def dest!: set_dropWhileD)

lemma lower_bar: "char_lower c = CHR ''|'' \<Longrightarrow> c = CHR ''|''"
proof -
  assume l: "char_lower c = CHR ''|''"
  show ?thesis
  proof (cases "65 \<le> (of_char c :: nat) \<and> of_char c \<le> (90 :: nat)")
    case True
    with l have "char_of (of_char c + 32 :: nat) = CHR ''|''" by (simp add: char_lower_def)
    then have "(of_char (char_of (of_char c + 32 :: nat)) :: nat) = of_char (CHR ''|'')" by simp
    with True show ?thesis by simp
  qed (use l in \<open>auto simp: char_lower_def Let_def split: if_splits\<close>)
qed

lemma plain_canonical: "plain s \<Longrightarrow> CHR ''|'' \<notin> set (canonical s)"
proof
  assume s: "plain s" and "CHR ''|'' \<in> set (canonical s)"
  then obtain x where "x \<in> set (str_strip s)" "char_lower x = CHR ''|''"
    by (auto simp: canonical_def str_lower_def)
  then have "CHR ''|'' \<in> set s" using strip_subset lower_bar by blast
  with s show False by (simp add: plain_def)
qed

lemma bar_split:
  "c \<notin> set a \<Longrightarrow> c \<notin> set b \<Longrightarrow> a @ c # x = b @ c # y \<longleftrightarrow> a = b \<and> x = y"
proof (induction a arbitrary: b)
  case Nil
  then show ?case by (cases b) auto
next
  case (Cons d a)
  then show ?case by (cases b) auto
qed

text \<open>The fingerprint identifies the finding, not its place.  For a digest without
  collisions and rule, path and tool names without the separator, two findings that come
  with a code snippet have the same fingerprint exactly when rule, path and tool agree up
  to case and outer white space and the snippets have the same words; the line number and
  the layout of the code play no part.\<close>

theorem fingerprint_ignores_layout:
  assumes "inj digest" and "list_all plain [r, p, t, r', p', t']" and "s \<noteq> []" and "s' \<noteq> []"
  shows "compute_dedup_hash digest r p t s line = compute_dedup_hash digest r' p' t' s' line' \<longleftrightarrow>
     canonical r = canonical r' \<and> canonical p = canonical p' \<and> canonical t = canonical t' \<and>
     join '' '' (words s) = join '' '' (words s')"
proof -
  have "compute_dedup_hash digest r p t s line = compute_dedup_hash digest r' p' t' s' line' \<longleftrightarrow>
      dedup_text r p t s line = dedup_text r' p' t' s' line'"
    using assms(1) by (simp add: compute_dedup_hash_def inj_eq)
  also have "\<dots> \<longleftrightarrow> canonical r @ CHR ''|'' # canonical p @ CHR ''|'' # canonical t @ CHR ''|'' # normalize_snippet s =
      canonical r' @ CHR ''|'' # canonical p' @ CHR ''|'' # canonical t' @ CHR ''|'' # normalize_snippet s'"
    using assms(3,4) by (simp add: dedup_text_def canonical_def)
  also have "\<dots> \<longleftrightarrow> canonical r = canonical r' \<and> canonical p = canonical p' \<and>
      canonical t = canonical t' \<and> normalize_snippet s = normalize_snippet s'"
    using assms(2) by (simp add: bar_split plain_canonical)
  finally show ?thesis by (simp add: normalize_is_words)
qed

theorem fingerprint_ignores_layout_witness:
  "compute_dedup_hash (\<lambda>s. s) '' R1'' ''a.py'' ''semgrep'' ''f (x)'' (Some 3) =
   compute_dedup_hash (\<lambda>s. s) ''r1'' ''A.py'' ''semgrep'' ''  f   (x) '' (Some 90)"
proof -
  have "inj (\<lambda>s :: string. s)" by simp
  moreover have "list_all plain ['' R1'', ''a.py'', ''semgrep'', ''r1'', ''A.py'', ''semgrep'']"
    by (simp add: plain_def)
  moreover have "canonical '' R1'' = canonical ''r1''" "canonical ''a.py'' = canonical ''A.py''"
    "words ''f (x)'' = words ''  f   (x) ''"
    by code_simp+
  ultimately show ?thesis
    using fingerprint_ignores_layout [of "\<lambda>s. s" "'' R1''" "''a.py''" "''semgrep''" "''r1''" "''A.py''"
        "''semgrep''" "''f (x)''" "''  f   (x) ''" "Some 3" "Some 90"] by simp
qed

subsection \<open>Learning from a verdict\<close>

text \<open>A store that learns: what is known after learning is what was known before and what
  was taught, as long as the store is well formed, which learning keeps.\<close>

locale learner =
  fixes ok :: "'s \<Rightarrow> bool"
    and knows :: "'s \<Rightarrow> 'k \<Rightarrow> bool"
    and learn :: "'x \<Rightarrow> 's \<Rightarrow> 's"
    and taught :: "'s \<Rightarrow> 'x \<Rightarrow> 'k option"
  assumes learn_ok: "ok s \<Longrightarrow> ok (learn x s)"
    and learn_knows: "ok s \<Longrightarrow> knows (learn x s) k \<longleftrightarrow> knows s k \<or> taught s x = Some k"
    and learn_taught: "taught (learn x s) y = taught s y"
begin

lemma learn_all: "ok s \<Longrightarrow> knows (fold learn xs s) k \<longleftrightarrow> knows s k \<or> (\<exists>x\<in>set xs. taught s x = Some k)"
  by (induction xs arbitrary: s) (auto simp: learn_ok learn_knows learn_taught)

lemma learn_order: "ok s \<Longrightarrow> set xs = set ys \<Longrightarrow> knows (fold learn xs s) k = knows (fold learn ys s) k"
  by (simp add: learn_all)

end

definition fp_ok :: "db \<Rightarrow> bool" where
  "fp_ok db \<longleftrightarrow> distinct (map r_id (d_fp_rules db)) \<and> distinct (map rule_key (d_fp_rules db))"

definition suppresses :: "db \<Rightarrow> row_id \<times> signature \<Rightarrow> bool" where
  "suppresses db k \<longleftrightarrow> list_ex (\<lambda>r. r_active r \<and> rule_key r = k) (d_fp_rules db)"

definition verdict_key :: "db \<Rightarrow> timestamp \<times> string \<times> finding \<Rightarrow> (row_id \<times> signature) option" where
  "verdict_key db = (\<lambda>(now, actor, f).
     map_option (\<lambda>t. (t_workspace_id t, extract_signature f)) (get_target db (f_target_id f)))"

definition learn_verdict :: "timestamp \<times> string \<times> finding \<Rightarrow> db \<Rightarrow> db" where
  "learn_verdict = (\<lambda>(now, actor, f) db. snd (learn_suppression_rule now actor f db))"

lemma relearn_sel [simp]:
  "r_id (relearn i a n r) = r_id r" "rule_key (relearn i a n r) = rule_key r" "r_active (relearn i a n r)"
  by (simp_all add: relearn_def rule_key_def)

lemma new_fp_rule_sel [simp]:
  "r_id (new_fp_rule i ws sig fid a n) = i" "rule_key (new_fp_rule i ws sig fid a n) = (ws, sig)"
  "r_active (new_fp_rule i ws sig fid a n)"
  by (simp_all add: new_fp_rule_def rule_key_def)

lemma learn_frame:
  "d_targets (learn_verdict x db) = d_targets db" "d_findings (learn_verdict x db) = d_findings db"
  "d_logs (learn_verdict x db) = d_logs db"
  by (cases x; simp add: learn_verdict_def learn_suppression_rule_def Let_def split: option.split)+

lemma learn_verdict_rules:
  assumes "fp_ok db"
  shows "fp_ok (learn_verdict x db) \<and>
    (suppresses (learn_verdict x db) k \<longleftrightarrow> suppresses db k \<or> verdict_key db x = Some k)"
proof -
  obtain now actor f where x: "x = (now, actor, f)" by (cases x) auto
  show ?thesis
  proof (cases "get_target db (f_target_id f)")
    case None
    then show ?thesis using assms
      by (simp add: x learn_verdict_def learn_suppression_rule_def verdict_key_def)
  next
    case (Some t)
    let ?k = "(t_workspace_id t, extract_signature f)"
    show ?thesis
    proof (cases "List.find (\<lambda>r. rule_key r = ?k) (d_fp_rules db)")
      case None
      then have fresh: "?k \<notin> rule_key ` set (d_fp_rules db)" by (auto simp: find_None)
      show ?thesis
        using Some None assms fresh next_id_notin [of r_id "d_fp_rules db"]
        by (auto simp: x learn_verdict_def learn_suppression_rule_def verdict_key_def fp_ok_def
            suppresses_def Let_def)
    next
      case (Some r)
      have r: "r \<in> set (d_fp_rules db)" "rule_key r = ?k" using find_mem [OF Some] by simp_all
      let ?rs = "update_rows r_id (r_id r) (relearn (f_id f) actor now) (d_fp_rules db)"
      have db: "learn_verdict x db = db\<lparr>d_fp_rules := ?rs\<rparr>"
        using Some \<open>get_target db (f_target_id f) = Some t\<close>
        by (simp add: x learn_verdict_def learn_suppression_rule_def Let_def)
      have same: "q = r" if "q \<in> set (d_fp_rules db)" and "r_id q = r_id r" for q
        using that r(1) assms by (auto simp: fp_ok_def distinct_map dest: inj_onD)
      have keys: "map r_id ?rs = map r_id (d_fp_rules db)" "map rule_key ?rs = map rule_key (d_fp_rules db)"
        by (simp_all add: update_rows_def)
      define g where "g p = (if r_id p = r_id r then relearn (f_id f) actor now p else p)" for p
      have active: "r_active (g p) \<and> rule_key (g p) = k \<longleftrightarrow> r_active p \<and> rule_key p = k \<or> p = r \<and> k = ?k"
        if "p \<in> set (d_fp_rules db)" for p using that r same [of p] by (auto simp: g_def)
      have "suppresses (db\<lparr>d_fp_rules := ?rs\<rparr>) k \<longleftrightarrow> suppresses db k \<or> k = ?k"
      proof -
        have "suppresses (db\<lparr>d_fp_rules := ?rs\<rparr>) k \<longleftrightarrow>
            (\<exists>p\<in>set (d_fp_rules db). r_active p \<and> rule_key p = k \<or> p = r \<and> k = ?k)"
          using active by (simp add: suppresses_def list_ex_iff update_rows_def flip: g_def)
        with r(1) show ?thesis by (auto simp: suppresses_def list_ex_iff)
      qed
      then show ?thesis
        using db assms keys \<open>get_target db (f_target_id f) = Some t\<close>
        by (auto simp: fp_ok_def verdict_key_def x)
    qed
  qed
qed

interpretation verdicts: learner fp_ok suppresses learn_verdict verdict_key
  by unfold_locales
    (use learn_verdict_rules in blast, use learn_verdict_rules in blast,
     simp add: verdict_key_def get_target_def learn_frame)

lemma find_matching_exact:
  "suppresses db (ws, rule_id, tool, Some b) \<Longrightarrow> file_path_pattern p = Some b \<Longrightarrow>
   \<exists>r. find_matching_rule db ws rule_id tool p = Some r \<and> r_file_path_pattern r = Some b"
proof -
  assume k: "suppresses db (ws, rule_id, tool, Some b)" and b: "file_path_pattern p = Some b"
  let ?c = "filter (\<lambda>r. r_workspace_id r = ws \<and> r_rule_id r = rule_id \<and> r_tool r = tool \<and> r_active r) (d_fp_rules db)"
  let ?e = "filter (\<lambda>r. r_file_path_pattern r \<noteq> None \<and> r_file_path_pattern r = file_path_pattern p) ?c"
  from k obtain q where "q \<in> set (d_fp_rules db)" "r_active q" "rule_key q = (ws, rule_id, tool, Some b)"
    by (auto simp: suppresses_def list_ex_iff)
  with b have q: "q \<in> set ?e" by (simp add: rule_key_def)
  then have "?e \<noteq> []" by (metis empty_iff list.set(1))
  then obtain r rs where r: "?e = r # rs" by (meson list.exhaust)
  then have "r \<in> set ?e" by (metis list.set_intros(1))
  with b have "r_file_path_pattern r = Some b" by simp
  moreover have "?c \<noteq> []" using q by fastforce
  ultimately show ?thesis using r by (simp add: find_matching_rule_def Let_def)
qed

lemma find_matching_sound:
  assumes "find_matching_rule db ws rule_id tool p = Some r"
  shows "r \<in> set (d_fp_rules db) \<and> r_active r \<and> r_workspace_id r = ws \<and> r_rule_id r = rule_id \<and> r_tool r = tool \<and>
     (r_file_path_pattern r = file_path_pattern p \<and> r_file_path_pattern r \<noteq> None \<or>
      r_file_path_pattern r = None \<and>
      (\<forall>b. file_path_pattern p = Some b \<longrightarrow> \<not> suppresses db (ws, rule_id, tool, Some b)))"
proof -
  let ?c = "filter (\<lambda>r. r_workspace_id r = ws \<and> r_rule_id r = rule_id \<and> r_tool r = tool \<and> r_active r) (d_fp_rules db)"
  let ?e = "filter (\<lambda>r. r_file_path_pattern r \<noteq> None \<and> r_file_path_pattern r = file_path_pattern p) ?c"
  let ?n = "filter (\<lambda>r. r_file_path_pattern r = None) ?c"
  have res: "find_matching_rule db ws rule_id tool p =
      (case ?e of r # _ \<Rightarrow> Some r | [] \<Rightarrow> (case ?n of r # _ \<Rightarrow> Some r | [] \<Rightarrow> None))"
    by (cases "?c = []") (simp_all only: find_matching_rule_def Let_def if_True if_False filter.simps list.case simp_thms)
  show ?thesis
  proof (cases ?e)
    case (Cons q qs)
    then have "q \<in> set ?e" by (metis list.set_intros(1))
    moreover have "r = q" using res [unfolded Cons] assms by simp
    ultimately show ?thesis by auto
  next
    case Nil
    then have no: "\<forall>b. file_path_pattern p = Some b \<longrightarrow> \<not> suppresses db (ws, rule_id, tool, Some b)"
      by (fastforce simp: suppresses_def list_ex_iff rule_key_def filter_empty_conv)
    from res [unfolded Nil] assms obtain qs where "?n = r # qs" by (cases ?n) simp_all
    then have "r \<in> set ?n" by (metis list.set_intros(1))
    with no show ?thesis by simp
  qed
qed

lemma triage_learns:
  "apply_triage now f FALSE_POSITIVE reason actor batch db =
     learn_verdict (now, actor, f\<lparr>f_state := FALSE_POSITIVE\<rparr>)
       (add_log (log_entry f FALSE_POSITIVE reason actor batch now)
         (update_finding (f_id f) (\<lambda>f. f\<lparr>f_state := FALSE_POSITIVE\<rparr>) db))"
  by (simp add: apply_triage_def learn_verdict_def Let_def)

text \<open>C39: A false-positive verdict is learned once and applied to the same shape only.  After
  a triage to false positive, a later finding of the same workspace, rule and tool in a
  file of the same base name is matched by an active rule for exactly that file name; the
  signatures that suppress are the earlier ones and the one just learned; and no signature
  ever gets a second rule.\<close>

theorem verdict_is_learned:
  assumes "fp_ok db" and "get_target db (f_target_id f) = Some t"
    and "db' = apply_triage now f FALSE_POSITIVE reason actor batch db"
  shows "fp_ok db' \<and>
    (\<forall>k. suppresses db' k \<longleftrightarrow> suppresses db k \<or> k = (t_workspace_id t, extract_signature f)) \<and>
    (\<forall>p b. file_path_pattern (f_file_path f) = Some b \<and> file_path_pattern p = Some b \<longrightarrow>
       (\<exists>r. find_matching_rule db' (t_workspace_id t) (f_rule_id f) (f_tool f) p = Some r \<and>
            r_active r \<and> r_file_path_pattern r = Some b))"
proof -
  let ?x = "(now, actor, f\<lparr>f_state := FALSE_POSITIVE\<rparr>)"
  let ?d = "add_log (log_entry f FALSE_POSITIVE reason actor batch now)
         (update_finding (f_id f) (\<lambda>f. f\<lparr>f_state := FALSE_POSITIVE\<rparr>) db)"
  have same: "d_fp_rules ?d = d_fp_rules db" "d_targets ?d = d_targets db"
    by (simp_all add: add_log_def update_finding_def)
  have ok: "fp_ok ?d" using assms(1) same by (simp add: fp_ok_def)
  have key: "verdict_key ?d ?x = Some (t_workspace_id t, extract_signature f)"
    using assms(2) same by (simp add: verdict_key_def get_target_def extract_signature_def)
  have db': "db' = learn_verdict ?x ?d" using assms(3) triage_learns by simp
  have knows: "suppresses db' k \<longleftrightarrow> suppresses db k \<or> k = (t_workspace_id t, extract_signature f)" for k
    using verdicts.learn_knows [OF ok, of ?x k] key same unfolding db' by (auto simp: suppresses_def)
  have match: "\<exists>r. find_matching_rule db' (t_workspace_id t) (f_rule_id f) (f_tool f) p = Some r \<and>
            r_active r \<and> r_file_path_pattern r = Some b"
    if "file_path_pattern (f_file_path f) = Some b" and p: "file_path_pattern p = Some b" for p b
  proof -
    have "suppresses db' (t_workspace_id t, f_rule_id f, f_tool f, Some b)"
      using knows that by (simp add: extract_signature_def)
    from find_matching_exact [OF this p] find_matching_sound show ?thesis by blast
  qed
  show ?thesis using knows match verdicts.learn_ok [OF ok] db' by blast
qed

definition example_finding :: finding where
  "example_finding = \<lparr>f_id = 11, f_target_id = 1, f_scan_id = Some 3, f_dedup_hash = ''h'',
     f_tool = ''semgrep'', f_rule_id = ''xss'', f_title = ''XSS'', f_description = [],
     f_file_path = ''src/View.py'', f_line_start = Some 4, f_line_end = Some 4, f_severity = HIGH,
     f_priority_score = 480, f_dependency_scope = ''unknown'', f_package_name = None,
     f_branch = ''main'', f_state = OPEN, f_state_reason = [], f_cve_id = None, f_epss_score = None,
     f_kev_listed = False, f_first_seen = 0, f_last_seen = 0, f_mitigated_at = None\<rparr>"

definition triage_db :: db where
  "triage_db = empty_db\<lparr>d_targets := [example_target], d_findings := [example_finding]\<rparr>"

theorem verdict_is_learned_witness:
  "\<exists>r. find_matching_rule (apply_triage 50 example_finding FALSE_POSITIVE ''ok'' ''ann'' None triage_db)
     7 ''xss'' ''semgrep'' ''lib/VIEW.py'' = Some r \<and> r_active r"
proof -
  have 1: "fp_ok triage_db" by (simp add: fp_ok_def triage_db_def empty_db_def)
  have 2: "get_target triage_db (f_target_id example_finding) = Some example_target"
    by (simp add: get_target_def triage_db_def example_finding_def example_target_def)
  have 3: "file_path_pattern (f_file_path example_finding) = Some ''view.py''"
    "file_path_pattern ''lib/VIEW.py'' = Some ''view.py''" by code_simp+
  have 4: "t_workspace_id example_target = 7" "f_rule_id example_finding = ''xss''"
    "f_tool example_finding = ''semgrep''" by (simp_all add: example_target_def example_finding_def)
  show ?thesis using verdict_is_learned [OF 1 2 refl, of 50 "''ok''" "''ann''" None] 3 4 by auto
qed

text \<open>A match is never a guess.  Whatever the table holds, a rule that suppresses a new
  finding is an active rule of the same workspace, rule and tool, and it names the finding's
  file; a rule for any file applies only when no active rule names the file.\<close>

theorem match_is_sound:
  assumes "find_matching_rule db ws rule_id tool p = Some r"
  shows "r \<in> set (d_fp_rules db) \<and> r_active r \<and> r_workspace_id r = ws \<and> r_rule_id r = rule_id \<and> r_tool r = tool \<and>
     (r_file_path_pattern r = file_path_pattern p \<and> r_file_path_pattern r \<noteq> None \<or>
      r_file_path_pattern r = None \<and>
      (\<forall>b. file_path_pattern p = Some b \<longrightarrow> \<not> suppresses db (ws, rule_id, tool, Some b)))"
  by (rule find_matching_sound [OF assms])

theorem match_is_sound_witness:
  "\<exists>r. find_matching_rule (apply_triage 50 example_finding FALSE_POSITIVE ''ok'' ''ann'' None triage_db)
     7 ''xss'' ''semgrep'' ''view.py'' = Some r \<and> r_workspace_id r = 7 \<and> r_tool r = ''semgrep''"
proof -
  have "find_matching_rule (apply_triage 50 example_finding FALSE_POSITIVE ''ok'' ''ann'' None triage_db)
     7 ''xss'' ''semgrep'' ''view.py'' \<noteq> None" by code_simp
  then obtain r where "find_matching_rule (apply_triage 50 example_finding FALSE_POSITIVE ''ok'' ''ann'' None triage_db)
     7 ''xss'' ''semgrep'' ''view.py'' = Some r" by blast
  from match_is_sound [OF this] this show ?thesis by blast
qed

end
