(* ===== verification/IngestSteps.thy ===== *)
theory IngestSteps
  imports Ingestion FpProps
begin

text \<open>
  A run as a state machine on the database.  \<open>ingest_step\<close> lists the elementary changes a run
  may make, each with the condition under which the specification allows it; the refinement
  lemma \<open>ingest_refines\<close> shows that \<open>ingest_findings\<close> is a sequence of them, so an invariant of
  the run is proved once per elementary change, by rule induction.
\<close>

definition in_scope :: "ingest_run \<Rightarrow> finding \<Rightarrow> bool" where
  "in_scope run f \<longleftrightarrow> f_target_id f = t_id (ir_target run) \<and> f_branch f = ir_branch run"

definition finding_ids :: "db \<Rightarrow> row_id set" where "finding_ids db = f_id ` set (d_findings db)"

text \<open>\<open>old\<close> are the ids of the findings the run found in the table, \<open>may\<close> whether it may
  mitigate, and \<open>seen\<close> the fingerprints it reported.\<close>

inductive ingest_step ::
  "ingest_run \<Rightarrow> bool \<Rightarrow> string set \<Rightarrow> row_id set \<Rightarrow> db \<Rightarrow> db \<Rightarrow> bool"
  for run may seen old where
  observe: "f \<in> set (d_findings db) \<Longrightarrow> in_scope run f \<Longrightarrow>
     ingest_step run may seen old db (update_finding (f_id f) (observe_again run item n) db)"
| reopen: "f \<in> set (d_findings db) \<Longrightarrow> in_scope run f \<Longrightarrow> f_state f = MITIGATED \<Longrightarrow> f_dedup_hash f \<in> seen \<Longrightarrow>
     ingest_step run may seen old db (transition now REOPENED reason actor f db)"
| create: "f_id f \<notin> finding_ids db \<Longrightarrow> f_id f \<notin> old \<Longrightarrow> in_scope run f \<Longrightarrow> f_state f = OPEN \<Longrightarrow>
     f_dedup_hash f \<in> seen \<Longrightarrow>
     \<forall>q\<in>set (d_findings db). in_scope run q \<longrightarrow> f_dedup_hash q \<noteq> f_dedup_hash f \<Longrightarrow>
     ingest_step run may seen old db (db\<lparr>d_findings := d_findings db @ [f]\<rparr>)"
| suppress: "f \<in> set (d_findings db) \<Longrightarrow> in_scope run f \<Longrightarrow> f_id f \<notin> old \<Longrightarrow> f_state f = OPEN \<Longrightarrow>
     ingest_step run may seen old db (apply_auto_suppression now rule f db)"
| mitigate: "may \<Longrightarrow> f \<in> set (d_findings db) \<Longrightarrow> in_scope run f \<Longrightarrow> f_tool f = ir_tool run \<Longrightarrow>
     f_state f = OPEN \<Longrightarrow> f_dedup_hash f \<notin> seen \<Longrightarrow>
     ingest_step run may seen old db (transition now MITIGATED reason actor f db)"
| elsewhere: "ingest_step run may seen old db (db\<lparr>d_enrichments := es, d_scans := ss\<rparr>)"

inductive_cases ingest_stepE: "ingest_step run may seen old db db'"

abbreviation ingest_steps ::
  "ingest_run \<Rightarrow> bool \<Rightarrow> string set \<Rightarrow> row_id set \<Rightarrow> db \<Rightarrow> db \<Rightarrow> bool" where
  "ingest_steps run may seen old \<equiv> (ingest_step run may seen old)\<^sup>*\<^sup>*"

subsection \<open>What an elementary change does to the rows\<close>

lemma update_finding_sel [simp]:
  "d_findings (update_finding i g db) = update_rows f_id i g (d_findings db)"
  "d_logs (update_finding i g db) = d_logs db"
  "d_targets (update_finding i g db) = d_targets db"
  "d_fp_rules (update_finding i g db) = d_fp_rules db"
  by (simp_all add: update_finding_def)

lemma add_log_sel [simp]:
  "d_findings (add_log l db) = d_findings db" "d_logs (add_log l db) = d_logs db @ [l]"
  "d_targets (add_log l db) = d_targets db" "d_fp_rules (add_log l db) = d_fp_rules db"
  by (simp_all add: add_log_def)

definition set_state :: "timestamp \<Rightarrow> finding_state \<Rightarrow> finding \<Rightarrow> finding" where
  "set_state now s f =
     f\<lparr>f_state := s, f_mitigated_at := (if s = MITIGATED then Some now else f_mitigated_at f)\<rparr>"

lemma transition_sel [simp]:
  "d_findings (transition now s r a f db) = update_rows f_id (f_id f) (set_state now s) (d_findings db)"
  "d_logs (transition now s r a f db) = d_logs db @ [log_entry f s r a None now]"
  by (simp_all add: transition_def set_state_def [abs_def])

definition suppress_state :: "false_positive_rule \<Rightarrow> finding \<Rightarrow> finding" where
  "suppress_state rule f =
     f\<lparr>f_state := FALSE_POSITIVE, f_state_reason := AUTO_SUPPRESS_REASON_PREFIX @ '' #'' @ int_str (r_id rule)\<rparr>"

lemma suppression_sel [simp]:
  "d_findings (apply_auto_suppression now rule f db) =
     update_rows f_id (f_id f) (suppress_state rule) (d_findings db)"
  "d_logs (apply_auto_suppression now rule f db) =
     d_logs db @ [log_entry f FALSE_POSITIVE (AUTO_SUPPRESS_REASON_PREFIX @ '' #'' @ int_str (r_id rule))
                    ''system'' None now]"
  by (simp_all add: apply_auto_suppression_def suppress_state_def [abs_def] Let_def)

text \<open>The columns that name a finding; no change to an existing row touches them.\<close>

definition identity :: "finding \<Rightarrow> row_id \<times> row_id \<times> string \<times> string \<times> string" where
  "identity f = (f_id f, f_target_id f, f_branch f, f_dedup_hash f, f_tool f)"

lemma identity_eqD:
  "identity f = identity g \<Longrightarrow> f_id f = f_id g \<and> f_target_id f = f_target_id g \<and> f_branch f = f_branch g
     \<and> f_dedup_hash f = f_dedup_hash g \<and> f_tool f = f_tool g"
  by (simp add: identity_def)

lemma identity_keep [simp]:
  "identity (observe_again run item n f) = identity f"
  "identity (set_state now s f) = identity f"
  "identity (suppress_state rule f) = identity f"
  by (simp_all add: identity_def observe_again_def set_state_def suppress_state_def)

lemma state_keep [simp]:
  "f_state (observe_again run item n f) = f_state f"
  "f_state (set_state now s f) = s"
  "f_state (suppress_state rule f) = FALSE_POSITIVE"
  by (simp_all add: observe_again_def set_state_def suppress_state_def)

lemma id_keep [simp]:
  "f_id (observe_again run item n f) = f_id f"
  "f_id (set_state now s f) = f_id f"
  "f_id (suppress_state rule f) = f_id f"
  by (simp_all add: observe_again_def set_state_def suppress_state_def)

lemma in_scope_identity: "identity f = identity g \<Longrightarrow> in_scope run f = in_scope run g"
  by (simp add: identity_def in_scope_def)

lemma scope_keep [simp]:
  "in_scope run (observe_again r item n f) = in_scope run f"
  "in_scope run (set_state now s f) = in_scope run f"
  "in_scope run (suppress_state rule f) = in_scope run f"
  by (intro in_scope_identity, simp)+

subsection \<open>Every elementary change edits one row or adds one\<close>

text \<open>\<open>edits db db' i g\<close>: the findings of \<open>db'\<close> are those of \<open>db\<close> with \<open>g\<close> applied to row \<open>i\<close>.\<close>

definition edits :: "db \<Rightarrow> db \<Rightarrow> row_id \<Rightarrow> (finding \<Rightarrow> finding) \<Rightarrow> bool" where
  "edits db db' i g \<longleftrightarrow> d_findings db' = update_rows f_id i g (d_findings db) \<and> (\<forall>f. identity (g f) = identity f)"

lemma step_shape:
  assumes "ingest_step run may seen old db db'"
  obtains (edit) f g where "f \<in> set (d_findings db)" "in_scope run f" "edits db db' (f_id f) g"
      "(f_state (g f) = f_state f \<and> (\<forall>h. f_state (g h) = f_state h) \<and> d_logs db' = d_logs db) \<or>
       (\<exists>l. d_logs db' = d_logs db @ [l] \<and> l_finding_id l = f_id f \<and> l_from_state l = f_state f \<and>
            (\<forall>h. f_state (g h) = l_to_state l) \<and>
            (f_state f = MITIGATED \<and> l_to_state l = REOPENED \<and> f_dedup_hash f \<in> seen \<or>
             f_state f = OPEN \<and> l_to_state l = FALSE_POSITIVE \<and> f_id f \<notin> old \<or>
             f_state f = OPEN \<and> l_to_state l = MITIGATED \<and> may \<and> f_tool f = ir_tool run \<and> f_dedup_hash f \<notin> seen))"
  | (add) f where "d_findings db' = d_findings db @ [f]" "d_logs db' = d_logs db" "f_id f \<notin> finding_ids db"
      "f_id f \<notin> old" "in_scope run f" "f_state f = OPEN" "f_dedup_hash f \<in> seen"
      "\<forall>q\<in>set (d_findings db). in_scope run q \<longrightarrow> f_dedup_hash q \<noteq> f_dedup_hash f"
  | (same) "d_findings db' = d_findings db" "d_logs db' = d_logs db"
  using assms
proof (cases rule: ingest_step.cases)
  case (observe f item n)
  then show thesis by (intro edit [of f "observe_again run item n"]) (auto simp: edits_def)
next
  case (reopen f now reason actor)
  then show thesis
    by (intro edit [of f "set_state now REOPENED"]) (auto simp: edits_def log_entry_def)
next
  case (create f)
  then show thesis by (intro add [of f]) auto
next
  case (suppress f now rule)
  then show thesis
    by (intro edit [of f "suppress_state rule"]) (auto simp: edits_def log_entry_def)
next
  case (mitigate f now reason actor)
  then show thesis
    by (intro edit [of f "set_state now MITIGATED"]) (auto simp: edits_def log_entry_def)
next
  case (elsewhere es ss)
  then show thesis by (intro same) auto
qed

lemma edits_ids: "edits db db' i g \<Longrightarrow> map f_id (d_findings db') = map f_id (d_findings db)"
  by (auto simp: edits_def update_rows_def identity_def)

lemma edits_identities: "edits db db' i g \<Longrightarrow> map identity (d_findings db') = map identity (d_findings db)"
  by (auto simp: edits_def update_rows_def)

subsection \<open>Well-formed findings tables\<close>

definition fingerprint :: "finding \<Rightarrow> row_id \<times> string \<times> string" where
  "fingerprint f = (f_target_id f, f_branch f, f_dedup_hash f)"

definition findings_ok :: "db \<Rightarrow> bool" where
  "findings_ok db \<longleftrightarrow> distinct (map f_id (d_findings db)) \<and> distinct (map fingerprint (d_findings db))"

lemma fingerprint_identity: "map identity xs = map identity ys \<Longrightarrow> map fingerprint xs = map fingerprint ys"
proof -
  assume e: "map identity xs = map identity ys"
  have k: "map fingerprint zs = map (\<lambda>(i, t, b, h, l). (t, b, h)) (map identity zs)" for zs
    by (simp add: fingerprint_def identity_def)
  show ?thesis unfolding k by (simp only: e)
qed

lemma findings_ok_step:
  assumes "ingest_step run may seen old db db'" and "findings_ok db"
  shows "findings_ok db' \<and> finding_ids db \<subseteq> finding_ids db'"
  using assms(1)
proof (cases rule: step_shape)
  case (edit f g)
  then show ?thesis
    using assms(2) edits_ids [of db db'] fingerprint_identity [OF edits_identities [of db db']]
    by (metis findings_ok_def finding_ids_def list.set_map subset_refl)
next
  case (add f)
  then have "fingerprint f \<notin> fingerprint ` set (d_findings db)"
    by (fastforce simp: fingerprint_def in_scope_def)
  with add assms(2) show ?thesis by (auto simp: findings_ok_def finding_ids_def)
qed (use assms in \<open>auto simp: findings_ok_def finding_ids_def\<close>)

lemma findings_ok_steps:
  "ingest_steps run may seen old db db' \<Longrightarrow> findings_ok db \<Longrightarrow>
     findings_ok db' \<and> finding_ids db \<subseteq> finding_ids db'"
  by (induction rule: rtranclp_induct) (auto dest: findings_ok_step)

lemma same_row: "findings_ok db \<Longrightarrow> f \<in> set (d_findings db) \<Longrightarrow> q \<in> set (d_findings db) \<Longrightarrow> f_id f = f_id q \<Longrightarrow> f = q"
  by (auto simp: findings_ok_def distinct_map dest: inj_onD)

subsection \<open>Frame: findings outside the scope\<close>

lemma frame_step:
  assumes "ingest_step run may seen old db db'" and "findings_ok db"
  shows "filter (\<lambda>f. \<not> in_scope run f) (d_findings db') = filter (\<lambda>f. \<not> in_scope run f) (d_findings db)"
  using assms(1)
proof (cases rule: step_shape)
  case (edit f g)
  have "(if f_id q = f_id f then g q else q) = q" if "q \<in> set (d_findings db)" "\<not> in_scope run q" for q
    using same_row [OF assms(2) that(1) edit(1)] edit(2) that(2) by auto
  then have "update_rows f_id (f_id f) g (filter (\<lambda>f. \<not> in_scope run f) (d_findings db)) =
      filter (\<lambda>f. \<not> in_scope run f) (d_findings db)"
    unfolding update_rows_def by (intro map_idI) auto
  moreover have "in_scope run (g q) = in_scope run q" for q
    using edit(3) by (intro in_scope_identity) (simp add: edits_def)
  then have "filter (\<lambda>f. \<not> in_scope run f) (update_rows f_id (f_id f) g (d_findings db)) =
      update_rows f_id (f_id f) g (filter (\<lambda>f. \<not> in_scope run f) (d_findings db))"
    by (intro update_rows_filter) simp
  ultimately show ?thesis using edit(3) by (simp add: edits_def)
qed auto

lemma frame_steps:
  "ingest_steps run may seen old db db' \<Longrightarrow> findings_ok db \<Longrightarrow>
   filter (\<lambda>f. \<not> in_scope run f) (d_findings db') = filter (\<lambda>f. \<not> in_scope run f) (d_findings db)"
  by (induction rule: rtranclp_induct) (use frame_step findings_ok_steps in metis)+

subsection \<open>What may become of a finding\<close>

text \<open>The states a run may leave a finding of the table in, by whether the run may mitigate
  and whether it reported the finding.\<close>

definition fates :: "bool \<Rightarrow> bool \<Rightarrow> finding_state \<Rightarrow> finding_state set" where
  "fates may rep s = (case s of
      OPEN \<Rightarrow> if may \<and> \<not> rep then {OPEN, MITIGATED} else {OPEN}
    | MITIGATED \<Rightarrow> if rep then {MITIGATED, REOPENED} else {MITIGATED}
    | _ \<Rightarrow> {s})"

lemma fates_refl [simp]: "s \<in> fates may rep s"
  by (cases s) (auto simp: fates_def)

lemma fates_trans: "s' \<in> fates may rep s \<Longrightarrow> s'' \<in> fates may rep s' \<Longrightarrow> s'' \<in> fates may rep s"
  by (cases s; cases s') (auto simp: fates_def split: if_splits)

definition fate_ok :: "bool \<Rightarrow> string set \<Rightarrow> finding \<Rightarrow> finding \<Rightarrow> bool" where
  "fate_ok may seen f f' \<longleftrightarrow>
     identity f' = identity f \<and> f_state f' \<in> fates may (f_dedup_hash f \<in> seen) (f_state f)"

lemma fate_ok_trans: "fate_ok may seen f g \<Longrightarrow> fate_ok may seen g h \<Longrightarrow> fate_ok may seen f h"
  unfolding fate_ok_def by (metis fates_trans identity_eqD)

lemma fate_step:
  assumes "ingest_step run may seen old db db'" and "findings_ok db"
    and "f \<in> set (d_findings db)" and "f_id f \<in> old"
  shows "\<exists>f'\<in>set (d_findings db'). fate_ok may seen f f'"
  using assms(1)
proof (cases rule: step_shape)
  case (edit q g)
  let ?f = "if f_id f = f_id q then g f else f"
  have "?f \<in> set (d_findings db')" using edit(3) assms(3) by (auto simp: edits_def update_rows_def)
  moreover have "identity ?f = identity f" using edit(3) by (simp add: edits_def)
  moreover have "f_state ?f \<in> fates may (f_dedup_hash f \<in> seen) (f_state f)"
  proof (cases "f_id f = f_id q")
    case True
    then have "f = q" using same_row [OF assms(2,3) edit(1)] by simp
    with edit(4) assms(4) show ?thesis
      by (elim disjE exE conjE) (simp, auto simp: fates_def)
  qed simp
  ultimately show ?thesis unfolding fate_ok_def by blast
next
  case (add q)
  with assms(3) show ?thesis by (auto simp: fate_ok_def)
next
  case same
  with assms(3) show ?thesis by (auto simp: fate_ok_def)
qed

lemma fate_steps:
  assumes "ingest_steps run may seen old db db'" and "findings_ok db"
    and "f \<in> set (d_findings db)" and "f_id f \<in> old"
  shows "\<exists>f'\<in>set (d_findings db'). fate_ok may seen f f'"
  using assms(1)
proof (induction rule: rtranclp_induct)
  case (step db1 db2)
  then obtain f1 where f1: "f1 \<in> set (d_findings db1)" "fate_ok may seen f f1" by blast
  have "findings_ok db1" using findings_ok_steps [OF step(1) assms(2)] by simp
  moreover have "f_id f1 \<in> old" using f1(2) assms(4) by (metis fate_ok_def identity_eqD)
  ultimately show ?case using fate_step [OF step(2) _ f1(1)] f1(2) fate_ok_trans by blast
qed (use assms in \<open>auto simp: fate_ok_def\<close>)

text \<open>A reported fingerprint, once some finding that is not mitigated carries it, keeps one.\<close>

definition alive :: "ingest_run \<Rightarrow> db \<Rightarrow> string \<Rightarrow> bool" where
  "alive run db h \<longleftrightarrow> (\<exists>f\<in>set (d_findings db). in_scope run f \<and> f_dedup_hash f = h \<and> f_state f \<noteq> MITIGATED)"

lemma alive_step:
  assumes "ingest_step run may seen old db db'" and "findings_ok db" and "alive run db h" and "h \<in> seen"
  shows "alive run db' h"
proof -
  obtain f where f: "f \<in> set (d_findings db)" "in_scope run f" "f_dedup_hash f = h" "f_state f \<noteq> MITIGATED"
    using assms(3) by (auto simp: alive_def)
  from assms(1) show ?thesis
  proof (cases rule: step_shape)
    case (edit q g)
    let ?f = "if f_id f = f_id q then g f else f"
    have m: "?f \<in> set (d_findings db')" using edit(3) f(1) by (auto simp: edits_def update_rows_def)
    have i: "identity ?f = identity f" using edit(3) by (simp add: edits_def)
    have "f_state ?f \<noteq> MITIGATED"
    proof (cases "f_id f = f_id q")
      case True
      then have "f = q" using same_row [OF assms(2) f(1) edit(1)] by simp
      with edit(4) f assms(4) show ?thesis by auto
    qed (use f in simp)
    moreover have "in_scope run ?f" "f_dedup_hash ?f = h"
      using in_scope_identity [OF i] identity_eqD [OF i] f by auto
    ultimately show ?thesis using m unfolding alive_def by blast
  qed (use f in \<open>auto simp: alive_def\<close>)
qed

lemma alive_steps:
  "ingest_steps run may seen old db db' \<Longrightarrow> findings_ok db \<Longrightarrow> alive run db h \<Longrightarrow> h \<in> seen \<Longrightarrow> alive run db' h"
  by (induction rule: rtranclp_induct) (use alive_step findings_ok_steps in metis)+

subsection \<open>The audit trail\<close>

fun replay :: "finding_state \<Rightarrow> finding_state_log list \<Rightarrow> finding_state option" where
  "replay s [] = Some s"
| "replay s (l # ls) = (if l_from_state l = s then replay (l_to_state l) ls else None)"

lemma replay_append: "replay s (ls @ [l]) =
    (case replay s ls of None \<Rightarrow> None | Some s' \<Rightarrow> if l_from_state l = s' then Some (l_to_state l) else None)"
  by (induction ls arbitrary: s) auto

definition logs_of :: "db \<Rightarrow> row_id \<Rightarrow> finding_state_log list" where
  "logs_of db i = filter (\<lambda>l. l_finding_id l = i) (d_logs db)"

text \<open>Replaying a finding's log from Open leads, without a gap, to the state it is in, and
  every log entry is about a finding of the table.\<close>

definition audit_ok :: "db \<Rightarrow> bool" where
  "audit_ok db \<longleftrightarrow> distinct (map f_id (d_findings db)) \<and>
     (\<forall>f\<in>set (d_findings db). replay OPEN (logs_of db (f_id f)) = Some (f_state f)) \<and>
     l_finding_id ` set (d_logs db) \<subseteq> finding_ids db"

lemma audit_same:
  "audit_ok db \<Longrightarrow> d_findings db' = d_findings db \<Longrightarrow> d_logs db' = d_logs db \<Longrightarrow> audit_ok db'"
  by (simp add: audit_ok_def logs_of_def finding_ids_def)

lemma audit_quiet_edit:
  assumes "audit_ok db" and "d_findings db' = update_rows f_id i g (d_findings db)"
    and "\<And>f. f_id (g f) = f_id f \<and> f_state (g f) = f_state f" and "d_logs db' = d_logs db"
  shows "audit_ok db'"
proof -
  have ids: "map f_id (d_findings db') = map f_id (d_findings db)"
    using assms(2,3) by (simp add: update_rows_keys)
  then have "finding_ids db' = finding_ids db" by (metis finding_ids_def list.set_map)
  with assms ids show ?thesis
    by (auto simp: audit_ok_def logs_of_def update_rows_mem)
qed

lemma audit_logged_edit:
  assumes "audit_ok db" and "d_findings db' = update_rows f_id (f_id f) g (d_findings db)"
    and "f \<in> set (d_findings db)" and "\<And>h. f_id (g h) = f_id h \<and> f_state (g h) = l_to_state l"
    and "d_logs db' = d_logs db @ [l]" and "l_finding_id l = f_id f" and "l_from_state l = f_state f"
  shows "audit_ok db'"
proof -
  have ids: "map f_id (d_findings db') = map f_id (d_findings db)"
    using assms(2,4) by (simp add: update_rows_keys)
  then have fids: "finding_ids db' = finding_ids db" by (metis finding_ids_def list.set_map)
  have logs: "logs_of db' i = (if i = f_id f then logs_of db i @ [l] else logs_of db i)" for i
    using assms(5,6) by (simp add: logs_of_def)
  have "replay OPEN (logs_of db' (f_id q)) = Some (f_state q)" if q: "q \<in> set (d_findings db')" for q
  proof -
    obtain p where p: "p \<in> set (d_findings db)" "q = (if f_id p = f_id f then g p else p)"
      using q assms(2) by (auto simp: update_rows_mem split: if_splits)
    have "p = f" if "f_id p = f_id f"
      using that p(1) assms(1,3) by (auto simp: audit_ok_def distinct_map dest: inj_onD)
    with p assms(1,4,7) logs show ?thesis
      by (cases "f_id p = f_id f") (auto simp: audit_ok_def replay_append)
  qed
  with assms(1,3,5,6) ids fids show ?thesis
    by (auto simp: audit_ok_def finding_ids_def)
qed

lemma audit_add:
  assumes "audit_ok db" and "d_findings db' = d_findings db @ [f]" and "d_logs db' = d_logs db"
    and "f_id f \<notin> finding_ids db" and "f_state f = OPEN"
  shows "audit_ok db'"
proof -
  have "logs_of db (f_id f) = []"
    using assms(1,4) by (auto simp: audit_ok_def logs_of_def filter_empty_conv)
  with assms show ?thesis by (auto simp: audit_ok_def logs_of_def finding_ids_def)
qed

lemma audit_step:
  assumes "ingest_step run may seen old db db'" and a: "audit_ok db"
  shows "audit_ok db'"
  using assms(1)
proof (cases rule: step_shape)
  case (edit f g)
  from edit(3) have e: "d_findings db' = update_rows f_id (f_id f) g (d_findings db)"
    "\<And>h. f_id (g h) = f_id h" by (auto simp: edits_def dest: identity_eqD)
  from edit(4) show ?thesis
  proof (elim disjE exE conjE)
    assume "\<forall>h. f_state (g h) = f_state h" "d_logs db' = d_logs db"
    with a e show ?thesis by (intro audit_quiet_edit [of db db' "f_id f" g]) auto
  qed (rule audit_logged_edit [OF a e(1) edit(1)], use e(2) in auto)+
qed (use a in \<open>auto intro: audit_add audit_same\<close>)

lemma audit_steps: "ingest_steps run may seen old db db' \<Longrightarrow> audit_ok db \<Longrightarrow> audit_ok db'"
  by (induction rule: rtranclp_induct) (auto dest: audit_step)

end
