(* ===== verification/IngestProps.thy ===== *)
theory IngestProps
  imports IngestSteps
begin

text \<open>
  \<open>ingest_findings\<close> refines the state machine of elementary changes, and what follows for a
  whole run: its scope, the states it may change, uniqueness of fingerprints, the audit trail,
  and the priority it stores.
\<close>

subsection \<open>Refinement\<close>

definition open_row :: "ingest_run \<Rightarrow> db \<Rightarrow> row_id \<Rightarrow> bool" where
  "open_row run db i \<longleftrightarrow> (\<exists>f\<in>set (d_findings db). f_id f = i \<and> in_scope run f \<and> f_state f = OPEN)"

definition created_ok :: "ingest_run \<Rightarrow> row_id set \<Rightarrow> db \<Rightarrow> row_id list \<Rightarrow> bool" where
  "created_ok run old db cs \<longleftrightarrow> findings_ok db \<and> old \<subseteq> finding_ids db \<and> distinct cs \<and>
     (\<forall>i\<in>set cs. i \<notin> old \<and> open_row run db i)"

lemma open_row_other:
  "open_row run db i \<Longrightarrow> d_findings db' = update_rows f_id j g (d_findings db) \<Longrightarrow> i \<noteq> j \<Longrightarrow> open_row run db' i"
  by (force simp: open_row_def update_rows_mem)

lemma open_row_observe:
  "open_row run db i \<Longrightarrow> open_row run (update_finding j (observe_again r item n) db) i"
proof -
  assume "open_row run db i"
  then obtain f where f: "f \<in> set (d_findings db)" "f_id f = i" "in_scope run f" "f_state f = OPEN"
    by (auto simp: open_row_def)
  let ?f = "if f_id f = j then observe_again r item n f else f"
  have "?f \<in> set (d_findings (update_finding j (observe_again r item n) db))"
    using f(1) by (auto simp: update_rows_def)
  moreover have "f_id ?f = i" "in_scope run ?f" "f_state ?f = OPEN" using f by auto
  ultimately show ?thesis unfolding open_row_def by blast
qed

lemma open_row_unique:
  "findings_ok db \<Longrightarrow> open_row run db (f_id f) \<Longrightarrow> f \<in> set (d_findings db) \<Longrightarrow> f_state f = OPEN \<and> in_scope run f"
  using same_row by (fastforce simp: open_row_def)

lemma open_row_get: "open_row run db i \<Longrightarrow> findings_ok db \<Longrightarrow>
    \<exists>f. get_finding db i = Some f \<and> f \<in> set (d_findings db) \<and> f_id f = i \<and> in_scope run f \<and> f_state f = OPEN"
  unfolding open_row_def get_finding_def
  by (metis (mono_tags, lifting) find_unique same_row)

lemma same_finding_scope: "same_finding run h f \<longleftrightarrow> f_dedup_hash f = h \<and> in_scope run f"
  by (auto simp: same_finding_def in_scope_def)

lemma new_finding_sel [simp]:
  "f_id (new_finding run item i e k n) = i" "f_state (new_finding run item i e k n) = OPEN"
  "f_dedup_hash (new_finding run item i e k n) = item_hash run item"
  "in_scope run (new_finding run item i e k n)"
  by (simp_all add: new_finding_def in_scope_def)

lemma ingest_item_refines:
  assumes "ingest_item run item (db, cs) = Inr (db', cs')" and "created_ok run old db cs"
    and "item_hash run item \<in> seen"
  shows "ingest_steps run may seen old db db' \<and> created_ok run old db' cs'"
proof (cases "List.find (same_finding run (item_hash run item)) (d_findings db)")
  case None
  let ?i = "next_id f_id (d_findings db)"
  obtain e k n where db': "db' = db\<lparr>d_findings := d_findings db @ [new_finding run item ?i e k n]\<rparr>"
    and cs': "cs' = cs @ [?i]"
    using assms(1) None by (auto simp: ingest_item_def Let_def split: sum.splits)
  have fresh: "?i \<notin> finding_ids db" using next_id_notin [of f_id "d_findings db"] by (simp add: finding_ids_def)
  have step: "ingest_step run may seen old db db'"
    unfolding db' using None fresh assms(2,3)
    by (intro ingest_step.create) (auto simp: find_None same_finding_scope created_ok_def)
  have "?i \<notin> set cs" using fresh assms(2)
    unfolding created_ok_def open_row_def finding_ids_def by (metis imageI)
  moreover have "open_row run db' j" if "j \<in> set cs'" for j
    using that assms(2) by (auto simp: cs' db' created_ok_def open_row_def)
  ultimately show ?thesis
    using step assms(2) fresh findings_ok_step [OF step] cs' by (auto simp: created_ok_def)
next
  case (Some f)
  have f: "f \<in> set (d_findings db)" "in_scope run f" and h: "f_dedup_hash f = item_hash run item"
    using find_mem [OF Some] by (auto simp: same_finding_scope)
  obtain n where n: "cs' = cs"
    "db' = (let db1 = update_finding (f_id f) (observe_again run item n) db in
       if f_state f = MITIGATED
       then transition (iw_now (ir_world run)) REOPENED ''reappeared in scan'' ''system'' (observe_again run item n f) db1
       else db1)"
    using assms(1) Some by (auto simp: ingest_item_def Let_def split: sum.splits)
  let ?db1 = "update_finding (f_id f) (observe_again run item n) db"
  have step1: "ingest_step run may seen old db ?db1" by (rule ingest_step.observe [OF f])
  have ok: "findings_ok db" "findings_ok ?db1" "finding_ids db \<subseteq> finding_ids ?db1"
    using assms(2) findings_ok_step [OF step1] by (auto simp: created_ok_def)
  show ?thesis
  proof (cases "f_state f = MITIGATED")
    case False
    then show ?thesis using n step1 ok assms(2)
      by (auto simp: created_ok_def Let_def intro!: open_row_observe)
  next
    case True
    have f1: "observe_again run item n f \<in> set (d_findings ?db1)"
      using f(1) by (auto simp: update_rows_def)
    have step2: "ingest_step run may seen old ?db1 db'"
      using n True f f1 h assms(3) identity_eqD [OF identity_keep(1) [of run item n f]]
      by (auto simp: Let_def intro!: ingest_step.reopen)
    have "open_row run db' i" if "i \<in> set cs" for i
    proof -
      have o: "open_row run ?db1 i" using that assms(2) by (auto simp: created_ok_def intro!: open_row_observe)
      moreover have "i \<noteq> f_id f"
        using o open_row_unique [OF ok(2) _ f1] True by auto
      ultimately show ?thesis using n True open_row_other [OF o] by (auto simp: Let_def)
    qed
    then show ?thesis
      using step1 step2 n(1) assms(2) ok findings_ok_step [OF step2]
      by (auto simp: created_ok_def intro: rtranclp.rtrancl_into_rtrancl)
  qed
qed

lemma ingest_items_refines:
  "ingest_items run items (db, cs) = Inr (db', cs') \<Longrightarrow> created_ok run old db cs \<Longrightarrow>
   item_hash run ` set items \<subseteq> seen \<Longrightarrow>
   ingest_steps run may seen old db db' \<and> created_ok run old db' cs'"
proof (induction items arbitrary: db cs)
  case (Cons item items)
  then obtain db1 cs1 where 1: "ingest_item run item (db, cs) = Inr (db1, cs1)"
    "ingest_items run items (db1, cs1) = Inr (db', cs')" by (auto split: sum.splits)
  have "ingest_steps run may seen old db db1" "created_ok run old db1 cs1"
    using ingest_item_refines [OF 1(1) Cons.prems(2)] Cons.prems(3) by auto
  with Cons.IH [OF 1(2)] Cons.prems(3) show ?case by (auto intro: rtranclp_trans)
qed simp

lemma suppress_refines:
  "created_ok run old db cs \<Longrightarrow>
   ingest_steps run may seen old db (fold (suppress_created run) cs db) \<and>
   findings_ok (fold (suppress_created run) cs db)"
proof (induction cs arbitrary: db)
  case (Cons i cs)
  from Cons.prems have i: "open_row run db i" "i \<notin> old" and ok: "findings_ok db"
    by (auto simp: created_ok_def)
  obtain f where f: "get_finding db i = Some f" "f \<in> set (d_findings db)" "f_id f = i" "in_scope run f" "f_state f = OPEN"
    using open_row_get [OF i(1) ok] by blast
  let ?db = "suppress_created run i db"
  have step: "?db = db \<or> ingest_step run may seen old db ?db"
    using f i(2) by (auto simp: suppress_created_def split: option.splits intro!: ingest_step.suppress)
  then have ok': "findings_ok ?db \<and> finding_ids db \<subseteq> finding_ids ?db"
    using ok findings_ok_step by fastforce
  have "open_row run ?db j" if "j \<in> set cs" for j
  proof -
    have j: "open_row run db j" "j \<noteq> i" using that Cons.prems by (auto simp: created_ok_def)
    have "d_findings ?db = d_findings db \<or> (\<exists>g. d_findings ?db = update_rows f_id i g (d_findings db))"
      using f(1,3) by (auto simp: suppress_created_def split: option.splits)
    then show ?thesis using open_row_other [OF j(1)] j by (auto simp: open_row_def)
  qed
  then have "created_ok run old ?db cs" using ok' Cons.prems by (auto simp: created_ok_def)
  from Cons.IH [OF this] step show ?case by (auto intro: converse_rtranclp_into_rtranclp)
qed (simp add: created_ok_def)

lemma mitigate_refines:
  assumes "findings_ok db" and "may" and "distinct (map f_id fs)"
    and "\<forall>f\<in>set fs. f \<in> set (d_findings db) \<and> in_scope run f \<and> f_tool f = ir_tool run \<and> f_state f = OPEN \<and> f_dedup_hash f \<notin> seen"
  shows "ingest_steps run may seen old db (fold (\<lambda>f. transition now MITIGATED reason actor f) fs db)"
  using assms(1,3,4)
proof (induction fs arbitrary: db)
  case (Cons f fs)
  let ?db = "transition now MITIGATED reason actor f db"
  have step: "ingest_step run may seen old db ?db"
    using Cons.prems assms(2) by (auto intro!: ingest_step.mitigate)
  have "\<forall>q\<in>set fs. q \<in> set (d_findings ?db)"
  proof
    fix q assume q: "q \<in> set fs"
    with Cons.prems(2) have "f_id q \<noteq> f_id f" by (metis distinct.simps(2) imageI list.set_map list.simps(9))
    moreover have "q \<in> set (d_findings db)" using q Cons.prems(3) by simp
    ultimately show "q \<in> set (d_findings ?db)" by (auto simp: update_rows_mem)
  qed
  with Cons.prems findings_ok_step [OF step] have "ingest_steps run may seen old ?db
      (fold (\<lambda>f. transition now MITIGATED reason actor f) fs ?db)"
    by (intro Cons.IH) auto
  with step show ?case by (auto intro: converse_rtranclp_into_rtranclp)
qed simp

definition run_of :: "ingest_world \<Rightarrow> target \<Rightarrow> row_id \<Rightarrow> string \<Rightarrow> string \<Rightarrow> scan_item list \<Rightarrow> db \<Rightarrow> ingest_run" where
  "run_of w t sid tool branch parsed db = fst (start_run w t sid tool branch parsed db)"

definition reported :: "ingest_run \<Rightarrow> scan_item list \<Rightarrow> string set" where
  "reported run parsed = item_hash run ` set parsed"

lemma run_of_sel [simp]:
  "ir_target (run_of w t sid tool branch parsed db) = t"
  "ir_tool (run_of w t sid tool branch parsed db) = tool"
  "ir_branch (run_of w t sid tool branch parsed db) = branch"
  "ir_world (run_of w t sid tool branch parsed db) = w"
  by (simp_all add: run_of_def start_run_def Let_def)

lemma ingest_parts:
  assumes "ingest_findings w t sid tool branch parsed health db = Inr (db', alerts)"
  obtains db1 db2 cs db3 db4 where
    "db1 = snd (start_run w t sid tool branch parsed db)"
    "ingest_items (run_of w t sid tool branch parsed db) parsed (db1, []) = Inr (db2, cs)"
    "db3 = fold (suppress_created (run_of w t sid tool branch parsed db)) cs db2"
    "db4 = (if fst (may_mitigate parsed health)
            then mitigate_stale (run_of w t sid tool branch parsed db)
                   (map (item_hash (run_of w t sid tool branch parsed db)) parsed) db3 else db3)"
    "db' = db4\<lparr>d_scans := update_rows s_id sid
       (finish_scan (iw_now w) (length parsed) health (may_mitigate parsed health)) (d_scans db4)\<rparr>"
    "alerts = concat (map (created_alerts db3) cs)"
  using assms
  by (auto simp: ingest_findings_def run_of_def Let_def split_beta split: sum.splits prod.splits if_splits)

lemma ingest_refines:
  assumes "ingest_findings w t sid tool branch parsed health db = Inr (db', alerts)" and "findings_ok db"
  shows "ingest_steps (run_of w t sid tool branch parsed db) (fst (may_mitigate parsed health))
     (reported (run_of w t sid tool branch parsed db) parsed) (finding_ids db) db db'"
proof -
  let ?run = "run_of w t sid tool branch parsed db"
  let ?may = "fst (may_mitigate parsed health)"
  let ?seen = "reported ?run parsed"
  obtain db1 db2 cs db3 db4 where p:
    "db1 = snd (start_run w t sid tool branch parsed db)"
    "ingest_items ?run parsed (db1, []) = Inr (db2, cs)"
    "db3 = fold (suppress_created ?run) cs db2"
    "db4 = (if ?may then mitigate_stale ?run (map (item_hash ?run) parsed) db3 else db3)"
    "db' = db4\<lparr>d_scans := update_rows s_id sid
       (finish_scan (iw_now w) (length parsed) health (may_mitigate parsed health)) (d_scans db4)\<rparr>"
    by (rule ingest_parts [OF assms(1)])
  have db1: "db1 = db\<lparr>d_enrichments := d_enrichments db1, d_scans := d_scans db\<rparr>"
    by (simp add: p(1) start_run_def Let_def)
  have s1: "ingest_step ?run ?may ?seen (finding_ids db) db db1"
    by (subst db1) (rule ingest_step.elsewhere)
  have "created_ok ?run (finding_ids db) db1 []"
    using findings_ok_step [OF s1 assms(2)] by (simp add: created_ok_def)
  from ingest_items_refines [OF p(2) this, of ?seen ?may]
  have s2: "ingest_steps ?run ?may ?seen (finding_ids db) db1 db2"
    and c2: "created_ok ?run (finding_ids db) db2 cs" by (auto simp: reported_def)
  from suppress_refines [OF c2]
  have s3: "ingest_steps ?run ?may ?seen (finding_ids db) db2 db3" and ok3: "findings_ok db3"
    unfolding p(3) by auto
  have s4: "ingest_steps ?run ?may ?seen (finding_ids db) db3 db4"
  proof (cases ?may)
    case True
    have "distinct (map f_id (stale_findings ?run (map (item_hash ?run) parsed) db3))"
      using ok3 by (auto simp: stale_findings_def findings_ok_def intro: distinct_map_filter)
    then have "ingest_steps ?run ?may ?seen (finding_ids db) db3
        (mitigate_stale ?run (map (item_hash ?run) parsed) db3)"
      unfolding mitigate_stale_def using ok3 True
      by (intro mitigate_refines) (auto simp: stale_findings_def in_scope_def reported_def)
    with True p(4) show ?thesis by simp
  qed (use p(4) in simp)
  have db': "db' = db4\<lparr>d_enrichments := d_enrichments db4, d_scans := d_scans db'\<rparr>" using p(5) by simp
  have s5: "ingest_step ?run ?may ?seen (finding_ids db) db4 db'"
    by (subst db') (rule ingest_step.elsewhere)
  show ?thesis
    using s1 s2 s3 s4 s5 by (meson converse_rtranclp_into_rtranclp rtranclp.rtrancl_into_rtrancl rtranclp_trans)
qed

end
