(* ===== verification/ScanClaims.thy ===== *)
theory ScanClaims
  imports IngestProps
begin

text \<open>What a whole scan guarantees about the findings table.\<close>

subsection \<open>Exactness\<close>

lemma update_rows_hit: "x \<in> set rows \<Longrightarrow> key x = i \<Longrightarrow> g x \<in> set (update_rows key i g rows)"
  by (auto simp: update_rows_def)

lemma learn_keeps [simp]:
  "d_findings (snd (learn_suppression_rule now actor f db)) = d_findings db"
  "d_logs (snd (learn_suppression_rule now actor f db)) = d_logs db"
  using learn_frame [of "(now, actor, f)" db] by (simp_all add: learn_verdict_def)

lemma ingest_item_alive:
  assumes "ingest_item run item (db, cs) = Inr (db', cs')"
  shows "alive run db' (item_hash run item)"
proof (cases "List.find (same_finding run (item_hash run item)) (d_findings db)")
  case None
  then obtain i e k n where "db' = db\<lparr>d_findings := d_findings db @ [new_finding run item i e k n]\<rparr>"
    using assms by (auto simp: ingest_item_def Let_def split: sum.splits)
  then show ?thesis by (auto simp: alive_def)
next
  case (Some f)
  have f: "f \<in> set (d_findings db)" "in_scope run f" "f_dedup_hash f = item_hash run item"
    using find_mem [OF Some] by (auto simp: same_finding_scope)
  obtain n where n: "db' = (let db1 = update_finding (f_id f) (observe_again run item n) db in
       if f_state f = MITIGATED
       then transition (iw_now (ir_world run)) REOPENED ''reappeared in scan'' ''system'' (observe_again run item n f) db1
       else db1)"
    using assms Some by (auto simp: ingest_item_def Let_def split: sum.splits)
  let ?o = "observe_again run item n f"
  let ?q = "if f_state f = MITIGATED then set_state (iw_now (ir_world run)) REOPENED ?o else ?o"
  have o: "?o \<in> set (d_findings (update_finding (f_id f) (observe_again run item n) db))"
    using f(1) by (auto simp: update_rows_def)
  have "?q \<in> set (d_findings db')"
    using n update_rows_hit [OF o, of f_id "f_id f" "set_state (iw_now (ir_world run)) REOPENED"] o
    by (simp add: Let_def)
  moreover have i: "identity ?q = identity f" by simp
  have "in_scope run ?q" "f_dedup_hash ?q = item_hash run item"
    using in_scope_identity [OF i, of run] identity_eqD [OF i] f(2,3) by metis+
  moreover have "f_state ?q \<noteq> MITIGATED" by simp
  ultimately show ?thesis unfolding alive_def by blast
qed

lemma ingest_items_alive:
  "ingest_items run items (db, cs) = Inr (db', cs') \<Longrightarrow> created_ok run old db cs \<Longrightarrow>
   h \<in> item_hash run ` set items \<Longrightarrow> alive run db' h"
proof (induction items arbitrary: db cs)
  case (Cons item items)
  let ?seen = "item_hash run ` set (item # items)"
  from Cons.prems(1) obtain db1 cs1 where 1: "ingest_item run item (db, cs) = Inr (db1, cs1)"
    "ingest_items run items (db1, cs1) = Inr (db', cs')" by (auto split: sum.splits)
  have c1: "created_ok run old db1 cs1"
    using ingest_item_refines [OF 1(1) Cons.prems(2), of ?seen False] by auto
  show ?case
  proof (cases "h \<in> item_hash run ` set items")
    case True
    with Cons.IH [OF 1(2) c1] show ?thesis by simp
  next
    case False
    with Cons.prems(3) have "h = item_hash run item" by auto
    then have a: "alive run db1 h" using ingest_item_alive [OF 1(1)] by simp
    have "ingest_steps run False ?seen old db1 db'"
      using ingest_items_refines [OF 1(2) c1, of ?seen False] by auto
    from alive_steps [OF this _ a] c1 Cons.prems(3) show ?thesis by (auto simp: created_ok_def)
  qed
qed simp

lemma set_state_twice [simp]: "set_state now s (set_state now s f) = set_state now s f"
  by (simp add: set_state_def)

lemma fold_transition_findings:
  "d_findings (fold (\<lambda>f. transition now MITIGATED r a f) fs db) =
     map (\<lambda>q. if f_id q \<in> f_id ` set fs then set_state now MITIGATED q else q) (d_findings db)"
  by (induction fs arbitrary: db) (auto simp: update_rows_def)

lemma mitigate_stale_exact:
  assumes "q \<in> set (d_findings (mitigate_stale run seen db))" and "in_scope run q"
    and "f_tool q = ir_tool run" and "f_state q = OPEN"
  shows "f_dedup_hash q \<in> set seen"
proof (rule ccontr)
  assume n: "f_dedup_hash q \<notin> set seen"
  obtain p where p: "p \<in> set (d_findings db)"
    "q = (if f_id p \<in> f_id ` set (stale_findings run seen db)
          then set_state (iw_now (ir_world run)) MITIGATED p else p)"
    using assms(1) unfolding mitigate_stale_def fold_transition_findings by auto
  with assms(4) have "q = p" "f_id p \<notin> f_id ` set (stale_findings run seen db)"
    by (auto split: if_splits)
  moreover have "p \<in> set (stale_findings run seen db)"
    using p(1) assms n \<open>q = p\<close> by (simp add: stale_findings_def in_scope_def)
  ultimately show False by blast
qed

subsection \<open>A concrete repository\<close>

definition example_world :: ingest_world where
  "example_world = \<lparr>iw_digest = (\<lambda>s. s), iw_now = 1000, iw_epss = (\<lambda>_. Map.empty), iw_kev = [],
     iw_warm = (\<lambda>_ es. es), iw_lost = (\<lambda>_ _. False)\<rparr>"

definition example_item :: scan_item where
  "example_item = \<lparr>i_rule_id = ''CVE-1'', i_title = [], i_description = [], i_file_path = ''req.txt'',
     i_snippet = ''pkg 1.0'', i_line_start = None, i_line_end = None, i_severity = HIGH,
     i_cve_id = None, i_dependency_scope = ''runtime'', i_package_name = Some ''pkg''\<rparr>"

abbreviation run_clean :: "scan_health option \<Rightarrow> ingest_error + db \<times> alert list" where
  "run_clean health \<equiv> ingest_findings example_world example_target 3 ''semgrep'' ''main'' [] health triage_db"

lemma example_ok: "findings_ok triage_db"
  by (simp add: findings_ok_def triage_db_def empty_db_def)

lemma no_items_ok: "\<exists>db' al. ingest_findings w t sid tool branch [] health db = Inr (db', al)"
  by (simp add: ingest_findings_def batch_cve_ids_def sort_str_def Let_def split_beta)

text \<open>C6: A scan stays in its lane.  No finding is ever deleted or renamed; findings of another
  target or branch are untouched; and a finding a person has triaged (accepted risk, false
  positive, won't fix), like one already reopened, keeps its state whatever the scan reports.\<close>

theorem scan_respects_triage:
  assumes "ingest_findings w t sid tool branch parsed health db = Inr (db', alerts)" and "findings_ok db"
  shows "filter (\<lambda>f. \<not> (f_target_id f = t_id t \<and> f_branch f = branch)) (d_findings db') =
      filter (\<lambda>f. \<not> (f_target_id f = t_id t \<and> f_branch f = branch)) (d_findings db) \<and>
    (\<forall>f\<in>set (d_findings db). \<exists>f'\<in>set (d_findings db'). identity f' = identity f \<and>
       (f_state f \<in> {ACCEPTED_RISK, FALSE_POSITIVE, WONT_FIX, REOPENED} \<longrightarrow> f_state f' = f_state f))"
proof -
  note steps = ingest_refines [OF assms]
  have "\<exists>f'\<in>set (d_findings db'). identity f' = identity f \<and>
       (f_state f \<in> {ACCEPTED_RISK, FALSE_POSITIVE, WONT_FIX, REOPENED} \<longrightarrow> f_state f' = f_state f)"
    if "f \<in> set (d_findings db)" for f
    using fate_steps [OF steps assms(2) that] that
    by (fastforce simp: fate_ok_def fates_def finding_ids_def split: finding_state.splits)
  with frame_steps [OF steps assms(2)] show ?thesis by (simp add: in_scope_def)
qed

theorem scan_respects_triage_witness:
  "\<exists>db' al. run_clean None = Inr (db', al) \<and>
     filter (\<lambda>f. \<not> (f_target_id f = 1 \<and> f_branch f = ''main'')) (d_findings db') = []"
proof -
  obtain db' al where r: "run_clean None = Inr (db', al)" using no_items_ok by blast
  have "t_id example_target = 1" "d_findings triage_db = [example_finding]"
    "f_target_id example_finding = 1" "f_branch example_finding = ''main''"
    by (simp_all add: example_target_def triage_db_def example_finding_def)
  with scan_respects_triage [OF r example_ok] r show ?thesis by auto
qed

text \<open>C7: A run is a sequence of the elementary changes of its specification.  Whatever
  \<open>ingest_findings\<close> is given, when it returns it has only observed or added findings of its own
  target and branch, reopened ones it reported, suppressed ones it had just created, mitigated Open
  ones of its own tool that it did not report, and this last only when \<open>may_mitigate\<close> allowed it;
  each such step is a rule of \<open>ingest_step\<close>.\<close>

theorem scan_is_small_steps:
  assumes "ingest_findings w t sid tool branch parsed health db = Inr (db', alerts)" and "findings_ok db"
  shows "(ingest_step (run_of w t sid tool branch parsed db) (fst (may_mitigate parsed health))
     (reported (run_of w t sid tool branch parsed db) parsed) (finding_ids db))\<^sup>*\<^sup>* db db'"
  using assms by (rule ingest_refines)

theorem scan_is_small_steps_witness:
  "\<exists>db' al. run_clean None = Inr (db', al) \<and>
     (ingest_step (run_of example_world example_target 3 ''semgrep'' ''main'' [] triage_db) False {} {11})\<^sup>*\<^sup>* triage_db db'"
proof -
  obtain db' al where r: "run_clean None = Inr (db', al)" using no_items_ok by blast
  have "finding_ids triage_db = {11}" by (simp add: finding_ids_def triage_db_def example_finding_def)
  with scan_is_small_steps [OF r example_ok] r show ?thesis by (auto simp: may_mitigate_def reported_def)
qed

text \<open>C23: A run that proves nothing clears nothing.  When the scanner's health is degraded, or
  there is no health evidence and nothing was reported, no open finding of any target is
  mitigated: the only state a finding can change to is Reopened, from Mitigated, and only when it is a
  finding of the scanned target and branch whose fingerprint is one of those the run reported.\<close>

theorem untrusted_run_clears_nothing:
  assumes "ingest_findings w t sid tool branch parsed health db = Inr (db', alerts)" and "findings_ok db"
    and "case health of Some h \<Rightarrow> sh_reasons h \<noteq> [] | None \<Rightarrow> parsed = []"
    and "f \<in> set (d_findings db)"
  shows "\<exists>f'\<in>set (d_findings db'). identity f' = identity f \<and>
     (f_state f' = f_state f \<or>
      f_state f = MITIGATED \<and> f_state f' = REOPENED \<and> f_target_id f = t_id t \<and> f_branch f = branch \<and>
        f_dedup_hash f \<in> item_hash (run_of w t sid tool branch parsed db) ` set parsed)"
proof (cases "in_scope (run_of w t sid tool branch parsed db) f")
  case True
  have "\<not> fst (may_mitigate parsed health)"
    using assms(3) by (auto simp: may_mitigate_def healthy_def split: option.splits)
  then obtain f' where "f' \<in> set (d_findings db')"
    "fate_ok False (reported (run_of w t sid tool branch parsed db) parsed) f f'"
    using fate_steps [OF ingest_refines [OF assms(1,2)] assms(2,4)] assms(4)
    by (auto simp: finding_ids_def)
  with True show ?thesis
    by (intro bexI [of _ f'])
      (auto simp: fate_ok_def fates_def reported_def in_scope_def split: finding_state.splits if_splits)
next
  case False
  with assms(4) have "f \<in> set (filter (\<lambda>f. \<not> in_scope (run_of w t sid tool branch parsed db) f) (d_findings db))" by simp
  then have "f \<in> set (d_findings db')" unfolding frame_steps [OF ingest_refines [OF assms(1,2)] assms(2), symmetric] by simp
  then show ?thesis by blast
qed

theorem untrusted_run_clears_nothing_witness:
  "\<exists>db' al. run_clean (Some \<lparr>sh_tool = ''semgrep'', sh_reasons = [''db missing'']\<rparr>) = Inr (db', al) \<and>
     (\<exists>f'\<in>set (d_findings db'). f_id f' = 11 \<and> f_state f' = OPEN)"
proof -
  let ?h = "Some \<lparr>sh_tool = ''semgrep'', sh_reasons = [''db missing'']\<rparr>"
  obtain db' al where r: "run_clean ?h = Inr (db', al)" using no_items_ok by blast
  have m: "example_finding \<in> set (d_findings triage_db)" by (simp add: triage_db_def)
  have "f_state example_finding = OPEN" "f_id example_finding = 11"
    by (simp_all add: example_finding_def)
  with untrusted_run_clears_nothing [OF r example_ok _ m] r show ?thesis
    by (fastforce dest: identity_eqD)
qed

lemma trusted_run_open:
  assumes "ingest_findings w t sid tool branch parsed health db = Inr (db', alerts)"
    and "fst (may_mitigate parsed health)" and "f \<in> set (d_findings db')" and "f_target_id f = t_id t"
    and "f_branch f = branch" and "f_tool f = tool" and "f_state f = OPEN"
  shows "f_dedup_hash f \<in> reported (run_of w t sid tool branch parsed db) parsed"
proof -
  let ?run = "run_of w t sid tool branch parsed db"
  obtain db3 db4 where
    "db4 = (if fst (may_mitigate parsed health)
            then mitigate_stale ?run (map (item_hash ?run) parsed) db3 else db3)"
    "db' = db4\<lparr>d_scans := update_rows s_id sid
       (finish_scan (iw_now w) (length parsed) health (may_mitigate parsed health)) (d_scans db4)\<rparr>"
    by (rule ingest_parts [OF assms(1)])
  then show ?thesis
    using assms(2-7) mitigate_stale_exact [of f ?run "map (item_hash ?run) parsed" db3]
    by (simp add: in_scope_def reported_def)
qed

lemma trusted_run_clears:
  assumes ingest: "ingest_findings w t sid tool branch parsed health db = Inr (db', alerts)" and ok: "findings_ok db"
    and may: "fst (may_mitigate parsed health)"
    and f: "f \<in> set (d_findings db)" "f_target_id f = t_id t" "f_branch f = branch" "f_tool f = tool"
    and absent: "f_dedup_hash f \<notin> reported (run_of w t sid tool branch parsed db) parsed"
  shows "\<exists>f'\<in>set (d_findings db'). identity f' = identity f \<and>
           f_state f' = (if f_state f = OPEN then MITIGATED else f_state f)"
proof -
  let ?seen = "reported (run_of w t sid tool branch parsed db) parsed"
  obtain f' where f': "f' \<in> set (d_findings db')" "fate_ok True ?seen f f'"
    using fate_steps [OF ingest_refines [OF ingest ok] ok f(1)] f(1) may by (auto simp: finding_ids_def)
  then have "f_state f' \<noteq> OPEN"
    using trusted_run_open [OF ingest may f'(1)] f absent by (auto simp: fate_ok_def dest: identity_eqD)
  with f' absent show ?thesis
    by (intro bexI [of _ f'])
      (auto simp: fate_ok_def fates_def split: finding_state.splits if_splits)
qed

text \<open>C26: A trusted run is exact.  After it, every Open finding of its target, branch and tool
  is one it reported, and every fingerprint it reported belongs to a finding that is not
  mitigated; an Open finding of the tool that it did not report is Mitigated.  A Reopened
  finding that it did not report, however, stays Reopened: the sweep looks at Open
  findings only, so a fixed vulnerability that was reopened once is never cleared by a scan.\<close>

theorem trusted_run_is_exact:
  assumes "ingest_findings w t sid tool branch parsed health db = Inr (db', alerts)" and "findings_ok db"
    and "fst (may_mitigate parsed health)"
    and "seen = reported (run_of w t sid tool branch parsed db) parsed"
  shows "(\<forall>f\<in>set (d_findings db'). f_target_id f = t_id t \<and> f_branch f = branch \<and> f_tool f = tool \<and>
        f_state f = OPEN \<longrightarrow> f_dedup_hash f \<in> seen) \<and>
    (\<forall>h\<in>seen. \<exists>f\<in>set (d_findings db'). f_target_id f = t_id t \<and> f_branch f = branch \<and>
        f_dedup_hash f = h \<and> f_state f \<noteq> MITIGATED) \<and>
    (\<forall>f\<in>set (d_findings db). f_target_id f = t_id t \<and> f_branch f = branch \<and> f_tool f = tool \<and>
        f_dedup_hash f \<notin> seen \<longrightarrow>
        (\<exists>f'\<in>set (d_findings db'). identity f' = identity f \<and>
           f_state f' = (if f_state f = OPEN then MITIGATED else f_state f)))"
proof -
  let ?run = "run_of w t sid tool branch parsed db"
  obtain db1 db2 cs db3 db4 where p:
    "db1 = snd (start_run w t sid tool branch parsed db)"
    "ingest_items ?run parsed (db1, []) = Inr (db2, cs)"
    "db3 = fold (suppress_created ?run) cs db2"
    "db4 = (if fst (may_mitigate parsed health)
            then mitigate_stale ?run (map (item_hash ?run) parsed) db3 else db3)"
    "db' = db4\<lparr>d_scans := update_rows s_id sid
       (finish_scan (iw_now w) (length parsed) health (may_mitigate parsed health)) (d_scans db4)\<rparr>"
    by (rule ingest_parts [OF assms(1)])
  have exact: "f_dedup_hash f \<in> seen"
    if "f \<in> set (d_findings db')" "f_target_id f = t_id t" "f_branch f = branch" "f_tool f = tool" "f_state f = OPEN"
    for f
    using trusted_run_open [OF assms(1,3) that] assms(4) by simp
  have db1: "d_findings db1 = d_findings db" by (simp add: p(1) start_run_def Let_def)
  then have c1: "created_ok ?run (finding_ids db) db1 []"
    using assms(2) by (simp add: created_ok_def findings_ok_def finding_ids_def)
  have alive: "alive ?run db' h" if h: "h \<in> seen" for h
  proof -
    have a2: "alive ?run db2 h"
      using ingest_items_alive [OF p(2) c1] h assms(4) by (simp add: reported_def)
    have c2: "created_ok ?run (finding_ids db) db2 cs"
      using ingest_items_refines [OF p(2) c1, of seen True] assms(4) by (simp add: reported_def)
    from suppress_refines [OF c2]
    have s3: "ingest_steps ?run True seen (finding_ids db) db2 db3" and ok3: "findings_ok db3"
      unfolding p(3) by auto
    have a3: "alive ?run db3 h" using alive_steps [OF s3 _ a2 h] c2 by (simp add: created_ok_def)
    have "distinct (map f_id (stale_findings ?run (map (item_hash ?run) parsed) db3))"
      using ok3 by (auto simp: stale_findings_def findings_ok_def intro: distinct_map_filter)
    then have "ingest_steps ?run True seen (finding_ids db) db3
        (mitigate_stale ?run (map (item_hash ?run) parsed) db3)"
      unfolding mitigate_stale_def using ok3 assms(4)
      by (intro mitigate_refines) (auto simp: stale_findings_def in_scope_def reported_def)
    from alive_steps [OF this ok3 a3 h] p(4,5) assms(3) show ?thesis by (simp add: alive_def)
  qed
  have cleared: "\<exists>f'\<in>set (d_findings db'). identity f' = identity f \<and>
           f_state f' = (if f_state f = OPEN then MITIGATED else f_state f)"
    if "f \<in> set (d_findings db)" "f_target_id f = t_id t" "f_branch f = branch" "f_tool f = tool"
      "f_dedup_hash f \<notin> seen" for f
    using trusted_run_clears [OF assms(1-3) that(1-4)] that(5) assms(4) by simp
  show ?thesis using exact alive cleared by (auto simp: alive_def in_scope_def)
qed

theorem trusted_run_is_exact_witness:
  "\<exists>db' al. run_clean (Some (trusted ''semgrep'')) = Inr (db', al) \<and>
     (\<exists>f'\<in>set (d_findings db'). f_id f' = 11 \<and> f_state f' = MITIGATED)"
proof -
  obtain db' al where r: "run_clean (Some (trusted ''semgrep'')) = Inr (db', al)" using no_items_ok by blast
  have may: "fst (may_mitigate [] (Some (trusted ''semgrep'')))"
    by (simp add: may_mitigate_def healthy_def trusted_def)
  have m: "example_finding \<in> set (d_findings triage_db)" by (simp add: triage_db_def)
  have "f_state example_finding = OPEN" "f_id example_finding = 11" "f_tool example_finding = ''semgrep''"
    "f_branch example_finding = ''main''" "f_target_id example_finding = t_id example_target"
    by (simp_all add: example_finding_def example_target_def)
  with trusted_run_is_exact [OF r example_ok may refl] m r show ?thesis
    by (fastforce simp: reported_def dest: identity_eqD)
qed

text \<open>C22: One finding per fingerprint.  A run keeps ids unique and never leaves two findings of
  the same target and branch with the same fingerprint, even when its report names one
  twice.\<close>

theorem scan_keeps_fingerprints_unique:
  assumes "ingest_findings w t sid tool branch parsed health db = Inr (db', alerts)" and "findings_ok db"
  shows "distinct (map (\<lambda>f. (f_target_id f, f_branch f, f_dedup_hash f)) (d_findings db')) \<and>
    distinct (map f_id (d_findings db')) \<and> f_id ` set (d_findings db) \<subseteq> f_id ` set (d_findings db')"
  using findings_ok_steps [OF ingest_refines [OF assms] assms(2)]
  by (simp add: findings_ok_def finding_ids_def fingerprint_def [abs_def])

theorem scan_keeps_fingerprints_unique_witness:
  "\<exists>db' al. ingest_findings example_world example_target 3 ''trivy'' ''main'' [example_item, example_item] None
      triage_db = Inr (db', al) \<and> length (d_findings db') = 2 \<and> distinct (map f_id (d_findings db'))"
proof -
  have "(case ingest_findings example_world example_target 3 ''trivy'' ''main'' [example_item, example_item] None
      triage_db of Inl _ \<Rightarrow> 0 | Inr (db', al) \<Rightarrow> length (d_findings db')) = (2 :: nat)"
    by code_simp
  then obtain db' al where r: "ingest_findings example_world example_target 3 ''trivy'' ''main''
      [example_item, example_item] None triage_db = Inr (db', al)" "length (d_findings db') = 2"
    by (auto split: sum.splits)
  with scan_keeps_fingerprints_unique [OF r(1) example_ok] show ?thesis by blast
qed

text \<open>C9: The audit trail tells the truth.  If replaying each finding's state log from Open
  leads without a gap to the state the finding is in, then it still does after a scan and
  after a person's triage of a finding; so the state at any past time can be read off the
  log.\<close>

theorem audit_trail_is_complete:
  assumes "audit_ok db" and "findings_ok db"
  shows "(ingest_findings w t sid tool branch parsed health db = Inr (db', alerts) \<longrightarrow> audit_ok db') \<and>
    (f \<in> set (d_findings db) \<longrightarrow> audit_ok (apply_triage now f to_state reason actor batch db))"
proof (intro conjI impI)
  assume "ingest_findings w t sid tool branch parsed health db = Inr (db', alerts)"
  then show "audit_ok db'" using audit_steps ingest_refines assms by blast
next
  assume f: "f \<in> set (d_findings db)"
  let ?db = "add_log (log_entry f to_state reason actor batch now)
      (update_finding (f_id f) (\<lambda>f. f\<lparr>f_state := to_state\<rparr>) db)"
  have "audit_ok ?db"
    by (rule audit_logged_edit [OF assms(1) _ f, of _ "\<lambda>f. f\<lparr>f_state := to_state\<rparr>"
          "log_entry f to_state reason actor batch now"]) (simp_all add: log_entry_def)
  moreover have "d_findings (apply_triage now f to_state reason actor batch db) = d_findings ?db"
    "d_logs (apply_triage now f to_state reason actor batch db) = d_logs ?db"
    by (simp_all add: apply_triage_def Let_def)
  ultimately show "audit_ok (apply_triage now f to_state reason actor batch db)" by (rule audit_same)
qed

theorem audit_trail_is_complete_witness:
  "audit_ok (apply_triage 50 example_finding WONT_FIX ''later'' ''ann'' None triage_db)"
proof -
  have a: "audit_ok triage_db"
    by (simp add: audit_ok_def triage_db_def empty_db_def logs_of_def example_finding_def)
  have m: "example_finding \<in> set (d_findings triage_db)" by (simp add: triage_db_def)
  show ?thesis using audit_trail_is_complete [OF a example_ok] m by blast
qed

subsection \<open>The stored priority\<close>

definition scope_db :: db where
  "scope_db = empty_db\<lparr>d_targets := [example_target],
     d_weights := [\<lparr>sw_workspace_id = 7, sw_signal = S_DEPENDENCY_SCOPE, sw_weight = Finite 1\<rparr>]\<rparr>"

definition scan_trivy :: "db \<Rightarrow> db" where
  "scan_trivy db =
     (case ingest_findings example_world example_target 3 ''trivy'' ''main'' [example_item] None db of
        Inl _ \<Rightarrow> db | Inr (db', _) \<Rightarrow> db')"

text \<open>A second look forgets the dependency scope.  In a workspace that weighs it, a finding
  in a runtime dependency is stored with its uplift when first seen; scanning again, with
  nothing changed, stores a lower priority, because the re-score does not pass the scope on.
  The detail view, which reads the stored scope, still computes the first score, so the list
  and the detail view disagree from then on.\<close>

theorem rescan_forgets_scope:
  "(let once = scan_trivy scope_db; again = scan_trivy once in
     (map f_priority_score (d_findings once), map f_priority_score (d_findings again),
      map f_dependency_scope (d_findings again),
      map (\<lambda>f. map_sum id b_score (score_breakdown_for_finding again f)) (d_findings again))) =
   ([620], [480], [''runtime''], [Inr 620])"
  by code_simp

end
