(* ===== verification/Guardrail.thy ===== *)
theory Guardrail
  imports Tables
begin

text \<open>
  The pure half of PR Guardrail: \<open>core/pr_guardrail.py\<close> (net-new diff, authorship, blocking),
  \<open>core/policy.py\<close> (suppression and severity policies) and \<open>core/enforcement.py\<close> (does a
  blocked PR fail the build).  A finding parsed from a scanner is a Python \<open>dict\<close>; it is a
  record whose fields are \<open>None\<close> where the key is absent or holds \<open>None\<close>, which every
  reader below treats alike.
\<close>

record pr_finding =
  pf_dedup_hash :: "string option"
  pf_tool :: "string option"
  pf_rule_id :: "string option"
  pf_title :: "string option"
  pf_file_path :: "string option"
  pf_line_start :: "int option"
  pf_line_end :: "int option"
  pf_severity :: "string option"
  pf_snippet :: "string option"

text \<open>\<open>x or d\<close> on a possibly absent string.\<close>

definition or_else :: "string option \<Rightarrow> string \<Rightarrow> string" where
  "or_else x d = (case x of None \<Rightarrow> d | Some s \<Rightarrow> if s = [] then d else s)"

subsection \<open>\<open>pr_guardrail.py\<close>\<close>

definition SEVERITY_ORDER :: "string list" where
  "SEVERITY_ORDER = [''Informational'', ''Low'', ''Medium'', ''High'', ''Critical'']"

definition BLOCKING_SEVERITIES :: "string list" where
  "BLOCKING_SEVERITIES = [''Critical'', ''High'']"

fun index_of :: "'a list \<Rightarrow> 'a \<Rightarrow> nat option" where
  "index_of [] a = None"
| "index_of (x # xs) a = (if x = a then Some 0 else map_option Suc (index_of xs a))"

definition compute_net_new :: "pr_finding list \<Rightarrow> string list \<Rightarrow> pr_finding list" where
  "compute_net_new pr_findings existing_hashes =
     filter (\<lambda>f. pf_dedup_hash f \<notin> Some ` set existing_hashes) pr_findings"

definition severity_rank :: "string \<Rightarrow> int" where
  "severity_rank sev = (case index_of SEVERITY_ORDER sev of Some i \<Rightarrow> int i | None \<Rightarrow> -1)"

fun highest_loop :: "string option \<Rightarrow> int \<Rightarrow> pr_finding list \<Rightarrow> string option" where
  "highest_loop best best_rank [] = best"
| "highest_loop best best_rank (f # fs) =
     (case pf_severity f of
        None \<Rightarrow> highest_loop best best_rank fs
      | Some sev \<Rightarrow>
          (if severity_rank sev > best_rank then highest_loop (Some sev) (severity_rank sev) fs
           else highest_loop best best_rank fs))"

definition highest_severity :: "pr_finding list \<Rightarrow> string option" where
  "highest_severity findings = highest_loop None (-1) findings"

definition should_block :: "pr_finding list \<Rightarrow> string list option \<Rightarrow> bool" where
  "should_block findings blocking_severities =
     (let severities = (case blocking_severities of Some s \<Rightarrow> s | None \<Rightarrow> BLOCKING_SEVERITIES)
      in list_ex (\<lambda>f. pf_severity f \<in> Some ` set severities) findings)"

text \<open>The value of a path in the changed-line map.\<close>

datatype changed = WHOLE_FILE | Lines "int list"

fun drop_dot_slash :: "string \<Rightarrow> string" where
  "drop_dot_slash (a # b # p) = (if a = CHR ''.'' \<and> b = CHR ''/'' then drop_dot_slash p else a # b # p)"
| "drop_dot_slash p = p"

definition norm_path :: "string option \<Rightarrow> string" where
  "norm_path path =
     drop_dot_slash (map (\<lambda>c. if c = CHR 0x5C then CHR ''/'' else c) (str_strip (or_else path [])))"

text \<open>A dict comprehension over the normalised paths: a later entry replaces an earlier one
  of the same normal form.\<close>

definition changed_lookup :: "(string \<times> changed) list \<Rightarrow> string \<Rightarrow> changed option" where
  "changed_lookup changed_lines =
     map_of (rev (map (\<lambda>(path, lines). (norm_path (Some path), lines)) changed_lines))"

definition finding_end :: "pr_finding \<Rightarrow> int \<Rightarrow> int" where
  "finding_end f start =
     (let end_line = (case pf_line_end f of None \<Rightarrow> start | Some e \<Rightarrow> if e = 0 then start else e)
      in if end_line < start then start else end_line)"

definition attributable :: "(string \<times> changed) list \<Rightarrow> pr_finding \<Rightarrow> bool" where
  "attributable changed_lines f =
     (case changed_lookup changed_lines (norm_path (pf_file_path f)) of
        None \<Rightarrow> False
      | Some WHOLE_FILE \<Rightarrow> True
      | Some (Lines added) \<Rightarrow>
          (case pf_line_start f of
             None \<Rightarrow> True
           | Some start \<Rightarrow> list_ex (\<lambda>line. start \<le> line \<and> line \<le> finding_end f start) added))"

definition attributable_to_diff :: "pr_finding list \<Rightarrow> (string \<times> changed) list \<Rightarrow> pr_finding list" where
  "attributable_to_diff findings changed_lines = filter (attributable changed_lines) findings"

subsection \<open>\<open>policy.py\<close>\<close>

definition matches_suppress_rule :: "pr_finding \<Rightarrow> string \<Rightarrow> bool" where
  "matches_suppress_rule f v =
     (let rule_id = or_else (pf_rule_id f) [] in
      if v = [] \<or> rule_id = [] then False
      else v = rule_id \<or> str_contains v rule_id \<or> str_contains rule_id v)"

definition matches_suppress_license :: "pr_finding \<Rightarrow> string \<Rightarrow> bool" where
  "matches_suppress_license f v =
     (if v = [] then False
      else
        (let value_lower = str_lower v;
             rule_id = str_lower (or_else (pf_rule_id f) []);
             title = str_lower (or_else (pf_title f) [])
         in rule_id = ''license:'' @ value_lower
            \<or> (starts_with ''license:'' rule_id \<and> str_contains value_lower rule_id)
            \<or> (str_contains value_lower title \<and>
               str_contains ''license'' (if rule_id = [] then title else rule_id))))"

definition policy_thresholds :: "policy_rule list \<Rightarrow> string list" where
  "policy_thresholds policies =
     map p_value (filter (\<lambda>r. p_active r \<and> p_rule_type r = BLOCK_SEVERITY
                             \<and> p_value r \<in> set SEVERITY_ORDER) policies)"

definition effective_blocking_severities :: "policy_rule list \<Rightarrow> string list" where
  "effective_blocking_severities policies =
     (case policy_thresholds policies of
        [] \<Rightarrow> BLOCKING_SEVERITIES
      | t # ts \<Rightarrow>
          drop (Min (set (map (\<lambda>t. nat (severity_rank t)) (t # ts)))) SEVERITY_ORDER)"

definition suppressed :: "policy_rule list \<Rightarrow> pr_finding \<Rightarrow> bool" where
  "suppressed policies f =
     (list_ex (\<lambda>r. p_active r \<and> p_rule_type r = SUPPRESS_RULE \<and> matches_suppress_rule f (p_value r)) policies
      \<or> list_ex (\<lambda>r. p_active r \<and> p_rule_type r = SUPPRESS_LICENSE \<and> matches_suppress_license f (p_value r)) policies)"

definition apply_policies ::
  "pr_finding list \<Rightarrow> policy_rule list \<Rightarrow> pr_finding list \<times> string list" where
  "apply_policies net_new policies =
     (filter (\<lambda>f. \<not> suppressed policies f) net_new, effective_blocking_severities policies)"

subsection \<open>\<open>enforcement.py\<close>\<close>

text \<open>A mode read from the database is free text; ranking one that is not a key of
  \<open>_RESTRICTIVENESS\<close> raises \<open>KeyError\<close>.\<close>

datatype mode_error = ModeKeyError string

definition DEFAULT_ENFORCEMENT_MODE :: string where "DEFAULT_ENFORCEMENT_MODE = ''block''"

definition RESTRICTIVENESS :: "string \<Rightarrow> int option" where
  "RESTRICTIVENESS m =
     (if m = ''block'' then Some 3 else if m = ''alert'' then Some 2
      else if m = ''disabled'' then Some 1 else None)"

definition VALID_ENFORCEMENT_MODES :: "string list" where
  "VALID_ENFORCEMENT_MODES = [''block'', ''alert'', ''disabled'']"

definition most_restrictive :: "string list \<Rightarrow> mode_error + string" where
  "most_restrictive modes =
     (case List.find (\<lambda>m. RESTRICTIVENESS m = None) modes of
        Some m \<Rightarrow> Inl (ModeKeyError m)
      | None \<Rightarrow> Inr (the (first_max (\<lambda>m. the (RESTRICTIVENESS m)) modes)))"

definition truthy :: "string option \<Rightarrow> bool" where
  "truthy s \<longleftrightarrow> s \<noteq> None \<and> s \<noteq> Some []"

text \<open>The modes of the groups the join rows put the target in, without the unset ones.\<close>

definition group_modes :: "db \<Rightarrow> target \<Rightarrow> string list" where
  "group_modes db t =
     map (\<lambda>g. the (g_enforcement_mode g))
       (filter (\<lambda>g. truthy (g_enforcement_mode g))
         (concat (map (\<lambda>tg. filter (\<lambda>g. g_id g = tg_group_id tg) (d_groups db))
           (filter (\<lambda>tg. tg_target_id tg = t_id t) (d_target_groups db)))))"

definition workspace_mode :: "db \<Rightarrow> target \<Rightarrow> string option" where
  "workspace_mode db t =
     (case List.find (\<lambda>w. ws_id w = t_workspace_id t) (d_workspaces db) of
        None \<Rightarrow> None
      | Some w \<Rightarrow> if truthy (ws_enforcement_mode w) then ws_enforcement_mode w else None)"

definition resolve_enforcement_mode :: "db \<Rightarrow> target \<Rightarrow> mode_error + string" where
  "resolve_enforcement_mode db t =
     (if truthy (t_enforcement_mode t) then Inr (the (t_enforcement_mode t))
      else if group_modes db t \<noteq> [] then most_restrictive (group_modes db t)
      else (case workspace_mode db t of Some m \<Rightarrow> Inr m | None \<Rightarrow> Inr DEFAULT_ENFORCEMENT_MODE))"

definition resolve_enforcement_mode_with_source ::
  "db \<Rightarrow> target \<Rightarrow> mode_error + string \<times> string" where
  "resolve_enforcement_mode_with_source db t =
     (if truthy (t_enforcement_mode t) then Inr (the (t_enforcement_mode t), ''target'')
      else if group_modes db t \<noteq> [] then
        (case most_restrictive (group_modes db t) of Inl e \<Rightarrow> Inl e | Inr m \<Rightarrow> Inr (m, ''group''))
      else (case workspace_mode db t of
              Some m \<Rightarrow> Inr (m, ''workspace'')
            | None \<Rightarrow> Inr (DEFAULT_ENFORCEMENT_MODE, ''default'')))"

subsection \<open>The choices are instances of one interface\<close>

interpretation modes: strongest
  "first_max (\<lambda>m. the (RESTRICTIVENESS m))" "\<lambda>m. the (RESTRICTIVENESS m)" "\<lambda>_. True"
  by (rule strongest_first_max)

definition known_severities :: "pr_finding list \<Rightarrow> string list" where
  "known_severities fs = filter (\<lambda>s. s \<in> set SEVERITY_ORDER) (List.map_filter pf_severity fs)"

lemma severity_rank_known: "0 \<le> severity_rank s \<longleftrightarrow> s \<in> set SEVERITY_ORDER"
  by (auto simp: severity_rank_def SEVERITY_ORDER_def)

lemma severity_rank_inj:
  "s \<in> set SEVERITY_ORDER \<Longrightarrow> s' \<in> set SEVERITY_ORDER \<Longrightarrow> severity_rank s = severity_rank s' \<Longrightarrow> s = s'"
proof -
  have ranks: "map severity_rank SEVERITY_ORDER = [0, 1, 2, 3, 4]" by code_simp
  then have "distinct (map severity_rank SEVERITY_ORDER)" by simp
  then have "inj_on severity_rank (set SEVERITY_ORDER)" by (simp add: distinct_map)
  then show "s \<in> set SEVERITY_ORDER \<Longrightarrow> s' \<in> set SEVERITY_ORDER \<Longrightarrow> severity_rank s = severity_rank s' \<Longrightarrow> s = s'"
    by (rule inj_onD)
qed

lemma severity_rank_unknown: "s \<notin> set SEVERITY_ORDER \<Longrightarrow> severity_rank s = -1"
  by (auto simp: severity_rank_def SEVERITY_ORDER_def)

lemma known_simps [simp]:
  "known_severities [] = []"
  "known_severities (f # fs) =
     (case pf_severity f of None \<Rightarrow> known_severities fs
      | Some s \<Rightarrow> if s \<in> set SEVERITY_ORDER then s # known_severities fs else known_severities fs)"
  by (simp_all add: known_severities_def List.map_filter_def split: option.split)

lemma highest_loop_some:
  "b \<in> set SEVERITY_ORDER \<Longrightarrow>
   highest_loop (Some b) (severity_rank b) fs = Some (first_max_from severity_rank b (known_severities fs))"
proof (induction fs arbitrary: b)
  case (Cons f fs)
  show ?case
  proof (cases "pf_severity f")
    case (Some s)
    show ?thesis
    proof (cases "s \<in> set SEVERITY_ORDER")
      case False
      moreover have "\<not> severity_rank s > severity_rank b"
        using severity_rank_unknown [OF False] severity_rank_known [of b] Cons.prems by simp
      ultimately show ?thesis using Some Cons.IH [OF Cons.prems] by (simp del: highest_loop.simps add: highest_loop.simps(2))
    qed (use Some Cons.IH [of b] Cons.IH [of s] Cons.prems in simp)
  qed (use Cons in simp)
qed simp

lemma highest_severity_is_max: "highest_severity fs = first_max severity_rank (known_severities fs)"
  unfolding highest_severity_def
proof (induction fs)
  case (Cons f fs)
  show ?case
  proof (cases "pf_severity f")
    case (Some s)
    show ?thesis
    proof (cases "s \<in> set SEVERITY_ORDER")
      case True
      then have "severity_rank s > -1" using severity_rank_known [of s] by simp
      with Some True show ?thesis by (simp add: highest_loop_some first_max_def)
    qed (use Some Cons severity_rank_unknown in simp)
  qed (use Cons in simp)
qed (simp add: first_max_def)

interpretation severities: strongest
  "\<lambda>xs. first_max severity_rank (filter (\<lambda>s. s \<in> set SEVERITY_ORDER) xs)" severity_rank
  "\<lambda>s. s \<in> set SEVERITY_ORDER"
proof unfold_locales
  show "x \<in> set xs \<and> x \<in> set SEVERITY_ORDER"
    if "first_max severity_rank (filter (\<lambda>s. s \<in> set SEVERITY_ORDER) xs) = Some x" for xs x
    using strongest.pick_mem [OF strongest_first_max that] by simp
  show "\<exists>x. first_max severity_rank (filter (\<lambda>s. s \<in> set SEVERITY_ORDER) xs) = Some x \<and>
      severity_rank y \<le> severity_rank x" if "y \<in> set xs" and "y \<in> set SEVERITY_ORDER" for xs y
    using that by (intro strongest.pick_best [OF strongest_first_max]) simp_all
qed

end
