(* ===== verification/Diff.thy ===== *)
theory Diff
  imports Guardrail
begin

text \<open>
  Reading what a pull request changed: the part of \<open>core/pr_guardrail_executor.py\<close> that
  turns GitHub's file list (\<open>GET /pulls/{n}/files\<close>) into the changed-line map
  \<open>attributable_to_diff\<close> reads.  A character is one of the first 256 code points, so of the
  line boundaries of \<open>str.splitlines\<close> only U+2028 and U+2029 are outside the model.
\<close>

abbreviation LF :: char where "LF \<equiv> CHR 0x0A"
abbreviation CR :: char where "CR \<equiv> CHR 0x0D"

definition line_breaks :: "char list" where
  "line_breaks = [LF, CHR 0x0B, CHR 0x0C, CR, CHR 0x1C, CHR 0x1D, CHR 0x1E, CHR 0x85]"

fun splitlines :: "string \<Rightarrow> string list" where
  "splitlines [] = []"
| "splitlines (c # cs) =
     (if c \<in> set line_breaks then
        (case cs of
           [] \<Rightarrow> [[]]
         | d # ds \<Rightarrow> if c = CR \<and> d = LF then [] # splitlines ds else [] # splitlines (d # ds))
      else (case splitlines cs of [] \<Rightarrow> [[c]] | w # ws \<Rightarrow> (c # w) # ws))"

fun strip_prefix :: "string \<Rightarrow> string \<Rightarrow> string option" where
  "strip_prefix [] s = Some s"
| "strip_prefix (p # ps) [] = None"
| "strip_prefix (p # ps) (c # cs) = (if p = c then strip_prefix ps cs else None)"

text \<open>The pieces of \<open>_HUNK_HEADER\<close>: \<open>\d+\<close> as the digits and the rest, the optional
  \<open>,\d+\<close>, and the whole pattern with its one group.\<close>

definition take_number :: "string \<Rightarrow> (nat \<times> string) option" where
  "take_number s = (if takeWhile is_digit s = [] then None
                    else Some (str_nat (takeWhile is_digit s), dropWhile is_digit s))"

definition skip_count :: "string \<Rightarrow> string" where
  "skip_count s =
     (case s of
        [] \<Rightarrow> []
      | c # r \<Rightarrow> if c = CHR '','' then (case take_number r of None \<Rightarrow> s | Some (_, r') \<Rightarrow> r') else s)"

definition hunk_header :: "string \<Rightarrow> nat option" where
  "hunk_header raw =
     Option.bind (strip_prefix ''@@ -'' raw) (\<lambda>r1.
     Option.bind (take_number r1) (\<lambda>(_, r2).
     Option.bind (strip_prefix '' +'' (skip_count r2)) (\<lambda>r3.
     Option.bind (take_number r3) (\<lambda>(start, r4).
     Option.bind (strip_prefix '' @@'' (skip_count r4)) (\<lambda>_. Some start)))))"

fun added_loop :: "bool \<Rightarrow> nat \<Rightarrow> string list \<Rightarrow> nat list" where
  "added_loop in_hunk line_no [] = []"
| "added_loop in_hunk line_no (raw # rest) =
     (case hunk_header raw of
        Some start \<Rightarrow> added_loop True start rest
      | None \<Rightarrow>
          if \<not> in_hunk then added_loop in_hunk line_no rest
          else (case raw of
             [] \<Rightarrow> added_loop in_hunk (line_no + 1) rest
           | marker # _ \<Rightarrow>
               if marker = CHR ''+'' then line_no # added_loop in_hunk (line_no + 1) rest
               else if marker = CHR ''-'' then added_loop in_hunk line_no rest
               else if marker = CHR 0x5C then added_loop in_hunk line_no rest
               else added_loop in_hunk (line_no + 1) rest))"

definition added_lines_from_patch :: "string \<Rightarrow> nat list" where
  "added_lines_from_patch patch = added_loop False 0 (splitlines patch)"

record gh_file =
  gf_status :: "string option"
  gf_filename :: "string option"
  gf_patch :: "string option"

definition MAX_DIFF_SCOPED_FILES :: nat where "MAX_DIFF_SCOPED_FILES = 300"

definition changed_paths :: "gh_file list \<Rightarrow> string list" where
  "changed_paths entries =
     map (\<lambda>e. the (gf_filename e))
       (filter (\<lambda>e. gf_status e \<noteq> Some ''removed'' \<and> truthy (gf_filename e)) entries)"

definition changed_line_map :: "gh_file list \<Rightarrow> (string \<times> changed) list" where
  "changed_line_map entries =
     fold (\<lambda>e out.
       if gf_status e = Some ''removed'' then out
       else if \<not> truthy (gf_filename e) then out
       else AList.update (the (gf_filename e))
              (if truthy (gf_patch e) then Lines (map int (added_lines_from_patch (the (gf_patch e))))
               else WHOLE_FILE) out)
     entries []"

subsection \<open>Rendered diffs\<close>

text \<open>A unified diff as \<open>git\<close> prints it, for stating what the reader makes of one.\<close>

datatype diff_line = Keep string | Add string | Del string | NoNewline

record hunk =
  h_old_start :: nat
  h_old_count :: "nat option"
  h_new_start :: nat
  h_new_count :: "nat option"
  h_section :: string
  h_lines :: "diff_line list"

fun render_line :: "diff_line \<Rightarrow> string" where
  "render_line (Keep s) = CHR '' '' # s"
| "render_line (Add s) = CHR ''+'' # s"
| "render_line (Del s) = CHR ''-'' # s"
| "render_line NoNewline = CHR 0x5C # '' No newline at end of file''"

fun render_count :: "nat option \<Rightarrow> string" where
  "render_count None = []"
| "render_count (Some n) = CHR '','' # nat_str n"

definition render_header :: "hunk \<Rightarrow> string" where
  "render_header h = ''@@ -'' @ nat_str (h_old_start h) @ render_count (h_old_count h) @ '' +''
     @ nat_str (h_new_start h) @ render_count (h_new_count h) @ '' @@'' @ h_section h"

definition hunk_lines :: "hunk \<Rightarrow> string list" where
  "hunk_lines h = render_header h # map render_line (h_lines h)"

definition render_patch :: "hunk list \<Rightarrow> string" where
  "render_patch hs = join [LF] (concat (map hunk_lines hs))"

text \<open>The head-side numbers of a hunk's added lines, counting from its start.\<close>

fun added_at :: "nat \<Rightarrow> diff_line list \<Rightarrow> nat list" where
  "added_at n [] = []"
| "added_at n (Keep s # ls) = added_at (n + 1) ls"
| "added_at n (Add s # ls) = n # added_at (n + 1) ls"
| "added_at n (Del s # ls) = added_at n ls"
| "added_at n (NoNewline # ls) = added_at n ls"

fun line_text :: "diff_line \<Rightarrow> string" where
  "line_text (Keep s) = s"
| "line_text (Add s) = s"
| "line_text (Del s) = s"
| "line_text NoNewline = []"

definition no_breaks :: "string \<Rightarrow> bool" where
  "no_breaks s \<longleftrightarrow> set s \<inter> set line_breaks = {}"

definition plain_hunk :: "hunk \<Rightarrow> bool" where
  "plain_hunk h \<longleftrightarrow> no_breaks (h_section h) \<and> list_all (\<lambda>l. no_breaks (line_text l)) (h_lines h)"

subsection \<open>Reading back a rendered diff\<close>

lemma strip_prefix_append [simp]: "strip_prefix p (p @ s) = Some s"
  by (induction p) auto

lemma take_number_nat_str:
  "s = [] \<or> \<not> is_digit (hd s) \<Longrightarrow> take_number (nat_str n @ s) = Some (n, s)"
proof -
  assume s: "s = [] \<or> \<not> is_digit (hd s)"
  have d: "\<forall>c\<in>set (nat_str n). is_digit c" "nat_str n \<noteq> []"
    using nat_str_digits [of n] by (simp_all add: list_all_iff)
  have "takeWhile is_digit (nat_str n @ s) = nat_str n" "dropWhile is_digit (nat_str n @ s) = s"
    using d(1) s by (cases s; simp add: takeWhile_append2 dropWhile_append2)+
  with d(2) show ?thesis by (simp add: take_number_def)
qed

lemma not_digits [simp]: "\<not> is_digit (CHR '','')" "\<not> is_digit (CHR '' '')"
  by (simp_all add: is_digit_def)

lemma skip_count_render:
  "skip_count (render_count c @ CHR '' '' # s) = CHR '' '' # s"
  by (cases c) (simp_all add: skip_count_def take_number_nat_str)

lemma hunk_header_render: "hunk_header (render_header h) = Some (h_new_start h)"
proof -
  have hd_count: "\<not> is_digit (hd (render_count c @ CHR '' '' # s))" for c s
    by (cases c) simp_all
  have 1: "take_number (nat_str n @ render_count c @ CHR '' '' # s) = Some (n, render_count c @ CHR '' '' # s)"
    for n c s using take_number_nat_str hd_count by blast
  have 2: "strip_prefix ''@@ -'' (''@@ -'' @ s) = Some s" "strip_prefix '' +'' (CHR '' '' # CHR ''+'' # s) = Some s"
    "strip_prefix '' @@'' (CHR '' '' # CHR ''@'' # CHR ''@'' # s) = Some s" for s
    by simp_all
  show ?thesis
    unfolding hunk_header_def render_header_def 2(1)
    using 1 [of "h_old_start h" "h_old_count h"] 1 [of "h_new_start h" "h_new_count h"]
    by (simp add: skip_count_render)
qed

lemma hunk_header_line: "hunk_header (render_line l) = None"
  by (cases l) (simp_all add: hunk_header_def)

lemma added_loop_lines:
  "added_loop True n (map render_line ls @ rest) =
     added_at n ls @ added_loop True (n + length (filter (\<lambda>l. case l of Keep _ \<Rightarrow> True | Add _ \<Rightarrow> True | _ \<Rightarrow> False) ls)) rest"
proof (induction ls arbitrary: n)
  case (Cons l ls)
  then show ?case using hunk_header_line [of l] by (cases l) simp_all
qed simp

lemma added_loop_hunks:
  "added_loop b n (concat (map hunk_lines hs)) = concat (map (\<lambda>h. added_at (h_new_start h) (h_lines h)) hs)"
proof (induction hs arbitrary: b n)
  case (Cons h hs)
  then show ?case by (simp add: hunk_lines_def hunk_header_render added_loop_lines)
qed simp

lemma splitlines_plain:
  "no_breaks w \<Longrightarrow> splitlines (w @ LF # s) = w # splitlines s"
proof (induction w)
  case Nil
  then show ?case by (cases s) (simp_all add: line_breaks_def)
next
  case (Cons c w)
  then show ?case by (simp add: no_breaks_def)
qed

lemma splitlines_last: "no_breaks w \<Longrightarrow> w \<noteq> [] \<Longrightarrow> splitlines w = [w]"
proof (induction w)
  case (Cons c w)
  then show ?case by (cases w) (auto simp: no_breaks_def)
qed simp

lemma splitlines_join:
  "list_all (\<lambda>w. no_breaks w \<and> w \<noteq> []) ws \<Longrightarrow> splitlines (join [LF] ws) = ws"
proof (induction ws)
  case (Cons w ws)
  then show ?case by (cases ws) (simp_all add: splitlines_plain splitlines_last)
qed simp

lemma digits_no_breaks: "list_all is_digit s \<Longrightarrow> no_breaks s"
  by (auto simp: no_breaks_def line_breaks_def list_all_iff is_digit_def)

lemma no_breaks_append [simp]: "no_breaks (a @ b) \<longleftrightarrow> no_breaks a \<and> no_breaks b"
  by (auto simp: no_breaks_def)

lemma no_breaks_Cons [simp]: "no_breaks (c # s) \<longleftrightarrow> c \<notin> set line_breaks \<and> no_breaks s"
  by (auto simp: no_breaks_def)

lemma no_breaks_Nil [simp]: "no_breaks []"
  by (simp add: no_breaks_def)

lemma no_breaks_count: "no_breaks (render_count c)"
  using nat_str_digits by (cases c) (simp_all add: digits_no_breaks line_breaks_def)

lemma hunk_lines_plain: "plain_hunk h \<Longrightarrow> list_all (\<lambda>w. no_breaks w \<and> w \<noteq> []) (hunk_lines h)"
proof -
  assume h: "plain_hunk h"
  have "no_breaks (render_line l) \<and> render_line l \<noteq> []" if "no_breaks (line_text l)" for l
    using that by (cases l) (simp_all add: line_breaks_def)
  with h show ?thesis
    using nat_str_digits digits_no_breaks no_breaks_count
    by (auto simp: hunk_lines_def render_header_def plain_hunk_def list_all_iff line_breaks_def)
qed

text \<open>C38: The changed-line reader is exact.  For a diff of any number of hunks whose lines
  contain no line-boundary character of Python's \<open>splitlines\<close>, it reads back exactly the
  head-side line numbers of the added lines, in order: deletions and the
  no-newline marker are not counted, unchanged lines only advance the count, and no content
  of a line can be mistaken for a hunk header.\<close>

theorem added_lines_exact:
  assumes "list_all plain_hunk hs"
  shows "added_lines_from_patch (render_patch hs) =
     concat (map (\<lambda>h. added_at (h_new_start h) (h_lines h)) hs)"
proof -
  have "list_all (\<lambda>w. no_breaks w \<and> w \<noteq> []) (concat (map hunk_lines hs))"
    using assms hunk_lines_plain by (fastforce simp: list_all_iff)
  then show ?thesis
    by (simp add: added_lines_from_patch_def render_patch_def splitlines_join added_loop_hunks)
qed

definition example_hunk :: hunk where
  "example_hunk = \<lparr>h_old_start = 4, h_old_count = Some 3, h_new_start = 4, h_new_count = Some 4,
     h_section = '' def f():'', h_lines = [Keep ''a'', Del ''b'', Add ''@@ -1 +1 @@'', Add ''c'', Keep '''']\<rparr>"

theorem added_lines_exact_witness:
  "added_lines_from_patch (render_patch [example_hunk]) = [5, 6]"
proof -
  have "list_all plain_hunk [example_hunk]"
    by (simp add: example_hunk_def plain_hunk_def no_breaks_def line_breaks_def)
  from added_lines_exact [OF this] show ?thesis by (simp add: example_hunk_def)
qed

end
