(* ===== verification/GuardrailScan.thy ===== *)
theory GuardrailScan
  imports Diff FpLearning
begin

text \<open>
  One PR Guardrail scan and what reviewers do with its result:
  \<open>execute_pr_guardrail_scan\<close>, \<open>recompute_pr_scan_status\<close> and their helpers of
  \<open>core/pr_guardrail_executor.py\<close>, and the ignore requests of \<open>api/pr_guardrail.py\<close>.  What a
  scan gets from GitHub, from the checkout and from the scanners is in \<open>pr_world\<close>; what it
  sends to GitHub is the list of effects it returns.  The text of the PR comment, the tool
  log and the timings are not modelled.
\<close>

datatype tool_outcome = Ran "pr_finding list" | ToolFailed | NotApplicable string

record endpoint =
  en_method :: string
  en_route :: string
  en_file :: string
  en_line :: "int option"

record pr_world =
  pw_now :: timestamp
  pw_pull :: "(string \<times> string \<times> string) option"
  pw_clone_ok :: bool
  pw_assigned_tools :: "string list"
  pw_files :: "gh_file list option"
  pw_blast_radius :: "string list \<Rightarrow> string list option \<times> int \<times> string"
  pw_run :: "string list option \<Rightarrow> string \<Rightarrow> tool_outcome"
  pw_relative :: "string \<Rightarrow> string"
  pw_digest :: "string \<Rightarrow> string"
  pw_discovered :: "endpoint list option"
  pw_delivery :: "string \<Rightarrow> string"

definition GUARDRAIL_FALLBACK_TOOL :: string where "GUARDRAIL_FALLBACK_TOOL = ''semgrep''"
definition MAX_NEW_FINDINGS_IN_RESPONSE :: nat where "MAX_NEW_FINDINGS_IN_RESPONSE = 20"
definition MAX_NEW_ENDPOINTS_IN_RESPONSE :: nat where "MAX_NEW_ENDPOINTS_IN_RESPONSE = 10"

subsection \<open>Running the tools\<close>

definition resolve_guardrail_tools :: "string list \<Rightarrow> string list" where
  "resolve_guardrail_tools tools = (if tools = [] then [GUARDRAIL_FALLBACK_TOOL] else tools)"

type_synonym tool_results = "pr_finding list \<times> string list \<times> (string \<times> string) list"

fun run_guardrail_tools ::
  "(string \<Rightarrow> tool_outcome) \<Rightarrow> string list \<Rightarrow> tool_results \<Rightarrow> tool_results" where
  "run_guardrail_tools run [] acc = acc"
| "run_guardrail_tools run (tool # tools) (findings, failed, skipped) =
     run_guardrail_tools run tools
       (case run tool of
          NotApplicable reason \<Rightarrow> (findings, failed, AList.update tool reason skipped)
        | ToolFailed \<Rightarrow> (findings, failed @ [tool], skipped)
        | Ran parsed \<Rightarrow> (findings @ map (\<lambda>f. f\<lparr>pf_tool := Some tool\<rparr>) parsed, failed, skipped))"

definition prepare_finding :: "pr_world \<Rightarrow> pr_finding \<Rightarrow> pr_finding" where
  "prepare_finding w f =
     (let path = (case or_else (pf_file_path f) [] of [] \<Rightarrow> [] | p \<Rightarrow> pw_relative w p)
      in f\<lparr>pf_file_path := Some path,
           pf_dedup_hash := Some (compute_dedup_hash (pw_digest w) (or_else (pf_rule_id f) []) path
             (or_else (pf_tool f) []) (or_else (pf_snippet f) []) (pf_line_start f))\<rparr>)"

subsection \<open>The scope of the scan\<close>

definition scan_scope ::
  "pr_world \<Rightarrow> target \<Rightarrow> string list option \<times> int \<times> scope_reason" where
  "scan_scope w t =
     (if \<not> t_diff_scoped_pr_scans t then (None, 0, NoReason)
      else (case map_option changed_paths (pw_files w) of
              None \<Rightarrow> (None, 0, FilesUnavailable)
            | Some changed \<Rightarrow>
                if length changed > MAX_DIFF_SCOPED_FILES then (None, 0, TooManyFiles (length changed))
                else if changed = [] then (None, 0, NoScannableFiles)
                else (let (expanded, added, note) = pw_blast_radius w changed
                      in (expanded, added, RadiusNote note))))"

text \<open>\<open>setdefault\<close>: a path of the blast radius that the PR did not change is attributed whole.\<close>

definition widen_changed_lines ::
  "string list option \<Rightarrow> (string \<times> changed) list \<Rightarrow> (string \<times> changed) list" where
  "widen_changed_lines scan_paths changed_lines =
     (case scan_paths of
        None \<Rightarrow> changed_lines
      | Some paths \<Rightarrow>
          fold (\<lambda>path m. if path \<in> fst ` set m then m else m @ [(path, WHOLE_FILE)]) paths changed_lines)"

definition attribution :: "pr_world \<Rightarrow> target \<Rightarrow> (string \<times> changed) list option" where
  "attribution w t =
     (case pw_files w of
        None \<Rightarrow> None
      | Some files \<Rightarrow> Some (widen_changed_lines (fst (scan_scope w t)) (changed_line_map files)))"

subsection \<open>The diff against the default branch\<close>

definition has_baseline_scan :: "db \<Rightarrow> target \<Rightarrow> bool" where
  "has_baseline_scan db t =
     list_ex (\<lambda>s. s_target_id s = t_id t \<and> s_branch s = t_default_branch t \<and> s_status s = ''completed'')
       (d_scans db)"

definition existing_hashes :: "db \<Rightarrow> target \<Rightarrow> string list" where
  "existing_hashes db t =
     map f_dedup_hash (filter (\<lambda>f. f_target_id f = t_id t \<and> f_branch f = t_default_branch t \<and> f_state f = OPEN)
       (d_findings db))"

definition diff_new_endpoints :: "db \<Rightarrow> target \<Rightarrow> endpoint list option \<Rightarrow> endpoint list" where
  "diff_new_endpoints db t discovered =
     (case discovered of
        None \<Rightarrow> []
      | Some ds \<Rightarrow>
          (let existing = map (\<lambda>e. (ep_method e, ep_route e, ep_file_path e))
                 (filter (\<lambda>e. ep_target_id e = t_id t \<and> ep_branch e = t_default_branch t) (d_endpoints db))
           in if existing = [] then []
              else filter (\<lambda>d. (en_method d, en_route d, en_file d) \<notin> set existing) ds))"

definition endpoint_finding :: "endpoint \<Rightarrow> pr_finding" where
  "endpoint_finding e =
     \<lparr>pf_dedup_hash = None, pf_tool = None, pf_rule_id = None, pf_title = None,
      pf_file_path = Some (en_file e), pf_line_start = en_line e, pf_line_end = None,
      pf_severity = None, pf_snippet = None\<rparr>"

definition attributable_endpoints ::
  "endpoint list \<Rightarrow> (string \<times> changed) list option \<Rightarrow> endpoint list" where
  "attributable_endpoints endpoints changed_lines =
     (case changed_lines of
        None \<Rightarrow> endpoints
      | Some m \<Rightarrow> filter (\<lambda>e. attributable m (endpoint_finding e)) endpoints)"

subsection \<open>Approvals carried over from earlier scans of the PR\<close>

definition active_policies :: "db \<Rightarrow> target \<Rightarrow> policy_rule list" where
  "active_policies db t = filter (\<lambda>p. p_workspace_id p = t_workspace_id t \<and> p_active p) (d_policies db)"

definition pr_scan_ids :: "db \<Rightarrow> row_id \<Rightarrow> int \<Rightarrow> row_id list" where
  "pr_scan_ids db target_id pr_number =
     map ps_id (filter (\<lambda>s. ps_target_id s = target_id \<and> ps_pr_number s = pr_number) (d_pr_scans db))"

text \<open>\<open>order_by(ignore_reviewed_at.desc())\<close>; every approved row has a review time.\<close>

definition carry_forward_approved_ignore ::
  "db \<Rightarrow> row_id \<Rightarrow> int \<Rightarrow> string \<Rightarrow> string \<Rightarrow> string \<Rightarrow> int option \<Rightarrow> pr_guardrail_finding option" where
  "carry_forward_approved_ignore db target_id pr_number tool rule_id file_path line_start =
     first_max (\<lambda>r. case pg_ignore_reviewed_at r of None \<Rightarrow> 0 | Some n \<Rightarrow> n)
       (filter (\<lambda>r. pg_pr_scan_id r \<in> set (pr_scan_ids db target_id pr_number) \<and> pg_tool r = tool \<and>
          pg_rule_id r = rule_id \<and> pg_file_path r = file_path \<and> pg_ignore_status r = IG_APPROVED \<and>
          pg_line_start r = line_start) (d_pr_findings db))"

definition prior_approval :: "db \<Rightarrow> row_id \<Rightarrow> int \<Rightarrow> pr_finding \<Rightarrow> pr_guardrail_finding option" where
  "prior_approval db target_id pr_number f =
     carry_forward_approved_ignore db target_id pr_number (or_else (pf_tool f) GUARDRAIL_FALLBACK_TOOL)
       (case pf_rule_id f of None \<Rightarrow> [] | Some r \<Rightarrow> r) (case pf_file_path f of None \<Rightarrow> [] | Some p \<Rightarrow> p)
       (pf_line_start f)"

definition carry_forward_approvals ::
  "db \<Rightarrow> row_id \<Rightarrow> int \<Rightarrow> pr_finding list \<Rightarrow> pr_guardrail_finding option list" where
  "carry_forward_approvals db target_id pr_number net_new = map (prior_approval db target_id pr_number) net_new"

definition severity_str :: "string option \<Rightarrow> string" where
  "severity_str s = (case s of None \<Rightarrow> ''None'' | Some v \<Rightarrow> v)"

definition finding_row :: "row_id \<Rightarrow> row_id \<Rightarrow> pr_finding \<Rightarrow> pr_guardrail_finding option \<Rightarrow> pr_guardrail_finding" where
  "finding_row i scan_id f prior =
     (let row = \<lparr>pg_id = i, pg_pr_scan_id = scan_id,
            pg_tool = or_else (pf_tool f) GUARDRAIL_FALLBACK_TOOL,
            pg_rule_id = (case pf_rule_id f of None \<Rightarrow> [] | Some r \<Rightarrow> r),
            pg_title = or_else (pf_title f) (case pf_rule_id f of None \<Rightarrow> [] | Some r \<Rightarrow> r),
            pg_file_path = (case pf_file_path f of None \<Rightarrow> [] | Some p \<Rightarrow> p),
            pg_line_start = pf_line_start f, pg_severity = severity_str (pf_severity f),
            pg_ignore_status = IG_NONE, pg_ignore_requested_by = [], pg_ignore_requested_reason = [],
            pg_ignore_reviewed_by = [], pg_ignore_reviewed_at = None, pg_reject_reason = None\<rparr>
      in case prior of
           None \<Rightarrow> row
         | Some p \<Rightarrow> row\<lparr>pg_ignore_status := IG_APPROVED,
             pg_ignore_requested_by := pg_ignore_requested_by p,
             pg_ignore_requested_reason := pg_ignore_requested_reason p,
             pg_ignore_reviewed_by := pg_ignore_reviewed_by p,
             pg_ignore_reviewed_at := pg_ignore_reviewed_at p\<rparr>)"

fun finding_rows ::
  "row_id \<Rightarrow> row_id \<Rightarrow> (pr_finding \<times> pr_guardrail_finding option) list \<Rightarrow> pr_guardrail_finding list" where
  "finding_rows i scan_id [] = []"
| "finding_rows i scan_id ((f, prior) # rest) = finding_row i scan_id f prior # finding_rows (i + 1) scan_id rest"

definition persist_findings ::
  "row_id \<Rightarrow> pr_finding list \<Rightarrow> pr_guardrail_finding option list \<Rightarrow> db \<Rightarrow> pr_guardrail_finding list \<times> db" where
  "persist_findings scan_id net_new priors db =
     (let rows = finding_rows (next_id pg_id (d_pr_findings db)) scan_id
            (take MAX_NEW_FINDINGS_IN_RESPONSE (zip net_new priors))
      in (rows, db\<lparr>d_pr_findings := d_pr_findings db @ rows\<rparr>))"

subsection \<open>Grouping for the comment\<close>

record location_group =
  lg_file_path :: string
  lg_line_start :: "int option"
  lg_findings :: "pr_guardrail_finding list"

definition has_location :: "pr_guardrail_finding \<Rightarrow> bool" where
  "has_location f \<longleftrightarrow> pg_line_start f \<noteq> None \<and> pg_line_start f \<noteq> Some 0 \<and> pg_file_path f \<noteq> []"

definition same_location :: "pr_guardrail_finding \<Rightarrow> pr_guardrail_finding \<Rightarrow> bool" where
  "same_location f g \<longleftrightarrow> pg_file_path f = pg_file_path g \<and> pg_line_start f = pg_line_start g"

text \<open>The bucket of a finding's location: all findings reported there, in order.\<close>

definition bucket :: "pr_guardrail_finding list \<Rightarrow> pr_guardrail_finding \<Rightarrow> pr_guardrail_finding list" where
  "bucket fs f = filter (\<lambda>g. has_location g \<and> same_location f g) fs"

definition merges :: "pr_guardrail_finding list \<Rightarrow> pr_guardrail_finding \<Rightarrow> bool" where
  "merges fs f \<longleftrightarrow> has_location f \<and> 2 \<le> card (set (map pg_tool (bucket fs f)))"

text \<open>The last loop: a finding that opens a merged bucket gives the group, one absorbed into
  an earlier group gives nothing, any other is a group of its own.\<close>

fun grouping_loop ::
  "pr_guardrail_finding list \<Rightarrow> pr_guardrail_finding list \<Rightarrow> pr_guardrail_finding list \<Rightarrow> location_group list" where
  "grouping_loop fs before [] = []"
| "grouping_loop fs before (f # rest) =
     (let grp = (\<lambda>members. \<lparr>lg_file_path = pg_file_path f, lg_line_start = pg_line_start f, lg_findings = members\<rparr>)
      in (if merges fs f then
            (if list_ex (\<lambda>g. has_location g \<and> same_location f g) before then [] else [grp (bucket fs f)])
          else [grp [f]])) @ grouping_loop fs (before @ [f]) rest"

definition group_findings_by_location :: "pr_guardrail_finding list \<Rightarrow> location_group list" where
  "group_findings_by_location fs = grouping_loop fs [] fs"

definition group_primary :: "location_group \<Rightarrow> pr_guardrail_finding option" where
  "group_primary g = first_max (\<lambda>f. severity_rank (pg_severity f)) (lg_findings g)"

definition group_severity :: "location_group \<Rightarrow> string option" where
  "group_severity g = map_option pg_severity (group_primary g)"

end
