(* ===== verification/GuardrailExec.thy ===== *)
theory GuardrailExec
  imports GuardrailScan
begin

text \<open>
  The scan handler itself, the re-evaluation of a scan's verdict and the ignore requests:
  \<open>execute_pr_guardrail_scan\<close> and \<open>recompute_pr_scan_status\<close> of
  \<open>core/pr_guardrail_executor.py\<close>, and the handlers of \<open>api/pr_guardrail.py\<close> that write to a
  PR finding.  \<open>visible\<close> is \<open>accessible_workspace_ids\<close> of the caller: None for an
  administrator, otherwise the workspaces the caller may see.
\<close>

subsection \<open>The verdict\<close>

record verdict =
  v_net_new :: "pr_finding list"
  v_blocking :: "string list"
  v_priors :: "pr_guardrail_finding option list"
  v_status :: pr_guardrail_status
  v_baseline_missing :: bool

definition decide ::
  "db \<Rightarrow> target \<Rightarrow> int \<Rightarrow> (string \<times> changed) list option \<Rightarrow> pr_finding list \<Rightarrow> verdict" where
  "decide db t pr_number changed_lines parsed =
     (let baseline_missing = \<not> has_baseline_scan db t;
          diffed = (if baseline_missing then [] else compute_net_new parsed (existing_hashes db t));
          attributed = (case changed_lines of None \<Rightarrow> diffed | Some m \<Rightarrow> attributable_to_diff diffed m);
          (net_new, blocking) = apply_policies attributed (active_policies db t);
          priors = carry_forward_approvals db (t_id t) pr_number net_new;
          blocking_net_new = map fst (filter (\<lambda>(item, prior). prior = None) (zip net_new priors))
      in \<lparr>v_net_new = net_new, v_blocking = blocking, v_priors = priors,
          v_status = (if should_block blocking_net_new (Some blocking) then PR_BLOCKED else PR_PASSED),
          v_baseline_missing = baseline_missing\<rparr>)"

subsection \<open>What is sent to GitHub\<close>

datatype commit_desc =
    Summary nat nat | AlertMode nat nat | SomeToolsFailed nat nat "string list"
  | RevokedAlert | RevokedBlocking | AllApproved | OverriddenBecause string

datatype github_effect =
    PostComment int row_id pr_guardrail_status
  | CommitStatus string string commit_desc
  | ShowApproved row_id
  | ShowRevoked row_id

definition commit_decision ::
  "pr_guardrail_status \<Rightarrow> string \<Rightarrow> string list \<Rightarrow> nat \<Rightarrow> nat \<Rightarrow> string \<times> commit_desc" where
  "commit_decision status enforcement_mode failed_tools n e =
     (if status = PR_BLOCKED then
        (if enforcement_mode = ''alert'' then (''success'', AlertMode n e) else (''failure'', Summary n e))
      else if failed_tools \<noteq> [] then (''success'', SomeToolsFailed n e failed_tools)
      else (''success'', Summary n e))"

definition reported_findings :: "pr_guardrail_finding list \<Rightarrow> pr_finding list \<Rightarrow> nat" where
  "reported_findings rows net_new =
     (if length rows = length net_new then length (group_findings_by_location rows) else length net_new)"

subsection \<open>\<open>execute_pr_guardrail_scan\<close>\<close>

datatype response_status = Skipped string | Disabled | Status pr_guardrail_status

record finding_summary =
  fs_tool :: string
  fs_rule_id :: "string option"
  fs_title :: "string option"
  fs_file_path :: "string option"
  fs_line_start :: "int option"
  fs_severity :: string

definition finding_summary_of :: "pr_finding \<Rightarrow> finding_summary" where
  "finding_summary_of f =
     \<lparr>fs_tool = or_else (pf_tool f) GUARDRAIL_FALLBACK_TOOL, fs_rule_id = pf_rule_id f,
      fs_title = pf_title f, fs_file_path = pf_file_path f, fs_line_start = pf_line_start f,
      fs_severity = severity_str (pf_severity f)\<rparr>"

record response =
  re_pr_scan_id :: "row_id option"
  re_status :: response_status
  re_new_findings_count :: int
  re_highest_new_severity :: "string option"
  re_new_endpoints_count :: int
  re_new_findings :: "finding_summary list"
  re_new_endpoints :: "endpoint list"
  re_enforcement_mode :: "string option"

definition empty_response :: "row_id option \<Rightarrow> response_status \<Rightarrow> string option \<Rightarrow> response" where
  "empty_response i st mode =
     \<lparr>re_pr_scan_id = i, re_status = st, re_new_findings_count = 0, re_highest_new_severity = None,
      re_new_endpoints_count = 0, re_new_findings = [], re_new_endpoints = [], re_enforcement_mode = mode\<rparr>"

definition discard_placeholder :: "row_id option \<Rightarrow> db \<Rightarrow> db" where
  "discard_placeholder pr_scan_id db =
     (case pr_scan_id of
        None \<Rightarrow> db
      | Some i \<Rightarrow> db\<lparr>d_pr_scans := filter (\<lambda>s. ps_id s \<noteq> i) (d_pr_scans db)\<rparr>)"

definition new_pr_scan :: "row_id \<Rightarrow> row_id \<Rightarrow> int \<Rightarrow> string \<Rightarrow> string \<Rightarrow> pr_guardrail_scan" where
  "new_pr_scan i target_id pr_number title branch =
     \<lparr>ps_id = i, ps_target_id = target_id, ps_pr_number = pr_number, ps_pr_title = title,
      ps_branch = branch, ps_status = PR_RUNNING, ps_new_findings_count = 0,
      ps_highest_new_severity = None, ps_new_endpoints_count = 0, ps_tools_run = [],
      ps_tools_failed = [], ps_tools_skipped = [], ps_scan_scope = ''full'', ps_files_scanned = 0,
      ps_blast_radius_files = 0, ps_scope_reason = NoReason, ps_override_reason = [],
      ps_status_delivery_error = [], ps_baseline_missing = False,
      ps_completed_at = None\<rparr>"

definition update_pr_scan :: "row_id \<Rightarrow> (pr_guardrail_scan \<Rightarrow> pr_guardrail_scan) \<Rightarrow> db \<Rightarrow> db" where
  "update_pr_scan i g db = db\<lparr>d_pr_scans := update_rows ps_id i g (d_pr_scans db)\<rparr>"

definition get_pr_scan :: "db \<Rightarrow> row_id \<Rightarrow> pr_guardrail_scan option" where
  "get_pr_scan db i = List.find (\<lambda>s. ps_id s = i) (d_pr_scans db)"

text \<open>The row the scan reports to: the webhook's placeholder if it is still there, else a new
  one.\<close>

definition open_pr_scan ::
  "target \<Rightarrow> int \<Rightarrow> row_id option \<Rightarrow> string \<Rightarrow> string \<Rightarrow> db \<Rightarrow> row_id \<times> db" where
  "open_pr_scan t pr_number pr_scan_id title branch db =
     (case Option.bind pr_scan_id (get_pr_scan db) of
        Some s \<Rightarrow> (ps_id s, update_pr_scan (ps_id s)
                    (\<lambda>s. s\<lparr>ps_pr_title := title, ps_branch := branch, ps_status := PR_RUNNING\<rparr>) db)
      | None \<Rightarrow>
          (let i = next_id ps_id (d_pr_scans db)
           in (i, db\<lparr>d_pr_scans := d_pr_scans db @ [new_pr_scan i (t_id t) pr_number title branch]\<rparr>)))"

datatype guardrail_error = PullRequestUnavailable | EnforcementError mode_error

definition scan_pull_request ::
  "pr_world \<Rightarrow> target \<Rightarrow> int \<Rightarrow> row_id \<Rightarrow> string \<Rightarrow> string \<Rightarrow> db \<Rightarrow> db \<times> response \<times> github_effect list" where
  "scan_pull_request w t pr_number i mode sha db =
     (let tools = resolve_guardrail_tools (pw_assigned_tools w);
          (scan_paths, radius_added, note) = scan_scope w t;
          (found, failed, skipped) = run_guardrail_tools (pw_run w scan_paths) tools ([], [], []);
          parsed = map (prepare_finding w) found;
          changed_lines = attribution w t;
          v = decide db t pr_number changed_lines parsed;
          endpoints = attributable_endpoints (diff_new_endpoints db t (pw_discovered w)) changed_lines;
          ran = filter (\<lambda>x. x \<notin> set failed \<and> x \<notin> fst ` set skipped) tools;
          db1 = update_pr_scan i (\<lambda>s. s\<lparr>
                  ps_scan_scope := (if scan_paths = None then ''full'' else ''diff''),
                  ps_files_scanned := (case scan_paths of None \<Rightarrow> 0 | Some ps \<Rightarrow> int (length ps)),
                  ps_blast_radius_files := (if scan_paths = None then 0 else radius_added),
                  ps_scope_reason := note,
                  ps_tools_skipped := sort_str (map fst skipped),
                  ps_status := v_status v, ps_new_findings_count := int (length (v_net_new v)),
                  ps_highest_new_severity := highest_severity (v_net_new v),
                  ps_new_endpoints_count := int (length endpoints),
                  ps_baseline_missing := v_baseline_missing v, ps_tools_run := ran,
                  ps_tools_failed := failed, ps_completed_at := Some (pw_now w)\<rparr>) db;
          (rows, db2) = persist_findings i (v_net_new v) (v_priors v) db1;
          (state, desc) = commit_decision (v_status v) mode failed
                            (reported_findings rows (v_net_new v)) (length endpoints);
          delivery = pw_delivery w state;
          db3 = (if delivery \<noteq> [] then update_pr_scan i (\<lambda>s. s\<lparr>ps_status_delivery_error := delivery\<rparr>) db2
                 else db2)
      in (db3,
          \<lparr>re_pr_scan_id = Some i, re_status = Status (v_status v),
           re_new_findings_count = int (length (v_net_new v)),
           re_highest_new_severity = highest_severity (v_net_new v),
           re_new_endpoints_count = int (length endpoints),
           re_new_findings = map finding_summary_of (take MAX_NEW_FINDINGS_IN_RESPONSE (v_net_new v)),
           re_new_endpoints = take MAX_NEW_ENDPOINTS_IN_RESPONSE endpoints,
           re_enforcement_mode = Some mode\<rparr>,
          [PostComment pr_number i (v_status v), CommitStatus sha state desc]))"

definition execute_pr_guardrail_scan ::
  "pr_world \<Rightarrow> target \<Rightarrow> int \<Rightarrow> row_id option \<Rightarrow> db \<Rightarrow> guardrail_error + db \<times> response \<times> github_effect list" where
  "execute_pr_guardrail_scan w t pr_number pr_scan_id db =
     (case scan_refusal_reason t of
        Some reason \<Rightarrow> Inr (discard_placeholder pr_scan_id db, empty_response None (Skipped reason) None, [])
      | None \<Rightarrow>
          (case resolve_enforcement_mode db t of
             Inl e \<Rightarrow> Inl (EnforcementError e)
           | Inr mode \<Rightarrow>
               if mode = ''disabled'' then
                 Inr (discard_placeholder pr_scan_id db, empty_response None Disabled (Some mode), [])
               else
                 (case pw_pull w of
                    None \<Rightarrow> Inl PullRequestUnavailable
                  | Some (branch, sha, title) \<Rightarrow>
                      (let (i, db1) = open_pr_scan t pr_number pr_scan_id title branch db in
                       if pw_clone_ok w then Inr (scan_pull_request w t pr_number i mode sha db1)
                       else Inr (update_pr_scan i (\<lambda>s. s\<lparr>ps_status := PR_ERROR, ps_completed_at := Some (pw_now w)\<rparr>) db1,
                                 empty_response (Some i) (Status PR_ERROR) None, [])))))"

subsection \<open>\<open>recompute_pr_scan_status\<close>\<close>

text \<open>\<open>head_sha\<close> is None when asking GitHub for it raises, which the code logs and drops.  The
  second component is the error of the enforcement lookup, which is made after the commit.\<close>

definition unapproved_blocks :: "db \<Rightarrow> target \<Rightarrow> row_id \<Rightarrow> bool" where
  "unapproved_blocks db t scan_id =
     list_ex (\<lambda>f. pg_pr_scan_id f = scan_id \<and> pg_ignore_status f \<noteq> IG_APPROVED \<and>
        pg_severity f \<in> set (effective_blocking_severities (active_policies db t))) (d_pr_findings db)"

definition recompute_pr_scan_status ::
  "string option \<Rightarrow> pr_guardrail_scan \<Rightarrow> db \<Rightarrow> db \<times> (mode_error + github_effect list)" where
  "recompute_pr_scan_status head_sha s db =
     (if ps_status s \<notin> {PR_BLOCKED, PR_PASSED} then (db, Inr [])
      else (case get_target db (ps_target_id s) of
              None \<Rightarrow> (db, Inr [])
            | Some t \<Rightarrow>
                (let now_blocked = unapproved_blocks db t (ps_id s) in
                 if now_blocked = (ps_status s = PR_BLOCKED) then (db, Inr [])
                 else (let db1 = update_pr_scan (ps_id s)
                                   (\<lambda>s. s\<lparr>ps_status := (if now_blocked then PR_BLOCKED else PR_PASSED)\<rparr>) db in
                       (db1, (case resolve_enforcement_mode db1 t of
                                Inl e \<Rightarrow> Inl e
                              | Inr mode \<Rightarrow>
                                  if mode = ''disabled'' then Inr []
                                  else (case head_sha of
                                          None \<Rightarrow> Inr []
                                        | Some sha \<Rightarrow>
                                            Inr [if now_blocked then
                                                   (if mode = ''alert'' then CommitStatus sha ''success'' RevokedAlert
                                                    else CommitStatus sha ''failure'' RevokedBlocking)
                                                 else CommitStatus sha ''success'' AllApproved])))))))"

subsection \<open>Ignore requests\<close>

datatype http_error = NotFound | BadRequest

definition get_pr_finding_scoped ::
  "db \<Rightarrow> row_id list option \<Rightarrow> row_id \<Rightarrow> http_error + pr_guardrail_finding \<times> target" where
  "get_pr_finding_scoped db visible i =
     (case List.find (\<lambda>f. pg_id f = i) (d_pr_findings db) of
        None \<Rightarrow> Inl NotFound
      | Some f \<Rightarrow>
          (case Option.bind (get_pr_scan db (pg_pr_scan_id f)) (\<lambda>s. get_target db (ps_target_id s)) of
             None \<Rightarrow> Inl NotFound
           | Some t \<Rightarrow>
               (case visible of
                  None \<Rightarrow> Inr (f, t)
                | Some ws \<Rightarrow> if t_workspace_id t \<in> set ws then Inr (f, t) else Inl NotFound)))"

definition update_pr_finding :: "row_id \<Rightarrow> (pr_guardrail_finding \<Rightarrow> pr_guardrail_finding) \<Rightarrow> db \<Rightarrow> db" where
  "update_pr_finding i g db = db\<lparr>d_pr_findings := update_rows pg_id i g (d_pr_findings db)\<rparr>"

definition submit_ignore_request :: "row_id \<Rightarrow> string \<Rightarrow> string \<Rightarrow> db \<Rightarrow> db" where
  "submit_ignore_request i requested_by reason db =
     update_pr_finding i (\<lambda>f. f\<lparr>pg_ignore_status := IG_REQUESTED, pg_ignore_requested_by := requested_by,
       pg_ignore_requested_reason := reason, pg_ignore_reviewed_by := [], pg_ignore_reviewed_at := None,
       pg_reject_reason := None\<rparr>) db"

definition request_ignore ::
  "row_id list option \<Rightarrow> string \<Rightarrow> string \<Rightarrow> row_id \<Rightarrow> db \<Rightarrow> http_error + db" where
  "request_ignore visible email reason i db =
     (case get_pr_finding_scoped db visible i of
        Inl e \<Rightarrow> Inl e
      | Inr _ \<Rightarrow> if reason = [] then Inl BadRequest else Inr (submit_ignore_request i email reason db))"

definition main_matches :: "db \<Rightarrow> target \<Rightarrow> pr_guardrail_finding \<Rightarrow> finding_state list \<Rightarrow> finding list" where
  "main_matches db t p states =
     filter (\<lambda>f. f_target_id f = t_id t \<and> f_branch f = t_default_branch t \<and> f_tool f = pg_tool p \<and>
        f_rule_id f = pg_rule_id p \<and> f_file_path f = pg_file_path p \<and> f_state f \<in> set states \<and>
        f_line_start f = pg_line_start p) (d_findings db)"

definition sync_to_main_findings ::
  "timestamp \<Rightarrow> finding_state \<Rightarrow> string \<Rightarrow> string \<Rightarrow> finding list \<Rightarrow> db \<Rightarrow> db" where
  "sync_to_main_findings now to_state reason actor matches db =
     fold (\<lambda>f. apply_triage now f to_state reason actor None) matches db"

definition set_review :: "ignore_status \<Rightarrow> string \<Rightarrow> timestamp \<Rightarrow> pr_guardrail_finding \<Rightarrow> pr_guardrail_finding" where
  "set_review st email now f =
     f\<lparr>pg_ignore_status := st, pg_ignore_reviewed_by := email, pg_ignore_reviewed_at := Some now\<rparr>"

text \<open>The part \<open>approve_ignore\<close> and \<open>revoke_ignore\<close> share: the main findings follow the
  decision, the PR comment shows it, and the scan's verdict is re-evaluated.\<close>

definition after_review ::
  "string option \<Rightarrow> timestamp \<Rightarrow> string \<Rightarrow> finding_state list \<Rightarrow> finding_state \<Rightarrow> string \<Rightarrow> github_effect
     \<Rightarrow> pr_guardrail_finding \<Rightarrow> db \<Rightarrow> db \<times> (mode_error + github_effect list)" where
  "after_review head_sha now email from_states to_state reason shown f db =
     (case get_pr_scan db (pg_pr_scan_id f) of
        None \<Rightarrow> (db, Inr [])
      | Some s \<Rightarrow>
          (case get_target db (ps_target_id s) of
             None \<Rightarrow> recompute_pr_scan_status head_sha s db
           | Some t \<Rightarrow>
               (let db1 = sync_to_main_findings now to_state (reason @ '' via PR Guardrail (PR #'' @ int_str (ps_pr_number s) @ '')'')
                            email (main_matches db t f from_states) db;
                    (db2, res) = recompute_pr_scan_status head_sha s db1
                in (db2, map_sum id (\<lambda>es. shown # es) res))))"

definition approve_ignore ::
  "row_id list option \<Rightarrow> string \<Rightarrow> timestamp \<Rightarrow> string option \<Rightarrow> row_id \<Rightarrow> db
     \<Rightarrow> http_error + db \<times> (mode_error + github_effect list)" where
  "approve_ignore visible email now head_sha i db =
     (case get_pr_finding_scoped db visible i of
        Inl e \<Rightarrow> Inl e
      | Inr (f, _) \<Rightarrow>
          Inr (after_review head_sha now email [OPEN, REOPENED] ACCEPTED_RISK ''Ignore approved''
                 (ShowApproved i) f (update_pr_finding i (set_review IG_APPROVED email now) db)))"

definition reject_ignore ::
  "row_id list option \<Rightarrow> string \<Rightarrow> timestamp \<Rightarrow> string \<Rightarrow> row_id \<Rightarrow> db \<Rightarrow> http_error + db" where
  "reject_ignore visible email now reason i db =
     (case get_pr_finding_scoped db visible i of
        Inl e \<Rightarrow> Inl e
      | Inr _ \<Rightarrow>
          if reason = [] then Inl BadRequest
          else Inr (update_pr_finding i
                 (\<lambda>f. (set_review IG_REJECTED email now f)\<lparr>pg_reject_reason := Some reason\<rparr>) db))"

definition revoke_ignore ::
  "row_id list option \<Rightarrow> string \<Rightarrow> timestamp \<Rightarrow> string option \<Rightarrow> row_id \<Rightarrow> db
     \<Rightarrow> http_error + db \<times> (mode_error + github_effect list)" where
  "revoke_ignore visible email now head_sha i db =
     (case get_pr_finding_scoped db visible i of
        Inl e \<Rightarrow> Inl e
      | Inr (f, _) \<Rightarrow>
          if pg_ignore_status f \<noteq> IG_APPROVED then Inl BadRequest
          else Inr (after_review head_sha now email [ACCEPTED_RISK] REOPENED ''Ignore approval revoked''
                 (ShowRevoked i) f (update_pr_finding i (set_review IG_REVOKED email now) db)))"

definition override_pr_guardrail_scan ::
  "row_id list option \<Rightarrow> string \<Rightarrow> string option \<Rightarrow> row_id \<Rightarrow> db \<Rightarrow> http_error + db \<times> github_effect list" where
  "override_pr_guardrail_scan visible reason head_sha i db =
     (case get_pr_scan db i of
        None \<Rightarrow> Inl NotFound
      | Some s \<Rightarrow>
          (let t = get_target db (ps_target_id s) in
           if (case visible of None \<Rightarrow> False
               | Some ws \<Rightarrow> (case t of None \<Rightarrow> True | Some t \<Rightarrow> t_workspace_id t \<notin> set ws)) then Inl NotFound
           else if reason = [] then Inl BadRequest
           else Inr (update_pr_scan i (\<lambda>s. s\<lparr>ps_status := PR_OVERRIDDEN, ps_override_reason := reason\<rparr>) db,
                     (case (t, head_sha) of
                        (Some _, Some sha) \<Rightarrow> [CommitStatus sha ''success'' (OverriddenBecause (take 100 reason))]
                      | _ \<Rightarrow> []))))"

end
