(* ===== verification/GuardrailProps.thy ===== *)
theory GuardrailProps
  imports GuardrailExec
begin

text \<open>What the PR Guardrail's verdict means, who can change it, and what reaches GitHub.\<close>

subsection \<open>Policies\<close>

lemma index_of_mem: "index_of xs x = Some j \<Longrightarrow> x \<in> set xs"
  by (induction xs arbitrary: j) (auto split: if_splits)

lemma index_of_None: "index_of xs x = None \<longleftrightarrow> x \<notin> set xs"
  by (induction xs) auto

lemma index_of_drop:
  "distinct xs \<Longrightarrow> index_of xs x = Some j \<Longrightarrow> x \<in> set (drop i xs) \<longleftrightarrow> i \<le> j"
proof (induction xs arbitrary: i j)
  case (Cons a xs)
  then show ?case
    by (cases i; cases "a = x") (auto dest: in_set_dropD index_of_mem)
qed simp

lemma severity_order_distinct: "distinct SEVERITY_ORDER"
  by (simp add: SEVERITY_ORDER_def)

lemma drop_order:
  assumes "t \<in> set SEVERITY_ORDER"
  shows "set (drop (nat (severity_rank t)) SEVERITY_ORDER) =
     {s \<in> set SEVERITY_ORDER. severity_rank t \<le> severity_rank s}"
proof -
  obtain i where i: "index_of SEVERITY_ORDER t = Some i" using assms index_of_None by (metis not_None_eq)
  have "s \<in> set (drop i SEVERITY_ORDER) \<longleftrightarrow> s \<in> set SEVERITY_ORDER \<and> int i \<le> severity_rank s" for s
    using index_of_drop [OF severity_order_distinct, of s _ i] index_of_None [of SEVERITY_ORDER s]
    by (cases "index_of SEVERITY_ORDER s") (auto simp: severity_rank_def dest: in_set_dropD index_of_mem)
  then show ?thesis using i by (auto simp: severity_rank_def)
qed

lemma Min_drop_order:
  assumes "set ts \<subseteq> set SEVERITY_ORDER" and "ts \<noteq> []"
  shows "set (drop (Min (set (map (\<lambda>t. nat (severity_rank t)) ts))) SEVERITY_ORDER) =
     {s \<in> set SEVERITY_ORDER. \<exists>t\<in>set ts. severity_rank t \<le> severity_rank s}"
proof -
  let ?m = "Min (set (map (\<lambda>t. nat (severity_rank t)) ts))"
  have ranks: "severity_rank s \<ge> 0" if "s \<in> set SEVERITY_ORDER" for s
    using that severity_rank_known by blast
  have "?m \<in> set (map (\<lambda>t. nat (severity_rank t)) ts)" by (rule Min_in) (use assms(2) in simp_all)
  then obtain t where t: "t \<in> set ts" "?m = nat (severity_rank t)" by (metis (no_types, lifting) image_iff list.set_map)
  have le: "?m \<le> nat (severity_rank q)" if "q \<in> set ts" for q
    by (rule Min_le) (use that in simp_all)
  have "severity_rank t \<le> severity_rank q" if "q \<in> set ts" for q
    using le [OF that] t assms(1) ranks that by (metis nat_le_eq_zle subsetD)
  with t drop_order [of t] assms(1) show ?thesis by fastforce
qed

text \<open>A severity policy sets the threshold, in both directions.  The blocking severities are
  Critical and High unless a policy names a severity; then they are exactly those at or
  above the lowest one named, so they always contain Critical and everything above a
  blocking severity.  High, which blocks by default, no longer blocks exactly when every
  policy names Critical.\<close>

theorem policy_sets_threshold:
  "set (effective_blocking_severities ps) =
     (if policy_thresholds ps = [] then {''Critical'', ''High''}
      else {s \<in> set SEVERITY_ORDER. \<exists>t\<in>set (policy_thresholds ps). severity_rank t \<le> severity_rank s}) \<and>
   ''Critical'' \<in> set (effective_blocking_severities ps) \<and>
   (''High'' \<in> set (effective_blocking_severities ps) \<longleftrightarrow>
      policy_thresholds ps = [] \<or> (\<exists>t\<in>set (policy_thresholds ps). t \<noteq> ''Critical''))"
proof -
  have sub: "set (policy_thresholds ps) \<subseteq> set SEVERITY_ORDER" by (auto simp: policy_thresholds_def)
  have eff: "set (effective_blocking_severities ps) =
     (if policy_thresholds ps = [] then {''Critical'', ''High''}
      else {s \<in> set SEVERITY_ORDER. \<exists>t\<in>set (policy_thresholds ps). severity_rank t \<le> severity_rank s})"
  proof (cases "policy_thresholds ps")
    case Nil
    then show ?thesis by (simp add: effective_blocking_severities_def BLOCKING_SEVERITIES_def)
  next
    case (Cons t ts)
    with Min_drop_order [OF sub] show ?thesis by (simp add: effective_blocking_severities_def)
  qed
  have crit: "severity_rank t \<le> severity_rank ''Critical''" if "t \<in> set SEVERITY_ORDER" for t
    using that by (auto simp: SEVERITY_ORDER_def severity_rank_def)
  have high: "severity_rank t \<le> severity_rank ''High'' \<longleftrightarrow> t \<noteq> ''Critical''" if "t \<in> set SEVERITY_ORDER" for t
    using that by (auto simp: SEVERITY_ORDER_def severity_rank_def)
  have ord: "''Critical'' \<in> set SEVERITY_ORDER" "''High'' \<in> set SEVERITY_ORDER"
    by (simp_all add: SEVERITY_ORDER_def)
  have "''Critical'' \<in> set (effective_blocking_severities ps)"
    using eff sub crit ord by (cases "policy_thresholds ps") auto
  moreover have "''High'' \<in> set (effective_blocking_severities ps) \<longleftrightarrow>
      policy_thresholds ps = [] \<or> (\<exists>t\<in>set (policy_thresholds ps). t \<noteq> ''Critical'')"
    using eff sub high ord by (cases "policy_thresholds ps") auto
  ultimately show ?thesis using eff by blast
qed

subsection \<open>Enforcement\<close>

lemma restrictiveness_valid: "RESTRICTIVENESS m \<noteq> None \<longleftrightarrow> m \<in> set VALID_ENFORCEMENT_MODES"
  by (auto simp: RESTRICTIVENESS_def VALID_ENFORCEMENT_MODES_def)

lemma restrictiveness_inj:
  "m \<in> set VALID_ENFORCEMENT_MODES \<Longrightarrow> m' \<in> set VALID_ENFORCEMENT_MODES \<Longrightarrow>
   RESTRICTIVENESS m = RESTRICTIVENESS m' \<Longrightarrow> m = m'"
  by (auto simp: RESTRICTIVENESS_def VALID_ENFORCEMENT_MODES_def)

lemma most_restrictive_valid:
  "set ms \<subseteq> set VALID_ENFORCEMENT_MODES \<Longrightarrow>
   most_restrictive ms = Inr (the (first_max (\<lambda>m. the (RESTRICTIVENESS m)) ms))"
  using restrictiveness_valid by (auto simp: most_restrictive_def find_None subset_iff split: option.split
      dest!: find_mem)

text \<open>Disagreeing groups fail closed.  The mode and the mode with its source are always the
  same answer; a target's own mode wins; otherwise, when its groups carry valid modes, the
  answer is one of them, none of them is more restrictive, and the order of the join rows
  does not matter.\<close>

theorem groups_fail_closed:
  assumes "set (group_modes db t) \<subseteq> set VALID_ENFORCEMENT_MODES"
  shows "map_sum id fst (resolve_enforcement_mode_with_source db t) = resolve_enforcement_mode db t \<and>
    (truthy (t_enforcement_mode t) \<longrightarrow> resolve_enforcement_mode db t = Inr (the (t_enforcement_mode t))) \<and>
    (\<not> truthy (t_enforcement_mode t) \<and> group_modes db t \<noteq> [] \<longrightarrow>
      (\<exists>m\<in>set (group_modes db t). resolve_enforcement_mode db t = Inr m \<and>
         (\<forall>m'\<in>set (group_modes db t). the (RESTRICTIVENESS m') \<le> the (RESTRICTIVENESS m)) \<and>
         (\<forall>ms. set ms = set (group_modes db t) \<longrightarrow> most_restrictive ms = Inr m)))"
proof -
  have agree: "map_sum id fst (resolve_enforcement_mode_with_source db t) = resolve_enforcement_mode db t"
    by (simp add: resolve_enforcement_mode_with_source_def resolve_enforcement_mode_def
        split: option.split sum.split)
  have choice: "\<exists>m\<in>set (group_modes db t). resolve_enforcement_mode db t = Inr m \<and>
         (\<forall>m'\<in>set (group_modes db t). the (RESTRICTIVENESS m') \<le> the (RESTRICTIVENESS m)) \<and>
         (\<forall>ms. set ms = set (group_modes db t) \<longrightarrow> most_restrictive ms = Inr m)"
    if "\<not> truthy (t_enforcement_mode t)" and ne: "group_modes db t \<noteq> []"
  proof -
    let ?pick = "first_max (\<lambda>m. the (RESTRICTIVENESS m))"
    obtain m where m: "?pick (group_modes db t) = Some m"
      using ne modes.pick_None by (metis last_in_set not_None_eq)
    have mem: "m \<in> set (group_modes db t)" using modes.pick_mem [OF m] by simp
    have best: "\<forall>m'\<in>set (group_modes db t). the (RESTRICTIVENESS m') \<le> the (RESTRICTIVENESS m)"
      using modes.pick_max [OF m] by simp
    have "most_restrictive ms = Inr m" if s: "set ms = set (group_modes db t)" for ms
    proof -
      obtain m' where m': "?pick ms = Some m'" using modes.pick_mono [of "group_modes db t" ms m] s m by auto
      then have "m' \<in> set ms" using modes.pick_mem by blast
      moreover have "the (RESTRICTIVENESS m') = the (RESTRICTIVENESS m)"
        using modes.pick_set_rank [OF s m' m] .
      ultimately have "m' = m"
        using mem s assms restrictiveness_inj restrictiveness_valid by (metis option.expand subsetD)
      with m' most_restrictive_valid [of ms] s assms show ?thesis by simp
    qed
    moreover have "resolve_enforcement_mode db t = most_restrictive (group_modes db t)"
      using that by (simp add: resolve_enforcement_mode_def)
    ultimately show ?thesis using mem best by (intro bexI [of _ m]) auto
  qed
  show ?thesis using agree choice by (auto simp: resolve_enforcement_mode_def)
qed

definition grouped_db :: db where
  "grouped_db = empty_db\<lparr>d_targets := [example_target],
     d_groups := [\<lparr>g_id = 1, g_workspace_id = 7, g_enforcement_mode = Some ''alert''\<rparr>,
                  \<lparr>g_id = 2, g_workspace_id = 7, g_enforcement_mode = Some ''block''\<rparr>],
     d_target_groups := [\<lparr>tg_target_id = 1, tg_group_id = 1\<rparr>, \<lparr>tg_target_id = 1, tg_group_id = 2\<rparr>]\<rparr>"

theorem groups_fail_closed_witness:
  "resolve_enforcement_mode grouped_db example_target = Inr ''block''"
proof -
  have g: "group_modes grouped_db example_target = [''alert'', ''block'']" by code_simp
  have v: "set (group_modes grouped_db example_target) \<subseteq> set VALID_ENFORCEMENT_MODES"
    by (simp add: g VALID_ENFORCEMENT_MODES_def)
  have "\<not> truthy (t_enforcement_mode example_target)" by (simp add: truthy_def example_target_def)
  with groups_fail_closed [OF v] g obtain m where "m \<in> {''alert'', ''block''}"
    "resolve_enforcement_mode grouped_db example_target = Inr m"
    "the (RESTRICTIVENESS ''block'') \<le> the (RESTRICTIVENESS m)" by auto
  then show ?thesis by (auto simp: RESTRICTIVENESS_def)
qed

subsection \<open>The verdict\<close>

lemma zip_map_filter: "map fst (filter (\<lambda>p. P (snd p)) (zip xs (map g xs))) = filter (\<lambda>x. P (g x)) xs"
  by (induction xs) auto

lemma decide_status:
  "v_status (decide db t n ch parsed) =
     (if should_block (filter (\<lambda>f. prior_approval db (t_id t) n f = None) (v_net_new (decide db t n ch parsed)))
           (Some (effective_blocking_severities (active_policies db t)))
      then PR_BLOCKED else PR_PASSED)"
  by (simp only: decide_def Let_def apply_policies_def carry_forward_approvals_def case_prod_unfold
      zip_map_filter [of "\<lambda>y. y = None"] verdict.simps fst_conv snd_conv)

lemma decide_net_new:
  "set (v_net_new (decide db t n ch parsed)) =
     {f \<in> set parsed. has_baseline_scan db t \<and> pf_dedup_hash f \<notin> Some ` set (existing_hashes db t) \<and>
        (ch = None \<or> attributable (the ch) f) \<and> \<not> suppressed (active_policies db t) f}"
  by (cases ch)
    (auto simp: decide_def Let_def apply_policies_def compute_net_new_def attributable_to_diff_def)

text \<open>C10: A PR is blocked for a reason its author can act on, and only for one.  The verdict is
  Blocked exactly when the default branch has a completed scan and some parsed finding is
  not open there, is attributed to the PR's changes (or the diff is unknown), is suppressed
  by no active policy, was not approved on this PR before, and has a blocking severity.\<close>

theorem blocked_iff:
  "v_status (decide db t n changed_lines parsed) = PR_BLOCKED \<longleftrightarrow>
     has_baseline_scan db t \<and>
     (\<exists>f. f \<in> set parsed \<and> pf_dedup_hash f \<notin> Some ` set (existing_hashes db t) \<and>
        (changed_lines = None \<or> attributable (the changed_lines) f) \<and>
        \<not> suppressed (active_policies db t) f \<and> prior_approval db (t_id t) n f = None \<and>
        pf_severity f \<in> Some ` set (effective_blocking_severities (active_policies db t)))"
  by (auto simp: decide_status should_block_def list_ex_iff decide_net_new)

subsection \<open>Attribution\<close>

lemma map_of_rev_append: "map_of (rev (xs @ ys)) k = (case map_of (rev ys) k of Some v \<Rightarrow> Some v | None \<Rightarrow> map_of (rev xs) k)"
  by (simp add: map_add_def)

lemma widen_step_attributable:
  assumes "attributable m f"
  shows "attributable (if p \<in> fst ` set m then m else m @ [(p, WHOLE_FILE)]) f"
  using assms by (auto simp: attributable_def changed_lookup_def map_add_def split: option.splits changed.splits)

lemma widen_fold_attributable:
  "attributable m f \<Longrightarrow>
   attributable (fold (\<lambda>p m. if p \<in> fst ` set m then m else m @ [(p, WHOLE_FILE)]) ps m) f"
proof (induction ps arbitrary: m)
  case (Cons p ps)
  have "attributable (if p \<in> fst ` set m then m else m @ [(p, WHOLE_FILE)]) f"
    by (rule widen_step_attributable [OF Cons.prems])
  from Cons.IH [OF this] show ?case by simp
qed simp

lemma widen_fold_covers:
  "p \<in> set ps \<Longrightarrow> p \<notin> fst ` set m \<Longrightarrow> norm_path (pf_file_path f) = norm_path (Some p) \<Longrightarrow>
   attributable (fold (\<lambda>p m. if p \<in> fst ` set m then m else m @ [(p, WHOLE_FILE)]) ps m) f"
proof (induction ps arbitrary: m)
  case (Cons q ps)
  show ?case
  proof (cases "q = p")
    case True
    have "attributable (m @ [(p, WHOLE_FILE)]) f"
      using Cons.prems(3) by (simp add: attributable_def changed_lookup_def)
    from widen_fold_attributable [OF this, of ps] True Cons.prems(2) show ?thesis by simp
  next
    case False
    let ?m = "if q \<in> fst ` set m then m else m @ [(q, WHOLE_FILE)]"
    have "p \<notin> fst ` set ?m" using Cons.prems(2) False by auto
    with Cons.IH [of ?m] Cons.prems False show ?thesis by simp
  qed
qed simp

text \<open>C34: Attribution never hides what it cannot judge.  Widening the changed files by the blast
  radius keeps every finding that was attributed, and attributes every finding in a file of
  the radius the PR did not change; without a file list from GitHub nothing is filtered.\<close>

theorem attribution_never_hides:
  "(attributable m f \<longrightarrow> attributable (widen_changed_lines (Some paths) m) f) \<and>
   (p \<in> set paths \<and> p \<notin> fst ` set m \<and> norm_path (pf_file_path f) = norm_path (Some p) \<longrightarrow>
      attributable (widen_changed_lines (Some paths) m) f) \<and>
   (pw_files w = None \<longrightarrow> attribution w t = None) \<and>
   v_net_new (decide db t n None parsed) =
     filter (\<lambda>f. \<not> suppressed (active_policies db t) f)
       (if has_baseline_scan db t then compute_net_new parsed (existing_hashes db t) else [])"
  using widen_fold_attributable [of m f paths] widen_fold_covers [of p paths m f]
  by (simp add: widen_changed_lines_def attribution_def decide_def Let_def apply_policies_def)

theorem attribution_never_hides_witness:
  "attributable (widen_changed_lines (Some [''b.py'']) [(''a.py'', Lines [3])])
     (endpoint_finding \<lparr>en_method = ''GET'', en_route = [], en_file = ''b.py'', en_line = Some 9\<rparr>)"
proof -
  let ?f = "endpoint_finding \<lparr>en_method = ''GET'', en_route = [], en_file = ''b.py'', en_line = Some 9\<rparr>"
  have "norm_path (pf_file_path ?f) = norm_path (Some ''b.py'')" by (simp add: endpoint_finding_def)
  then show ?thesis
    using attribution_never_hides [of "[(''a.py'', Lines [3])]" ?f "[''b.py'']" "''b.py''"] by simp
qed

text \<open>A form feed in the diff shifts the blame.  Python's \<open>splitlines\<close> breaks an added line at
  a form feed, so the reader counts the rest of it as one more line of the file; a finding
  on the author's own second added line is then not attributed to the PR and disappears.\<close>

theorem form_feed_hides_a_finding:
  "added_lines_from_patch (''@@ -0,0 +1,2 @@'' @ [LF] @ ''+a'' @ [CHR 0x0C] @ ''b'' @ [LF] @ ''+c'') = [1, 3] \<and>
   attributable_to_diff
     [endpoint_finding \<lparr>en_method = [], en_route = [], en_file = ''x.c'', en_line = Some 2\<rparr>]
     (changed_line_map [\<lparr>gf_status = Some ''modified'', gf_filename = Some ''x.c'',
        gf_patch = Some (''@@ -0,0 +1,2 @@'' @ [LF] @ ''+a'' @ [CHR 0x0C] @ ''b'' @ [LF] @ ''+c'')\<rparr>]) = []"
  by code_simp

end
