(* ===== verification/GuardrailReview.thy ===== *)
theory GuardrailReview
  imports GuardrailProps "HOL-Library.Multiset"
begin

text \<open>
  After the verdict: what reaches GitHub, what a reviewer's decision does to the verdict, and
  how findings are grouped in the comment.
\<close>

subsection \<open>What reaches GitHub\<close>

lemma scan_effects:
  assumes "scan_pull_request w t n i mode sha db = (db', r, es)"
  shows "\<exists>v st d. es = [PostComment n i v, CommitStatus sha st d] \<and> re_status r = Status v \<and>
     v \<in> {PR_BLOCKED, PR_PASSED} \<and> (st = ''failure'' \<longleftrightarrow> v = PR_BLOCKED \<and> mode \<noteq> ''alert'') \<and>
     re_enforcement_mode r = Some mode"
proof -
  obtain paths radius reason where sc: "scan_scope w t = (paths, radius, reason)" by (cases "scan_scope w t") auto
  obtain found failed skipped where
    run: "run_guardrail_tools (pw_run w paths) (resolve_guardrail_tools (pw_assigned_tools w)) ([], [], []) =
      (found, failed, skipped)" by (metis prod_cases3)
  let ?v = "decide db t n (attribution w t) (map (prepare_finding w) found)"
  have v: "v_status ?v \<in> {PR_BLOCKED, PR_PASSED}" by (simp add: decide_status)
  have c: "fst (commit_decision s mode fs a b) = ''failure'' \<longleftrightarrow> s = PR_BLOCKED \<and> mode \<noteq> ''alert''" for s fs a b
    by (auto simp: commit_decision_def)
  show ?thesis
    using assms v c
    unfolding scan_pull_request_def sc run Let_def case_prod_unfold fst_conv snd_conv
    by (auto simp flip: c)
qed

text \<open>C11: The gate is silent or it is right.  A deactivated or deleted target, like the mode
  disabled, sends nothing to GitHub, keeps no placeholder of the scan and adds no finding.
  Otherwise a failing commit status is sent exactly when the verdict is Blocked and the
  mode is not alert; a scan that could not clone sends no status at all.\<close>

theorem gate_is_silent_or_right:
  assumes "execute_pr_guardrail_scan w t n sid db = Inr (db', r, es)"
  shows "(scan_refusal_reason t \<noteq> None \<or> resolve_enforcement_mode db t = Inr ''disabled'' \<longrightarrow>
      es = [] \<and> d_pr_findings db' = d_pr_findings db \<and>
      (\<forall>i. sid = Some i \<longrightarrow> get_pr_scan db' i = None)) \<and>
    ((\<exists>sha d. CommitStatus sha ''failure'' d \<in> set es) \<longleftrightarrow>
      re_status r = Status PR_BLOCKED \<and> re_enforcement_mode r \<noteq> Some ''alert'') \<and>
    (re_status r = Status PR_ERROR \<longrightarrow> es = [])"
proof -
  have discard: "d_pr_findings (discard_placeholder sid db) = d_pr_findings db"
    "sid = Some i \<Longrightarrow> get_pr_scan (discard_placeholder sid db) i = None" for i
    by (auto simp: discard_placeholder_def get_pr_scan_def find_None split: option.split)
  consider (refused) reason where "scan_refusal_reason t = Some reason"
      "db' = discard_placeholder sid db" "r = empty_response None (Skipped reason) None" "es = []"
    | (disabled) "scan_refusal_reason t = None" "resolve_enforcement_mode db t = Inr ''disabled''"
      "db' = discard_placeholder sid db" "r = empty_response None Disabled (Some ''disabled'')" "es = []"
    | (clone) i where "scan_refusal_reason t = None" "resolve_enforcement_mode db t \<noteq> Inr ''disabled''"
      "r = empty_response (Some i) (Status PR_ERROR) None" "es = []"
    | (scanned) i mode sha db1 where "scan_refusal_reason t = None" "mode \<noteq> ''disabled''"
      "resolve_enforcement_mode db t = Inr mode" "scan_pull_request w t n i mode sha db1 = (db', r, es)"
    using assms
    by (auto simp: execute_pr_guardrail_scan_def Let_def split_beta
        split: option.splits sum.splits if_splits prod.splits)
  then show ?thesis
  proof cases
    case scanned
    from scan_effects [OF scanned(4)] scanned(1-3) show ?thesis by auto
  qed (use discard in \<open>auto simp: empty_response_def\<close>)
qed

subsection \<open>A pull request with many findings\<close>

definition pr_item :: "nat \<Rightarrow> string \<Rightarrow> pr_finding" where
  "pr_item line sev =
     \<lparr>pf_dedup_hash = None, pf_tool = None, pf_rule_id = Some ''r'', pf_title = Some ''t'',
      pf_file_path = Some ''a.py'', pf_line_start = Some (int line), pf_line_end = None,
      pf_severity = Some sev, pf_snippet = None\<rparr>"

definition flood_world :: "nat \<Rightarrow> pr_world" where
  "flood_world k =
     \<lparr>pw_now = 10, pw_pull = Some (''feature'', ''sha'', ''title''), pw_clone_ok = True,
      pw_assigned_tools = [], pw_files = None, pw_blast_radius = (\<lambda>_. (None, 0, [])),
      pw_run = (\<lambda>_ _. Ran (map (\<lambda>i. pr_item i ''Low'') [1..<k + 1] @ [pr_item 99 ''Critical''])),
      pw_relative = (\<lambda>p. p), pw_digest = (\<lambda>s. s), pw_discovered = None, pw_delivery = (\<lambda>_. [])\<rparr>"

definition baseline_db :: db where
  "baseline_db = empty_db\<lparr>d_targets := [example_target],
     d_scans := [\<lparr>s_id = 1, s_target_id = 1, s_tool = ''semgrep'', s_branch = ''main'', s_status = ''completed'',
       s_started_at = 0, s_completed_at = Some 1, s_findings_count = 0, s_error = [], s_health = [],
       s_health_note = []\<rparr>]\<rparr>"

definition scanned_flood :: "nat \<Rightarrow> db \<times> github_effect list" where
  "scanned_flood k =
     (case execute_pr_guardrail_scan (flood_world k) example_target 5 None baseline_db of
        Inl _ \<Rightarrow> (baseline_db, []) | Inr (db, r, es) \<Rightarrow> (db, es))"

theorem gate_is_silent_or_right_witness:
  "\<exists>db r es sha d. execute_pr_guardrail_scan (flood_world 2) example_target 5 None baseline_db = Inr (db, r, es) \<and>
     CommitStatus sha ''failure'' d \<in> set es"
proof -
  have "case execute_pr_guardrail_scan (flood_world 2) example_target 5 None baseline_db of
      Inl _ \<Rightarrow> False | Inr (db, r, es) \<Rightarrow> re_status r = Status PR_BLOCKED \<and> re_enforcement_mode r \<noteq> Some ''alert''"
    by code_simp
  then obtain db r es where e: "execute_pr_guardrail_scan (flood_world 2) example_target 5 None baseline_db = Inr (db, r, es)"
    and b: "re_status r = Status PR_BLOCKED" "re_enforcement_mode r \<noteq> Some ''alert''"
    by (auto split: sum.splits prod.splits)
  from gate_is_silent_or_right [OF e] b e show ?thesis by blast
qed

definition approved_flood :: "nat \<Rightarrow> db \<times> github_effect list" where
  "approved_flood k =
     (case approve_ignore None ''rev'' 20 (Some ''sha'') 1 (fst (scanned_flood k)) of
        Inr (db, Inr es) \<Rightarrow> (db, es) | _ \<Rightarrow> (baseline_db, []))"

definition verdicts_and_effects :: "db \<times> github_effect list \<Rightarrow> pr_guardrail_status list \<times> github_effect list" where
  "verdicts_and_effects = (\<lambda>(db, es). (map ps_status (d_pr_scans db), es))"

lemma flood_approved:
  "(let (db, es) = scanned_flood 20 in (map ps_status (d_pr_scans db),
     case approve_ignore None ''rev'' 20 (Some ''sha'') 1 db of
       Inr (db, Inr es) \<Rightarrow> verdicts_and_effects (db, es) | _ \<Rightarrow> ([], []))) =
   ([PR_BLOCKED], [PR_PASSED], [ShowApproved 1, CommitStatus ''sha'' ''success'' AllApproved])"
  by code_simp

lemma trickle_approved: "verdicts_and_effects (approved_flood 2) = ([PR_BLOCKED], [ShowApproved 1])"
  by code_simp

text \<open>Twenty harmless findings open the gate.  Only the first twenty findings of a scan are
  stored, and the re-evaluation after a reviewer's decision reads the stored ones.  A pull
  request with twenty Low findings and one Critical is blocked; approving a single Low
  finding then marks the scan Passed and tells GitHub success, with the Critical finding
  neither approved nor fixed.  With two Low findings beside it the scan stays Blocked.\<close>

theorem approval_unblocks_unseen_critical:
  "map ps_status (d_pr_scans (fst (scanned_flood 20))) = [PR_BLOCKED] \<and>
   verdicts_and_effects (approved_flood 20) =
     ([PR_PASSED], [ShowApproved 1, CommitStatus ''sha'' ''success'' AllApproved]) \<and>
   verdicts_and_effects (approved_flood 2) = ([PR_BLOCKED], [ShowApproved 1])"
  using flood_approved trickle_approved
  by (auto simp: approved_flood_def Let_def split: prod.splits sum.splits)

subsection \<open>Re-evaluating a verdict\<close>

lemma triage_frame [simp]:
  "d_pr_findings (apply_triage now f s r a b db) = d_pr_findings db"
  "d_pr_scans (apply_triage now f s r a b db) = d_pr_scans db"
  "d_targets (apply_triage now f s r a b db) = d_targets db"
  "d_policies (apply_triage now f s r a b db) = d_policies db"
  by (simp_all add: apply_triage_def learn_suppression_rule_def add_log_def update_finding_def Let_def
      split: option.split)

lemma sync_frame [simp]:
  "d_pr_findings (sync_to_main_findings now s r a ms db) = d_pr_findings db"
  "d_pr_scans (sync_to_main_findings now s r a ms db) = d_pr_scans db"
  "d_targets (sync_to_main_findings now s r a ms db) = d_targets db"
  "d_policies (sync_to_main_findings now s r a ms db) = d_policies db"
proof -
  have "d_pr_findings (fold (\<lambda>f. apply_triage now f s r a None) ms db) = d_pr_findings db \<and>
      d_pr_scans (fold (\<lambda>f. apply_triage now f s r a None) ms db) = d_pr_scans db \<and>
      d_targets (fold (\<lambda>f. apply_triage now f s r a None) ms db) = d_targets db \<and>
      d_policies (fold (\<lambda>f. apply_triage now f s r a None) ms db) = d_policies db"
    by (induction ms arbitrary: db) simp_all
  then show "d_pr_findings (sync_to_main_findings now s r a ms db) = d_pr_findings db"
    "d_pr_scans (sync_to_main_findings now s r a ms db) = d_pr_scans db"
    "d_targets (sync_to_main_findings now s r a ms db) = d_targets db"
    "d_policies (sync_to_main_findings now s r a ms db) = d_policies db"
    by (simp_all add: sync_to_main_findings_def)
qed

lemma update_pr_scan_sel [simp]:
  "d_pr_findings (update_pr_scan i g db) = d_pr_findings db" "d_targets (update_pr_scan i g db) = d_targets db"
  "d_policies (update_pr_scan i g db) = d_policies db"
  "d_pr_scans (update_pr_scan i g db) = update_rows ps_id i g (d_pr_scans db)"
  by (simp_all add: update_pr_scan_def)

definition scan_key :: "pr_guardrail_scan \<Rightarrow> row_id \<times> row_id \<times> int" where
  "scan_key s = (ps_id s, ps_target_id s, ps_pr_number s)"

lemma recompute_frame:
  "d_pr_findings (fst (recompute_pr_scan_status sha s db)) = d_pr_findings db"
  "map scan_key (d_pr_scans (fst (recompute_pr_scan_status sha s db))) = map scan_key (d_pr_scans db)"
  by (auto simp: recompute_pr_scan_status_def Let_def update_rows_def scan_key_def split: option.split)

lemma review_frame:
  "d_pr_findings (fst (after_review sha now e fs ts r sh f db)) = d_pr_findings db"
  "map scan_key (d_pr_scans (fst (after_review sha now e fs ts r sh f db))) = map scan_key (d_pr_scans db)"
  by (auto simp: after_review_def Let_def recompute_frame split_beta split: option.split)

lemma pr_scan_ids_key:
  "map scan_key (d_pr_scans db') = map scan_key (d_pr_scans db) \<Longrightarrow> pr_scan_ids db' t n = pr_scan_ids db t n"
proof -
  assume k: "map scan_key (d_pr_scans db') = map scan_key (d_pr_scans db)"
  have "pr_scan_ids d t n = map fst (filter (\<lambda>(i, t', n'). t' = t \<and> n' = n) (map scan_key (d_pr_scans d)))" for d
    by (simp add: pr_scan_ids_def scan_key_def filter_map comp_def)
  with k show ?thesis by simp
qed

lemma get_pr_scan_update:
  "(\<And>s. ps_id (g s) = ps_id s) \<Longrightarrow>
   get_pr_scan (update_pr_scan i g db) i = map_option g (get_pr_scan db i)"
proof -
  assume g: "\<And>s. ps_id (g s) = ps_id s"
  have "List.find (\<lambda>s. ps_id s = i) (update_rows ps_id i g xs) = map_option g (List.find (\<lambda>s. ps_id s = i) xs)" for xs
    by (induction xs) (auto simp: update_rows_def g)
  then show ?thesis by (simp add: get_pr_scan_def)
qed

text \<open>Re-evaluation is exact on what is stored.  For a Blocked or Passed scan the stored
  verdict becomes Blocked exactly when a stored finding that is not approved has a
  blocking severity; GitHub is told only when the verdict changes, and told failure only
  for a blocked scan whose mode is not alert.  A running, failed or overridden scan is left
  alone.\<close>

theorem recompute_is_exact:
  assumes "get_pr_scan db i = Some s" and "get_target db (ps_target_id s) = Some t"
    and "recompute_pr_scan_status sha s db = (db', res)"
  shows "if ps_status s \<in> {PR_BLOCKED, PR_PASSED}
    then (\<exists>s'. get_pr_scan db' i = Some s' \<and>
            ps_status s' = (if unapproved_blocks db t i then PR_BLOCKED else PR_PASSED) \<and>
            (ps_status s' = ps_status s \<longrightarrow> db' = db \<and> res = Inr [])) \<and>
         (\<forall>es h d. res = Inr es \<and> CommitStatus h ''failure'' d \<in> set es \<longrightarrow>
            unapproved_blocks db t i \<and> resolve_enforcement_mode db' t \<noteq> Inr ''alert'')
    else db' = db \<and> res = Inr []"
proof -
  have i: "ps_id s = i" using find_mem [OF assms(1) [unfolded get_pr_scan_def]] by simp
  show ?thesis
    using assms i get_pr_scan_update [of "\<lambda>s. s\<lparr>ps_status := PR_BLOCKED\<rparr>" i db]
      get_pr_scan_update [of "\<lambda>s. s\<lparr>ps_status := PR_PASSED\<rparr>" i db]
    by (cases "ps_status s"; cases "unapproved_blocks db t i")
      (auto simp: recompute_pr_scan_status_def Let_def split: option.splits sum.splits if_splits)
qed

definition stored_finding :: pr_guardrail_finding where
  "stored_finding = \<lparr>pg_id = 1, pg_pr_scan_id = 4, pg_tool = ''semgrep'', pg_rule_id = ''r'', pg_title = ''t'',
     pg_file_path = ''a.py'', pg_line_start = Some 3, pg_severity = ''High'',
     pg_ignore_status = IG_APPROVED, pg_ignore_requested_by = ''dev'', pg_ignore_requested_reason = ''fp'',
     pg_ignore_reviewed_by = ''rev'', pg_ignore_reviewed_at = Some 5, pg_reject_reason = None\<rparr>"

definition stored_scan :: pr_guardrail_scan where
  "stored_scan = (new_pr_scan 4 1 5 ''t'' ''b'')\<lparr>ps_status := PR_BLOCKED\<rparr>"

definition review_db :: db where
  "review_db = empty_db\<lparr>d_targets := [example_target], d_pr_scans := [stored_scan],
     d_pr_findings := [stored_finding]\<rparr>"

theorem recompute_is_exact_witness:
  "\<exists>s'. get_pr_scan (fst (recompute_pr_scan_status (Some ''sha'') stored_scan review_db)) 4 = Some s' \<and>
     ps_status s' = PR_PASSED"
proof -
  have 1: "get_pr_scan review_db 4 = Some stored_scan"
    by (simp add: get_pr_scan_def review_db_def stored_scan_def new_pr_scan_def)
  have 2: "get_target review_db (ps_target_id stored_scan) = Some example_target"
    by (simp add: get_target_def review_db_def stored_scan_def new_pr_scan_def example_target_def)
  have "ps_status stored_scan = PR_BLOCKED" by (simp add: stored_scan_def)
  moreover have "\<not> unapproved_blocks review_db example_target 4"
    by (simp add: unapproved_blocks_def review_db_def stored_finding_def)
  ultimately show ?thesis
    using recompute_is_exact [OF 1 2 prod.collapse [symmetric], of "Some ''sha''"] by auto
qed

text \<open>A revoked approval comes back.  Approvals are carried forward from every earlier scan of
  the pull request, each of which keeps its own approved row for the same finding.  Revoking
  the approval on one scan leaves the others, so while one exists the next scan of the pull
  request takes the finding as approved again.\<close>

theorem revoked_approval_returns:
  assumes "revoke_ignore visible email now sha i db = Inr (db', res)"
    and "q \<in> set (d_pr_findings db)" and "pg_id q \<noteq> i" and "pg_ignore_status q = IG_APPROVED"
    and "pg_pr_scan_id q \<in> set (pr_scan_ids db t n)"
    and "f = \<lparr>pf_dedup_hash = h, pf_tool = Some (pg_tool q), pf_rule_id = Some (pg_rule_id q), pf_title = ti,
              pf_file_path = Some (pg_file_path q), pf_line_start = pg_line_start q, pf_line_end = le,
              pf_severity = sev, pf_snippet = sn\<rparr>" and "pg_tool q \<noteq> []"
  shows "prior_approval db' t n f \<noteq> None"
proof -
  let ?db = "update_pr_finding i (set_review IG_REVOKED email now) db"
  obtain p where "after_review sha now email [ACCEPTED_RISK] REOPENED ''Ignore approval revoked''
      (ShowRevoked i) p ?db = (db', res)"
    using assms(1) by (auto simp: revoke_ignore_def split: sum.splits if_splits)
  then have rows: "d_pr_findings db' = d_pr_findings ?db"
    and keys: "map scan_key (d_pr_scans db') = map scan_key (d_pr_scans ?db)"
    using review_frame by (metis fst_conv)+
  have q: "q \<in> set (d_pr_findings db')"
    using assms(2,3) by (auto simp: rows update_pr_finding_def update_rows_def image_iff)
  have ids: "pr_scan_ids db' t n = pr_scan_ids db t n"
    using pr_scan_ids_key [OF keys, of t n] by (simp add: update_pr_finding_def pr_scan_ids_def)
  have key: "or_else (pf_tool f) GUARDRAIL_FALLBACK_TOOL = pg_tool q" "pf_rule_id f = Some (pg_rule_id q)"
    "pf_file_path f = Some (pg_file_path q)" "pf_line_start f = pg_line_start q"
    using assms(6,7) by (simp_all add: or_else_def)
  have mem: "q \<in> set (filter (\<lambda>r. pg_pr_scan_id r \<in> set (pr_scan_ids db' t n) \<and> pg_tool r = pg_tool q \<and>
      pg_rule_id r = pg_rule_id q \<and> pg_file_path r = pg_file_path q \<and> pg_ignore_status r = IG_APPROVED \<and>
      pg_line_start r = pg_line_start q) (d_pr_findings db'))"
    using q assms(4,5) ids by simp
  show ?thesis
    unfolding prior_approval_def carry_forward_approved_ignore_def key option.case
    using strongest.pick_best [OF strongest_first_max mem] by fastforce
qed

definition twice_approved_db :: db where
  "twice_approved_db = review_db\<lparr>
     d_pr_scans := [stored_scan, (new_pr_scan 6 1 5 ''t'' ''b'')\<lparr>ps_status := PR_PASSED\<rparr>],
     d_pr_findings := [stored_finding, stored_finding\<lparr>pg_id := 2, pg_pr_scan_id := 6\<rparr>]\<rparr>"

theorem revoked_approval_returns_witness:
  "\<exists>db' res. revoke_ignore None ''rev'' 30 None 2 twice_approved_db = Inr (db', res) \<and>
     prior_approval db' 1 5 (pr_item 3 ''High'' \<lparr>pf_tool := Some ''semgrep''\<rparr>) \<noteq> None"
proof -
  have "case revoke_ignore None ''rev'' 30 None 2 twice_approved_db of Inl _ \<Rightarrow> False | Inr _ \<Rightarrow> True"
    by code_simp
  then obtain db' res where r: "revoke_ignore None ''rev'' 30 None 2 twice_approved_db = Inr (db', res)"
    by (auto split: sum.splits)
  have f: "pr_item 3 ''High'' \<lparr>pf_tool := Some ''semgrep''\<rparr> =
    \<lparr>pf_dedup_hash = None, pf_tool = Some (pg_tool stored_finding), pf_rule_id = Some (pg_rule_id stored_finding),
     pf_title = Some ''t'', pf_file_path = Some (pg_file_path stored_finding),
     pf_line_start = pg_line_start stored_finding, pf_line_end = None, pf_severity = Some ''High'',
     pf_snippet = None\<rparr>"
    by (simp add: pr_item_def stored_finding_def)
  have "stored_finding \<in> set (d_pr_findings twice_approved_db)" "pg_id stored_finding \<noteq> 2"
    "pg_ignore_status stored_finding = IG_APPROVED" "pg_tool stored_finding \<noteq> []"
    "pg_pr_scan_id stored_finding \<in> set (pr_scan_ids twice_approved_db 1 5)"
    by (simp_all add: twice_approved_db_def stored_finding_def pr_scan_ids_def stored_scan_def new_pr_scan_def)
  with revoked_approval_returns [OF r _ _ _ _ f] r show ?thesis by blast
qed

subsection \<open>Grouping\<close>

interpretation primary: strongest
  "first_max (\<lambda>f. severity_rank (pg_severity f))" "\<lambda>f. severity_rank (pg_severity f)" "\<lambda>_. True"
  by (rule strongest_first_max)

definition left_over ::
  "pr_guardrail_finding list \<Rightarrow> pr_guardrail_finding list \<Rightarrow> pr_guardrail_finding list \<Rightarrow> pr_guardrail_finding list" where
  "left_over fs before rest =
     filter (\<lambda>g. if merges fs g then \<not> list_ex (\<lambda>b. has_location b \<and> same_location g b) before else g \<in> set rest) fs"

lemma same_location_sym: "same_location f g \<longleftrightarrow> same_location g f"
  by (auto simp: same_location_def)

lemma same_location_trans: "same_location f g \<Longrightarrow> same_location g h \<Longrightarrow> same_location f h"
  by (auto simp: same_location_def)

lemma merges_location: "merges fs f \<Longrightarrow> has_location g \<Longrightarrow> same_location f g \<Longrightarrow> merges fs g"
proof -
  assume m: "merges fs f" and g: "has_location g" "same_location f g"
  have "bucket fs g = bucket fs f"
    using g(2) by (auto simp: bucket_def same_location_def intro!: filter_cong)
  with m g(1) show ?thesis by (simp add: merges_def)
qed

lemma mset_filter_split:
  "(\<And>x. x \<in> set xs \<Longrightarrow> P x = (Q x \<or> R x)) \<Longrightarrow> (\<And>x. x \<in> set xs \<Longrightarrow> \<not> (Q x \<and> R x)) \<Longrightarrow>
   mset (filter P xs) = mset (filter Q xs) + mset (filter R xs)"
  by (induction xs) auto

lemma filter_one: "distinct xs \<Longrightarrow> f \<in> set xs \<Longrightarrow> filter (\<lambda>x. x = f) xs = [f]"
proof (induction xs)
  case (Cons x xs)
  show ?case
  proof (cases "x = f")
    case True
    with Cons.prems have "\<forall>y\<in>set xs. y \<noteq> f" by auto
    then have "filter (\<lambda>y. y = f) xs = []" by simp
    with True show ?thesis by simp
  qed (use Cons in simp)
qed simp

lemma mset_filter_one: "distinct xs \<Longrightarrow> f \<in> set xs \<Longrightarrow> mset (filter (\<lambda>x. x = f) xs) = {#f#}"
  by (simp add: filter_one)

abbreviation seen_at :: "pr_guardrail_finding list \<Rightarrow> pr_guardrail_finding \<Rightarrow> bool" where
  "seen_at before g \<equiv> list_ex (\<lambda>b. has_location b \<and> same_location g b) before"

lemma merges_has_location: "merges fs f \<Longrightarrow> has_location f"
  by (simp add: merges_def)

lemma grouping_left_over:
  "fs = before @ rest \<Longrightarrow> distinct fs \<Longrightarrow>
   mset (concat (map lg_findings (grouping_loop fs before rest))) = mset (left_over fs before rest)"
proof (induction rest arbitrary: before)
  case Nil
  then have "left_over fs before [] = []"
    by (auto simp: left_over_def filter_empty_conv list_ex_iff same_location_def dest: merges_has_location)
  then show ?case by simp
next
  case (Cons f rest)
  have IH: "mset (concat (map lg_findings (grouping_loop fs (before @ [f]) rest))) =
      mset (left_over fs (before @ [f]) rest)"
    using Cons by simp
  have f: "f \<in> set fs" "f \<notin> set rest" using Cons.prems by auto
  let ?R = "\<lambda>g. if merges fs g then \<not> seen_at (before @ [f]) g else g \<in> set rest"
  consider (alone) "\<not> merges fs f" | (absorbed) "merges fs f" "seen_at before f"
    | (opens) "merges fs f" "\<not> seen_at before f" by blast
  then show ?case
  proof cases
    case alone
    have "mset (left_over fs before (f # rest)) = mset (filter (\<lambda>x. x = f) fs) + mset (filter ?R fs)"
      unfolding left_over_def
    proof (rule mset_filter_split)
      fix x assume "x \<in> set fs"
      show "(if merges fs x then \<not> seen_at before x else x \<in> set (f # rest)) = (x = f \<or> ?R x)"
        using alone merges_location [of fs x f] by (auto simp: list_ex_iff)
      show "\<not> (x = f \<and> ?R x)" using alone f by auto
    qed
    then show ?thesis
      using alone IH mset_filter_one [OF Cons.prems(2) f(1)] by (simp add: left_over_def)
  next
    case absorbed
    have "left_over fs before (f # rest) = left_over fs (before @ [f]) rest"
      unfolding left_over_def
    proof (rule filter_cong [OF refl])
      fix x assume "x \<in> set fs"
      have "seen_at before x" if "same_location x f"
        using that absorbed(2) same_location_trans by (auto simp: list_ex_iff)
      then show "(if merges fs x then \<not> seen_at before x else x \<in> set (f # rest)) = ?R x"
        using absorbed(1) by (auto simp: list_ex_iff)
    qed
    then show ?thesis using absorbed IH by simp
  next
    case opens
    have "mset (left_over fs before (f # rest)) =
        mset (filter (\<lambda>g. has_location g \<and> same_location f g) fs) + mset (filter ?R fs)"
      unfolding left_over_def
    proof (rule mset_filter_split)
      fix x assume "x \<in> set fs"
      have m: "merges fs x" if "has_location x" "same_location f x"
        using that opens(1) merges_location by blast
      have fl: "has_location f" using opens(1) by (rule merges_has_location)
      have nb: "\<not> seen_at before x" if "same_location f x"
        using that opens(2) same_location_trans by (auto simp: list_ex_iff)
      show "(if merges fs x then \<not> seen_at before x else x \<in> set (f # rest)) =
          ((has_location x \<and> same_location f x) \<or> ?R x)"
        using m nb fl opens(1) merges_has_location [of fs x] same_location_sym [of x f]
        by (auto simp: list_ex_iff)
      show "\<not> ((has_location x \<and> same_location f x) \<and> ?R x)"
        using m fl same_location_sym [of x f] by auto
    qed
    then show ?thesis using opens IH by (simp add: left_over_def bucket_def)
  qed
qed

lemma grouping_members:
  assumes "g \<in> set (grouping_loop fs before rest)" and "set rest \<subseteq> set fs"
  shows "lg_findings g \<noteq> [] \<and>
    (2 \<le> length (lg_findings g) \<longrightarrow>
       (\<forall>x\<in>set (lg_findings g). has_location x \<and> pg_file_path x = lg_file_path g \<and> pg_line_start x = lg_line_start g) \<and>
       2 \<le> card (pg_tool ` set (lg_findings g)))"
  using assms
proof (induction fs before rest rule: grouping_loop.induct)
  case (2 fs before f rest)
  have f: "f \<in> set fs" and r: "set rest \<subseteq> set fs" using "2.prems"(2) by auto
  consider (merged) "merges fs f" "g = \<lparr>lg_file_path = pg_file_path f, lg_line_start = pg_line_start f, lg_findings = bucket fs f\<rparr>"
    | (alone) "g = \<lparr>lg_file_path = pg_file_path f, lg_line_start = pg_line_start f, lg_findings = [f]\<rparr>"
    | (later) "g \<in> set (grouping_loop fs (before @ [f]) rest)"
    using "2.prems"(1) by (auto simp: Let_def split: if_splits)
  then show ?case
  proof cases
    case merged
    from f merged(1) have "f \<in> set (bucket fs f)" by (simp add: bucket_def merges_def same_location_def)
    then have "bucket fs f \<noteq> []" by (metis list.set(1) empty_iff)
    moreover have "has_location x \<and> same_location f x" if "x \<in> set (bucket fs f)" for x
      using that by (simp add: bucket_def)
    ultimately show ?thesis using merged by (simp add: merges_def same_location_def)
  next
    case later
    from "2.IH" [OF later r] show ?thesis .
  qed simp
qed simp

text \<open>Grouping the comment loses and hides nothing.  The groups partition the findings of a
  scan; a group of several findings is one file and line reported by at least two tools; and
  each group is shown at a severity that is the severity of one of its members and at least
  that of every other.\<close>

theorem grouping_hides_nothing:
  assumes "distinct fs"
  shows "mset (concat (map lg_findings (group_findings_by_location fs))) = mset fs \<and>
    (\<forall>g\<in>set (group_findings_by_location fs).
       (2 \<le> length (lg_findings g) \<longrightarrow>
          (\<forall>x\<in>set (lg_findings g). pg_file_path x = lg_file_path g \<and> pg_line_start x = lg_line_start g) \<and>
          2 \<le> card (pg_tool ` set (lg_findings g))) \<and>
       (\<exists>p\<in>set (lg_findings g). group_severity g = Some (pg_severity p) \<and>
          (\<forall>x\<in>set (lg_findings g). severity_rank (pg_severity x) \<le> severity_rank (pg_severity p))))"
proof -
  have "left_over fs [] fs = fs" by (auto simp: left_over_def intro!: filter_True)
  then have "mset (concat (map lg_findings (group_findings_by_location fs))) = mset fs"
    using grouping_left_over [of fs "[]" fs] assms by (simp add: group_findings_by_location_def)
  moreover have "\<exists>p\<in>set (lg_findings g). group_severity g = Some (pg_severity p) \<and>
          (\<forall>x\<in>set (lg_findings g). severity_rank (pg_severity x) \<le> severity_rank (pg_severity p))"
    if "g \<in> set (group_findings_by_location fs)" for g
  proof -
    have "lg_findings g \<noteq> []" using grouping_members that by (auto simp: group_findings_by_location_def)
    then obtain p where p: "group_primary g = Some p"
      using primary.pick_None unfolding group_primary_def by (metis last_in_set not_None_eq)
    then have mem: "p \<in> set (lg_findings g)"
      using primary.pick_mem unfolding group_primary_def by blast
    have max: "severity_rank (pg_severity x) \<le> severity_rank (pg_severity p)" if "x \<in> set (lg_findings g)" for x
      using primary.pick_max p that unfolding group_primary_def by blast
    show ?thesis by (rule bexI [OF _ mem]) (auto simp: group_severity_def p intro: max)
  qed
  moreover have "2 \<le> length (lg_findings g) \<longrightarrow>
      (\<forall>x\<in>set (lg_findings g). pg_file_path x = lg_file_path g \<and> pg_line_start x = lg_line_start g) \<and>
      2 \<le> card (pg_tool ` set (lg_findings g))" if "g \<in> set (group_findings_by_location fs)" for g
    using grouping_members [of g fs "[]" fs] that by (auto simp: group_findings_by_location_def)
  ultimately show ?thesis by blast
qed

theorem grouping_hides_nothing_witness:
  "mset (concat (map lg_findings (group_findings_by_location
      [stored_finding, stored_finding\<lparr>pg_id := 2, pg_tool := ''gitleaks''\<rparr>]))) =
   mset [stored_finding, stored_finding\<lparr>pg_id := 2, pg_tool := ''gitleaks''\<rparr>]"
proof -
  have "distinct [stored_finding, stored_finding\<lparr>pg_id := 2, pg_tool := ''gitleaks''\<rparr>]"
    by (simp add: stored_finding_def)
  from grouping_hides_nothing [OF this] show ?thesis by blast
qed

end
