(* ===== verification/RateLimit.thy ===== *)
theory RateLimit
  imports FpLearning
begin

text \<open>
  The request limiter of \<open>core/rate_limit.py\<close>: a sliding window of admission times per key in
  memory, behind a Redis counter that is used while it answers.  Redis is a service, so what it
  answers is part of the request's input: whether the first ping succeeds, and what the INCR of
  the bucket's key returns (None when it raises).  The state is that of one process.
\<close>

subsection \<open>The limiter\<close>

datatype redis_client = Unchecked | Unreachable | Connected

type_synonym hit_table = "string \<Rightarrow> rat list"

record limiter =
  rl_client :: redis_client
  rl_hits :: hit_table

record clock =
  ck_monotonic :: rat
  ck_time :: rat
  ck_ping_ok :: bool
  ck_incr :: "string \<Rightarrow> int option"

datatype limit_error = TooManyRequests int int int | EmptyDeque

definition get_redis :: "clock \<Rightarrow> limiter \<Rightarrow> bool \<times> limiter" where
  "get_redis ck st =
     (let st' = (if rl_client st = Unchecked
                 then st\<lparr>rl_client := (if ck_ping_ok ck then Connected else Unreachable)\<rparr> else st)
      in (rl_client st' = Connected, st'))"

text \<open>The \<open>popleft\<close> loop; \<open>int(x)\<close> on a float truncates.\<close>

fun expire :: "rat \<Rightarrow> rat list \<Rightarrow> rat list" where
  "expire cutoff [] = []"
| "expire cutoff (h # hs) = (if h \<le> cutoff then expire cutoff hs else h # hs)"

definition py_int :: "rat \<Rightarrow> int" where
  "py_int x = (if 0 \<le> x then \<lfloor>x\<rfloor> else \<lceil>x\<rceil>)"

definition check_memory ::
  "string \<Rightarrow> int \<Rightarrow> int \<Rightarrow> rat \<Rightarrow> hit_table \<Rightarrow> hit_table \<times> (limit_error + bool \<times> int)" where
  "check_memory key limit window now st =
     (let hits = expire (now - of_int window) (st key) in
      if limit \<le> int (length hits) then
        (st(key := hits),
         (case hits of
            [] \<Rightarrow> Inl EmptyDeque
          | h # _ \<Rightarrow> Inr (False, max 1 (py_int (of_int window - (now - h)) + 1))))
      else (st(key := hits @ [now]), Inr (True, 0)))"

definition bucket_key :: "string \<Rightarrow> int \<Rightarrow> rat \<Rightarrow> string" where
  "bucket_key key window now = ''ratelimit:'' @ key @ '':'' @ int_str (py_int now div window)"

definition check_redis :: "clock \<Rightarrow> string \<Rightarrow> int \<Rightarrow> int \<Rightarrow> (bool \<times> int) option" where
  "check_redis ck key limit window =
     map_option (\<lambda>count. if count > limit then (False, window) else (True, 0))
       (ck_incr ck (bucket_key key window (ck_time ck)))"

definition enforce_rate_limit ::
  "string \<Rightarrow> int \<Rightarrow> int \<Rightarrow> clock \<Rightarrow> limiter \<Rightarrow> limiter \<times> (limit_error + unit)" where
  "enforce_rate_limit key limit window ck st =
     (let (up, st1) = get_redis ck st;
          (st2, answer) =
            (case if up then check_redis ck key limit window else None of
               Some r \<Rightarrow> (st1, Inr r)
             | None \<Rightarrow>
                 (let (hits, r) = check_memory key limit window (ck_monotonic ck) (rl_hits st1)
                  in (st1\<lparr>rl_hits := hits\<rparr>, r)))
      in (st2, (case answer of
                  Inl e \<Rightarrow> Inl e
                | Inr (allowed, retry_after) \<Rightarrow>
                    if allowed then Inr () else Inl (TooManyRequests limit window retry_after))))"

subsection \<open>The window of one key\<close>

lemma expire_dropWhile: "expire c hs = dropWhile (\<lambda>h. h \<le> c) hs"
  by (induction hs) auto

lemma expire_sorted: "sorted hs \<Longrightarrow> expire c hs = filter (\<lambda>h. c < h) hs"
proof (induction hs)
  case (Cons h hs)
  show ?case
  proof (cases "h \<le> c")
    case False
    with Cons.prems have "\<forall>x\<in>set hs. c < x" by fastforce
    with False show ?thesis by simp
  qed (use Cons in auto)
qed simp

abbreviation in_window :: "rat \<Rightarrow> int \<Rightarrow> rat list \<Rightarrow> rat list" where
  "in_window T window ts \<equiv> filter (\<lambda>t. T - of_int window < t \<and> t \<le> T) ts"

text \<open>What the deque of a key knows about the admissions so far: it is all of them later than
  some cutoff that no window still open reaches.\<close>

definition window_ok :: "int \<Rightarrow> int \<Rightarrow> rat \<Rightarrow> rat list \<Rightarrow> rat list \<Rightarrow> bool" where
  "window_ok limit window now admitted hits \<longleftrightarrow>
     sorted admitted \<and> (\<forall>t\<in>set admitted. t \<le> now) \<and>
     (\<exists>cutoff \<le> now - of_int window. hits = filter (\<lambda>t. cutoff < t) admitted) \<and>
     (\<forall>T. int (length (in_window T window admitted)) \<le> limit)"

lemma window_ok_start: "0 \<le> limit \<Longrightarrow> window_ok limit window now [] []"
  by (auto simp: window_ok_def intro: exI [of _ "now - of_int window"])

lemma window_ok_later: "window_ok limit window now adm hits \<Longrightarrow> now \<le> later \<Longrightarrow> window_ok limit window later adm hits"
proof -
  assume "window_ok limit window now adm hits" and le: "now \<le> later"
  then obtain c where c: "c \<le> now - of_int window" "hits = filter (\<lambda>t. c < t) adm"
    and w: "sorted adm" "\<forall>t\<in>set adm. t \<le> now" "\<forall>T. int (length (in_window T window adm)) \<le> limit"
    by (auto simp: window_ok_def)
  from c(1) le have "c \<le> later - of_int window" by simp
  with c(2) have "\<exists>c\<le>later - of_int window. hits = filter (\<lambda>t. c < t) adm" by blast
  moreover have "\<forall>t\<in>set adm. t \<le> later" using w(2) le by fastforce
  ultimately show ?thesis using w(1,3) by (simp add: window_ok_def)
qed

lemma window_ok_expire:
  assumes "window_ok limit window now adm hits"
  shows "expire (now - of_int window) hits = filter (\<lambda>t. now - of_int window < t) adm"
proof -
  obtain c where c: "c \<le> now - of_int window" "hits = filter (\<lambda>t. c < t) adm" and s: "sorted adm"
    using assms by (auto simp: window_ok_def)
  then have "expire (now - of_int window) hits = filter (\<lambda>t. now - of_int window < t) (filter (\<lambda>t. c < t) adm)"
    by (simp add: expire_sorted sorted_wrt_filter)
  with c(1) show ?thesis by (simp, intro filter_cong) auto
qed

lemma window_ok_refuse:
  "window_ok limit window now adm hits \<Longrightarrow>
   window_ok limit window now adm (filter (\<lambda>t. now - of_int window < t) adm)"
  by (auto simp: window_ok_def)

lemma window_ok_admit:
  assumes ok: "window_ok limit window now adm hits"
    and room: "int (length (filter (\<lambda>t. now - of_int window < t) adm)) < limit" and w: "0 < window"
  shows "window_ok limit window now (adm @ [now]) (filter (\<lambda>t. now - of_int window < t) adm @ [now])"
proof -
  have "int (length (in_window T window (adm @ [now]))) \<le> limit" for T
  proof (cases "T - of_int window < now \<and> now \<le> T")
    case True
    then have "length (in_window T window adm) \<le> length (filter (\<lambda>t. now - of_int window < t) adm)"
      by (induction adm) auto
    with True room show ?thesis by simp
  next
    case False
    then have "in_window T window (adm @ [now]) = in_window T window adm" by auto
    with ok show ?thesis by (simp add: window_ok_def)
  qed
  with ok w show ?thesis
    by (auto simp: window_ok_def sorted_append intro!: exI [of _ "now - of_int window"])
qed

subsection \<open>A process serving requests from memory\<close>

text \<open>A request is a key and the clock's reading; the served holds the admitted ones in order.\<close>

definition serve :: "int \<Rightarrow> int \<Rightarrow> string \<times> rat \<Rightarrow> hit_table \<times> (string \<times> rat) list \<Rightarrow> hit_table \<times> (string \<times> rat) list" where
  "serve limit window = (\<lambda>(key, now) (st, served).
     (let (st', answer) = check_memory key limit window now st
      in (st', (case answer of Inr (True, _) \<Rightarrow> served @ [(key, now)] | _ \<Rightarrow> served))))"

definition serve_all :: "int \<Rightarrow> int \<Rightarrow> (string \<times> rat) list \<Rightarrow> hit_table \<times> (string \<times> rat) list" where
  "serve_all limit window requests = fold (serve limit window) requests (\<lambda>_. [], [])"

definition admissions :: "string \<Rightarrow> (string \<times> rat) list \<Rightarrow> rat list" where
  "admissions key served = map snd (filter (\<lambda>e. fst e = key) served)"

lemma admissions_append [simp]: "admissions key (xs @ ys) = admissions key xs @ admissions key ys"
  by (simp add: admissions_def)

lemma admissions_one [simp]: "admissions key [(k, t)] = (if k = key then [t] else [])"
  by (simp add: admissions_def)

definition limiter_ok :: "int \<Rightarrow> int \<Rightarrow> rat \<Rightarrow> hit_table \<times> (string \<times> rat) list \<Rightarrow> bool" where
  "limiter_ok limit window now = (\<lambda>(st, served). \<forall>key. window_ok limit window now (admissions key served) (st key))"

lemma serve_ok:
  assumes "limiter_ok limit window now (st, served)" and "0 < limit" and "0 < window"
  shows "limiter_ok limit window now (serve limit window (k, now) (st, served))"
proof -
  have ok: "window_ok limit window now (admissions key served) (st key)" for key
    using assms(1) by (simp add: limiter_ok_def)
  let ?hits = "filter (\<lambda>t. now - of_int window < t) (admissions k served)"
  have e: "expire (now - of_int window) (st k) = ?hits" using ok by (rule window_ok_expire)
  show ?thesis
  proof (cases "limit \<le> int (length ?hits)")
    case True
    then have "serve limit window (k, now) (st, served) = (st(k := ?hits), served)"
      using assms(2) by (auto simp: serve_def check_memory_def e Let_def split: list.split)
    then show ?thesis using ok window_ok_refuse [OF ok] by (simp add: limiter_ok_def)
  next
    case False
    then have "serve limit window (k, now) (st, served) = (st(k := ?hits @ [now]), served @ [(k, now)])"
      by (simp add: serve_def check_memory_def e)
    then show ?thesis using ok window_ok_admit [OF ok _ assms(3)] False by (simp add: limiter_ok_def)
  qed
qed

lemma serve_all_ok:
  assumes "sorted (map snd (requests @ [(k, now)]))" and "0 < limit" and "0 < window"
  shows "limiter_ok limit window now (serve_all limit window requests)"
  using assms(1)
proof (induction requests arbitrary: k now rule: rev_induct)
  case Nil
  then show ?case using window_ok_start [of limit] assms(2) by (simp add: serve_all_def limiter_ok_def admissions_def)
next
  case (snoc r requests)
  obtain k' t where r: "r = (k', t)" by (cases r)
  obtain st served where s: "serve_all limit window requests = (st, served)" by (cases "serve_all limit window requests")
  have "limiter_ok limit window t (st, served)" using snoc.IH [of k' t] snoc.prems r s by (simp add: sorted_append)
  then have "limiter_ok limit window t (serve limit window (k', t) (st, served))" by (rule serve_ok) fact+
  moreover have "t \<le> now" using snoc.prems r by (simp add: sorted_append)
  ultimately show ?case
    using s r window_ok_later by (auto simp: serve_all_def limiter_ok_def split: prod.splits) blast
qed

subsection \<open>A process whose Redis is unreachable\<close>

definition handle_request ::
  "int \<Rightarrow> int \<Rightarrow> string \<times> clock \<Rightarrow> limiter \<times> (string \<times> rat) list \<Rightarrow> limiter \<times> (string \<times> rat) list" where
  "handle_request limit window = (\<lambda>(key, ck) (st, served).
     (let (st', answer) = enforce_rate_limit key limit window ck st
      in (st', if answer = Inr () then served @ [(key, ck_monotonic ck)] else served)))"

definition handle_requests ::
  "int \<Rightarrow> int \<Rightarrow> (string \<times> clock) list \<Rightarrow> limiter \<times> (string \<times> rat) list \<Rightarrow> limiter \<times> (string \<times> rat) list" where
  "handle_requests limit window = fold (handle_request limit window)"

definition fresh_limiter :: limiter where
  "fresh_limiter = \<lparr>rl_client = Unreachable, rl_hits = (\<lambda>_. [])\<rparr>"

abbreviation arrivals :: "(string \<times> clock) list \<Rightarrow> rat list" where
  "arrivals requests \<equiv> map (\<lambda>r. ck_monotonic (snd r)) requests"

lemma enforce_unreachable:
  assumes "rl_client st = Unreachable"
    and "check_memory key limit window (ck_monotonic ck) (rl_hits st) = (hits, answer)"
  shows "enforce_rate_limit key limit window ck st =
    (st\<lparr>rl_hits := hits\<rparr>, (case answer of
        Inl e \<Rightarrow> Inl e
      | Inr (allowed, retry) \<Rightarrow> if allowed then Inr () else Inl (TooManyRequests limit window retry)))"
  using assms by (simp add: enforce_rate_limit_def get_redis_def)

lemma handle_request_serve:
  assumes "rl_client st = Unreachable"
  shows "handle_request limit window (key, ck) (st, served) =
    (let (hits, served') = serve limit window (key, ck_monotonic ck) (rl_hits st, served)
     in (st\<lparr>rl_hits := hits\<rparr>, served'))"
proof -
  obtain hits answer where c: "check_memory key limit window (ck_monotonic ck) (rl_hits st) = (hits, answer)"
    by (cases "check_memory key limit window (ck_monotonic ck) (rl_hits st)")
  show ?thesis
    by (simp add: handle_request_def serve_def enforce_unreachable [OF assms c] c
        split: sum.split prod.split bool.split)
qed

lemma handle_requests_serve:
  "handle_requests limit window requests (fresh_limiter, []) =
   (let (hits, served) = serve_all limit window (map (\<lambda>(k, ck). (k, ck_monotonic ck)) requests)
    in (\<lparr>rl_client = Unreachable, rl_hits = hits\<rparr>, served))"
proof (induction requests rule: rev_induct)
  case Nil
  then show ?case by (simp add: handle_requests_def serve_all_def fresh_limiter_def)
next
  case (snoc r requests)
  then show ?case
    by (cases r) (simp add: handle_requests_def serve_all_def handle_request_serve split: prod.splits)
qed

lemma handled_ok:
  assumes "sorted (arrivals requests @ [now])" and "0 < limit" and "0 < window"
    and "handle_requests limit window requests (fresh_limiter, []) = (st, served)"
  shows "rl_client st = Unreachable \<and> limiter_ok limit window now (rl_hits st, served)"
proof -
  let ?reqs = "map (\<lambda>(k, ck). (k, ck_monotonic ck)) requests"
  have "map snd (?reqs @ [([], now)]) = arrivals requests @ [now]"
    by (simp add: case_prod_unfold)
  with assms(1) have "sorted (map snd (?reqs @ [([], now)]))" by metis
  from serve_all_ok [OF this assms(2,3)] assms(4)
  show ?thesis by (auto simp: handle_requests_serve split: prod.splits)
qed

lemma handle_other_keys:
  assumes "rl_client st = Unreachable" and "\<forall>r\<in>set others. fst r \<noteq> key"
  shows "rl_client (fst (handle_requests limit window others (st, served))) = Unreachable \<and>
    rl_hits (fst (handle_requests limit window others (st, served))) key = rl_hits st key"
  using assms
proof (induction others arbitrary: st served)
  case (Cons r others)
  obtain k ck where r: "r = (k, ck)" by (cases r)
  obtain hits served' where s: "serve limit window (k, ck_monotonic ck) (rl_hits st, served) = (hits, served')"
    by (cases "serve limit window (k, ck_monotonic ck) (rl_hits st, served)")
  have "hits key = rl_hits st key"
    using s Cons.prems(2) r by (auto simp: serve_def check_memory_def Let_def split: if_splits)
  then show ?case
    using Cons.IH [of "st\<lparr>rl_hits := hits\<rparr>" served'] Cons.prems r s
    by (simp add: handle_requests_def handle_request_serve)
qed (simp add: handle_requests_def)

text \<open>The limit holds in every window, not only in aligned ones.  While Redis is unreachable,
  whatever requests arrive for whatever keys, no stretch of \<open>window\<close> seconds contains more than
  \<open>limit\<close> admitted requests of one key.\<close>

theorem rate_limit_holds:
  assumes "sorted (arrivals requests)" and "0 < limit" and "0 < window"
    and "handle_requests limit window requests (fresh_limiter, []) = (st, served)"
  shows "int (length (in_window T window (admissions key served))) \<le> limit"
proof -
  have "sorted (arrivals requests @ [Max (insert 0 (set (arrivals requests)))])"
    using assms(1) by (simp add: sorted_append)
  from handled_ok [OF this assms(2-4)] show ?thesis by (simp add: limiter_ok_def window_ok_def)
qed

definition at_time :: "rat \<Rightarrow> clock" where
  "at_time t = \<lparr>ck_monotonic = t, ck_time = t, ck_ping_ok = False, ck_incr = (\<lambda>_. None)\<rparr>"

definition burst :: "(string \<times> clock) list" where
  "burst = map (\<lambda>t. (''login'', at_time t)) [0, 10, 20, 61, 65]"

theorem rate_limit_holds_witness:
  "admissions ''login'' (snd (handle_requests 2 60 burst (fresh_limiter, []))) = [0, 10, 61] \<and>
   length (in_window 65 60 (admissions ''login'' (snd (handle_requests 2 60 burst (fresh_limiter, []))))) \<le> 2"
proof -
  have s: "sorted (arrivals burst)" by (simp add: burst_def at_time_def)
  obtain st served where h: "handle_requests 2 60 burst (fresh_limiter, []) = (st, served)"
    by (cases "handle_requests 2 60 burst (fresh_limiter, [])")
  from rate_limit_holds [OF s _ _ h, of 65 "''login''"]
  have "int (length (in_window 65 60 (admissions ''login'' served))) \<le> 2" by simp
  moreover have "admissions ''login'' (snd (handle_requests 2 60 burst (fresh_limiter, []))) = [0, 10, 61]"
    by code_simp
  ultimately show ?thesis using h by simp
qed

text \<open>A refusal is temporary, and says for how long.  When a request is refused with
  \<open>Retry-After\<close>, repeating it that many seconds later succeeds, whatever happened to other keys
  in between.\<close>

theorem retry_is_admitted:
  assumes "sorted (arrivals requests @ [ck_monotonic ck])" and "0 < limit" and "0 < window"
    and "handle_requests limit window requests (fresh_limiter, []) = (st, served)"
    and "enforce_rate_limit key limit window ck st = (st', Inl (TooManyRequests l w retry_after))"
    and "\<forall>r\<in>set others. fst r \<noteq> key"
    and "ck_monotonic ck + of_int retry_after \<le> ck_monotonic later"
  shows "0 < retry_after \<and>
    snd (enforce_rate_limit key limit window later
      (fst (handle_requests limit window others (st', served)))) = Inr ()"
proof -
  let ?now = "ck_monotonic ck" and ?w = "of_int window :: rat"
  let ?hits = "filter (\<lambda>t. ?now - ?w < t) (admissions key served)"
  from handled_ok [OF assms(1-4)]
  have un: "rl_client st = Unreachable" and ok: "window_ok limit window ?now (admissions key served) (rl_hits st key)"
    by (auto simp: limiter_ok_def)
  have "in_window ?now window (admissions key served) = ?hits"
    using ok by (intro filter_cong) (auto simp: window_ok_def)
  with ok have len: "int (length ?hits) \<le> limit" unfolding window_ok_def by metis
  have e: "expire (?now - ?w) (rl_hits st key) = ?hits" using ok by (rule window_ok_expire)
  obtain hits answer where c: "check_memory key limit window ?now (rl_hits st) = (hits, answer)"
    by (cases "check_memory key limit window ?now (rl_hits st)")
  obtain h hs where hits: "?hits = h # hs" "hits key = h # hs"
    and retry: "retry_after = max 1 (py_int (?w - (?now - h)) + 1)" and st': "st' = st\<lparr>rl_hits := hits\<rparr>"
    using assms(2,5) c enforce_unreachable [OF un c]
    by (auto simp: check_memory_def e Let_def split: if_splits list.splits)
  have "h \<in> set ?hits" using hits(1) by simp
  then have "0 < ?w - (?now - h)" by simp
  then have "?w - (?now - h) < of_int retry_after"
    using retry floor_correct [of "?w - (?now - h)"] by (simp add: py_int_def)
  with assms(7) have old: "h \<le> ck_monotonic later - ?w" by linarith
  let ?st = "fst (handle_requests limit window others (st', served))"
  have st: "rl_client ?st = Unreachable" "rl_hits ?st key = h # hs"
    using handle_other_keys [of st' others key limit window served] un assms(6) hits(2) st' by simp_all
  have "length (expire c hs) \<le> length hs" for c by (simp add: expire_dropWhile length_dropWhile_le)
  then have "int (length (expire (ck_monotonic later - ?w) hs)) \<le> int (length hs)" by simp
  moreover have "int (length hs) + 1 \<le> limit" using len hits(1) by simp
  ultimately have "\<not> limit \<le> int (length (expire (ck_monotonic later - ?w) hs))" by linarith
  then have "check_memory key limit window (ck_monotonic later) (rl_hits ?st) =
      ((rl_hits ?st)(key := expire (ck_monotonic later - ?w) hs @ [ck_monotonic later]), Inr (True, 0))"
    using old by (simp add: check_memory_def st(2))
  from enforce_unreachable [OF st(1) this] show ?thesis using retry by simp
qed

definition two_logins :: "(string \<times> clock) list" where
  "two_logins = [(''login'', at_time 0), (''login'', at_time 10)]"

theorem retry_is_admitted_witness:
  "\<exists>st'. enforce_rate_limit ''login'' 2 60 (at_time 20) (fst (handle_requests 2 60 two_logins (fresh_limiter, []))) =
       (st', Inl (TooManyRequests 2 60 41)) \<and>
     snd (enforce_rate_limit ''login'' 2 60 (at_time 61)
       (fst (handle_requests 2 60 [(''scan'', at_time 30)] (st', [])))) = Inr ()"
proof -
  obtain st served where h: "handle_requests 2 60 two_logins (fresh_limiter, []) = (st, served)"
    by (cases "handle_requests 2 60 two_logins (fresh_limiter, [])")
  obtain st' answer where e: "enforce_rate_limit ''login'' 2 60 (at_time 20) st = (st', answer)"
    by (cases "enforce_rate_limit ''login'' 2 60 (at_time 20) st")
  have "snd (enforce_rate_limit ''login'' 2 60 (at_time 20) (fst (handle_requests 2 60 two_logins (fresh_limiter, [])))) =
      Inl (TooManyRequests 2 60 41)"
    by code_simp
  with h e have e': "enforce_rate_limit ''login'' 2 60 (at_time 20) st = (st', Inl (TooManyRequests 2 60 41))" by simp
  have s: "sorted (arrivals two_logins @ [ck_monotonic (at_time 20)])" by (simp add: two_logins_def at_time_def)
  have "snd (enforce_rate_limit ''login'' 2 60 (at_time 61)
      (fst (handle_requests 2 60 [(''scan'', at_time 30)] (st', served)))) = Inr ()"
    using retry_is_admitted [OF s _ _ h e', of "[(''scan'', at_time 30)]" "at_time 61"] by (simp add: at_time_def)
  moreover have "fst (handle_requests 2 60 [(''scan'', at_time 30)] (st', served)) =
      fst (handle_requests 2 60 [(''scan'', at_time 30)] (st', []))"
    by (simp add: handle_requests_def handle_request_def split: prod.split)
  ultimately show ?thesis using h e' by simp
qed

end
