(* ===== verification/CodeGraph.thy ===== *)
theory CodeGraph
  imports FpLearning
begin

text \<open>
  The code graph of \<open>core/code_graph.py\<close>: which files a change can affect.  A checkout is a tree
  of directory entries in the order \<open>os.walk\<close> lists them; a file carries the outcome of reading
  and parsing it, with the import statements \<open>ast.walk\<close> meets.  Parsing Python itself is the
  standard library's \<open>ast\<close> module and not modelled.  A database error while reading or writing
  the cache, which the code logs and treats as a miss, is not modelled either.
\<close>

subsection \<open>A checkout\<close>

datatype import_stmt =
    Import "string list"
  | ImportFrom nat "string option" "string list"

datatype source = Unreadable | TooLarge | SyntaxFault | Parsed "import_stmt list"

datatype entry =
    File string source
  | BrokenLink string
  | LinkedDir string
  | Dir string "entry list"

type_synonym path_parts = "string list"

definition SKIP_DIRS :: "string list" where
  "SKIP_DIRS = [''.git'', ''__pycache__'', ''node_modules'', ''.venv'', ''venv'', ''env'', ''.tox'',
     ''.nox'', ''.mypy_cache'', ''.pytest_cache'', ''.ruff_cache'', ''build'', ''dist'', ''site-packages'',
     ''.eggs'', ''.next'', ''vendor'']"

definition MAX_GRAPH_FILES :: nat where "MAX_GRAPH_FILES = 15000"
definition FAN_IN_CAP :: nat where "FAN_IN_CAP = 50"
definition MAX_EXPANDED_FILES :: nat where "MAX_EXPANDED_FILES = 400"

datatype graph_unavailable =
  TooManyPythonFiles | NoPythonFiles | NoModules | FanIn string nat | RadiusTooWide nat

definition ends_with :: "string \<Rightarrow> string \<Rightarrow> bool" where
  "ends_with suffix s \<longleftrightarrow> (length suffix \<le> length s \<and> drop (length s - length suffix) s = suffix)"

text \<open>The regular names of a directory, then its subdirectories; a link to a directory is listed
  by \<open>os.walk\<close> but not followed.\<close>

fun python_names :: "entry list \<Rightarrow> (string \<times> source) list" where
  "python_names [] = []"
| "python_names (File name src # es) =
     (if ends_with ''.py'' name then (name, src) # python_names es else python_names es)"
| "python_names (BrokenLink name # es) =
     (if ends_with ''.py'' name then (name, Unreadable) # python_names es else python_names es)"
| "python_names (LinkedDir name # es) = python_names es"
| "python_names (Dir name sub # es) = python_names es"

fun walk_subdirs :: "path_parts \<Rightarrow> entry list \<Rightarrow> (path_parts \<times> source) list" where
  "walk_subdirs dir [] = []"
| "walk_subdirs dir (Dir name sub # es) =
     (if name \<in> set SKIP_DIRS then []
      else map (\<lambda>(n, src). (dir @ [name, n], src)) (python_names sub) @ walk_subdirs (dir @ [name]) sub)
     @ walk_subdirs dir es"
| "walk_subdirs dir (e # es) = walk_subdirs dir es"

definition walk_python_files :: "entry list \<Rightarrow> graph_unavailable + (path_parts \<times> source) list" where
  "walk_python_files tree =
     (let found = map (\<lambda>(n, src). ([n], src)) (python_names tree) @ walk_subdirs [] tree
      in if length found > MAX_GRAPH_FILES then Inl TooManyPythonFiles else Inr found)"

subsection \<open>Module names\<close>

fun list_dir :: "entry list \<Rightarrow> path_parts \<Rightarrow> entry list option" where
  "list_dir es [] = Some es"
| "list_dir es (d # ds) =
     (case List.find (\<lambda>e. case e of Dir n _ \<Rightarrow> n = d | _ \<Rightarrow> False) es of
        Some (Dir _ sub) \<Rightarrow> list_dir sub ds
      | _ \<Rightarrow> None)"

definition has_init :: "entry list \<Rightarrow> path_parts \<Rightarrow> bool" where
  "has_init tree dir =
     (case list_dir tree dir of
        None \<Rightarrow> False
      | Some es \<Rightarrow> list_ex (\<lambda>e. case e of File n _ \<Rightarrow> n = ''__init__.py'' | _ \<Rightarrow> False) es)"

text \<open>The number of directories that are packages, walking up from the file.\<close>

fun package_depth :: "(path_parts \<Rightarrow> bool) \<Rightarrow> nat \<Rightarrow> path_parts \<Rightarrow> nat" where
  "package_depth init 0 dir = 0"
| "package_depth init (Suc n) dir =
     (if init (take (Suc n) dir) then Suc (package_depth init n dir) else 0)"

definition dotted_name :: "entry list \<Rightarrow> path_parts \<Rightarrow> string option" where
  "dotted_name tree parts =
     (if parts = [] \<or> \<not> ends_with ''.py'' (last parts) then None
      else (let dir = butlast parts;
                own = (if last parts = ''__init__.py'' then [] else [take (length (last parts) - 3) (last parts)]);
                depth = package_depth (has_init tree) (length dir) dir;
                mod_parts = drop (length dir - depth) dir @ own
            in if mod_parts = [] then None else Some (join ''.'' mod_parts)))"

subsection \<open>Resolving imports\<close>

type_synonym module_map = "string \<Rightarrow> string list"

fun resolve_prefix :: "nat \<Rightarrow> string list \<Rightarrow> module_map \<Rightarrow> string \<Rightarrow> string list" where
  "resolve_prefix 0 parts modules self = []"
| "resolve_prefix (Suc i) parts modules self =
     (let found = filter (\<lambda>h. h \<noteq> self) (modules (join ''.'' (take (Suc i) parts)))
      in if found \<noteq> [] then found else resolve_prefix i parts modules self)"

definition resolve :: "string \<Rightarrow> module_map \<Rightarrow> string \<Rightarrow> string list" where
  "resolve name modules self =
     (let parts = split_on CHR ''.'' name in resolve_prefix (length parts) parts modules self)"

fun import_targets :: "import_stmt \<Rightarrow> string list \<Rightarrow> string list" where
  "import_targets (Import names) pkg = names"
| "import_targets (ImportFrom level modl names) pkg =
     (let module_parts = (case modl of None \<Rightarrow> [] | Some [] \<Rightarrow> [] | Some m \<Rightarrow> split_on CHR ''.'' m);
          trim = level - 1
      in if level = 0 \<and> (modl = None \<or> modl = Some []) then []
         else if 0 < level \<and> trim > length pkg then []
         else (let base_parts = (if 0 < level then take (length pkg - trim) pkg else []) @ module_parts;
                   base = join ''.'' base_parts
               in if base = [] then [] else base # map (\<lambda>a. base @ ''.'' @ a) names))"

subsection \<open>The import graph\<close>

record module_file =
  mf_path :: string
  mf_dotted :: string
  mf_source :: source

definition module_files :: "entry list \<Rightarrow> (path_parts \<times> source) list \<Rightarrow> module_file list" where
  "module_files tree files =
     List.map_filter (\<lambda>(parts, src).
       case dotted_name tree parts of
         None \<Rightarrow> None
       | Some d \<Rightarrow> if d = [] then None
                   else Some \<lparr>mf_path = join ''/'' parts, mf_dotted = d, mf_source = src\<rparr>) files"

definition modules_of :: "module_file list \<Rightarrow> module_map" where
  "modules_of mods name = map mf_path (filter (\<lambda>m. mf_dotted m = name) mods)"

definition package_of :: "module_file \<Rightarrow> string list" where
  "package_of m =
     (let parts = split_on CHR ''.'' (mf_dotted m)
      in if ends_with ''__init__.py'' (mf_path m) then parts else butlast parts)"

definition imports_of :: "module_file \<Rightarrow> string list" where
  "imports_of m =
     (case mf_source m of
        Parsed stmts \<Rightarrow> concat (map (\<lambda>s. import_targets s (package_of m)) stmts)
      | _ \<Rightarrow> [])"

text \<open>The pairs (imported file, importing file) in the order the loops add them.\<close>

definition import_edges :: "module_file list \<Rightarrow> (string \<times> string) list" where
  "import_edges mods =
     concat (map (\<lambda>m. concat (map (\<lambda>name. map (\<lambda>hit. (hit, mf_path m))
       (resolve name (modules_of mods) (mf_path m))) (imports_of m))) mods)"

type_synonym import_graph = "string \<Rightarrow> string list option"

definition graph_of :: "(string \<times> string) list \<Rightarrow> import_graph" where
  "graph_of edges path =
     (let importers = map snd (filter (\<lambda>e. fst e = path) edges)
      in if importers = [] then None else Some (sort_str (remdups importers)))"

definition build_import_graph :: "entry list \<Rightarrow> graph_unavailable + import_graph \<times> nat" where
  "build_import_graph tree =
     (case walk_python_files tree of
        Inl e \<Rightarrow> Inl e
      | Inr files \<Rightarrow>
          if files = [] then Inl NoPythonFiles
          else (let mods = module_files tree files
                in if mods = [] then Inl NoModules
                   else Inr (graph_of (import_edges mods), length mods)))"

subsection \<open>The blast radius\<close>

fun collect_importers :: "import_graph \<Rightarrow> nat \<Rightarrow> string list \<Rightarrow> string list \<Rightarrow> graph_unavailable + string list" where
  "collect_importers graph cap [] expanded = Inr expanded"
| "collect_importers graph cap (path # paths) expanded =
     (case graph path of
        None \<Rightarrow> collect_importers graph cap paths expanded
      | Some importers \<Rightarrow>
          if length importers > cap then Inl (FanIn path (length importers))
          else collect_importers graph cap paths (expanded @ importers))"

definition expand_paths ::
  "import_graph \<Rightarrow> string list \<Rightarrow> nat \<Rightarrow> nat \<Rightarrow> graph_unavailable + string list \<times> nat" where
  "expand_paths graph changed fan_in_cap total_cap =
     (case collect_importers graph fan_in_cap changed changed of
        Inl e \<Rightarrow> Inl e
      | Inr all_paths \<Rightarrow>
          (let expanded = remdups all_paths in
           if length expanded > total_cap then Inl (RadiusTooWide (length expanded))
           else Inr (sort_str expanded, length expanded - length (remdups changed))))"

subsection \<open>The cache\<close>

record code_graph =
  cg_target_id :: row_id
  cg_commit_sha :: string
  cg_edges :: import_graph
  cg_file_count :: nat

definition load_cached_graph :: "code_graph list \<Rightarrow> row_id \<Rightarrow> string \<Rightarrow> import_graph option" where
  "load_cached_graph rows target_id sha =
     (if sha = [] then None
      else map_option cg_edges (List.find (\<lambda>r. cg_target_id r = target_id \<and> cg_commit_sha r = sha) rows))"

fun replace_first :: "('a \<Rightarrow> bool) \<Rightarrow> 'a \<Rightarrow> 'a list \<Rightarrow> 'a list" where
  "replace_first P y [] = [y]"
| "replace_first P y (x # xs) = (if P x then y # xs else x # replace_first P y xs)"

definition store_graph :: "code_graph list \<Rightarrow> row_id \<Rightarrow> string \<Rightarrow> import_graph \<Rightarrow> nat \<Rightarrow> code_graph list" where
  "store_graph rows target_id sha graph n =
     (if sha = [] then rows
      else replace_first (\<lambda>r. cg_target_id r = target_id)
             \<lparr>cg_target_id = target_id, cg_commit_sha = sha, cg_edges = graph, cg_file_count = n\<rparr> rows)"

datatype radius_note =
  NothingChanged | Unavailable graph_unavailable | Expanded nat nat nat bool | NoImporters bool

definition resolve_blast_radius ::
  "row_id \<Rightarrow> entry list \<Rightarrow> string list \<Rightarrow> string \<Rightarrow> code_graph list
     \<Rightarrow> (string list option \<times> nat \<times> radius_note) \<times> code_graph list" where
  "resolve_blast_radius target_id tree changed sha rows =
     (if changed = [] then ((None, 0, NothingChanged), rows)
      else (let cached = load_cached_graph rows target_id sha;
                built = (case cached of
                           Some g \<Rightarrow> Inr (g, rows)
                         | None \<Rightarrow> map_sum id (\<lambda>(g, n). (g, store_graph rows target_id sha g n)) (build_import_graph tree))
            in (case built of
                  Inl e \<Rightarrow> ((None, 0, Unavailable e), rows)
                | Inr (g, rows') \<Rightarrow>
                    (case expand_paths g changed FAN_IN_CAP MAX_EXPANDED_FILES of
                       Inl e \<Rightarrow> ((None, 0, Unavailable e), rows')
                     | Inr (paths, added) \<Rightarrow>
                         ((Some paths, added,
                           (if added > 0 then Expanded (length paths) (length changed) added (cached \<noteq> None)
                            else NoImporters (cached \<noteq> None))), rows')))))"

subsection \<open>What an import can refer to\<close>

text \<open>The specification, without the loops: a dotted name refers to a file when the file claims a
  prefix of it and no other file claims a longer one.\<close>

definition claimants :: "module_file list \<Rightarrow> string list \<Rightarrow> nat \<Rightarrow> string set" where
  "claimants mods parts i = {mf_path m |m. m \<in> set mods \<and> mf_dotted m = join ''.'' (take i parts)}"

definition refers_to :: "module_file list \<Rightarrow> string \<Rightarrow> string \<Rightarrow> string \<Rightarrow> bool" where
  "refers_to mods self name path \<longleftrightarrow>
     (let parts = split_on CHR ''.'' name in
      path \<noteq> self \<and> (\<exists>i. 0 < i \<and> i \<le> length parts \<and> path \<in> claimants mods parts i \<and>
        (\<forall>j. i < j \<and> j \<le> length parts \<longrightarrow> claimants mods parts j \<subseteq> {self})))"

definition repository :: "entry list \<Rightarrow> module_file list" where
  "repository tree = (case walk_python_files tree of Inl _ \<Rightarrow> [] | Inr files \<Rightarrow> module_files tree files)"

definition importers :: "entry list \<Rightarrow> string \<Rightarrow> string set" where
  "importers tree path =
     {mf_path m |m. m \<in> set (repository tree) \<and>
        (\<exists>name\<in>set (imports_of m). refers_to (repository tree) (mf_path m) name path)}"

definition blast_radius :: "entry list \<Rightarrow> string list \<Rightarrow> string set" where
  "blast_radius tree changed = set changed \<union> (\<Union>path\<in>set changed. importers tree path)"

lemma set_modules_of: "set (modules_of mods (join ''.'' (take i parts))) = claimants mods parts i"
  by (auto simp: modules_of_def claimants_def)

lemma resolve_prefix_iff:
  "path \<in> set (resolve_prefix n parts (modules_of mods) self) \<longleftrightarrow>
     path \<noteq> self \<and> (\<exists>i. 0 < i \<and> i \<le> n \<and> path \<in> claimants mods parts i \<and>
       (\<forall>j. i < j \<and> j \<le> n \<longrightarrow> claimants mods parts j \<subseteq> {self}))"
proof (induction n)
  case (Suc n)
  show ?case
  proof (cases "claimants mods parts (Suc n) \<subseteq> {self}")
    case True
    then have "filter (\<lambda>h. h \<noteq> self) (modules_of mods (join ''.'' (take (Suc n) parts))) = []"
      by (auto simp: filter_empty_conv simp flip: set_modules_of)
    with True show ?thesis
      by (simp add: Suc.IH) (metis le_Suc_eq singletonD subsetD)
  next
    case False
    then have "filter (\<lambda>h. h \<noteq> self) (modules_of mods (join ''.'' (take (Suc n) parts))) \<noteq> []"
      by (auto simp: filter_empty_conv simp flip: set_modules_of)
    with False show ?thesis
      by (simp add: set_modules_of) (metis Suc_le_lessD le_eq_less_or_eq less_Suc_eq_le not_less zero_less_Suc)
  qed
qed simp

lemma resolve_iff: "path \<in> set (resolve name (modules_of mods) self) \<longleftrightarrow> refers_to mods self name path"
  by (simp add: resolve_def refers_to_def resolve_prefix_iff Let_def)

subsection \<open>The graph\<close>

lemma length_sort_str [simp]: "length (sort_str xs) = length xs"
proof -
  have "length (insort_str s ts) = Suc (length ts)" for s ts by (induction ts) auto
  then show ?thesis by (induction xs) (simp_all add: sort_str_def)
qed

lemma distinct_sort_str: "distinct xs \<Longrightarrow> distinct (sort_str xs)"
  by (metis card_distinct distinct_card length_sort_str set_sort_str)

lemma import_edges_iff:
  "(path, importer) \<in> set (import_edges mods) \<longleftrightarrow>
     (\<exists>m\<in>set mods. importer = mf_path m \<and> (\<exists>name\<in>set (imports_of m). refers_to mods (mf_path m) name path))"
  by (simp add: import_edges_def image_iff resolve_iff) blast

lemma graph_of_set:
  "set (case graph_of edges path of None \<Rightarrow> [] | Some is \<Rightarrow> is) = {q. (path, q) \<in> set edges}"
proof -
  let ?qs = "map snd (filter (\<lambda>e. fst e = path) edges)"
  have qs: "set ?qs = {q. (path, q) \<in> set edges}" by force
  show ?thesis
  proof (cases "?qs = []")
    case True
    then have "graph_of edges path = None" by (simp only: graph_of_def Let_def simp_thms if_True)
    moreover have "{q. (path, q) \<in> set edges} = {}" using qs True by simp
    ultimately show ?thesis by simp
  next
    case False
    then have "graph_of edges path = Some (sort_str (remdups ?qs))" by (simp only: graph_of_def Let_def if_False)
    then show ?thesis using qs by (simp only: option.case set_sort_str set_remdups)
  qed
qed

lemma graph_of_distinct: "graph_of edges path = Some is \<Longrightarrow> distinct is"
  by (auto simp: graph_of_def Let_def distinct_sort_str split: if_splits)

definition graph_ok :: "entry list \<Rightarrow> import_graph \<Rightarrow> bool" where
  "graph_ok tree graph \<longleftrightarrow> (\<forall>path. distinct (case graph path of None \<Rightarrow> [] | Some is \<Rightarrow> is) \<and>
     set (case graph path of None \<Rightarrow> [] | Some is \<Rightarrow> is) = importers tree path)"

lemma built_graph_ok: "build_import_graph tree = Inr (graph, n) \<Longrightarrow> graph_ok tree graph"
proof -
  assume "build_import_graph tree = Inr (graph, n)"
  then have "graph = graph_of (import_edges (repository tree))"
    by (auto simp: build_import_graph_def repository_def Let_def split: sum.splits if_splits)
  then show ?thesis
    unfolding graph_ok_def importers_def
    using graph_of_set graph_of_distinct import_edges_iff by (auto split: option.split)
qed

lemma collect_importers_spec:
  assumes "graph_ok tree graph"
  shows "case collect_importers graph cap paths expanded of
      Inl e \<Rightarrow> \<exists>path\<in>set paths. cap < card (importers tree path)
    | Inr expanded' \<Rightarrow> set expanded' = set expanded \<union> (\<Union>path\<in>set paths. importers tree path) \<and>
        (\<forall>path\<in>set paths. card (importers tree path) \<le> cap)"
proof (induction paths arbitrary: expanded)
  case (Cons path paths)
  show ?case
  proof (cases "graph path")
    case None
    with assms have "importers tree path = {}" by (auto simp: graph_ok_def dest: spec [of _ path])
    with None Cons.IH [of expanded] show ?thesis by (auto split: sum.splits)
  next
    case (Some us)
    with assms have us: "distinct us" "set us = importers tree path"
      by (auto simp: graph_ok_def dest: spec [of _ path])
    then have "card (importers tree path) = length us" by (metis distinct_card)
    with Some us Cons.IH [of "expanded @ us"] show ?thesis by (auto split: sum.splits)
  qed
qed simp

lemma expand_paths_spec:
  assumes "graph_ok tree graph"
  shows "case expand_paths graph changed cap wide of
      Inl e \<Rightarrow> (\<exists>path\<in>set changed. cap < card (importers tree path)) \<or> wide < card (blast_radius tree changed)
    | Inr (paths, added) \<Rightarrow> distinct paths \<and> set paths = blast_radius tree changed \<and>
        added = card (blast_radius tree changed) - card (set changed) \<and>
        (\<forall>path\<in>set changed. card (importers tree path) \<le> cap) \<and> card (blast_radius tree changed) \<le> wide"
proof (cases "collect_importers graph cap changed changed")
  case (Inl e)
  with collect_importers_spec [OF assms, where cap = cap and paths = changed and expanded = changed] show ?thesis by (simp add: expand_paths_def)
next
  case (Inr all_paths)
  with collect_importers_spec [OF assms, where cap = cap and paths = changed and expanded = changed]
  have r: "set all_paths = blast_radius tree changed" "\<forall>path\<in>set changed. card (importers tree path) \<le> cap"
    by (auto simp: blast_radius_def)
  then have "length (remdups all_paths) = card (blast_radius tree changed)" by (simp add: length_remdups_card_conv)
  with Inr r show ?thesis
    by (simp add: expand_paths_def Let_def distinct_sort_str length_remdups_card_conv)
qed

definition cache_ok :: "(row_id \<Rightarrow> string \<Rightarrow> entry list) \<Rightarrow> code_graph list \<Rightarrow> bool" where
  "cache_ok checkout rows \<longleftrightarrow>
     (\<forall>r\<in>set rows. graph_ok (checkout (cg_target_id r) (cg_commit_sha r)) (cg_edges r))"

lemma set_replace_first: "set (replace_first P y xs) \<subseteq> insert y (set xs)"
  by (induction xs) auto

lemma store_graph_ok:
  "cache_ok checkout rows \<Longrightarrow> graph_ok (checkout target_id sha) graph \<Longrightarrow>
   cache_ok checkout (store_graph rows target_id sha graph n)"
  using set_replace_first by (fastforce simp: cache_ok_def store_graph_def)

lemma loaded_graph_ok:
  "cache_ok checkout rows \<Longrightarrow> load_cached_graph rows target_id sha = Some graph \<Longrightarrow>
   graph_ok (checkout target_id sha) graph"
  by (auto simp: cache_ok_def load_cached_graph_def split: if_splits dest: find_mem)

text \<open>The blast radius is exact, and a narrowed scan is never claimed without one.  As long as
  the cache holds graphs of the commits it names, a narrowed scan covers exactly the changed
  files and the files with an import that can refer to one of them, each once, within both caps;
  otherwise the whole repository is scanned, for a reason that holds.  The cache makes no
  difference to the answer, and what is stored keeps it sound.\<close>

theorem blast_radius_is_exact:
  assumes "cache_ok checkout rows"
    and "resolve_blast_radius target_id (checkout target_id sha) changed sha rows = ((paths, added, remark), rows')"
  shows "cache_ok checkout rows' \<and>
    (let tree = checkout target_id sha; radius = blast_radius tree changed in
     case paths of
       None \<Rightarrow> changed = [] \<or> (\<exists>e. build_import_graph tree = Inl e) \<or>
         (\<exists>path\<in>set changed. FAN_IN_CAP < card (importers tree path)) \<or> MAX_EXPANDED_FILES < card radius
     | Some ps \<Rightarrow> distinct ps \<and> set ps = radius \<and> added = card radius - card (set changed) \<and>
         (\<forall>path\<in>set changed. card (importers tree path) \<le> FAN_IN_CAP) \<and> card radius \<le> MAX_EXPANDED_FILES)"
proof -
  let ?tree = "checkout target_id sha"
  consider (empty) "changed = []" "rows' = rows" "paths = None"
    | (no_graph) e where "build_import_graph ?tree = Inl e" "rows' = rows" "paths = None"
    | (graph) g where "graph_ok ?tree g" "cache_ok checkout rows'"
        "case expand_paths g changed FAN_IN_CAP MAX_EXPANDED_FILES of
           Inl e \<Rightarrow> paths = None | Inr (ps, n) \<Rightarrow> paths = Some ps \<and> added = n"
  proof (cases "changed = []")
    case True
    with assms(2) empty show ?thesis by (simp add: resolve_blast_radius_def)
  next
    case False
    note r = assms(2) [unfolded resolve_blast_radius_def Let_def if_not_P [OF False]]
    have step: thesis if "graph_ok ?tree g" "cache_ok checkout rows1"
      and "(case expand_paths g changed FAN_IN_CAP MAX_EXPANDED_FILES of
         Inl e \<Rightarrow> ((None, 0, Unavailable e), rows1)
       | Inr (ps, n) \<Rightarrow> ((Some ps, n, if n > 0 then Expanded (length ps) (length changed) n hit else NoImporters hit), rows1)) =
        ((paths, added, remark), rows')" for g rows1 hit
      by (rule graph [OF that(1)]) (use that(2,3) in \<open>auto split: sum.splits prod.splits\<close>)
    show ?thesis
    proof (cases "load_cached_graph rows target_id sha")
      case (Some g)
      with r step [OF loaded_graph_ok [OF assms(1) Some] assms(1)] show ?thesis by simp
    next
      case None
      show ?thesis
      proof (cases "build_import_graph ?tree")
        case (Inl e)
        with r None no_graph show ?thesis by simp
      next
        case (Inr gn)
        obtain g n where gn: "gn = (g, n)" by (cases gn)
        from Inr gn have ok: "graph_ok ?tree g" by (simp add: built_graph_ok)
        from step [OF ok store_graph_ok [OF assms(1) ok]] r None Inr gn show ?thesis by simp
      qed
    qed
  qed
  then show ?thesis
  proof cases
    case graph
    with expand_paths_spec [OF graph(1), where changed = changed and cap = FAN_IN_CAP and wide = MAX_EXPANDED_FILES] show ?thesis
      by (auto simp: Let_def split: sum.splits prod.splits)
  qed (use assms(1) in auto)
qed

definition example_checkout :: "entry list" where
  "example_checkout =
     [File ''setup.py'' (Parsed [Import [''os'']]),
      Dir ''app'' [File ''__init__.py'' (Parsed []),
        File ''models.py'' (Parsed []),
        File ''api.py'' (Parsed [ImportFrom 1 None [''models'']]),
        File ''jobs.py'' (Parsed [ImportFrom 0 (Some ''app.models'') [''Target'']]),
        File ''cli.py'' (Parsed [Import [''app.api'']])],
      Dir ''node_modules'' [File ''x.py'' (Parsed [Import [''app.models'']])]]"

theorem blast_radius_is_exact_witness:
  "\<exists>added remark rows ps.
     resolve_blast_radius 1 example_checkout [''app/models.py''] ''abc'' [] = ((Some ps, added, remark), rows) \<and>
     set ps = blast_radius example_checkout [''app/models.py''] \<and>
     ps = [''app/api.py'', ''app/jobs.py'', ''app/models.py'']"
proof -
  have "fst (fst (resolve_blast_radius 1 example_checkout [''app/models.py''] ''abc'' [])) =
      Some [''app/api.py'', ''app/jobs.py'', ''app/models.py'']"
    by code_simp
  then obtain added remark rows where
    r: "resolve_blast_radius 1 example_checkout [''app/models.py''] ''abc'' [] =
      ((Some [''app/api.py'', ''app/jobs.py'', ''app/models.py''], added, remark), rows)"
    by (metis prod.collapse)
  have "cache_ok (\<lambda>_ _. example_checkout) []" by (simp add: cache_ok_def)
  from blast_radius_is_exact [OF this r]
  show ?thesis using r by (simp add: Let_def)
qed

end
