(* ===== verification/OsvMalware.thy ===== *)
theory OsvMalware
  imports FpLearning
begin

text \<open>
  The malicious-package check of \<open>core/osv_malware.py\<close>.  OSV is a service: what a batch request
  returns and what the detail request of an advisory returns are parameters.  Their JSON is a
  datatype with the cases the code distinguishes; a body of some other shape, on which the code
  would raise, is not represented.
\<close>

definition OSV_MALICIOUS_ID_PREFIX :: string where "OSV_MALICIOUS_ID_PREFIX = ''MAL-''"
definition OSV_ADVISORY_URL :: "string \<Rightarrow> string" where
  "OSV_ADVISORY_URL osv_id = ''https://osv.dev/vulnerability/'' @ osv_id"
definition TOOL_NAME :: string where "TOOL_NAME = ''osv-malware''"
definition CHUNK_SIZE :: nat where "CHUNK_SIZE = 250"
definition MAX_LISTED_VERSIONS :: nat where "MAX_LISTED_VERSIONS = 10"
definition VERSION_RANGE_TYPES :: "string list" where "VERSION_RANGE_TYPES = [''SEMVER'', ''ECOSYSTEM'']"
definition ALL_RELEASES :: string where "ALL_RELEASES = ''all releases''"
definition RANGE_EVENT_MARKERS :: "string list" where
  "RANGE_EVENT_MARKERS = [''introduced'', ''fixed'', ''last_affected'']"

definition ecosystem_by_package_type :: "string \<Rightarrow> string option" where
  "ecosystem_by_package_type p =
     (if p = ''npm'' then Some ''npm'' else if p = ''pip'' then Some ''PyPI''
      else if p = ''gomod'' then Some ''Go'' else None)"

record malicious_package =
  mp_name :: string
  mp_version :: string
  mp_ecosystem :: string
  mp_osv_id :: string
  mp_summary :: string
  mp_details :: string
  mp_advisory_url :: string
  mp_affected_versions :: "string list"
  mp_affected_ranges :: "string list"
  mp_has_unsupported_ranges :: bool

definition coverage_text :: "malicious_package \<Rightarrow> string" where
  "coverage_text mp =
     (let versions = mp_affected_versions mp; ranges = mp_affected_ranges mp in
      if versions \<noteq> [] then
        (let shown = take MAX_LISTED_VERSIONS versions;
             remaining = length versions - length shown;
             listed = join '', '' shown @
               (if remaining > 0 then '' (and '' @ nat_str remaining @ '' more)'' else []);
             noun = (if length versions = 1 then ''version'' else ''versions'')
         in if mp_has_unsupported_ranges mp then noun @ '' '' @ listed
            else ''only '' @ noun @ '' '' @ listed)
      else if ranges \<noteq> [] then
        (if ALL_RELEASES \<in> set ranges then ALL_RELEASES else ''versions '' @ join ''; '' ranges)
      else [])"

subsection \<open>Reading an advisory\<close>

datatype json_scalar = JString string | JOther

datatype range_event = NotAnObject | Markers "(string \<times> json_scalar) list"

datatype range_entry = RangeMalformed | Range "string option" "range_event list option"

datatype affected_package = AnyPackage | Package "string option" "string option"

datatype affected_entry =
  EntryMalformed | Affected affected_package "json_scalar list" "range_entry list"

record advisory =
  ad_summary :: string
  ad_details :: string
  ad_affected :: "affected_entry list"

definition NO_DETAILS :: advisory where
  "NO_DETAILS = \<lparr>ad_summary = [], ad_details = [], ad_affected = []\<rparr>"

definition is_malicious_id :: "json_scalar option \<Rightarrow> bool" where
  "is_malicious_id i = (case i of Some (JString s) \<Rightarrow> starts_with OSV_MALICIOUS_ID_PREFIX s | _ \<Rightarrow> False)"

definition event_is_renderable :: "range_event \<Rightarrow> bool" where
  "event_is_renderable e =
     (case e of Markers [(marker, JString _)] \<Rightarrow> marker \<in> set RANGE_EVENT_MARKERS | _ \<Rightarrow> False)"

definition events_are_renderable :: "range_event list option \<Rightarrow> bool" where
  "events_are_renderable events =
     (case events of None \<Rightarrow> False | Some es \<Rightarrow> es \<noteq> [] \<and> list_all event_is_renderable es)"

text \<open>The open interval is None when none is open, else its lower bound (None: from the first
  release).\<close>

definition opened :: "string option \<Rightarrow> string" where
  "opened lower = (case lower of None \<Rightarrow> ALL_RELEASES | Some l \<Rightarrow> if l = [] then ALL_RELEASES else ''>= '' @ l)"

definition closed_by :: "string option \<Rightarrow> string \<Rightarrow> string" where
  "closed_by lower upper =
     (case lower of None \<Rightarrow> upper | Some l \<Rightarrow> if l = [] then upper else ''>= '' @ l @ '', '' @ upper)"

fun range_loop :: "range_event list \<Rightarrow> string option option \<Rightarrow> string list" where
  "range_loop [] interval = (case interval of None \<Rightarrow> [] | Some lower \<Rightarrow> [opened lower])"
| "range_loop (Markers [(marker, JString v)] # es) interval =
     (if marker = ''introduced'' then
        (case interval of None \<Rightarrow> [] | Some lower \<Rightarrow> [opened lower])
        @ range_loop es (Some (if v = ''0'' then None else Some v))
      else (case interval of
              None \<Rightarrow> range_loop es None
            | Some lower \<Rightarrow>
                if marker = ''fixed'' then closed_by lower (''< '' @ v) # range_loop es None
                else if marker = ''last_affected'' then closed_by lower (''<= '' @ v) # range_loop es None
                else range_loop es interval))"
| "range_loop (_ # es) interval = range_loop es interval"

definition format_range :: "range_event list option \<Rightarrow> string" where
  "format_range events =
     (if \<not> events_are_renderable events then []
      else (let intervals = range_loop (the events) None
            in if ALL_RELEASES \<in> set intervals then ALL_RELEASES else join ''; '' intervals))"

definition add_new :: "'a \<Rightarrow> 'a list \<Rightarrow> 'a list" where
  "add_new x xs = (if x \<in> set xs then xs else xs @ [x])"

definition package_matches :: "string \<Rightarrow> string \<Rightarrow> affected_package \<Rightarrow> bool" where
  "package_matches name ecosystem p =
     (case p of
        AnyPackage \<Rightarrow> True
      | Package n e \<Rightarrow> (n = None \<or> n = Some name) \<and> (e = None \<or> e = Some ecosystem))"

fun add_version :: "json_scalar \<Rightarrow> string list \<Rightarrow> string list" where
  "add_version (JString v) versions = add_new v versions"
| "add_version JOther versions = versions"

fun add_range :: "range_entry \<Rightarrow> string list \<times> bool \<Rightarrow> string list \<times> bool" where
  "add_range RangeMalformed (ranges, unsupported) = (ranges, True)"
| "add_range (Range ty events) (ranges, unsupported) =
     (if (case ty of None \<Rightarrow> True | Some s \<Rightarrow> s \<notin> set VERSION_RANGE_TYPES) then (ranges, True)
      else (let rendered = format_range events
            in if rendered = [] then (ranges, True) else (add_new rendered ranges, unsupported)))"

fun parse_affected ::
  "string \<Rightarrow> string \<Rightarrow> affected_entry list \<Rightarrow> string list \<times> string list \<times> bool \<Rightarrow> string list \<times> string list \<times> bool" where
  "parse_affected name ecosystem [] acc = acc"
| "parse_affected name ecosystem (EntryMalformed # es) acc = parse_affected name ecosystem es acc"
| "parse_affected name ecosystem (Affected pkg vs rs # es) (versions, ranges, unsupported) =
     (if \<not> package_matches name ecosystem pkg then parse_affected name ecosystem es (versions, ranges, unsupported)
      else (let (ranges', unsupported') = fold add_range rs (ranges, unsupported)
            in parse_affected name ecosystem es (fold add_version vs versions, ranges', unsupported')))"

subsection \<open>Asking OSV\<close>

record query =
  q_name :: string
  q_ecosystem :: string
  q_version :: string

record batch_result =
  br_next_page :: bool
  br_vulns :: "json_scalar option list"

type_synonym batch_answer = "batch_result option list"

text \<open>The client of the service: \<open>_querybatch\<close> is None when the call fails, and an entry of its
  answer is None when it is empty; \<open>_fetch_vuln_details\<close> falls back to an empty record.\<close>

record osv =
  osv_querybatch :: "query list \<Rightarrow> batch_answer option"
  osv_details :: "string \<Rightarrow> advisory"

type_synonym package = "string \<times> string \<times> string"

fun build_queries :: "package list \<Rightarrow> (string \<times> string) list \<Rightarrow> query list" where
  "build_queries [] seen = []"
| "build_queries ((name, ver, package_type) # ps) seen =
     (case ecosystem_by_package_type package_type of
        None \<Rightarrow> build_queries ps seen
      | Some eco \<Rightarrow>
          if (name, ver) \<in> set seen then build_queries ps seen
          else \<lparr>q_name = name, q_ecosystem = eco, q_version = ver\<rparr> # build_queries ps ((name, ver) # seen))"

function chunks :: "'a list \<Rightarrow> nat \<Rightarrow> 'a list list" where
  "chunks items k =
     (if items = [] \<or> k = 0 then [] else take k items # chunks (drop k items) k)"
  by auto
termination by (relation "measure (length \<circ> fst)") auto

declare chunks.simps [simp del]

definition mal_id :: "batch_result \<Rightarrow> string option" where
  "mal_id r =
     (case List.find is_malicious_id (br_vulns r) of Some (Some (JString s)) \<Rightarrow> Some s | _ \<Rightarrow> None)"

definition malicious_from :: "osv \<Rightarrow> query \<Rightarrow> string \<Rightarrow> malicious_package" where
  "malicious_from w q i =
     (let details = osv_details w i;
          (versions, ranges, unsupported) =
            parse_affected (q_name q) (q_ecosystem q) (ad_affected details) ([], [], False)
      in \<lparr>mp_name = q_name q, mp_version = q_version q, mp_ecosystem = q_ecosystem q, mp_osv_id = i,
          mp_summary = ad_summary details, mp_details = ad_details details,
          mp_advisory_url = OSV_ADVISORY_URL i, mp_affected_versions = versions,
          mp_affected_ranges = ranges, mp_has_unsupported_ranges = unsupported\<rparr>)"

type_synonym malicious = "((string \<times> string) \<times> malicious_package) list"

fun read_results :: "osv \<Rightarrow> (query \<times> batch_result option) list \<Rightarrow> malicious \<Rightarrow> malicious option" where
  "read_results w [] found = Some found"
| "read_results w ((q, None) # rs) found = read_results w rs found"
| "read_results w ((q, Some r) # rs) found =
     (if br_next_page r then None
      else (case mal_id r of
              None \<Rightarrow> read_results w rs found
            | Some i \<Rightarrow>
                read_results w rs (AList.update (q_name q, q_version q) (malicious_from w q i) found)))"

fun check_chunks :: "osv \<Rightarrow> query list list \<Rightarrow> malicious \<Rightarrow> malicious option" where
  "check_chunks w [] found = Some found"
| "check_chunks w (chunk # cs) found =
     (case osv_querybatch w chunk of
        None \<Rightarrow> None
      | Some results \<Rightarrow>
          if length results \<noteq> length chunk then None
          else (case read_results w (zip chunk results) found of
                  None \<Rightarrow> None
                | Some found' \<Rightarrow> check_chunks w cs found'))"

definition check_packages_for_malware :: "osv \<Rightarrow> package list \<Rightarrow> malicious option" where
  "check_packages_for_malware w packages = check_chunks w (chunks (build_queries packages []) CHUNK_SIZE) []"

subsection \<open>What an answer means\<close>

lemma concat_chunks: "0 < k \<Longrightarrow> concat (chunks items k) = items"
proof (induction items k rule: chunks.induct)
  case (1 items k)
  then show ?case by (subst chunks.simps) auto
qed

abbreviation query_key :: "query \<Rightarrow> string \<times> string" where
  "query_key q \<equiv> (q_name q, q_version q)"

lemma build_queries_keys:
  "distinct (map query_key (build_queries ps seen)) \<and> query_key ` set (build_queries ps seen) \<inter> set seen = {}"
proof (induction ps seen rule: build_queries.induct)
  case (2 name ver package_type ps seen)
  then show ?case by (auto split: option.split)
qed simp

lemma build_queries_covers:
  "(name, ver, package_type) \<in> set ps \<Longrightarrow> ecosystem_by_package_type package_type \<noteq> None \<Longrightarrow>
   (name, ver) \<in> query_key ` set (build_queries ps seen) \<union> set seen"
proof (induction ps seen rule: build_queries.induct)
  case (2 n v t ps seen)
  then show ?case by (cases "ecosystem_by_package_type t") (fastforce)+
qed simp

definition answered :: "osv \<Rightarrow> query list \<Rightarrow> batch_answer \<Rightarrow> bool" where
  "answered w chunk results \<longleftrightarrow>
     osv_querybatch w chunk = Some results \<and> length results = length chunk \<and>
     (\<forall>r. Some r \<in> set results \<longrightarrow> \<not> br_next_page r)"

definition flag :: "osv \<Rightarrow> query \<times> batch_result option \<Rightarrow> malicious \<Rightarrow> malicious" where
  "flag w = (\<lambda>(q, r) found.
     case Option.bind r mal_id of
       None \<Rightarrow> found
     | Some i \<Rightarrow> AList.update (query_key q) (malicious_from w q i) found)"

lemma read_results_iff:
  "read_results w rs found =
     (if \<exists>q r. (q, Some r) \<in> set rs \<and> br_next_page r then None else Some (fold (flag w) rs found))"
proof (induction w rs found rule: read_results.induct)
  case (3 w q r rs found)
  show ?case
  proof (cases "br_next_page r")
    case False
    then show ?thesis using 3 by (auto simp: flag_def split: option.split)
  qed auto
qed (auto simp: flag_def)

lemma check_chunks_spec:
  "case check_chunks w cs found of
     None \<Rightarrow> \<exists>chunk\<in>set cs. \<nexists>results. answered w chunk results
   | Some found' \<Rightarrow> \<exists>answers. list_all2 (answered w) cs answers \<and>
       found' = fold (flag w) (zip (concat cs) (concat answers)) found"
proof (induction w cs found rule: check_chunks.induct)
  case (2 w chunk cs found)
  show ?case
  proof (cases "\<exists>results. answered w chunk results")
    case False
    then have "check_chunks w (chunk # cs) found = None"
      by (auto simp: answered_def read_results_iff split: option.splits)
        (metis in_set_zipE in_set_impl_in_set_zip2)
    with False show ?thesis by auto
  next
    case True
    then obtain results where r: "answered w chunk results" by blast
    let ?found = "fold (flag w) (zip chunk results) found"
    have "read_results w (zip chunk results) found = Some ?found"
      using r by (auto simp: read_results_iff answered_def dest: set_zip_rightD)
    moreover from this have "case check_chunks w cs ?found of
        None \<Rightarrow> \<exists>chunk\<in>set cs. \<nexists>results. answered w chunk results
      | Some found' \<Rightarrow> \<exists>answers. list_all2 (answered w) cs answers \<and>
          found' = fold (flag w) (zip (concat cs) (concat answers)) ?found"
      using 2 [of results ?found] r by (simp add: answered_def)
    moreover from r have "osv_querybatch w chunk = Some results" "length results = length chunk"
      by (simp_all add: answered_def)
    ultimately have step: "check_chunks w (chunk # cs) found = check_chunks w cs ?found"
      and later: "case check_chunks w cs ?found of
        None \<Rightarrow> \<exists>chunk\<in>set cs. \<nexists>results. answered w chunk results
      | Some found' \<Rightarrow> \<exists>answers. list_all2 (answered w) cs answers \<and>
          found' = fold (flag w) (zip (concat cs) (concat answers)) ?found"
      by simp_all
    show ?thesis
    proof (cases "check_chunks w cs ?found")
      case None
      with step later show ?thesis by auto
    next
      case (Some found')
      with later obtain answers where "list_all2 (answered w) cs answers"
        "found' = fold (flag w) (zip (concat cs) (concat answers)) ?found" by auto
      then have "list_all2 (answered w) (chunk # cs) (results # answers)"
        "found' = fold (flag w) (zip (concat (chunk # cs)) (concat (results # answers))) found"
        using r by (simp_all add: answered_def)
      then show ?thesis unfolding step Some option.case by blast
    qed
  qed
qed simp

definition hits :: "osv \<Rightarrow> (query \<times> batch_result option) list \<Rightarrow> malicious" where
  "hits w zs = List.map_filter (\<lambda>(q, r).
     map_option (\<lambda>i. (query_key q, malicious_from w q i)) (Option.bind r mal_id)) zs"

lemma flags_hits: "map_of (fold (flag w) zs found) = map_of found ++ map_of (rev (hits w zs))"
proof (induction zs arbitrary: found)
  case (Cons z zs)
  obtain q r where z: "z = (q, r)" by (cases z)
  then have "map_of (flag w z found) = map_of found ++ map_of (rev (hits w [z]))"
    by (simp add: flag_def hits_def update_conv' List.map_filter_simps split: option.split)
  moreover have "hits w (z # zs) = hits w [z] @ hits w zs"
    by (simp add: hits_def List.map_filter_simps split: option.split)
  ultimately show ?case by (simp add: Cons.IH)
qed (simp add: hits_def List.map_filter_simps)

lemma hits_iff:
  "(key, mp) \<in> set (hits w zs) \<longleftrightarrow>
     (\<exists>q r i. (q, Some r) \<in> set zs \<and> mal_id r = Some i \<and> key = query_key q \<and> mp = malicious_from w q i)"
  by (force simp: hits_def List.map_filter_def bind_eq_Some_conv split: option.splits)

lemma hits_distinct: "distinct (map (query_key \<circ> fst) zs) \<Longrightarrow> distinct (map fst (hits w zs))"
proof (induction zs)
  case (Cons z zs)
  have "fst ` set (hits w zs) \<subseteq> (query_key \<circ> fst) ` set zs" by (force simp: hits_iff)
  with Cons show ?case
    by (cases z) (auto simp: hits_def List.map_filter_simps split: option.split)
qed (simp add: hits_def List.map_filter_simps)

lemma zip_keys:
  "length answers = length qs \<Longrightarrow> map (query_key \<circ> fst) (zip qs answers) = map query_key qs"
  by (simp flip: map_map)

lemma list_all2_concat_length:
  "list_all2 (\<lambda>xs ys. length ys = length xs) xss yss \<Longrightarrow> length (concat yss) = length (concat xss)"
  by (induction xss yss rule: list_all2_induct) auto

text \<open>A check that did not run is never a clean result.  The check returns a verdict only when
  every batch was answered in full, entry for entry and on one page; the verdict then flags
  exactly the queries whose answer names a malicious-package advisory, and every package of a
  supported type has its name and version among the queries.  Otherwise it says so by None, and
  some batch was not answered.\<close>

theorem malware_check_fails_closed:
  "(let queries = build_queries packages []; batches = chunks queries CHUNK_SIZE in
    case check_packages_for_malware w packages of
      None \<Rightarrow> \<exists>batch\<in>set batches. \<nexists>results. answered w batch results
    | Some found \<Rightarrow> \<exists>answers.
        list_all2 (answered w) batches answers \<and>
        (\<forall>key mp. map_of found key = Some mp \<longleftrightarrow>
           (\<exists>q r i. (q, Some r) \<in> set (zip queries (concat answers)) \<and> mal_id r = Some i \<and>
              key = query_key q \<and> mp = malicious_from w q i)) \<and>
        (\<forall>(name, ver, package_type)\<in>set packages.
           ecosystem_by_package_type package_type \<noteq> None \<longrightarrow> (name, ver) \<in> query_key ` set queries))"
proof -
  let ?qs = "build_queries packages []" and ?cs = "chunks (build_queries packages []) CHUNK_SIZE"
  have cs: "concat ?cs = ?qs" by (simp add: concat_chunks CHUNK_SIZE_def)
  have keys: "(name, ver) \<in> query_key ` set ?qs"
    if "(name, ver, t) \<in> set packages" "ecosystem_by_package_type t \<noteq> None" for name ver t
    using build_queries_covers [OF that, of "[]"] by simp
  show ?thesis
  proof (cases "check_packages_for_malware w packages")
    case None
    with check_chunks_spec [where w = w and cs = ?cs and found = "[]"] show ?thesis by (simp add: check_packages_for_malware_def Let_def)
  next
    case (Some found)
    then obtain answers where a: "list_all2 (answered w) ?cs answers"
      and f: "found = fold (flag w) (zip ?qs (concat answers)) []"
      using check_chunks_spec [where w = w and cs = ?cs and found = "[]"] cs by (auto simp: check_packages_for_malware_def)
    have "list_all2 (\<lambda>xs ys. length ys = length xs) ?cs answers"
      by (rule list_all2_mono [OF a]) (simp add: answered_def)
    then have "length (concat answers) = length ?qs" using list_all2_concat_length cs by metis
    then have "distinct (map (query_key \<circ> fst) (zip ?qs (concat answers)))"
      using build_queries_keys [of packages "[]"] by (simp only: zip_keys)
    then have d: "distinct (map fst (rev (hits w (zip ?qs (concat answers)))))"
      by (simp add: hits_distinct rev_map [symmetric])
    have "map_of found key = Some mp \<longleftrightarrow> (key, mp) \<in> set (hits w (zip ?qs (concat answers)))" for key mp
      using map_of_eq_Some_iff [OF d, of key mp] by (simp add: f flags_hits)
    then show ?thesis unfolding Some Let_def option.case hits_iff using a keys by blast
  qed
qed

definition pypi_outbreak :: osv where
  "pypi_outbreak =
     \<lparr>osv_querybatch = (\<lambda>qs. Some (map (\<lambda>q. if q_ecosystem q = ''PyPI''
          then Some \<lparr>br_next_page = False, br_vulns = [Some (JString ''GHSA-1''), Some (JString ''MAL-1'')]\<rparr> else None) qs)),
      osv_details = (\<lambda>_. NO_DETAILS)\<rparr>"

lemma pypi_outbreak_verdicts:
  "map_option (map fst) (check_packages_for_malware pypi_outbreak [(''foo'', ''1.0'', ''pip'')]) = Some [(''foo'', ''1.0'')]"
  "map_option (map fst) (check_packages_for_malware pypi_outbreak
     [(''foo'', ''1.0'', ''npm''), (''foo'', ''1.0'', ''pip'')]) = Some []"
  by code_simp+

theorem malware_check_fails_closed_witness:
  "\<exists>answers. list_all2 (answered pypi_outbreak)
     (chunks (build_queries [(''foo'', ''1.0'', ''pip'')] []) CHUNK_SIZE) answers"
proof -
  obtain found where "check_packages_for_malware pypi_outbreak [(''foo'', ''1.0'', ''pip'')] = Some found"
    using pypi_outbreak_verdicts(1) by auto
  with malware_check_fails_closed [of "[(''foo'', ''1.0'', ''pip'')]" pypi_outbreak] show ?thesis
    unfolding Let_def by auto
qed

text \<open>The queries are told apart by name and version only.  With the same name and version in two
  ecosystems the second is never asked about: a malicious PyPI package behind a harmless npm
  package of the same name is reported as a completed, clean check.\<close>

theorem same_name_hides_malware:
  "check_packages_for_malware pypi_outbreak [(''foo'', ''1.0'', ''npm''), (''foo'', ''1.0'', ''pip'')] = Some [] \<and>
   check_packages_for_malware pypi_outbreak [(''foo'', ''1.0'', ''pip'')] \<noteq> Some []"
  using pypi_outbreak_verdicts by auto

end
