(* ===== verification/MalwareIngest.thy ===== *)
theory MalwareIngest
  imports OsvMalware ScanClaims
begin

text \<open>
  Storing the outcome of the malicious-package check: \<open>core/osv_malware_ingestion.py\<close>.  The
  description of a finding is the text the code builds, word for word.
\<close>

subsection \<open>The compromise scope\<close>

definition SCOPE_HEADING :: string where "SCOPE_HEADING = ''--- Compromise scope ---''"

definition sibling_versions :: "db \<Rightarrow> target \<Rightarrow> string \<Rightarrow> malicious_package \<Rightarrow> string list" where
  "sibling_versions db t branch mp =
     sort_str (remdups (map sc_version (filter (\<lambda>c. sc_target_id c = t_id t \<and> sc_branch c = branch \<and>
        sc_name c = mp_name mp \<and> sc_version c \<noteq> [] \<and> sc_version c \<noteq> mp_version mp \<and>
        ecosystem_by_package_type (sc_package_type c) = Some (mp_ecosystem mp)) (d_sbom db))))"

definition pinned_text :: "malicious_package \<Rightarrow> string" where
  "pinned_text mp =
     (let coverage = coverage_text mp in
      if coverage \<noteq> [] then
        mp_osv_id mp @ '' flags '' @ coverage @ '' of '' @ mp_name mp @ ''.'' @
        (if mp_has_unsupported_ranges mp
         then '' It also declares coverage this cannot express as versions; read the advisory for that part.''
         else [])
      else mp_osv_id mp @ '' does not publish a machine-readable affected-version list for '' @ mp_name mp @
        ''; read the advisory for its exact coverage.'')"

definition inventory_text :: "malicious_package \<Rightarrow> string \<Rightarrow> string list \<Rightarrow> string" where
  "inventory_text mp branch siblings =
     (if siblings = [] then
        ''No other version of '' @ mp_name mp @ '' is currently in this repo's inventory ('' @ branch @ '').''
      else
        (let listed = ''Also in this repo's inventory: '' @ mp_name mp @ '' '' @ join '', '' siblings @ ''.'' in
         if mp_affected_versions mp \<noteq> [] \<and> mp_affected_ranges mp = [] \<and> \<not> mp_has_unsupported_ranges mp then
           (let uncovered = filter (\<lambda>v. v \<notin> set (mp_affected_versions mp)) siblings;
                covered = filter (\<lambda>v. v \<in> set (mp_affected_versions mp)) siblings;
                plural = length uncovered > 1;
                subject = (if covered \<noteq> [] then join '', '' uncovered else if plural then ''They'' else ''It'')
            in join '' '' ([listed]
                 @ (if covered \<noteq> [] then
                      [''The advisory also covers '' @ join '', '' covered @ '', which this repo ships.''] else [])
                 @ (if uncovered \<noteq> [] then
                      [subject @ '' '' @ (if plural then ''fall'' else ''falls'') @
                       '' outside the advisory's pinned versions, which makes '' @
                       (if plural then ''them'' else ''it'') @ '' unverified, not clean.''] else [])))
         else listed @ '' Check each against the advisory's coverage above; a release the advisory does not cover is unverified, not clean.''))"

definition UNVERIFIED :: "string \<Rightarrow> string" where
  "UNVERIFIED name = '' An unflagged release is not a verified-safe release: other releases of the same package, earlier or later, can carry the same payload while every scanner reports clean. Verify every pinned version of ''
     @ name @ '' against upstream sources.''"

definition MAINTAINER :: string where
  "MAINTAINER = ''Maintainer blast radius: malicious-package campaigns (PolinRider, for one) usually run through a compromised maintainer account rather than a single bad upload, so other packages published by the same account may be compromised too. Audit this publisher's other packages in your dependency tree, newest releases first.''"

definition BLANK :: string where "BLANK = [CHR 10, CHR 10]"

definition build_compromise_scope_note :: "db \<Rightarrow> target \<Rightarrow> string \<Rightarrow> malicious_package \<Rightarrow> string" where
  "build_compromise_scope_note db t branch mp =
     join BLANK
       [SCOPE_HEADING, pinned_text mp @ UNVERIFIED (mp_name mp),
        inventory_text mp branch (sibling_versions db t branch mp), MAINTAINER]"

definition describe_package :: "db \<Rightarrow> target \<Rightarrow> string \<Rightarrow> malicious_package \<Rightarrow> string" where
  "describe_package db t branch mp =
     (case str_strip (mp_details mp @ BLANK @ mp_advisory_url mp) of [] \<Rightarrow> mp_advisory_url mp | body \<Rightarrow> body)
     @ BLANK @ build_compromise_scope_note db t branch mp"

subsection \<open>Running the check\<close>

definition run_malware_check :: "osv \<Rightarrow> target \<Rightarrow> db \<Rightarrow> malicious option \<times> nat" where
  "run_malware_check w t db =
     (let packages = map (\<lambda>c. (sc_name c, sc_version c, sc_package_type c))
            (filter (\<lambda>c. sc_target_id c = t_id t \<and> sc_branch c = t_default_branch t) (d_sbom db));
          checked = remdups (map (\<lambda>(n, v, _). (n, v))
            (filter (\<lambda>(_, _, ty). ecosystem_by_package_type ty \<noteq> None) packages))
      in (check_packages_for_malware w packages, length checked))"

subsection \<open>Storing the verdict\<close>

record malware_world =
  mw_now :: timestamp
  mw_digest :: "string \<Rightarrow> string"

definition package_path :: "string \<times> string \<Rightarrow> string" where
  "package_path = (\<lambda>(name, ver). name @ ''@'' @ ver)"

definition package_hash :: "malware_world \<Rightarrow> (string \<times> string) \<times> malicious_package \<Rightarrow> string" where
  "package_hash w = (\<lambda>(key, mp).
     compute_dedup_hash (mw_digest w) (mp_osv_id mp) (package_path key) TOOL_NAME (package_path key) None)"

definition refresh_description :: "db \<Rightarrow> target \<Rightarrow> malicious_package \<Rightarrow> string \<Rightarrow> string" where
  "refresh_description db t mp text =
     (if str_contains SCOPE_HEADING text then text
      else str_strip (str_rstrip text @ BLANK @ build_compromise_scope_note db t (t_default_branch t) mp))"

definition new_malware_finding ::
  "malware_world \<Rightarrow> target \<Rightarrow> db \<Rightarrow> row_id \<Rightarrow> (string \<times> string) \<times> malicious_package \<Rightarrow> int \<Rightarrow> finding" where
  "new_malware_finding w t db i = (\<lambda>(key, mp) points.
     \<lparr>f_id = i, f_target_id = t_id t, f_scan_id = None, f_dedup_hash = package_hash w (key, mp),
      f_tool = TOOL_NAME, f_rule_id = mp_osv_id mp,
      f_title = (if mp_summary mp = [] then ''Malicious package: '' @ package_path key else mp_summary mp),
      f_description = describe_package db t (t_default_branch t) mp, f_file_path = package_path key,
      f_line_start = None, f_line_end = None, f_severity = CRITICAL, f_priority_score = points,
      f_dependency_scope = ''unknown'', f_package_name = None, f_branch = t_default_branch t,
      f_state = OPEN, f_state_reason = [], f_cve_id = None, f_epss_score = None, f_kev_listed = False,
      f_first_seen = mw_now w, f_last_seen = mw_now w, f_mitigated_at = None\<rparr>)"

definition malware_score :: "target \<Rightarrow> weights \<Rightarrow> cvss_error + int" where
  "malware_score t weights =
     compute_priority_score CRITICAL (t_criticality_weight t)
       \<lparr>sg_epss_score = None, sg_kev_listed = False, sg_cvss = None, sg_cve_id = None,
        sg_target_label = Some (t_label t), sg_target_environment = t_environment t,
        sg_target_owner = t_owner t, sg_fixability = None, sg_dependency_scope = None\<rparr>
       (as_overrides weights)"

definition in_malware_scope :: "target \<Rightarrow> finding \<Rightarrow> bool" where
  "in_malware_scope t f \<longleftrightarrow> f_target_id f = t_id t \<and> f_branch f = t_default_branch t"

definition ingest_package ::
  "malware_world \<Rightarrow> target \<Rightarrow> weights \<Rightarrow> (string \<times> string) \<times> malicious_package \<Rightarrow> db \<times> row_id list
     \<Rightarrow> cvss_error + db \<times> row_id list" where
  "ingest_package w t weights item = (\<lambda>(db, created).
     case List.find (\<lambda>f. f_dedup_hash f = package_hash w item \<and> in_malware_scope t f) (d_findings db) of
       Some f \<Rightarrow>
         (let db1 = update_finding (f_id f) (\<lambda>f. f\<lparr>f_last_seen := mw_now w\<rparr>) db;
              db2 = (if f_state f = MITIGATED
                     then transition (mw_now w) REOPENED ''reflagged by OSV'' ''system'' f db1 else db1)
          in Inr (update_finding (f_id f)
                    (\<lambda>f. f\<lparr>f_description := refresh_description db t (snd item) (f_description f)\<rparr>) db2, created))
     | None \<Rightarrow>
         (case malware_score t weights of
            Inl e \<Rightarrow> Inl e
          | Inr points \<Rightarrow>
              (let i = next_id f_id (d_findings db)
               in Inr (db\<lparr>d_findings := d_findings db @ [new_malware_finding w t db i item points]\<rparr>, created @ [i]))))"

fun ingest_packages ::
  "malware_world \<Rightarrow> target \<Rightarrow> weights \<Rightarrow> malicious \<Rightarrow> db \<times> row_id list \<Rightarrow> cvss_error + db \<times> row_id list" where
  "ingest_packages w t weights [] st = Inr st"
| "ingest_packages w t weights (item # items) st =
     (case ingest_package w t weights item st of
        Inl e \<Rightarrow> Inl e
      | Inr st' \<Rightarrow> ingest_packages w t weights items st')"

definition unflagged :: "target \<Rightarrow> string list \<Rightarrow> db \<Rightarrow> finding list" where
  "unflagged t seen db =
     filter (\<lambda>f. in_malware_scope t f \<and> f_tool f = TOOL_NAME \<and> f_state f \<in> set OPEN_FINDING_STATES \<and>
        f_dedup_hash f \<notin> set seen) (d_findings db)"

definition ingest_malicious_packages ::
  "malware_world \<Rightarrow> target \<Rightarrow> malicious \<Rightarrow> db \<Rightarrow> cvss_error + db \<times> row_id list \<times> alert list" where
  "ingest_malicious_packages w t found db =
     (case ingest_packages w t (workspace_scoring_weights db (Some (t_workspace_id t))) found (db, []) of
        Inl e \<Rightarrow> Inl e
      | Inr (db1, created) \<Rightarrow>
          Inr (fold (\<lambda>f. transition (mw_now w) MITIGATED ''no longer flagged by OSV'' ''system'' f)
                 (unflagged t (map (package_hash w) found) db1) db1,
               created,
               concat (map (\<lambda>i. case get_finding db1 i of None \<Rightarrow> [] | Some f \<Rightarrow> new_finding_alerts db1 f) created)))"

record malware_result =
  mr_status :: string
  mr_malicious_count :: nat
  mr_findings_created :: nat
  mr_packages_checked :: "nat option"

definition check_and_ingest_malware ::
  "osv \<Rightarrow> malware_world \<Rightarrow> target \<Rightarrow> db \<Rightarrow> cvss_error + db \<times> malware_result \<times> alert list" where
  "check_and_ingest_malware client w t db =
     (case run_malware_check client t db of
        (None, _) \<Rightarrow>
          Inr (db, \<lparr>mr_status = ''failed'', mr_malicious_count = 0, mr_findings_created = 0,
                   mr_packages_checked = None\<rparr>, [])
      | (Some found, checked) \<Rightarrow>
          (case ingest_malicious_packages w t found db of
             Inl e \<Rightarrow> Inl e
           | Inr (db1, created, alerts) \<Rightarrow>
               (let status = (if found = [] then ''clean'' else ''found'') in
                Inr (db1\<lparr>d_targets := update_rows t_id (t_id t)
                       (\<lambda>t. t\<lparr>t_malware_last_checked_at := Some (mw_now w),
                             t_malware_last_check_status := Some status,
                             t_malware_packages_checked := Some checked\<rparr>) (d_targets db1)\<rparr>,
                     \<lparr>mr_status = status, mr_malicious_count = length found,
                      mr_findings_created = length created, mr_packages_checked = Some checked\<rparr>, alerts))))"

subsection \<open>The scope block is there once\<close>

lemma scope_block_kept:
  assumes "body = SCOPE_HEADING @ rest @ ''.''"
  shows "str_contains SCOPE_HEADING (str_strip (pre @ BLANK @ body))"
proof -
  have hd: "\<not> is_space (hd SCOPE_HEADING)" "SCOPE_HEADING \<noteq> []" by (simp_all add: SCOPE_HEADING_def is_space_def)
  have dot: "\<not> is_space CHR ''.''" by (simp add: is_space_def)
  have "\<exists>p. dropWhile is_space (pre @ BLANK @ body) = p @ body"
  proof (cases "\<exists>x\<in>set (pre @ BLANK). \<not> is_space x")
    case True
    then have "dropWhile is_space ((pre @ BLANK) @ body) = dropWhile is_space (pre @ BLANK) @ body"
      by (metis dropWhile_append1)
    then show ?thesis by simp
  next
    case False
    then have "dropWhile is_space ((pre @ BLANK) @ body) = dropWhile is_space body"
      by (intro dropWhile_append2) auto
    also have "\<dots> = body" using hd assms by (metis append_Cons dropWhile.simps(2) list.collapse)
    finally show ?thesis by (simp add: exI [of _ "[]"])
  qed
  then obtain p where p: "dropWhile is_space (pre @ BLANK @ body) = p @ body" by blast
  have "str_strip (pre @ BLANK @ body) = p @ SCOPE_HEADING @ rest @ ''.''"
    using dot by (simp add: str_strip_def p) (simp add: assms)
  then show ?thesis by (metis str_contains_iff)
qed

lemma scope_note_shape: "\<exists>rest. build_compromise_scope_note db t branch mp = SCOPE_HEADING @ rest @ ''.''"
proof -
  have "MAINTAINER \<noteq> [] \<and> last MAINTAINER = CHR ''.''" by (simp add: MAINTAINER_def)
  then have "MAINTAINER = butlast MAINTAINER @ ''.''" using append_butlast_last_id [of MAINTAINER] by simp
  then have "\<exists>m. MAINTAINER = m @ ''.''" by blast
  then obtain m where "MAINTAINER = m @ ''.''" by blast
  then have "build_compromise_scope_note db t branch mp = SCOPE_HEADING @
      (BLANK @ (pinned_text mp @ UNVERIFIED (mp_name mp)) @ BLANK @
       inventory_text mp branch (sibling_versions db t branch mp) @ BLANK @ m) @ ''.''"
    by (simp add: build_compromise_scope_note_def)
  then show ?thesis by blast
qed

lemma refreshed_description: "str_contains SCOPE_HEADING (refresh_description db t mp body)"
proof -
  obtain rest where "build_compromise_scope_note db t (t_default_branch t) mp = SCOPE_HEADING @ rest @ ''.''"
    using scope_note_shape by blast
  then show ?thesis using scope_block_kept by (simp add: refresh_description_def)
qed

lemma refresh_idempotent: "refresh_description db' t' mp' (refresh_description db t mp body) = refresh_description db t mp body"
  using refreshed_description [of db t mp body] by (simp add: refresh_description_def)

lemma describe_scope: "str_contains SCOPE_HEADING (describe_package db t branch mp)"
proof -
  obtain rest where "build_compromise_scope_note db t branch mp = SCOPE_HEADING @ rest @ ''.''"
    using scope_note_shape by blast
  then show ?thesis unfolding describe_package_def str_contains_iff by (metis append.assoc)
qed

subsection \<open>What the check does to the table\<close>

text \<open>A check may reopen a mitigated finding it flags and mitigate an open one it does not flag;
  it does nothing else to the state of a finding.\<close>

definition malware_fate :: "string set \<Rightarrow> finding \<Rightarrow> finding \<Rightarrow> bool" where
  "malware_fate seen f f' \<longleftrightarrow> identity f' = identity f \<and>
     (f_state f' = f_state f \<or>
      f_state f = MITIGATED \<and> f_state f' = REOPENED \<and> f_dedup_hash f \<in> seen \<or>
      f_state f \<in> {OPEN, REOPENED} \<and> f_state f' = MITIGATED \<and> f_dedup_hash f \<notin> seen)"

definition flagged_row :: "target \<Rightarrow> db \<Rightarrow> string \<Rightarrow> bool" where
  "flagged_row t db h \<longleftrightarrow> (\<exists>f\<in>set (d_findings db). in_malware_scope t f \<and> f_dedup_hash f = h \<and>
     f_state f \<noteq> MITIGATED \<and> str_contains SCOPE_HEADING (f_description f))"

lemma new_malware_finding_sel:
  "f_id (new_malware_finding w t db i item n) = i" "f_state (new_malware_finding w t db i item n) = OPEN"
  "f_dedup_hash (new_malware_finding w t db i item n) = package_hash w item"
  "in_malware_scope t (new_malware_finding w t db i item n)"
  "str_contains SCOPE_HEADING (f_description (new_malware_finding w t db i item n))"
  by (simp_all add: new_malware_finding_def in_malware_scope_def describe_scope split: prod.split)

lemma update_rows_twice:
  "(\<And>r. key (h r) = key r) \<Longrightarrow> update_rows key i g (update_rows key i h rows) = update_rows key i (\<lambda>r. g (h r)) rows"
  by (simp add: update_rows_def)

lemma ingest_package_shape:
  assumes "ingest_package w t weights item (db, cs) = Inr (db', cs')"
  obtains (edit) f g where "f \<in> set (d_findings db)" "in_malware_scope t f" "f_dedup_hash f = package_hash w item"
      "edits db db' (f_id f) g" "f_state (g f) = (if f_state f = MITIGATED then REOPENED else f_state f)"
      "\<And>q. str_contains SCOPE_HEADING (f_description (g q))"
  | (add) f where "d_findings db' = d_findings db @ [f]" "f_id f \<notin> finding_ids db" "in_malware_scope t f"
      "f_dedup_hash f = package_hash w item" "f_state f = OPEN" "str_contains SCOPE_HEADING (f_description f)"
      "\<forall>q\<in>set (d_findings db). in_malware_scope t q \<longrightarrow> f_dedup_hash q \<noteq> package_hash w item"
proof (cases "List.find (\<lambda>f. f_dedup_hash f = package_hash w item \<and> in_malware_scope t f) (d_findings db)")
  case None
  with assms obtain points where "d_findings db' = d_findings db @
      [new_malware_finding w t db (next_id f_id (d_findings db)) item points]"
    by (auto simp: ingest_package_def Let_def split: sum.splits)
  moreover have "next_id f_id (d_findings db) \<notin> finding_ids db"
    unfolding finding_ids_def by (rule next_id_notin)
  ultimately show ?thesis
    using None by (intro add) (auto simp: new_malware_finding_sel find_None)
next
  case (Some f)
  let ?desc = "\<lambda>f. f\<lparr>f_description := refresh_description db t (snd item) (f_description f)\<rparr>"
  let ?g = "\<lambda>f'. ?desc (if f_state f = MITIGATED then set_state (mw_now w) REOPENED (f'\<lparr>f_last_seen := mw_now w\<rparr>)
                       else f'\<lparr>f_last_seen := mw_now w\<rparr>)"
  from assms Some have "edits db db' (f_id f) ?g"
    by (auto simp: ingest_package_def Let_def edits_def update_rows_twice set_state_def identity_def)
  with find_mem [OF Some] show ?thesis
    by (intro edit [of f ?g]) (auto simp: refreshed_description set_state_def)
qed

lemma ingest_package_step:
  assumes "ingest_package w t weights item (db, cs) = Inr (db', cs')" and "findings_ok db"
    and "package_hash w item \<in> seen"
  shows "findings_ok db' \<and> flagged_row t db' (package_hash w item) \<and>
    (\<forall>h. flagged_row t db h \<longrightarrow> flagged_row t db' h) \<and>
    (\<forall>f\<in>set (d_findings db). \<exists>f'\<in>set (d_findings db').
       (if in_malware_scope t f \<and> f_dedup_hash f = package_hash w item
        then malware_fate seen f f' \<and> (f_state f' = f_state f \<or> f_state f' = REOPENED) else f' = f))"
  using assms(1)
proof (cases rule: ingest_package_shape)
  case (edit f g)
  have ok: "findings_ok db'"
    using assms(2) edits_ids [OF edit(4)] fingerprint_identity [OF edits_identities [OF edit(4)]]
    by (simp add: findings_ok_def)
  have rows: "d_findings db' = update_rows f_id (f_id f) g (d_findings db)"
    and id: "identity (g q) = identity q" for q using edit(4) by (auto simp: edits_def)
  have keep: "(if f_id q = f_id f then g q else q) \<in> set (d_findings db')" if "q \<in> set (d_findings db)" for q
    using that by (auto simp: rows update_rows_mem)
  have gf: "g f \<in> set (d_findings db')" using keep [OF edit(1)] by simp
  have live: "flagged_row t db' (package_hash w item)"
    unfolding flagged_row_def using gf edit id [of f]
    by (intro bexI [of _ "g f"]) (auto simp: in_malware_scope_def identity_def)
  have same: "q = f" if "q \<in> set (d_findings db)" "f_id q = f_id f" for q
    using same_row [OF assms(2) that(1) edit(1) that(2)] .
  have "flagged_row t db' h" if fr: "flagged_row t db h" for h
  proof -
    obtain q where q: "q \<in> set (d_findings db)" "in_malware_scope t q" "f_dedup_hash q = h"
      "f_state q \<noteq> MITIGATED" "str_contains SCOPE_HEADING (f_description q)" using fr by (auto simp: flagged_row_def)
    show ?thesis
    proof (cases "f_id q = f_id f")
      case True
      with same q have "q = f" by simp
      with q(3) edit(3) live show ?thesis by simp
    next
      case False
      with keep [OF q(1)] q show ?thesis by (auto simp: flagged_row_def)
    qed
  qed
  moreover have "\<exists>f'\<in>set (d_findings db').
       (if in_malware_scope t q \<and> f_dedup_hash q = package_hash w item
        then malware_fate seen q f' \<and> (f_state f' = f_state q \<or> f_state f' = REOPENED) else f' = q)"
    if q: "q \<in> set (d_findings db)" for q
  proof (cases "f_id q = f_id f")
    case True
    then have "q = f" using same q by simp
    with gf edit id [of f] assms(3) show ?thesis
      by (intro bexI [of _ "g f"]) (auto simp: malware_fate_def)
  next
    case False
    have "malware_fate seen q q" by (simp add: malware_fate_def)
    with keep [OF q] False show ?thesis by (intro bexI [of _ q]) auto
  qed
  ultimately show ?thesis using ok live by blast
next
  case (add f)
  have "fingerprint f \<notin> fingerprint ` set (d_findings db)"
    using add(3,4,7) by (fastforce simp: fingerprint_def in_malware_scope_def)
  with add assms(2) have ok: "findings_ok db'" by (auto simp: findings_ok_def finding_ids_def)
  have sub: "set (d_findings db) \<subseteq> set (d_findings db')" and f: "f \<in> set (d_findings db')" using add(1) by auto
  have "malware_fate seen q q" for q by (simp add: malware_fate_def)
  with sub have "\<exists>f'\<in>set (d_findings db').
       (if in_malware_scope t q \<and> f_dedup_hash q = package_hash w item
        then malware_fate seen q f' \<and> (f_state f' = f_state q \<or> f_state f' = REOPENED) else f' = q)"
    if "q \<in> set (d_findings db)" for q using that by (intro bexI [of _ q]) auto
  moreover have "flagged_row t db' (package_hash w item)"
    unfolding flagged_row_def using f add by (intro bexI [of _ f]) auto
  moreover have "flagged_row t db h \<Longrightarrow> flagged_row t db' h" for h using sub by (auto simp: flagged_row_def)
  ultimately show ?thesis using ok by blast
qed

definition reflagged :: "target \<Rightarrow> string set \<Rightarrow> finding \<Rightarrow> finding \<Rightarrow> bool" where
  "reflagged t seen f f' \<longleftrightarrow>
     (if in_malware_scope t f \<and> f_dedup_hash f \<in> seen
      then malware_fate seen f f' \<and> (f_state f' = f_state f \<or> f_state f' = REOPENED) else f' = f)"

lemma reflagged_refl: "reflagged t seen f f"
  by (simp add: reflagged_def malware_fate_def)

lemma reflagged_trans: "reflagged t seen f g \<Longrightarrow> reflagged t seen g h \<Longrightarrow> reflagged t seen f h"
  by (auto simp: reflagged_def malware_fate_def in_malware_scope_def dest!: identity_eqD split: if_splits)

lemma ingest_packages_step:
  "ingest_packages w t weights items (db, cs) = Inr (db', cs') \<Longrightarrow> findings_ok db \<Longrightarrow>
   package_hash w ` set items \<subseteq> seen \<Longrightarrow>
   findings_ok db' \<and> (\<forall>h\<in>package_hash w ` set items. flagged_row t db' h) \<and>
   (\<forall>h. flagged_row t db h \<longrightarrow> flagged_row t db' h) \<and>
   (\<forall>f\<in>set (d_findings db). \<exists>f'\<in>set (d_findings db'). reflagged t seen f f')"
proof (induction items arbitrary: db cs)
  case Nil
  then show ?case using reflagged_refl by auto
next
  case (Cons item items)
  obtain db1 cs1 where s: "ingest_package w t weights item (db, cs) = Inr (db1, cs1)"
    and r: "ingest_packages w t weights items (db1, cs1) = Inr (db', cs')"
    using Cons.prems(1) by (auto split: sum.splits)
  have h: "package_hash w item \<in> seen" using Cons.prems(3) by simp
  note step = ingest_package_step [OF s Cons.prems(2) h]
  then have IH: "findings_ok db' \<and> (\<forall>h\<in>package_hash w ` set items. flagged_row t db' h) \<and>
     (\<forall>h. flagged_row t db1 h \<longrightarrow> flagged_row t db' h) \<and>
     (\<forall>f\<in>set (d_findings db1). \<exists>f'\<in>set (d_findings db'). reflagged t seen f f')"
    using Cons.IH [OF r] Cons.prems(3) by simp
  have "\<exists>f'\<in>set (d_findings db'). reflagged t seen f f'" if f: "f \<in> set (d_findings db)" for f
  proof -
    obtain f1 where f1: "f1 \<in> set (d_findings db1)" "reflagged t seen f f1"
      using step f h reflagged_refl [of t seen f] unfolding reflagged_def by (metis (full_types))
    then obtain f' where "f' \<in> set (d_findings db')" "reflagged t seen f1 f'" using IH by blast
    with f1 reflagged_trans show ?thesis by blast
  qed
  with step IH show ?case by auto
qed

lemma sweep_effect:
  assumes "findings_ok db" and "db' = fold (\<lambda>f. transition now MITIGATED r a f) (unflagged t seen db) db"
  shows "d_findings db' = map (\<lambda>q. if q \<in> set (unflagged t seen db) then set_state now MITIGATED q else q) (d_findings db)"
proof -
  have "f_id q \<in> f_id ` set (unflagged t seen db) \<longleftrightarrow> q \<in> set (unflagged t seen db)" if "q \<in> set (d_findings db)" for q
    using that same_row [OF assms(1)] by (auto simp: unflagged_def image_iff)
  then show ?thesis unfolding assms(2) fold_transition_findings by (intro map_cong) auto
qed

text \<open>Only a completed check changes anything, and then the verdict governs.  A failed check
  leaves the database as it was and reports ``failed''.  After a completed one every flagged
  package has a finding that is not mitigated and carries the compromise-scope block, every open
  malicious-package finding of the default branch is flagged, and every earlier finding is still
  there: mitigated ones that were flagged again are Reopened, open ones no longer flagged are
  Mitigated, and triage decisions are left alone.\<close>

theorem malware_verdict_governs:
  assumes "check_and_ingest_malware client w t db = Inr (db', res, alerts)" and "findings_ok db"
  shows "case fst (run_malware_check client t db) of
      None \<Rightarrow> mr_status res = ''failed'' \<and> db' = db \<and> alerts = []
    | Some found \<Rightarrow>
        mr_status res = (if found = [] then ''clean'' else ''found'') \<and>
        (\<forall>h\<in>package_hash w ` set found. flagged_row t db' h) \<and>
        (\<forall>f\<in>set (d_findings db'). in_malware_scope t f \<and> f_tool f = TOOL_NAME \<and>
           f_state f \<in> set OPEN_FINDING_STATES \<longrightarrow> f_dedup_hash f \<in> package_hash w ` set found) \<and>
        (\<forall>f\<in>set (d_findings db). \<exists>f'\<in>set (d_findings db').
           if in_malware_scope t f then malware_fate (package_hash w ` set found) f f' else f' = f)"
proof (cases "run_malware_check client t db")
  case (Pair verdict checked)
  show ?thesis
  proof (cases verdict)
    case None
    with Pair assms(1) show ?thesis by (auto simp: check_and_ingest_malware_def)
  next
    case (Some found)
    let ?seen = "package_hash w ` set found"
    obtain db1 cs db2 where p: "ingest_packages w t (workspace_scoring_weights db (Some (t_workspace_id t))) found (db, []) =
        Inr (db1, cs)"
      and sweep: "db2 = fold (\<lambda>f. transition (mw_now w) MITIGATED ''no longer flagged by OSV'' ''system'' f)
            (unflagged t (map (package_hash w) found) db1) db1"
      and db': "d_findings db' = d_findings db2" and st: "mr_status res = (if found = [] then ''clean'' else ''found'')"
      using assms(1) Pair Some
      by (auto simp: check_and_ingest_malware_def ingest_malicious_packages_def Let_def split: sum.splits)
    note step = ingest_packages_step [OF p assms(2) subset_refl]
    let ?stale = "set (unflagged t (map (package_hash w) found) db1)"
    have rows: "d_findings db' =
        map (\<lambda>q. if q \<in> ?stale then set_state (mw_now w) MITIGATED q else q) (d_findings db1)"
      using sweep_effect [OF _ sweep] step db' by simp
    have stale: "q \<in> ?stale \<longleftrightarrow> q \<in> set (d_findings db1) \<and> in_malware_scope t q \<and> f_tool q = TOOL_NAME \<and>
        f_state q \<in> set OPEN_FINDING_STATES \<and> f_dedup_hash q \<notin> ?seen" for q
      by (auto simp: unflagged_def)
    have live: "flagged_row t db' h" if h: "h \<in> ?seen" for h
    proof -
      from step h obtain f where f: "f \<in> set (d_findings db1)" "in_malware_scope t f" "f_dedup_hash f = h"
        "f_state f \<noteq> MITIGATED" "str_contains SCOPE_HEADING (f_description f)" by (auto simp: flagged_row_def)
      with h stale have "f \<notin> ?stale" by simp
      with f rows show ?thesis unfolding flagged_row_def by (intro bexI [of _ f]) auto
    qed
    have exact: "f_dedup_hash f \<in> ?seen" if f: "f \<in> set (d_findings db')" "in_malware_scope t f" "f_tool f = TOOL_NAME"
      "f_state f \<in> set OPEN_FINDING_STATES" for f
    proof -
      from f(1) rows obtain q where q: "q \<in> set (d_findings db1)"
        "f = (if q \<in> ?stale then set_state (mw_now w) MITIGATED q else q)" by auto
      with f(4) have "f = q" "q \<notin> ?stale" by (auto simp: OPEN_FINDING_STATES_def split: if_splits)
      with q(1) f stale show ?thesis by blast
    qed
    have fates: "\<exists>f'\<in>set (d_findings db'). if in_malware_scope t f then malware_fate ?seen f f' else f' = f"
      if f: "f \<in> set (d_findings db)" for f
    proof -
      from step f obtain q where q: "q \<in> set (d_findings db1)" "reflagged t ?seen f q" by blast
      let ?f' = "if q \<in> ?stale then set_state (mw_now w) MITIGATED q else q"
      have "if in_malware_scope t f then malware_fate ?seen f ?f' else ?f' = f"
      proof (cases "q \<in> ?stale")
        case True
        with stale [of q] q(2) have "q = f" "in_malware_scope t f" "f_dedup_hash f \<notin> ?seen" "f_state f \<in> {OPEN, REOPENED}"
          by (auto simp: reflagged_def malware_fate_def in_malware_scope_def OPEN_FINDING_STATES_def
              dest!: identity_eqD split: if_splits)
        with True show ?thesis by (simp add: malware_fate_def)
      next
        case False
        with q(2) show ?thesis by (auto simp: reflagged_def malware_fate_def split: if_splits)
      qed
      moreover have "?f' \<in> set (d_findings db')" using q(1) rows by auto
      ultimately show ?thesis by blast
    qed
    show ?thesis unfolding Pair fst_conv Some option.case using st live exact fates by blast
  qed
qed

definition infected_db :: db where
  "infected_db = empty_db\<lparr>d_targets := [example_target],
     d_sbom := [\<lparr>sc_id = 1, sc_target_id = 1, sc_branch = ''main'', sc_name = ''foo'', sc_version = ''1.0'',
       sc_package_type = ''pip'', sc_purl = [], sc_source = ''trivy'', sc_first_seen = 0, sc_last_seen = 0\<rparr>]\<rparr>"

definition malware_clock :: malware_world where
  "malware_clock = \<lparr>mw_now = 50, mw_digest = (\<lambda>s. s)\<rparr>"

lemma infected_verdict:
  "map_option (map fst) (fst (run_malware_check pypi_outbreak example_target infected_db)) = Some [(''foo'', ''1.0'')]"
  by code_simp

lemma infected_run:
  "case check_and_ingest_malware pypi_outbreak malware_clock example_target infected_db of
     Inl _ \<Rightarrow> False | Inr (db, res, alerts) \<Rightarrow> True"
  by code_simp

theorem malware_verdict_governs_witness:
  "\<exists>db' res alerts h. check_and_ingest_malware pypi_outbreak malware_clock example_target infected_db =
     Inr (db', res, alerts) \<and> mr_status res = ''found'' \<and> flagged_row example_target db' h"
proof -
  obtain db' res alerts where r:
    "check_and_ingest_malware pypi_outbreak malware_clock example_target infected_db = Inr (db', res, alerts)"
    using infected_run by (auto split: sum.splits prod.splits)
  have "findings_ok infected_db" by (simp add: findings_ok_def infected_db_def empty_db_def)
  from malware_verdict_governs [OF r this] infected_verdict r show ?thesis by auto
qed

end
