(* ===== verification/Sla.thy ===== *)
theory Sla
  imports Tables
begin

text \<open>
  Days-to-fix rules: \<open>core/sla.py\<close>.  A target inherits the strictest rule of its groups for the
  severity, else the workspace's default rule; the violation is computed when the finding is
  read.
\<close>

definition CLOSED_STATES :: "finding_state list" where
  "CLOSED_STATES = [MITIGATED, ACCEPTED_RISK, FALSE_POSITIVE, WONT_FIX]"

lemma closed_or_open: "s \<in> set CLOSED_STATES \<longleftrightarrow> s \<notin> set OPEN_FINDING_STATES"
  by (cases s) (simp_all add: CLOSED_STATES_def OPEN_FINDING_STATES_def)

datatype sla_source = FromGroup | WorkspaceDefault

definition group_ids_for_target :: "db \<Rightarrow> row_id \<Rightarrow> row_id list" where
  "group_ids_for_target db target_id =
     map tg_group_id (filter (\<lambda>g. tg_target_id g = target_id) (d_target_groups db))"

text \<open>Python's \<open>min\<close> of the days, None when there is no rule.\<close>

definition fewest_days :: "int list \<Rightarrow> int option" where
  "fewest_days = first_max (\<lambda>d. - d)"

interpretation strictest: strongest fewest_days "\<lambda>d. - d" "\<lambda>_. True"
  unfolding fewest_days_def by (rule strongest_first_max)

definition group_rules :: "db \<Rightarrow> target \<Rightarrow> severity \<Rightarrow> sla_rule list" where
  "group_rules db t sev =
     filter (\<lambda>r. sr_workspace_id r = t_workspace_id t \<and>
        (case sr_group_id r of None \<Rightarrow> False | Some g \<Rightarrow> g \<in> set (group_ids_for_target db (t_id t))) \<and>
        sr_severity r = sev) (d_sla_rules db)"

definition default_rule :: "db \<Rightarrow> target \<Rightarrow> severity \<Rightarrow> sla_rule option" where
  "default_rule db t sev =
     List.find (\<lambda>r. sr_workspace_id r = t_workspace_id t \<and> sr_group_id r = None \<and> sr_severity r = sev)
       (d_sla_rules db)"

definition resolve_sla_days_with_source :: "db \<Rightarrow> finding \<Rightarrow> (int \<times> sla_source) option" where
  "resolve_sla_days_with_source db f =
     (case get_target db (f_target_id f) of
        None \<Rightarrow> None
      | Some t \<Rightarrow>
          (case fewest_days (map sr_days_to_fix (group_rules db t (f_severity f))) of
             Some d \<Rightarrow> Some (d, FromGroup)
           | None \<Rightarrow> map_option (\<lambda>r. (sr_days_to_fix r, WorkspaceDefault)) (default_rule db t (f_severity f))))"

definition resolve_sla_days :: "db \<Rightarrow> finding \<Rightarrow> int option" where
  "resolve_sla_days db f = map_option fst (resolve_sla_days_with_source db f)"

definition compute_sla_status :: "timestamp \<Rightarrow> db \<Rightarrow> finding \<Rightarrow> int option \<times> bool" where
  "compute_sla_status now db f =
     (case resolve_sla_days db f of
        None \<Rightarrow> (None, False)
      | Some d \<Rightarrow>
          if f_state f \<in> set CLOSED_STATES then (Some d, False)
          else (Some d, now - f_first_seen f > days d))"

text \<open>A group's rule is never loosened: the days that apply are a rule's own, and no rule of a
  group of the target for that severity asks for fewer.\<close>

lemma group_rule_wins:
  assumes "get_target db (f_target_id f) = Some t" and "r \<in> set (group_rules db t (f_severity f))"
  shows "\<exists>d. resolve_sla_days_with_source db f = Some (d, FromGroup) \<and> d \<le> sr_days_to_fix r \<and>
    d \<in> sr_days_to_fix ` set (group_rules db t (f_severity f))"
proof -
  have "sr_days_to_fix r \<in> set (map sr_days_to_fix (group_rules db t (f_severity f)))" using assms(2) by simp
  from strictest.pick_best [OF this] obtain d where
    "fewest_days (map sr_days_to_fix (group_rules db t (f_severity f))) = Some d" "d \<le> sr_days_to_fix r" by auto
  with strictest.pick_mem assms(1) show ?thesis by (force simp: resolve_sla_days_with_source_def)
qed

lemma violation_iff:
  "snd (compute_sla_status now db f) \<longleftrightarrow>
     (\<exists>d. resolve_sla_days db f = Some d \<and> f_state f \<in> set OPEN_FINDING_STATES \<and> f_first_seen f + days d < now)"
  by (auto simp: compute_sla_status_def closed_or_open split: option.split)

text \<open>Once violated, a finding stays violated until it is closed or its rule changes.\<close>

lemma violation_persists:
  "snd (compute_sla_status now db f) \<Longrightarrow> now \<le> later \<Longrightarrow> snd (compute_sla_status later db f)"
  by (auto simp: violation_iff)

end
