(* ===== verification/ToolRegistry.thy ===== *)
theory ToolRegistry
  imports Tables
begin

text \<open>
  The scanner registry and its usage assignments: \<open>core/tool_registry.py\<close>, the keys of
  \<open>TOOL_COMMANDS\<close> (\<open>scanners/runner.py\<close>) and \<open>PARSER_MAP\<close> (\<open>scanners/parsers.py\<close>), and
  \<open>core/tool_usage.py\<close>.  Of a registry entry only the tool, its category and whether it has a pip
  package are kept; the texts the UI shows are not.
\<close>

record registry_entry =
  re_tool :: string
  re_category :: string
  re_pip :: bool

definition TOOL_REGISTRY :: "registry_entry list" where
  "TOOL_REGISTRY = map (\<lambda>(t, c, p). \<lparr>re_tool = t, re_category = c, re_pip = p\<rparr>)
     [(''semgrep'', ''SAST'', True), (''gitleaks'', ''Secrets'', False), (''noseyparker'', ''Secrets'', False),
      (''trivy'', ''SCA'', False), (''trivy-license'', ''License'', False), (''gosec'', ''SAST'', False),
      (''checkov'', ''IaC'', True), (''tfsec'', ''IaC'', False), (''modelscan'', ''AI/ML'', True),
      (''semgrep-llm'', ''AI/ML'', True), (''semgrep-core'', ''SAST'', True), (''semgrep-registry'', ''SAST'', True),
      (''garak'', ''AI/ML'', True), (''medusa'', ''AI/ML'', True), (''snyk-agent-scan'', ''AI/ML'', True),
      (''cisco-aibom'', ''AI/ML'', True), (''kics'', ''IaC'', False), (''nuclei'', ''API/DAST'', False)]"

definition TOOL_COMMANDS :: "string list" where
  "TOOL_COMMANDS = [''semgrep'', ''semgrep-llm'', ''semgrep-core'', ''semgrep-registry'', ''noseyparker'', ''gitleaks'',
     ''trivy'', ''trivy-license'', ''gosec'', ''checkov'', ''tfsec'', ''modelscan'']"

definition PARSER_MAP :: "string list" where
  "PARSER_MAP = [''semgrep'', ''semgrep-llm'', ''semgrep-core'', ''semgrep-registry'', ''gitleaks'', ''noseyparker'',
     ''trivy'', ''trivy-license'', ''gosec'', ''checkov'', ''tfsec'', ''modelscan'']"

definition BUNDLED_TOOLS :: "string list" where
  "BUNDLED_TOOLS = [''semgrep'', ''semgrep-llm'', ''semgrep-core'', ''semgrep-registry'', ''gitleaks'', ''trivy'',
     ''trivy-license'', ''gosec'', ''modelscan'']"

definition OPT_IN_TOOLS :: "string list" where "OPT_IN_TOOLS = [''noseyparker'']"
definition DEEP_SCAN_ONLY_TOOLS :: "string list" where "DEEP_SCAN_ONLY_TOOLS = [''semgrep-registry'']"

datatype usage_surface = ON_DEMAND_SCAN | CI_PIPELINE | API_SCAN_SURFACE | PR_GUARDRAIL

definition USAGE_SURFACES :: "(string \<times> usage_surface) list" where
  "USAGE_SURFACES = [(''on_demand_scan'', ON_DEMAND_SCAN), (''ci_pipeline'', CI_PIPELINE),
     (''api_scan'', API_SCAN_SURFACE), (''pr_guardrail'', PR_GUARDRAIL)]"

definition default_usage_for :: "string \<Rightarrow> usage_surface \<Rightarrow> bool" where
  "default_usage_for tool surface =
     (let integrated = tool \<in> set TOOL_COMMANDS \<and> tool \<notin> set OPT_IN_TOOLS;
          deep_only = tool \<in> set DEEP_SCAN_ONLY_TOOLS
      in case surface of
           ON_DEMAND_SCAN \<Rightarrow> integrated
         | CI_PIPELINE \<Rightarrow> integrated \<and> \<not> deep_only
         | API_SCAN_SURFACE \<Rightarrow> tool = ''nuclei''
         | PR_GUARDRAIL \<Rightarrow> integrated \<and> \<not> deep_only)"

subsection \<open>Categories\<close>

definition EXTRA_TOOL_CATEGORIES :: "(string \<times> string) list" where
  "EXTRA_TOOL_CATEGORIES = [(''api-scan'', ''API/DAST''), (''osv-malware'', ''Malicious Package'')]"

definition UNKNOWN_TOOL_CATEGORY :: string where "UNKNOWN_TOOL_CATEGORY = ''Other''"

definition tool_category :: "string \<Rightarrow> string" where
  "tool_category tool =
     (case List.find (\<lambda>e. re_tool e = tool) TOOL_REGISTRY of
        Some e \<Rightarrow> re_category e
      | None \<Rightarrow> (case map_of EXTRA_TOOL_CATEGORIES tool of Some c \<Rightarrow> c | None \<Rightarrow> UNKNOWN_TOOL_CATEGORY))"

definition all_known_tools :: "string list" where
  "all_known_tools = map re_tool TOOL_REGISTRY @ map fst EXTRA_TOOL_CATEGORIES"

definition tools_in_category :: "string \<Rightarrow> string list" where
  "tools_in_category category =
     map re_tool (filter (\<lambda>e. re_category e = category) TOOL_REGISTRY)
     @ map fst (filter (\<lambda>(t, c). c = category) EXTRA_TOOL_CATEGORIES)"

definition all_categories :: "string list" where
  "all_categories =
     sort_str (remdups (UNKNOWN_TOOL_CATEGORY # map re_category TOOL_REGISTRY @ map snd EXTRA_TOOL_CATEGORIES))"

definition NON_VULNERABILITY_CATEGORIES :: "string list" where
  "NON_VULNERABILITY_CATEGORIES = [''License'']"

definition vulnerability_tools :: "string list" where
  "vulnerability_tools = filter (\<lambda>t. tool_category t \<notin> set NON_VULNERABILITY_CATEGORIES) all_known_tools"

record registry_status =
  rs_entry :: registry_entry
  rs_integrated :: bool
  rs_bundled :: bool
  rs_installable :: bool

definition registry_with_integration_status :: "registry_status list" where
  "registry_with_integration_status =
     map (\<lambda>e. \<lparr>rs_entry = e, rs_integrated = re_tool e \<in> set TOOL_COMMANDS,
              rs_bundled = re_tool e \<in> set BUNDLED_TOOLS, rs_installable = re_pip e\<rparr>) TOOL_REGISTRY"

text \<open>Filtering by category in SQL and deriving the category of a row agree, for every category
  the page offers and every tool name a caller may have sent.\<close>

lemma category_filters_agree:
  "(category \<noteq> UNKNOWN_TOOL_CATEGORY \<longrightarrow> (tool \<in> set (tools_in_category category) \<longleftrightarrow> tool_category tool = category)) \<and>
   (tool \<notin> set all_known_tools \<longleftrightarrow> tool_category tool = UNKNOWN_TOOL_CATEGORY)"
proof -
  have d: "distinct all_known_tools" by code_simp
  have other: "UNKNOWN_TOOL_CATEGORY \<notin> set (map re_category TOOL_REGISTRY @ map snd EXTRA_TOOL_CATEGORIES)"
    by code_simp
  have reg: "tool_category (re_tool e) = re_category e" if "e \<in> set TOOL_REGISTRY" for e
  proof -
    have "distinct (map re_tool TOOL_REGISTRY)" using d by (simp add: all_known_tools_def)
    then have "List.find (\<lambda>e'. re_tool e' = re_tool e) TOOL_REGISTRY = Some e"
      using that by (intro find_unique) (auto simp: distinct_map dest: inj_onD)
    then show ?thesis by (simp add: tool_category_def)
  qed
  have extra: "tool_category t = c" if "(t, c) \<in> set EXTRA_TOOL_CATEGORIES" for t c
  proof -
    have "t \<in> fst ` set EXTRA_TOOL_CATEGORIES" using that by force
    then have "t \<notin> re_tool ` set TOOL_REGISTRY" and k: "distinct (map fst EXTRA_TOOL_CATEGORIES)"
      using d by (auto simp: all_known_tools_def)
    then have "List.find (\<lambda>e. re_tool e = t) TOOL_REGISTRY = None" by (auto simp: find_None)
    moreover have "map_of EXTRA_TOOL_CATEGORIES t = Some c" using that k by simp
    ultimately show ?thesis by (simp add: tool_category_def)
  qed
  have unknown: "tool_category tool = UNKNOWN_TOOL_CATEGORY" if "tool \<notin> set all_known_tools"
  proof -
    have "List.find (\<lambda>e. re_tool e = tool) TOOL_REGISTRY = None"
      using that by (auto simp: all_known_tools_def find_None)
    moreover have "map_of EXTRA_TOOL_CATEGORIES tool = None"
      using that by (simp add: all_known_tools_def map_of_eq_None_iff)
    ultimately show ?thesis by (simp add: tool_category_def)
  qed
  have known: "(\<exists>e\<in>set TOOL_REGISTRY. tool = re_tool e) \<or> (\<exists>c. (tool, c) \<in> set EXTRA_TOOL_CATEGORIES)"
    if "tool \<in> set all_known_tools" using that by (auto simp: all_known_tools_def)
  have "tool_category tool \<noteq> UNKNOWN_TOOL_CATEGORY" if "tool \<in> set all_known_tools"
    using known [OF that] other reg extra by (auto simp: image_iff)
  moreover have "tool \<in> set (tools_in_category category) \<longleftrightarrow> tool_category tool = category"
    if c: "category \<noteq> UNKNOWN_TOOL_CATEGORY"
  proof
    assume "tool \<in> set (tools_in_category category)"
    then show "tool_category tool = category" using reg extra by (auto simp: tools_in_category_def)
  next
    assume t: "tool_category tool = category"
    with unknown c have "tool \<in> set all_known_tools" by metis
    from known [OF this] show "tool \<in> set (tools_in_category category)"
    proof (elim disjE bexE exE)
      fix e assume "e \<in> set TOOL_REGISTRY" "tool = re_tool e"
      with reg t show ?thesis by (auto simp: tools_in_category_def)
    next
      fix d assume "(tool, d) \<in> set EXTRA_TOOL_CATEGORIES"
      with extra t show ?thesis by (force simp: tools_in_category_def)
    qed
  qed
  ultimately show ?thesis using unknown by blast
qed

subsection \<open>Usage assignments\<close>

record workspace_tool_config =
  wt_workspace_id :: row_id
  wt_tool :: string
  wt_on_demand_scan :: bool
  wt_ci_pipeline :: bool
  wt_api_scan :: bool
  wt_pr_guardrail :: bool

definition surface_flag :: "usage_surface \<Rightarrow> workspace_tool_config \<Rightarrow> bool" where
  "surface_flag surface cfg =
     (case surface of ON_DEMAND_SCAN \<Rightarrow> wt_on_demand_scan cfg | CI_PIPELINE \<Rightarrow> wt_ci_pipeline cfg
      | API_SCAN_SURFACE \<Rightarrow> wt_api_scan cfg | PR_GUARDRAIL \<Rightarrow> wt_pr_guardrail cfg)"

definition runnable_tools :: "string set" where
  "runnable_tools = set TOOL_COMMANDS \<inter> set PARSER_MAP"

definition is_nuclei_enabled_for_api_scan :: "workspace_tool_config list \<Rightarrow> row_id \<Rightarrow> bool" where
  "is_nuclei_enabled_for_api_scan rows workspace_id =
     (case List.find (\<lambda>c. wt_workspace_id c = workspace_id \<and> wt_tool c = ''nuclei'') rows of
        Some c \<Rightarrow> wt_api_scan c
      | None \<Rightarrow> default_usage_for ''nuclei'' API_SCAN_SURFACE)"

text \<open>The dict comprehension keeps the last row of a tool.\<close>

definition saved_config :: "workspace_tool_config list \<Rightarrow> row_id \<Rightarrow> string \<Rightarrow> workspace_tool_config option" where
  "saved_config rows workspace_id tool =
     List.find (\<lambda>c. wt_tool c = tool) (rev (filter (\<lambda>c. wt_workspace_id c = workspace_id) rows))"

definition tools_for_surface ::
  "workspace_tool_config list \<Rightarrow> row_id \<Rightarrow> string \<Rightarrow> string + string list" where
  "tools_for_surface rows workspace_id surface =
     (case map_of USAGE_SURFACES surface of
        None \<Rightarrow> Inl surface
      | Some s \<Rightarrow>
          Inr (filter (\<lambda>tool. tool \<in> runnable_tools \<and>
             (case saved_config rows workspace_id tool of
                Some cfg \<Rightarrow> surface_flag s cfg | None \<Rightarrow> default_usage_for tool s))
             (map re_tool TOOL_REGISTRY)))"

text \<open>What an unconfigured workspace runs, per surface.\<close>

lemma default_tools:
  "tools_for_surface [] ws ''pr_guardrail'' = Inr [''semgrep'', ''gitleaks'', ''trivy'', ''trivy-license'', ''gosec'',
     ''checkov'', ''tfsec'', ''modelscan'', ''semgrep-llm'', ''semgrep-core'']"
  "tools_for_surface [] ws ''on_demand_scan'' = Inr [''semgrep'', ''gitleaks'', ''trivy'', ''trivy-license'', ''gosec'',
     ''checkov'', ''tfsec'', ''modelscan'', ''semgrep-llm'', ''semgrep-core'', ''semgrep-registry'']"
  "tools_for_surface [] ws ''api_scan'' = Inr []"
  by code_simp+

lemma assigned_tools_run:
  assumes "tools_for_surface rows ws surface = Inr tools" and "tool \<in> set tools"
  shows "tool \<in> set TOOL_COMMANDS \<and> tool \<in> set PARSER_MAP \<and>
    (\<forall>cfg. saved_config rows ws tool = Some cfg \<longrightarrow>
       (\<forall>s. map_of USAGE_SURFACES surface = Some s \<longrightarrow> surface_flag s cfg))"
  using assms by (auto simp: tools_for_surface_def runnable_tools_def split: option.splits)

end
