(* ===== verification/SecurityScore.thy ===== *)
theory SecurityScore
  imports Sla ToolRegistry IngestSteps
begin

text \<open>
  The composite health score: \<open>core/security_score.py\<close>.  Every component is computed from the
  tables; the composite is the weighted mean of the components that could be measured.  Floats
  are exact rationals, rounded where the code rounds.
\<close>

subsection \<open>Constants\<close>

definition FINDINGS_SCORE_HALF_LIFE :: rat where "FINDINGS_SCORE_HALF_LIFE = 10"
definition category_risk_weight :: "string \<Rightarrow> rat" where
  "category_risk_weight category = (if category \<in> set NON_VULNERABILITY_CATEGORIES then 0 else 1)"
definition COVERAGE_WINDOW_DAYS :: int where "COVERAGE_WINDOW_DAYS = 30"
definition TREND_WINDOW_DAYS :: int where "TREND_WINDOW_DAYS = 7"
definition FINDINGS_WEIGHT :: int where "FINDINGS_WEIGHT = 35"
definition SLA_WEIGHT :: int where "SLA_WEIGHT = 25"
definition COVERAGE_WEIGHT :: int where "COVERAGE_WEIGHT = 15"
definition FP_WEIGHT :: int where "FP_WEIGHT = 10"
definition TREND_WEIGHT :: int where "TREND_WEIGHT = 15"

definition GRADE_THRESHOLDS :: "(rat \<times> string) list" where
  "GRADE_THRESHOLDS = [(90, ''A''), (80, ''B''), (70, ''C''), (60, ''D''), (0, ''F'')]"

definition grade :: "rat \<Rightarrow> string" where
  "grade x = (case List.find (\<lambda>(th, _). th \<le> x) GRADE_THRESHOLDS of Some (_, l) \<Rightarrow> l | None \<Rightarrow> ''F'')"

subsection \<open>Weights\<close>

definition target_of :: "target list \<Rightarrow> row_id \<Rightarrow> target option" where
  "target_of ts i = List.find (\<lambda>t. t_id t = i) ts"

definition default_branch_findings :: "db \<Rightarrow> target list \<Rightarrow> finding list" where
  "default_branch_findings db ts =
     filter (\<lambda>f. case target_of ts (f_target_id f) of None \<Rightarrow> False | Some t \<Rightarrow> f_branch f = t_default_branch t)
       (d_findings db)"

definition finding_risk_weight :: "target list \<Rightarrow> finding \<Rightarrow> rat" where
  "finding_risk_weight ts f =
     (let criticality = (case target_of ts (f_target_id f) of
                           None \<Rightarrow> 1 | Some t \<Rightarrow> max 1 (min 5 (t_criticality_weight t)))
      in of_int (SEVERITY_WEIGHT (f_severity f) * criticality) * category_risk_weight (tool_category (f_tool f)))"

definition total_criticality :: "target list \<Rightarrow> int" where
  "total_criticality ts = sum_list (map (\<lambda>t. max 1 (min 5 (t_criticality_weight t))) ts)"

subsection \<open>The components\<close>

datatype direction = Stable | Improving | Worsening | UnknownDirection

datatype component_detail =
    FindingsDetail nat nat nat rat rat
  | SlaDetail nat nat nat
  | CoverageDetail nat nat nat
  | FpDetail nat nat rat
  | TrendDetail direction rat "rat option"

record component =
  co_score :: "rat option"
  co_weight :: int
  co_measurable :: bool
  co_detail :: component_detail

definition measured_component :: "rat \<Rightarrow> int \<Rightarrow> component_detail \<Rightarrow> component" where
  "measured_component x weight detail =
     \<lparr>co_score = Some (py_round_to 1 x), co_weight = weight, co_measurable = True, co_detail = detail\<rparr>"

definition is_vulnerability :: "finding \<Rightarrow> bool" where
  "is_vulnerability f \<longleftrightarrow> tool_category (f_tool f) \<notin> set NON_VULNERABILITY_CATEGORIES"

definition findings_score :: "target list \<Rightarrow> finding list \<Rightarrow> component" where
  "findings_score ts open_findings =
     (let weighted_sum = sum_list (map (finding_risk_weight ts) open_findings);
          avg = weighted_sum / of_int (max 1 (total_criticality ts));
          excluded = length (filter (\<lambda>f. \<not> is_vulnerability f) open_findings)
      in measured_component (100 * FINDINGS_SCORE_HALF_LIFE / (avg + FINDINGS_SCORE_HALF_LIFE)) FINDINGS_WEIGHT
           (FindingsDetail (length open_findings) (length open_findings - excluded) excluded
              (py_round_to 2 weighted_sum) (py_round_to 2 avg)))"

definition sla_score :: "timestamp \<Rightarrow> db \<Rightarrow> finding list \<Rightarrow> component" where
  "sla_score now db open_findings =
     (let tracked = filter (\<lambda>f. is_vulnerability f \<and> fst (compute_sla_status now db f) \<noteq> None) open_findings;
          with_sla = length tracked;
          in_violation = length (filter (\<lambda>f. snd (compute_sla_status now db f)) tracked)
      in measured_component (if with_sla = 0 then 100 else 100 * of_nat (with_sla - in_violation) / of_nat with_sla)
           SLA_WEIGHT (SlaDetail with_sla in_violation (with_sla - in_violation)))"

definition coverage_score :: "timestamp \<Rightarrow> db \<Rightarrow> target list \<Rightarrow> component" where
  "coverage_score now db ts =
     (if ts = [] then measured_component 0 COVERAGE_WEIGHT (CoverageDetail 0 0 0)
      else (let scannable = map t_id (filter is_active ts);
                deactivated = length ts - length scannable
            in if scannable = [] then measured_component 100 COVERAGE_WEIGHT (CoverageDetail 0 0 deactivated)
               else (let cutoff = now - days COVERAGE_WINDOW_DAYS;
                         scanned = length (remdups (map s_target_id
                           (filter (\<lambda>s. s_target_id s \<in> set scannable \<and> cutoff \<le> s_started_at s) (d_scans db))));
                         total = length scannable
                     in measured_component (100 * of_nat scanned / of_nat total) COVERAGE_WEIGHT
                          (CoverageDetail scanned total deactivated))))"

definition fp_rate_score :: "db \<Rightarrow> target list \<Rightarrow> component" where
  "fp_rate_score db ts =
     (if ts = [] then measured_component 100 FP_WEIGHT (FpDetail 0 0 0)
      else (let seen = filter (\<lambda>f. f_target_id f \<in> t_id ` set ts) (d_findings db);
                fp = length (filter (\<lambda>f. f_state f = FALSE_POSITIVE) seen);
                rate = (if seen = [] then 0 else of_nat fp / of_nat (length seen))
            in measured_component (if seen = [] then 100 else 100 * (1 - rate)) FP_WEIGHT
                 (FpDetail fp (length seen) (py_round_to 4 rate))))"

subsection \<open>The trend\<close>

definition state_at :: "timestamp \<Rightarrow> timestamp \<Rightarrow> finding_state_log list \<Rightarrow> finding_state option" where
  "state_at as_of first_seen logs =
     (if first_seen > as_of then None
      else (let applicable = filter (\<lambda>l. l_created_at l \<le> as_of) logs
            in if applicable = [] then Some OPEN
               else Some (l_to_state (last (sort_key l_created_at applicable)))))"

definition open_at :: "timestamp \<Rightarrow> db \<Rightarrow> finding \<Rightarrow> bool" where
  "open_at as_of db f =
     (case state_at as_of (f_first_seen f) (logs_of db (f_id f)) of
        None \<Rightarrow> False | Some s \<Rightarrow> s \<notin> set CLOSED_STATES)"

definition weighted_open_sum_at :: "timestamp \<Rightarrow> db \<Rightarrow> target list \<Rightarrow> finding list \<Rightarrow> rat" where
  "weighted_open_sum_at as_of db ts fs =
     sum_list (map (finding_risk_weight ts) (filter (open_at as_of db) fs))"

definition targets_observed_before :: "timestamp \<Rightarrow> db \<Rightarrow> target list \<Rightarrow> finding list \<Rightarrow> row_id list" where
  "targets_observed_before as_of db ts fs =
     (let observed = map f_target_id (filter (\<lambda>f. f_first_seen f \<le> as_of) fs);
          remaining = filter (\<lambda>i. i \<notin> set observed) (map t_id ts)
      in observed @ map s_target_id
           (filter (\<lambda>s. s_target_id s \<in> set remaining \<and> s_started_at s \<le> as_of) (d_scans db)))"

definition unmeasurable_trend :: "rat \<Rightarrow> component" where
  "unmeasurable_trend current_sum =
     \<lparr>co_score = None, co_weight = TREND_WEIGHT, co_measurable = False,
      co_detail = TrendDetail UnknownDirection (py_round_to 1 current_sum) None\<rparr>"

definition trend_score :: "timestamp \<Rightarrow> db \<Rightarrow> target list \<Rightarrow> component" where
  "trend_score now db ts =
     (if ts = [] then unmeasurable_trend 0
      else (let fs = default_branch_findings db ts;
                prior_as_of = now - days TREND_WINDOW_DAYS;
                baseline = targets_observed_before prior_as_of db ts fs
            in if baseline = [] then unmeasurable_trend (weighted_open_sum_at now db ts fs)
               else (let compared = filter (\<lambda>f. f_target_id f \<in> set baseline) fs;
                         current_sum = weighted_open_sum_at now db ts compared;
                         prior_sum = weighted_open_sum_at prior_as_of db ts compared;
                         (x, dir) =
                           (if current_sum \<le> prior_sum then (100, if current_sum = prior_sum then Stable else Improving)
                            else (max 0 (100 - (current_sum - prior_sum) / max prior_sum 1 * 100), Worsening))
                     in measured_component x TREND_WEIGHT
                          (TrendDetail dir (py_round_to 1 current_sum) (Some (py_round_to 1 prior_sum))))))"

subsection \<open>The composite\<close>

record security_score =
  ss_score :: "rat option"
  ss_grade :: "string option"
  ss_target_count :: nat
  ss_weakest_component :: "string option"
  ss_components :: "(string \<times> component) list"

fun lowest_component :: "string \<times> component \<Rightarrow> (string \<times> component) list \<Rightarrow> string \<times> component" where
  "lowest_component best [] = best"
| "lowest_component best (c # cs) =
     lowest_component (if the (co_score (snd c)) < the (co_score (snd best)) then c else best) cs"

definition live_targets_of :: "db \<Rightarrow> row_id list \<Rightarrow> target list" where
  "live_targets_of db ids = filter (\<lambda>t. t_id t \<in> set ids) (live_targets (d_targets db))"

definition score_components :: "timestamp \<Rightarrow> db \<Rightarrow> target list \<Rightarrow> (string \<times> component) list" where
  "score_components now db ts =
     (let open_findings = filter (\<lambda>f. f_state f \<in> set OPEN_FINDING_STATES) (default_branch_findings db ts)
      in [(''findings'', findings_score ts open_findings), (''sla'', sla_score now db open_findings),
          (''coverage'', coverage_score now db ts), (''fp_rate'', fp_rate_score db ts),
          (''trend'', trend_score now db ts)])"

definition composite_score :: "target list \<Rightarrow> component list \<Rightarrow> rat option" where
  "composite_score ts measured =
     (let weight = sum_list (map co_weight measured) in
      if ts = [] then Some 0
      else if weight = 0 then None
      else Some (sum_list (map (\<lambda>c. the (co_score c) * of_int (co_weight c)) measured) / of_int weight))"

definition compute_security_score :: "timestamp \<Rightarrow> db \<Rightarrow> row_id list \<Rightarrow> security_score" where
  "compute_security_score now db ids =
     (let ts = live_targets_of db ids;
          components = score_components now db ts;
          measured = filter (\<lambda>c. co_measurable (snd c)) components;
          composite = composite_score ts (map snd measured);
          weakest = (if ts = [] then None
                     else (case measured of
                             [] \<Rightarrow> None
                           | c # cs \<Rightarrow> (let (name, detail) = lowest_component c cs in
                                        if the (co_score detail) < 100 then Some name else None)))
      in \<lparr>ss_score = map_option (py_round_to 1) composite,
          ss_grade = (if ts = [] then None else map_option grade composite),
          ss_target_count = length ts, ss_weakest_component = weakest, ss_components = components\<rparr>)"

subsection \<open>Scopes\<close>

datatype scope_error = MutuallyExclusive | TargetNotFound

definition visible_to :: "row_id list option \<Rightarrow> target \<Rightarrow> bool" where
  "visible_to ws t = (case ws of None \<Rightarrow> True | Some ids \<Rightarrow> t_workspace_id t \<in> set ids)"

definition resolve_target_ids_for_scope ::
  "db \<Rightarrow> row_id list option \<Rightarrow> row_id option \<Rightarrow> row_id option \<Rightarrow> row_id list option \<Rightarrow> scope_error + row_id list" where
  "resolve_target_ids_for_scope db ws target_id group_id target_ids =
     (if length (filter id [target_id \<noteq> None, group_id \<noteq> None, target_ids \<noteq> None]) > 1 then Inl MutuallyExclusive
      else if ws = Some [] then Inr []
      else (case (target_id, target_ids, group_id) of
              (Some i, _, _) \<Rightarrow>
                (case get_target db i of
                   None \<Rightarrow> Inl TargetNotFound
                 | Some t \<Rightarrow> if is_deleted t \<or> \<not> visible_to ws t then Inl TargetNotFound else Inr [i])
            | (None, Some is, _) \<Rightarrow>
                (let unique = rev (remdups (rev is)) in
                 if list_all (\<lambda>i. case target_of (live_targets (d_targets db)) i of
                       None \<Rightarrow> False | Some t \<Rightarrow> visible_to ws t) unique
                 then Inr unique else Inl TargetNotFound)
            | (None, None, Some g) \<Rightarrow>
                Inr (map t_id (concat (map (\<lambda>t. map (\<lambda>_. t) (filter (\<lambda>tg. tg_target_id tg = t_id t \<and> tg_group_id tg = g)
                      (d_target_groups db))) (filter (visible_to ws) (live_targets (d_targets db))))))
            | (None, None, None) \<Rightarrow> Inr (map t_id (filter (visible_to ws) (live_targets (d_targets db))))))"

end
