(* ===== verification/SecurityScoreProps.thy ===== *)
theory SecurityScoreProps
  imports SecurityScore
begin

text \<open>
  What the composite health score promises: every number is between 0 and 100, the composite is
  a mean of what was measured, and the trend counts the findings the score beside it counts.
\<close>

subsection \<open>Every component is a percentage\<close>

definition percentage :: "component \<Rightarrow> bool" where
  "percentage c \<longleftrightarrow> 0 < co_weight c \<and> (co_measurable c \<longleftrightarrow> co_score c \<noteq> None) \<and>
     (\<forall>x. co_score c = Some x \<longrightarrow> 0 \<le> x \<and> x \<le> 100 \<and> py_round_to 1 x = x)"

lemma py_round_to_idem: "py_round_to n (py_round_to n x) = py_round_to n x"
  by (simp add: py_round_to_def)

lemma percentage_measured:
  assumes "0 \<le> x" and "x \<le> 100" and "0 < weight"
  shows "percentage (measured_component x weight detail)"
proof -
  have "0 \<le> py_round_to 1 x" "py_round_to 1 x \<le> 100"
    using py_round_to_mono [OF assms(1), of 1] py_round_to_mono [OF assms(2), of 1] by simp_all
  with assms(3) show ?thesis by (simp add: percentage_def measured_component_def py_round_to_idem)
qed

lemma percentage_share:
  "(m :: nat) \<le> n \<Longrightarrow> 0 < n \<Longrightarrow> 0 < weight \<Longrightarrow>
   percentage (measured_component (100 * of_nat m / of_nat n) weight detail)"
  by (rule percentage_measured) (simp_all add: divide_le_eq mult_left_mono)

lemma risk_weight_nonneg: "0 \<le> finding_risk_weight ts f"
proof -
  have "0 \<le> SEVERITY_WEIGHT s" for s by (cases s) simp_all
  then show ?thesis
    by (auto simp: finding_risk_weight_def Let_def category_risk_weight_def split: option.split)
qed

lemma percentage_findings: "percentage (findings_score ts fs)"
proof -
  let ?avg = "sum_list (map (finding_risk_weight ts) fs) / of_int (max 1 (total_criticality ts))"
  have "0 \<le> sum_list (map (finding_risk_weight ts) fs)"
    by (rule sum_list_nonneg) (auto simp: risk_weight_nonneg)
  then have a: "0 \<le> ?avg" by (auto intro!: divide_nonneg_nonneg)
  have "0 \<le> 100 * FINDINGS_SCORE_HALF_LIFE / (?avg + FINDINGS_SCORE_HALF_LIFE)"
    "100 * FINDINGS_SCORE_HALF_LIFE / (?avg + FINDINGS_SCORE_HALF_LIFE) \<le> 100"
    using a by (simp_all add: FINDINGS_SCORE_HALF_LIFE_def divide_le_eq)
  then show ?thesis
    unfolding findings_score_def Let_def by (rule percentage_measured) (simp add: FINDINGS_WEIGHT_def)
qed

lemma percentage_sla: "percentage (sla_score now db fs)"
  unfolding sla_score_def Let_def
  by (cases "filter (\<lambda>f. is_vulnerability f \<and> fst (compute_sla_status now db f) \<noteq> None) fs = []")
    (auto intro!: percentage_measured percentage_share simp: SLA_WEIGHT_def)

lemma scanned_at_most:
  "length (remdups (map s_target_id (filter (\<lambda>s. s_target_id s \<in> set ids \<and> P s) ss))) \<le> length ids"
proof -
  have "card (s_target_id ` {s \<in> set ss. s_target_id s \<in> set ids \<and> P s}) \<le> card (set ids)"
    by (rule card_mono) auto
  also have "\<dots> \<le> length ids" by (rule card_length)
  finally show ?thesis by (simp add: length_remdups_card_conv)
qed

lemma percentage_coverage: "percentage (coverage_score now db ts)"
proof -
  have p: "percentage (measured_component (100 * of_nat (length (remdups (map s_target_id
      (filter (\<lambda>s. s_target_id s \<in> set ids \<and> P s) ss)))) / of_nat (length ids)) COVERAGE_WEIGHT d)"
    if "ids \<noteq> []" for ids P ss d
    by (rule percentage_share [OF scanned_at_most]) (simp_all add: that COVERAGE_WEIGHT_def)
  have "percentage (measured_component 0 COVERAGE_WEIGHT d)" "percentage (measured_component 100 COVERAGE_WEIGHT d)" for d
    by (rule percentage_measured; simp add: COVERAGE_WEIGHT_def)+
  note z = this
  show ?thesis
  proof (cases "ts = []")
    case False
    show ?thesis
    proof (cases "map t_id (filter is_active ts) = []")
      case scannable: False
      show ?thesis
        unfolding coverage_score_def Let_def by (simp only: False scannable if_False) (rule p [OF scannable])
    qed (simp only: coverage_score_def Let_def False if_False if_True simp_thms z)
  qed (simp only: coverage_score_def if_True simp_thms z)
qed

lemma percentage_fp: "percentage (fp_rate_score db ts)"
proof -
  have p: "percentage (measured_component (100 * (1 - of_nat (length (filter P xs)) / of_nat (length xs))) FP_WEIGHT d)"
    if "xs \<noteq> []" for P and xs :: "finding list" and d
    using that length_filter_le [of P xs]
    by (intro percentage_measured) (simp_all add: divide_le_eq FP_WEIGHT_def)
  have z: "percentage (measured_component 100 FP_WEIGHT d)" for d
    by (rule percentage_measured) (simp_all add: FP_WEIGHT_def)
  show ?thesis
  proof (cases "ts = [] \<or> filter (\<lambda>f. f_target_id f \<in> t_id ` set ts) (d_findings db) = []")
    case False
    then have "ts \<noteq> []" and seen: "filter (\<lambda>f. f_target_id f \<in> t_id ` set ts) (d_findings db) \<noteq> []" by auto
    then show ?thesis
      unfolding fp_rate_score_def Let_def by (simp only: if_False) (rule p [OF seen])
  qed (simp only: fp_rate_score_def Let_def z if_cancel split: if_split, blast?)
qed

lemma percentage_trend: "percentage (trend_score now db ts)"
proof -
  have "percentage (unmeasurable_trend x)" for x
    by (simp add: percentage_def unmeasurable_trend_def TREND_WEIGHT_def)
  moreover have "percentage (measured_component (max 0 (100 - (a - b) / max b 1 * 100)) TREND_WEIGHT d)"
    if "\<not> a \<le> b" for a b :: rat and d
    using that by (intro percentage_measured) (auto simp: TREND_WEIGHT_def)
  moreover have "percentage (measured_component 100 TREND_WEIGHT d)" for d
    by (intro percentage_measured) (simp_all add: TREND_WEIGHT_def)
  ultimately show ?thesis unfolding trend_score_def Let_def by (auto split: prod.splits if_splits)
qed

lemma percentages: "c \<in> set (score_components now db ts) \<Longrightarrow> percentage (snd c)"
  by (auto simp: score_components_def Let_def percentage_findings percentage_sla percentage_coverage
      percentage_fp percentage_trend)

lemma findings_measured: "\<exists>c\<in>set (score_components now db ts). co_measurable (snd c)"
  by (auto simp: score_components_def Let_def findings_score_def measured_component_def)

subsection \<open>The mean\<close>

lemma mean_bounds:
  assumes "\<forall>c\<in>set cs. 0 < co_weight c \<and> lo \<le> the (co_score c) \<and> the (co_score c) \<le> hi" and "cs \<noteq> []"
  shows "0 < sum_list (map co_weight cs) \<and>
    lo * of_int (sum_list (map co_weight cs)) \<le> sum_list (map (\<lambda>c. the (co_score c) * of_int (co_weight c)) cs) \<and>
    sum_list (map (\<lambda>c. the (co_score c) * of_int (co_weight c)) cs) \<le> hi * of_int (sum_list (map co_weight cs))"
  using assms
proof (induction cs)
  case (Cons c cs)
  have "lo * of_int (co_weight c) \<le> the (co_score c) * of_int (co_weight c)"
    "the (co_score c) * of_int (co_weight c) \<le> hi * of_int (co_weight c)"
    using Cons.prems(1) by (auto intro: mult_right_mono)
  with Cons show ?case by (cases "cs = []") (auto simp: distrib_left intro: add_mono)
qed simp

lemma lowest_component_spec:
  "lowest_component b cs \<in> insert b (set cs) \<and>
   (\<forall>c\<in>insert b (set cs). the (co_score (snd (lowest_component b cs))) \<le> the (co_score (snd c)))"
proof (induction cs arbitrary: b)
  case (Cons c cs)
  show ?case
    using Cons.IH [of c] Cons.IH [of b] by (auto intro: order_trans)
qed simp

lemma mean_range:
  assumes "\<forall>c\<in>set cs. percentage c \<and> co_measurable c" and "cs \<noteq> []" and "ts \<noteq> []"
  shows "\<exists>x. composite_score ts cs = Some x \<and>
    (\<exists>c\<in>set cs. the (co_score c) \<le> py_round_to 1 x) \<and> (\<exists>c\<in>set cs. py_round_to 1 x \<le> the (co_score c)) \<and>
    ((\<forall>c\<in>set cs. 100 \<le> the (co_score c)) \<longrightarrow> x = 100)"
proof -
  let ?v = "\<lambda>c. the (co_score c)" and ?w = "sum_list (map co_weight cs)"
  let ?sum = "sum_list (map (\<lambda>c. ?v c * of_int (co_weight c)) cs)"
  have fin: "finite (?v ` set cs)" "?v ` set cs \<noteq> {}" using assms(2) by auto
  from Min_in [OF fin] obtain lo where lo: "lo \<in> set cs" "?v lo = Min (?v ` set cs)" by auto
  from Max_in [OF fin] obtain hi where hi: "hi \<in> set cs" "?v hi = Max (?v ` set cs)" by auto
  have "\<forall>c\<in>set cs. 0 < co_weight c \<and> ?v lo \<le> ?v c \<and> ?v c \<le> ?v hi"
    using assms(1) lo hi by (auto simp: percentage_def)
  from mean_bounds [OF this assms(2)]
  have w: "0 < ?w" and b: "?v lo \<le> ?sum / of_int ?w" "?sum / of_int ?w \<le> ?v hi"
    by (auto simp: divide_le_eq le_divide_eq)
  have r: "py_round_to 1 (?v c) = ?v c" "?v c \<le> 100" if "c \<in> set cs" for c
    using assms(1) that by (auto simp: percentage_def)
  have c: "composite_score ts cs = Some (?sum / of_int ?w)"
    using w assms(3) by (simp add: composite_score_def)
  have "?v lo \<le> py_round_to 1 (?sum / of_int ?w)" "py_round_to 1 (?sum / of_int ?w) \<le> ?v hi"
    using py_round_to_mono [OF b(1), of 1] py_round_to_mono [OF b(2), of 1]
    by (simp_all only: r(1) [OF lo(1)] r(1) [OF hi(1)])
  moreover have "?sum / of_int ?w = 100" if "\<forall>c\<in>set cs. 100 \<le> ?v c"
  proof (rule antisym)
    show "?sum / of_int ?w \<le> 100" using b(2) r(2) [OF hi(1)] by (rule order_trans)
    show "100 \<le> ?sum / of_int ?w" using bspec [OF that lo(1)] b(1) by (rule order_trans)
  qed
  ultimately show ?thesis using c lo(1) hi(1) by blast
qed


definition composite_facts :: "security_score \<Rightarrow> bool" where
  "composite_facts r \<longleftrightarrow>
     (\<exists>x. ss_score r = Some x \<and> 0 \<le> x \<and> x \<le> 100 \<and> ss_grade r \<noteq> None \<and>
        (\<exists>c\<in>set (ss_components r). \<exists>y. co_score (snd c) = Some y \<and> y \<le> x) \<and>
        (\<exists>c\<in>set (ss_components r). \<exists>y. co_score (snd c) = Some y \<and> x \<le> y) \<and>
        (case ss_weakest_component r of
           None \<Rightarrow> x = 100 \<and> (\<forall>c\<in>set (ss_components r). \<forall>y. co_score (snd c) = Some y \<longrightarrow> y = 100)
         | Some name \<Rightarrow> \<exists>c\<in>set (ss_components r). fst c = name \<and>
             (\<exists>y. co_score (snd c) = Some y \<and> y < 100 \<and>
                (\<forall>d\<in>set (ss_components r). \<forall>z. co_score (snd d) = Some z \<longrightarrow> y \<le> z))))"

lemma measured_value:
  "percentage c \<Longrightarrow> co_measurable c \<Longrightarrow> co_score c = Some (the (co_score c)) \<and> 0 \<le> the (co_score c) \<and> the (co_score c) \<le> 100"
  by (auto simp: percentage_def)

lemma composite_facts_hold:
  assumes "live_targets_of db ids \<noteq> []"
  shows "composite_facts (compute_security_score now db ids)"
proof -
  let ?ts = "live_targets_of db ids" and ?v = "\<lambda>c. the (co_score (snd c))"
  let ?cs = "score_components now db ?ts"
  let ?ms = "filter (\<lambda>c. co_measurable (snd c)) ?cs"
  have p: "percentage (snd c)" if "c \<in> set ?cs" for c using that by (rule percentages)
  have pm: "co_score (snd c) = Some (?v c) \<and> 0 \<le> ?v c \<and> ?v c \<le> 100" if "c \<in> set ?ms" for c
    using that measured_value [OF p] by auto
  have mem: "c \<in> set ?ms" if "c \<in> set ?cs" "co_score (snd c) = Some y" for c y
    using that p by (auto simp: percentage_def)
  have ne: "?ms \<noteq> []" using findings_measured [of now db ?ts] by (auto simp: filter_empty_conv)
  have all: "\<forall>c\<in>set (map snd ?ms). percentage c \<and> co_measurable c" using p by auto
  obtain x where x: "composite_score ?ts (map snd ?ms) = Some x"
    and lo: "\<exists>c\<in>set ?ms. ?v c \<le> py_round_to 1 x" and hi: "\<exists>c\<in>set ?ms. py_round_to 1 x \<le> ?v c"
    and top: "(\<forall>c\<in>set ?ms. 100 \<le> ?v c) \<Longrightarrow> x = 100"
    using mean_range [OF all _ assms] ne by auto
  obtain c cs where ms: "?ms = c # cs" using ne by (cases ?ms) auto
  let ?w = "lowest_component c cs"
  have w: "?w \<in> set ?ms" "\<And>d. d \<in> set ?ms \<Longrightarrow> ?v ?w \<le> ?v d"
    using lowest_component_spec [of c cs] unfolding ms by auto
  have r: "compute_security_score now db ids =
      \<lparr>ss_score = Some (py_round_to 1 x), ss_grade = Some (grade x), ss_target_count = length ?ts,
       ss_weakest_component = (if ?v ?w < 100 then Some (fst ?w) else None), ss_components = ?cs\<rparr>"
    using x assms by (simp add: compute_security_score_def Let_def ms split: prod.split)
  have sub: "set ?ms \<subseteq> set ?cs" by auto
  have lo': "\<exists>c\<in>set ?cs. \<exists>y. co_score (snd c) = Some y \<and> y \<le> py_round_to 1 x"
    and hi': "\<exists>c\<in>set ?cs. \<exists>y. co_score (snd c) = Some y \<and> py_round_to 1 x \<le> y"
    using lo hi pm sub by blast+
  have "0 \<le> py_round_to 1 x" "py_round_to 1 x \<le> 100"
    using lo hi pm by (meson order_trans)+
  moreover have "py_round_to 1 x = 100 \<and> (\<forall>d\<in>set ?cs. \<forall>y. co_score (snd d) = Some y \<longrightarrow> y = 100)" if "\<not> ?v ?w < 100"
  proof -
    have h: "?v d = 100" if "d \<in> set ?ms" for d
      using \<open>\<not> ?v ?w < 100\<close> w(2) [OF that] pm [OF that] by linarith
    then have "x = 100" by (intro top) auto
    with h mem show ?thesis by fastforce
  qed
  moreover have "?v ?w \<le> z" if "d \<in> set ?cs" "co_score (snd d) = Some z" for d z
    using w(2) [OF mem [OF that]] that(2) by simp
  ultimately show ?thesis
    using lo' hi' pm [OF w(1)] w(1) sub unfolding composite_facts_def r by (auto intro!: bexI [of _ ?w])
qed

text \<open>for any tables and any scope that has a live target, the composite health score exists, is a
  number from 0 to 100 with a grade, and lies between the lowest and the highest component that
  could be measured; the component named weakest is one with the lowest score, below 100, and
  none is named exactly when every measured component, and so the composite, is 100.\<close>

theorem security_score_is_a_mean:
  assumes "live_targets_of db ids \<noteq> []"
  shows "composite_facts (compute_security_score now db ids)"
  using assms by (rule composite_facts_hold)

theorem security_score_is_a_mean_witness:
  "composite_facts (compute_security_score 50 triage_db [t_id example_target])"
  by (rule security_score_is_a_mean) code_simp

subsection \<open>The trend counts what the score counts\<close>

lemma replay_last: "replay s ls = Some s' \<Longrightarrow> ls \<noteq> [] \<Longrightarrow> l_to_state (last ls) = s'"
  by (induction ls arbitrary: s) (auto split: if_splits)

lemma sort_key_sorted: "sorted (map k xs) \<Longrightarrow> sort_key k xs = xs"
  by (induction xs) (simp_all add: insort_is_Cons)

lemma state_now:
  assumes "replay OPEN ls = Some s" and "sorted (map l_created_at ls)" and "\<forall>l\<in>set ls. l_created_at l \<le> now"
    and "first_seen \<le> now"
  shows "state_at now first_seen ls = Some s"
proof -
  have "filter (\<lambda>l. l_created_at l \<le> now) ls = ls" using assms(3) by simp
  then show ?thesis
    using assms replay_last [OF assms(1)] by (auto simp: state_at_def sort_key_sorted Let_def)
qed

text \<open>on an audited table whose log is in time order, the reconstruction the trend makes of a
  past moment, taken at the present one, is the state every finding is in: the sum the trend
  compares for now is the risk-weighted sum of the findings that are open, the one the findings
  component is computed from.\<close>

theorem trend_agrees_with_findings:
  assumes "audit_ok db" and "sorted (map l_created_at (d_logs db))" and "\<forall>l\<in>set (d_logs db). l_created_at l \<le> now"
    and "\<forall>f\<in>set (d_findings db). f_first_seen f \<le> now"
  shows "weighted_open_sum_at now db ts (default_branch_findings db ts) =
    sum_list (map (finding_risk_weight ts)
      (filter (\<lambda>f. f_state f \<in> set OPEN_FINDING_STATES) (default_branch_findings db ts)))"
proof -
  have "open_at now db f \<longleftrightarrow> f_state f \<in> set OPEN_FINDING_STATES" if "f \<in> set (default_branch_findings db ts)" for f
  proof -
    have f: "f \<in> set (d_findings db)" using that by (simp add: default_branch_findings_def)
    have "state_at now (f_first_seen f) (logs_of db (f_id f)) = Some (f_state f)"
    proof (rule state_now)
      show "replay OPEN (logs_of db (f_id f)) = Some (f_state f)" using assms(1) f by (simp add: audit_ok_def)
      show "sorted (map l_created_at (logs_of db (f_id f)))"
        using assms(2) by (simp add: logs_of_def sorted_filter)
    qed (use assms(3,4) f in \<open>auto simp: logs_of_def\<close>)
    then show ?thesis by (simp add: open_at_def closed_or_open)
  qed
  then have "filter (open_at now db) (default_branch_findings db ts) =
      filter (\<lambda>f. f_state f \<in> set OPEN_FINDING_STATES) (default_branch_findings db ts)"
    by (rule filter_cong [OF refl])
  then show ?thesis by (simp add: weighted_open_sum_at_def)
qed

theorem trend_agrees_with_findings_witness:
  "weighted_open_sum_at 50 triage_db [example_target] (default_branch_findings triage_db [example_target]) =
    sum_list (map (finding_risk_weight [example_target])
      (filter (\<lambda>f. f_state f \<in> set OPEN_FINDING_STATES) (default_branch_findings triage_db [example_target])))"
proof (rule trend_agrees_with_findings)
  show "audit_ok triage_db" by code_simp
  show "sorted (map l_created_at (d_logs triage_db))" by code_simp
  show "\<forall>l\<in>set (d_logs triage_db). l_created_at l \<le> 50" by code_simp
  show "\<forall>f\<in>set (d_findings triage_db). f_first_seen f \<le> 50" by code_simp
qed

end
