(* ===== verification/Json.thy ===== *)
theory Json
  imports Prelude "HOL-Library.Monad_Syntax"
begin

text \<open>
  JSON values as the code handles them: what \<open>json.loads\<close> returns, and the Python operations the
  parsers apply to a value whose type they do not check.  An operation is None where Python raises
  (an \<open>AttributeError\<close> of \<open>.get\<close> on a list, a \<open>TypeError\<close> of a loop over a number); a raise anywhere
  in a parser leaves the parser, so which exception it is does not matter to it.
\<close>

datatype json =
    JNull
  | JBool bool
  | JInt int
  | JFloat rat
  | JStr string
  | JArr "json list"
  | JObj "(string \<times> json) list"

definition is_true :: "json \<Rightarrow> bool" where
  "is_true j = (case j of JNull \<Rightarrow> False | JBool b \<Rightarrow> b | JInt i \<Rightarrow> i \<noteq> 0 | JFloat x \<Rightarrow> x \<noteq> 0
     | JStr s \<Rightarrow> s \<noteq> [] | JArr xs \<Rightarrow> xs \<noteq> [] | JObj kvs \<Rightarrow> kvs \<noteq> [])"

text \<open>\<open>a or b\<close>, \<open>j.get(key, d)\<close>, \<open>j.get(key)\<close>, \<open>j.get(key) or d\<close>, \<open>for x in j\<close> and
  \<open>key in j\<close>.\<close>

definition py_or :: "json \<Rightarrow> json \<Rightarrow> json" where "py_or a b = (if is_true a then a else b)"

definition jget :: "string \<Rightarrow> json \<Rightarrow> json \<Rightarrow> json option" where
  "jget key dflt j =
     (case j of JObj kvs \<Rightarrow> Some (case map_of kvs key of None \<Rightarrow> dflt | Some v \<Rightarrow> v) | _ \<Rightarrow> None)"

definition jget_or :: "string \<Rightarrow> json \<Rightarrow> json \<Rightarrow> json option" where
  "jget_or key dflt j = map_option (\<lambda>v. py_or v dflt) (jget key JNull j)"

definition elements :: "json \<Rightarrow> json list option" where
  "elements j =
     (case j of JArr xs \<Rightarrow> Some xs | JStr s \<Rightarrow> Some (map (\<lambda>c. JStr [c]) s)
      | JObj kvs \<Rightarrow> Some (map (JStr \<circ> fst) kvs) | _ \<Rightarrow> None)"

definition member_of :: "string \<Rightarrow> json \<Rightarrow> bool option" where
  "member_of key j =
     (case j of JObj kvs \<Rightarrow> Some (key \<in> fst ` set kvs) | JStr s \<Rightarrow> Some (str_contains key s)
      | JArr xs \<Rightarrow> Some (JStr key \<in> set xs) | _ \<Rightarrow> None)"

text \<open>A value where the code calls a method of \<open>str\<close>, and \<open>j[i]\<close> for \<open>i\<close> 0 or 1.\<close>

definition as_str :: "json \<Rightarrow> string option" where
  "as_str j = (case j of JStr s \<Rightarrow> Some s | _ \<Rightarrow> None)"

definition item_at :: "nat \<Rightarrow> json \<Rightarrow> json option" where
  "item_at i j =
     (case j of JArr xs \<Rightarrow> if i < length xs then Some (xs ! i) else None
      | JStr s \<Rightarrow> if i < length s then Some (JStr [s ! i]) else None | _ \<Rightarrow> None)"

definition json_len :: "json \<Rightarrow> nat option" where
  "json_len j = (case j of JArr xs \<Rightarrow> Some (length xs) | JStr s \<Rightarrow> Some (length s)
     | JObj kvs \<Rightarrow> Some (length kvs) | _ \<Rightarrow> None)"

definition is_arr :: "json \<Rightarrow> bool" where "is_arr j = (case j of JArr _ \<Rightarrow> True | _ \<Rightarrow> False)"
definition is_obj :: "json \<Rightarrow> bool" where "is_obj j = (case j of JObj _ \<Rightarrow> True | _ \<Rightarrow> False)"

text \<open>Dictionary keys: a list or a dict is not hashable, and a number equals the Boolean or the
  float of the same value.\<close>

definition hashable :: "json \<Rightarrow> bool" where "hashable j \<longleftrightarrow> \<not> is_arr j \<and> \<not> is_obj j"

definition numeric :: "json \<Rightarrow> rat option" where
  "numeric j = (case j of JBool b \<Rightarrow> Some (if b then 1 else 0) | JInt i \<Rightarrow> Some (of_int i)
     | JFloat x \<Rightarrow> Some x | _ \<Rightarrow> None)"

definition same_key :: "json \<Rightarrow> json \<Rightarrow> bool" where
  "same_key a b \<longleftrightarrow> (case (numeric a, numeric b) of (Some x, Some y) \<Rightarrow> x = y | _ \<Rightarrow> a = b)"

text \<open>A value for a column that holds an integer or text, or null.\<close>

definition opt_int :: "json \<Rightarrow> int option option" where
  "opt_int j = (case j of JNull \<Rightarrow> Some None | JInt i \<Rightarrow> Some (Some i) | _ \<Rightarrow> None)"

definition opt_str :: "json \<Rightarrow> string option option" where
  "opt_str j = (case j of JNull \<Rightarrow> Some None | JStr s \<Rightarrow> Some (Some s) | _ \<Rightarrow> None)"

text \<open>A loop that appends one item per round.\<close>

definition collect :: "('a \<Rightarrow> 'b option) \<Rightarrow> 'a list \<Rightarrow> 'b list option" where
  "collect f xs = those (map f xs)"

lemma bind_is_Some: "(x \<bind> f) = Some y \<longleftrightarrow> (\<exists>a. x = Some a \<and> f a = Some y)"
  by (cases x) auto

lemma collect_Nil [simp]: "collect f [] = Some []"
  by (simp add: collect_def)

lemma collect_Cons [simp]:
  "collect f (x # xs) = (case f x of None \<Rightarrow> None | Some y \<Rightarrow> map_option ((#) y) (collect f xs))"
  by (simp add: collect_def split: option.split)

lemma collect_Some_iff:
  "collect f xs = Some ys \<longleftrightarrow> length ys = length xs \<and> (\<forall>i<length xs. f (xs ! i) = Some (ys ! i))"
proof (induction xs arbitrary: ys)
  case (Cons x xs)
  show ?case
    by (cases ys) (auto simp: Cons.IH nth_Cons' less_Suc_eq_0_disj split: option.split)
qed auto

lemma collect_length: "collect f xs = Some ys \<Longrightarrow> length ys = length xs"
  by (simp add: collect_Some_iff)

lemma collect_map: "(\<And>x. x \<in> set xs \<Longrightarrow> f x = Some (g x)) \<Longrightarrow> collect f xs = Some (map g xs)"
  by (induction xs) auto

lemma collect_cong [fundef_cong]:
  "xs = ys \<Longrightarrow> (\<And>x. x \<in> set ys \<Longrightarrow> f x = g x) \<Longrightarrow> collect f xs = collect g ys"
  by (auto simp: collect_def intro: map_cong arg_cong [where f = those])

lemma collect_mem:
  assumes "collect f xs = Some ys" and "y \<in> set ys"
  shows "\<exists>x\<in>set xs. f x = Some y"
  using assms by (induction xs arbitrary: ys) (auto split: option.splits)

lemma collect_None: "collect f xs = None \<longleftrightarrow> (\<exists>x\<in>set xs. f x = None)"
  by (induction xs) (auto split: option.split)

subsection \<open>Facts about the operations\<close>

lemma jget_simps [simp]:
  "jget k d (JObj kvs) = Some (case map_of kvs k of None \<Rightarrow> d | Some v \<Rightarrow> v)"
  "jget k d JNull = None" "jget k d (JBool b) = None" "jget k d (JInt i) = None"
  "jget k d (JFloat x) = None" "jget k d (JStr s) = None" "jget k d (JArr xs) = None"
  by (simp_all add: jget_def)

lemma elements_simps [simp]:
  "elements (JArr xs) = Some xs" "elements (JStr s) = Some (map (\<lambda>c. JStr [c]) s)"
  "elements (JObj kvs) = Some (map (JStr \<circ> fst) kvs)" "elements JNull = None"
  "elements (JBool b) = None" "elements (JInt i) = None" "elements (JFloat x) = None"
  by (simp_all add: elements_def)

lemma as_str_simps [simp]:
  "as_str (JStr s) = Some s" "as_str JNull = None" "as_str (JBool b) = None" "as_str (JInt i) = None"
  "as_str (JFloat x) = None" "as_str (JArr xs) = None" "as_str (JObj kvs) = None"
  by (simp_all add: as_str_def)

lemma is_true_simps [simp]:
  "is_true JNull = False" "is_true (JBool b) = b" "is_true (JInt i) = (i \<noteq> 0)"
  "is_true (JFloat x) = (x \<noteq> 0)" "is_true (JStr s) = (s \<noteq> [])" "is_true (JArr xs) = (xs \<noteq> [])"
  "is_true (JObj kvs) = (kvs \<noteq> [])"
  by (simp_all add: is_true_def)

lemma py_or_self [simp]: "py_or a JNull = (if is_true a then a else JNull)"
  by (simp add: py_or_def)

lemma jget_or_obj: "jget_or k d (JObj kvs) = Some (py_or (case map_of kvs k of None \<Rightarrow> JNull | Some v \<Rightarrow> v) d)"
  by (simp add: jget_or_def)

lemma jget_is_obj: "jget k d j = Some v \<Longrightarrow> is_obj j"
  by (cases j) (simp_all add: is_obj_def)

lemma hashable_simps [simp]:
  "hashable JNull" "hashable (JBool b)" "hashable (JInt i)" "hashable (JFloat x)" "hashable (JStr s)"
  "\<not> hashable (JArr xs)" "\<not> hashable (JObj kvs)"
  by (simp_all add: hashable_def is_arr_def is_obj_def)

lemma same_key_str [simp]: "same_key (JStr s) j \<longleftrightarrow> j = JStr s"
  by (auto simp: same_key_def numeric_def split: option.split)

end
