(* ===== verification/Parsers.thy ===== *)
theory Parsers
  imports Json Ingestion ToolRegistry
begin

text \<open>
  \<open>scanners/parsers.py\<close>: a scanner's JSON report becomes a list of items.  The parsers do not check
  the report's types, so an item's fields are JSON values and every parser is None where the code
  raises.  The text \<open>str()\<close> makes of a value that is a float, a list or a dict is the argument
  \<open>show\<close>; the other cases are written out.
\<close>

subsection \<open>Titles and severities\<close>

definition MAX_TITLE_LENGTH :: nat where "MAX_TITLE_LENGTH = 200"

definition ELLIPSIS :: char where "ELLIPSIS = CHR 0x85"

text \<open>\<open>cut.rsplit(None, 1)[0]\<close>: None (an \<open>IndexError\<close>) when there is no word at all.\<close>

definition rsplit_first :: "string \<Rightarrow> string option" where
  "rsplit_first head =
     (let t = str_rstrip head;
          word = rev (takeWhile (\<lambda>c. \<not> is_space c) (rev t));
          rest = str_rstrip (take (length t - length word) t)
      in if t = [] then None else Some (if rest = [] then word else rest))"

definition truncate_text :: "string \<Rightarrow> nat \<Rightarrow> string option" where
  "truncate_text text limit =
     (if length text \<le> limit then Some text
      else if limit \<le> 1 then Some (if limit = 0 then [] else [ELLIPSIS])
      else (let shown = take (limit - 1) text in
            map_option (\<lambda>w. (case str_rstrip w of [] \<Rightarrow> str_rstrip shown | trimmed \<Rightarrow> trimmed) @ [ELLIPSIS])
              (rsplit_first shown)))"

text \<open>A list or a dict has a length too, and is returned as it is when it is short.\<close>

definition truncate_title :: "json \<Rightarrow> json option" where
  "truncate_title j =
     (case j of
        JStr s \<Rightarrow> map_option JStr (truncate_text s MAX_TITLE_LENGTH)
      | _ \<Rightarrow> (case json_len j of None \<Rightarrow> None | Some n \<Rightarrow> if n \<le> MAX_TITLE_LENGTH then Some j else None))"

definition severity_of_word :: "string \<Rightarrow> severity" where
  "severity_of_word raw =
     (if raw = ''critical'' then CRITICAL
      else if raw \<in> {''high'', ''error''} then HIGH
      else if raw \<in> {''medium'', ''moderate'', ''warning''} then MEDIUM
      else if raw \<in> {''low'', ''note'', ''info'', ''informational'', ''unknown''} then LOW
      else INFO)"

definition map_severity :: "json \<Rightarrow> severity option" where
  "map_severity raw = map_option (\<lambda>s. severity_of_word (str_lower (str_strip s))) (as_str (py_or raw (JStr [])))"

subsection \<open>Items\<close>

record parsed_item =
  pi_rule_id :: json
  pi_title :: json
  pi_description :: json
  pi_file_path :: json
  pi_line_start :: json
  pi_line_end :: json
  pi_severity :: severity
  pi_snippet :: json
  pi_cve_id :: json
  pi_package_name :: json
  pi_dependency_scope :: "json option"

text \<open>\<open>f"{j}"\<close>.\<close>

definition fmt :: "(json \<Rightarrow> string) \<Rightarrow> json \<Rightarrow> string" where
  "fmt show j =
     (case j of JStr s \<Rightarrow> s | JNull \<Rightarrow> ''None'' | JBool b \<Rightarrow> (if b then ''True'' else ''False'')
      | JInt i \<Rightarrow> int_str i | _ \<Rightarrow> show j)"

text \<open>\<open>" ".join(part for part in (a, b) if part)\<close>.\<close>

definition join_parts :: "json \<Rightarrow> string \<Rightarrow> string option" where
  "join_parts a b =
     (if is_true a then map_option (\<lambda>s. join '' '' (filter (\<lambda>p. p \<noteq> []) [s, b])) (as_str a) else Some b)"

subsection \<open>Semgrep\<close>

definition semgrep_item :: "json \<Rightarrow> parsed_item option" where
  "semgrep_item r = do {
     extra \<leftarrow> jget ''extra'' (JObj []) r;
     rule_id \<leftarrow> jget ''check_id'' (JStr ''unknown'') r;
     check_id \<leftarrow> jget ''check_id'' (JStr []) r;
     message \<leftarrow> jget ''message'' check_id extra;
     title \<leftarrow> truncate_title message;
     description \<leftarrow> jget ''message'' (JStr []) extra;
     path \<leftarrow> jget ''path'' (JStr []) r;
     start \<leftarrow> jget ''start'' (JObj []) r;
     line_start \<leftarrow> jget ''line'' JNull start;
     stop \<leftarrow> jget ''end'' (JObj []) r;
     line_end \<leftarrow> jget ''line'' JNull stop;
     raw_severity \<leftarrow> jget ''severity'' (JStr []) extra;
     sev \<leftarrow> map_severity raw_severity;
     code_lines \<leftarrow> jget ''lines'' (JStr []) extra;
     Some \<lparr>pi_rule_id = rule_id, pi_title = title, pi_description = description, pi_file_path = path,
           pi_line_start = line_start, pi_line_end = line_end, pi_severity = sev, pi_snippet = code_lines,
           pi_cve_id = JNull, pi_package_name = JNull, pi_dependency_scope = None\<rparr> }"

definition parse_semgrep :: "json \<Rightarrow> parsed_item list option" where
  "parse_semgrep raw = do {
     results \<leftarrow> jget ''results'' (JArr []) raw;
     rs \<leftarrow> elements results;
     collect semgrep_item rs }"

definition last_segment :: "string \<Rightarrow> string" where
  "last_segment s = last (split_on CHR ''.'' s)"

definition parse_semgrep_core :: "json \<Rightarrow> parsed_item list option" where
  "parse_semgrep_core raw = do {
     items \<leftarrow> parse_semgrep raw;
     collect (\<lambda>item. map_option (\<lambda>s. item\<lparr>pi_rule_id := JStr (last_segment s)\<rparr>) (as_str (pi_rule_id item))) items }"

subsection \<open>Secrets\<close>

definition is_hex :: "char \<Rightarrow> bool" where
  "is_hex c \<longleftrightarrow> is_digit c \<or> (let n = (of_char c :: nat) in 65 \<le> n \<and> n \<le> 70 \<or> 97 \<le> n \<and> n \<le> 102)"

definition is_alnum :: "char \<Rightarrow> bool" where
  "is_alnum c \<longleftrightarrow> is_digit c \<or> (let n = (of_char c :: nat) in 65 \<le> n \<and> n \<le> 90 \<or> 97 \<le> n \<and> n \<le> 122)"

text \<open>The two base64 expressions: a body over the alphabet, at most two \<open>=\<close> after it, and at least
  one character that is not alphanumeric.\<close>

definition base64_like :: "char list \<Rightarrow> string \<Rightarrow> bool" where
  "base64_like special s =
     (let body = takeWhile (\<lambda>c. c \<noteq> CHR ''='') s; padding = dropWhile (\<lambda>c. c \<noteq> CHR ''='') s
      in body \<noteq> [] \<and> list_all (\<lambda>c. is_alnum c \<or> c \<in> set special) body \<and>
         list_all (\<lambda>c. c = CHR ''='') padding \<and> length padding \<le> 2 \<and>
         (padding \<noteq> [] \<or> list_ex (\<lambda>c. c \<in> set special) body))"

definition SECRET_CHARSETS :: "(string \<times> (string \<Rightarrow> bool)) list" where
  "SECRET_CHARSETS =
     [(''digits'', list_all is_digit), (''hex'', list_all is_hex), (''alphanumeric'', list_all is_alnum),
      (''base64'', base64_like ''+/''), (''base64url'', base64_like ''-_'')]"

definition charset_of :: "string \<Rightarrow> string" where
  "charset_of secret = (case List.find (\<lambda>(_, p). p secret) SECRET_CHARSETS of Some (name, _) \<Rightarrow> name | None \<Rightarrow> ''mixed'')"

text \<open>\<open>f"{x:.2f}"\<close>.\<close>

definition two_decimals :: "rat \<Rightarrow> string" where
  "two_decimals x =
     (let n = nat (py_round (\<bar>x\<bar> * 100)) in
      (if x < 0 then ''-'' else []) @ nat_str (n div 100) @ ''.'' @ [digit_char (n mod 100 div 10), digit_char (n mod 10)])"

definition describe_secret_shape :: "json \<Rightarrow> json \<Rightarrow> string option" where
  "describe_secret_shape secret entropy =
     (if \<not> is_true secret then Some []
      else (case as_str secret of
              None \<Rightarrow> None
            | Some s \<Rightarrow>
                (let parts = [nat_str (length s) @ '' characters'', charset_of s];
                     text = (\<lambda>ps. ''Matched value: '' @ join '', '' ps @ ''.'')
                 in if entropy = JNull then Some (text parts)
                    else map_option (\<lambda>x. text (parts @ [''entropy '' @ two_decimals x])) (numeric entropy))))"

definition gitleaks_item :: "(json \<Rightarrow> string) \<Rightarrow> json \<Rightarrow> parsed_item option" where
  "gitleaks_item show r = do {
     secret \<leftarrow> jget ''Secret'' (JStr []) r;
     entropy \<leftarrow> jget ''Entropy'' JNull r;
     shape \<leftarrow> describe_secret_shape secret entropy;
     own \<leftarrow> jget ''Description'' (JStr []) r;
     description \<leftarrow> join_parts own shape;
     rule_id \<leftarrow> jget ''RuleID'' (JStr ''secret'') r;
     path \<leftarrow> jget ''File'' (JStr []) r;
     line_start \<leftarrow> jget ''StartLine'' JNull r;
     line_end \<leftarrow> jget ''EndLine'' JNull r;
     matched \<leftarrow> jget ''Match'' (JStr []) r;
     Some \<lparr>pi_rule_id = rule_id, pi_title = JStr (''Secret detected: '' @ fmt show rule_id),
           pi_description = JStr description, pi_file_path = path, pi_line_start = line_start, pi_line_end = line_end,
           pi_severity = HIGH, pi_snippet = matched, pi_cve_id = JNull, pi_package_name = JNull,
           pi_dependency_scope = None\<rparr> }"

definition parse_gitleaks :: "(json \<Rightarrow> string) \<Rightarrow> json \<Rightarrow> parsed_item list option" where
  "parse_gitleaks show raw = do { rs \<leftarrow> elements raw; collect (gitleaks_item show) rs }"

text \<open>\<open>snippet[:200]\<close>: a string or a list can be sliced.\<close>

definition slice :: "nat \<Rightarrow> json \<Rightarrow> json option" where
  "slice n j = (case j of JStr s \<Rightarrow> Some (JStr (take n s)) | JArr xs \<Rightarrow> Some (JArr (take n xs)) | _ \<Rightarrow> None)"

definition noseyparker_match :: "(json \<Rightarrow> string) \<Rightarrow> json \<Rightarrow> json \<Rightarrow> parsed_item option" where
  "noseyparker_match show rule m = do {
     provenances \<leftarrow> jget_or ''provenance'' (JArr [JObj []]) m;
     provenance \<leftarrow> item_at 0 provenances;
     path \<leftarrow> jget_or ''path'' (JStr []) provenance;
     location \<leftarrow> jget_or ''location'' (JObj []) m;
     span \<leftarrow> jget_or ''source_span'' (JObj []) location;
     snip \<leftarrow> jget_or ''snippet'' (JObj []) m;
     matching \<leftarrow> jget_or ''matching'' (JStr []) snip;
     start \<leftarrow> jget_or ''start'' (JObj []) span;
     line_start \<leftarrow> jget ''line'' JNull start;
     stop \<leftarrow> jget_or ''end'' (JObj []) span;
     line_end \<leftarrow> jget ''line'' JNull stop;
     snippet \<leftarrow> slice 200 matching;
     Some \<lparr>pi_rule_id = rule, pi_title = JStr (''Secret detected: '' @ fmt show rule), pi_description = JStr [],
           pi_file_path = path, pi_line_start = line_start, pi_line_end = line_end, pi_severity = HIGH,
           pi_snippet = snippet, pi_cve_id = JNull, pi_package_name = JNull, pi_dependency_scope = None\<rparr> }"

definition parse_noseyparker :: "(json \<Rightarrow> string) \<Rightarrow> json \<Rightarrow> parsed_item list option" where
  "parse_noseyparker show raw = do {
     findings \<leftarrow> elements (py_or raw (JArr []));
     per_finding \<leftarrow> collect (\<lambda>f. do {
       rule \<leftarrow> jget_or ''rule_name'' (JStr ''secret'') f;
       ms \<leftarrow> jget_or ''matches'' (JArr []) f;
       matches \<leftarrow> elements ms;
       collect (noseyparker_match show rule) matches }) findings;
     Some (concat per_finding) }"

end
