(* ===== verification/ParserTable.thy ===== *)
theory ParserTable
  imports Parsers
begin

text \<open>
  The other parsers of \<open>scanners/parsers.py\<close>, with the SPDX reader they share with
  \<open>core/github_dependency_graph.py\<close>, what a SARIF document says of its own run, and the table that
  picks a parser by tool.
\<close>

subsection \<open>Trivy\<close>

definition SCOPE_RUNTIME :: string where "SCOPE_RUNTIME = ''runtime''"
definition SCOPE_DEVELOPMENT :: string where "SCOPE_DEVELOPMENT = ''development''"
definition SCOPE_UNKNOWN :: string where "SCOPE_UNKNOWN = ''unknown''"

text \<open>The dict, newest entry first; a key that is a list or a dict raises.\<close>

fun dependency_scopes_of :: "json list \<Rightarrow> (json \<times> string) list \<Rightarrow> (json \<times> string) list option" where
  "dependency_scopes_of [] scopes = Some scopes"
| "dependency_scopes_of (p # ps) scopes = do {
     package_id \<leftarrow> jget ''ID'' JNull p;
     if \<not> is_true package_id then dependency_scopes_of ps scopes
     else do {
       dev \<leftarrow> jget ''Dev'' JNull p;
       if hashable package_id
       then dependency_scopes_of ps
              ((package_id, if is_true dev then SCOPE_DEVELOPMENT else SCOPE_RUNTIME) # scopes)
       else None } }"

definition dependency_scopes :: "json \<Rightarrow> (json \<times> string) list option" where
  "dependency_scopes result = do {
     packages \<leftarrow> jget_or ''Packages'' (JArr []) result;
     ps \<leftarrow> elements packages;
     dependency_scopes_of ps [] }"

definition lookup_key :: "(json \<times> 'a) list \<Rightarrow> json \<Rightarrow> 'a option option" where
  "lookup_key table k =
     (if hashable k then Some (map_option snd (List.find (\<lambda>e. same_key (fst e) k) table)) else None)"

definition scope_for :: "(json \<times> string) list \<Rightarrow> json \<Rightarrow> string option" where
  "scope_for scopes pkg_id =
     map_option (\<lambda>found. case found of None \<Rightarrow> SCOPE_UNKNOWN | Some s \<Rightarrow> s) (lookup_key scopes pkg_id)"

definition vulnerability_item :: "(json \<Rightarrow> string) \<Rightarrow> json \<Rightarrow> (json \<times> string) list \<Rightarrow> json \<Rightarrow> parsed_item option" where
  "vulnerability_item show target scopes v = do {
     rule_id \<leftarrow> jget ''VulnerabilityID'' (JStr ''unknown'') v;
     vuln_id \<leftarrow> jget ''VulnerabilityID'' (JStr []) v;
     raw_title \<leftarrow> jget ''Title'' vuln_id v;
     title \<leftarrow> truncate_title raw_title;
     description \<leftarrow> jget ''Description'' (JStr []) v;
     raw_severity \<leftarrow> jget ''Severity'' (JStr []) v;
     sev \<leftarrow> map_severity raw_severity;
     name \<leftarrow> jget ''PkgName'' (JStr []) v;
     ver \<leftarrow> jget ''InstalledVersion'' (JStr []) v;
     cve_id \<leftarrow> jget ''VulnerabilityID'' JNull v;
     package_name \<leftarrow> jget_or ''PkgName'' JNull v;
     pkg_id \<leftarrow> jget ''PkgID'' JNull v;
     scope \<leftarrow> scope_for scopes pkg_id;
     Some \<lparr>pi_rule_id = rule_id, pi_title = title, pi_description = description, pi_file_path = target,
           pi_line_start = JNull, pi_line_end = JNull, pi_severity = sev,
           pi_snippet = JStr (fmt show name @ ''@'' @ fmt show ver), pi_cve_id = cve_id,
           pi_package_name = package_name, pi_dependency_scope = Some (JStr scope)\<rparr> }"

definition misconfiguration_item :: "json \<Rightarrow> json \<Rightarrow> parsed_item option" where
  "misconfiguration_item target m = do {
     rule_id \<leftarrow> jget ''ID'' (JStr ''unknown'') m;
     raw_title \<leftarrow> jget ''Title'' (JStr []) m;
     title \<leftarrow> truncate_title raw_title;
     description \<leftarrow> jget ''Description'' (JStr []) m;
     cause \<leftarrow> jget_or ''CauseMetadata'' (JObj []) m;
     line_start \<leftarrow> jget ''StartLine'' JNull cause;
     line_end \<leftarrow> jget ''EndLine'' JNull cause;
     raw_severity \<leftarrow> jget ''Severity'' (JStr []) m;
     sev \<leftarrow> map_severity raw_severity;
     Some \<lparr>pi_rule_id = rule_id, pi_title = title, pi_description = description, pi_file_path = target,
           pi_line_start = line_start, pi_line_end = line_end, pi_severity = sev, pi_snippet = JStr [],
           pi_cve_id = JNull, pi_package_name = JNull, pi_dependency_scope = None\<rparr> }"

definition trivy_result :: "(json \<Rightarrow> string) \<Rightarrow> json \<Rightarrow> parsed_item list option" where
  "trivy_result show result = do {
     target \<leftarrow> jget ''Target'' (JStr []) result;
     scopes \<leftarrow> dependency_scopes result;
     vs \<leftarrow> jget_or ''Vulnerabilities'' (JArr []) result;
     vulnerabilities \<leftarrow> elements vs;
     vulnerability_items \<leftarrow> collect (vulnerability_item show target scopes) vulnerabilities;
     ms \<leftarrow> jget_or ''Misconfigurations'' (JArr []) result;
     misconfigurations \<leftarrow> elements ms;
     misconfiguration_items \<leftarrow> collect (misconfiguration_item target) misconfigurations;
     Some (vulnerability_items @ misconfiguration_items) }"

definition parse_trivy :: "(json \<Rightarrow> string) \<Rightarrow> json \<Rightarrow> parsed_item list option" where
  "parse_trivy show raw = do {
     rs \<leftarrow> jget ''Results'' (JArr []) raw;
     results \<leftarrow> elements rs;
     map_option concat (collect (trivy_result show) results) }"

definition license_item :: "(json \<Rightarrow> string) \<Rightarrow> json \<Rightarrow> json \<Rightarrow> parsed_item option" where
  "license_item show target lic = do {
     name \<leftarrow> jget ''Name'' (JStr ''unknown'') lic;
     pkg_name \<leftarrow> jget ''PkgName'' (JStr []) lic;
     path \<leftarrow> jget_or ''FilePath'' target lic;
     title \<leftarrow> truncate_title (JStr (fmt show name @
       (if is_true pkg_name then '' license detected in '' @ fmt show pkg_name else '' license detected'')));
     raw_severity \<leftarrow> jget ''Severity'' (JStr []) lic;
     sev \<leftarrow> map_severity raw_severity;
     Some \<lparr>pi_rule_id = JStr (''license:'' @ fmt show name), pi_title = title,
           pi_description = JStr (str_strip (''License '' @ fmt show name @ '' detected for package '' @ fmt show pkg_name)),
           pi_file_path = path, pi_line_start = JNull, pi_line_end = JNull, pi_severity = sev, pi_snippet = pkg_name,
           pi_cve_id = JNull, pi_package_name = JNull, pi_dependency_scope = None\<rparr> }"

definition parse_trivy_license :: "(json \<Rightarrow> string) \<Rightarrow> json \<Rightarrow> parsed_item list option" where
  "parse_trivy_license show raw = do {
     rs \<leftarrow> jget ''Results'' (JArr []) raw;
     results \<leftarrow> elements rs;
     map_option concat (collect (\<lambda>result. do {
       target \<leftarrow> jget ''Target'' (JStr []) result;
       ls \<leftarrow> jget_or ''Licenses'' (JArr []) result;
       licenses \<leftarrow> elements ls;
       collect (license_item show target) licenses }) results) }"

subsection \<open>Uploaded inventories\<close>

record component_row =
  cr_name :: json
  cr_version :: json
  cr_package_type :: json
  cr_purl :: json

definition PURL_TYPE_TO_PACKAGE_TYPE :: "(string \<times> string) list" where
  "PURL_TYPE_TO_PACKAGE_TYPE =
     [(''pypi'', ''pip''), (''npm'', ''npm''), (''golang'', ''gomod''), (''maven'', ''maven''), (''gem'', ''gem''),
      (''cargo'', ''cargo''), (''composer'', ''composer''), (''nuget'', ''nuget'')]"

definition purl_type :: "string \<Rightarrow> string" where
  "purl_type purl = (if starts_with ''pkg:'' purl then hd (split_on CHR ''/'' (drop 4 purl)) else [])"

definition SELF_REFERENTIAL_PREFIXES :: "string list" where "SELF_REFERENTIAL_PREFIXES = [''com.github.'']"

fun first_purl :: "json list \<Rightarrow> json option" where
  "first_purl [] = Some (JStr [])"
| "first_purl (ref # refs) = do {
     ty \<leftarrow> jget ''referenceType'' JNull ref;
     if ty = JStr ''purl'' then jget_or ''referenceLocator'' (JStr []) ref else first_purl refs }"

text \<open>None in the inner option: the package is skipped.\<close>

definition spdx_package :: "json \<Rightarrow> component_row option option" where
  "spdx_package package = do {
     raw_name \<leftarrow> jget_or ''name'' (JStr []) package;
     text \<leftarrow> as_str raw_name;
     let name = str_strip text;
     if name = [] \<or> list_ex (\<lambda>p. starts_with p name) SELF_REFERENTIAL_PREFIXES then Some None
     else do {
       rs \<leftarrow> jget_or ''externalRefs'' (JArr []) package;
       refs \<leftarrow> elements rs;
       found \<leftarrow> first_purl refs;
       purl \<leftarrow> as_str found;
       ver \<leftarrow> jget_or ''versionInfo'' (JStr []) package;
       Some (Some \<lparr>cr_name = JStr name, cr_version = ver,
         cr_package_type = JStr (purl_type purl),
         cr_purl = JStr purl\<rparr>) } }"

definition parse_spdx_packages :: "json \<Rightarrow> component_row list option" where
  "parse_spdx_packages payload = do {
     sbom \<leftarrow> jget_or ''sbom'' (JObj []) (py_or payload (JObj []));
     ps \<leftarrow> jget_or ''packages'' (JArr []) sbom;
     packages \<leftarrow> elements ps;
     map_option (List.map_filter id) (collect spdx_package packages) }"

fun trivy_package_type :: "json list \<Rightarrow> json option" where
  "trivy_package_type [] = Some (JStr [])"
| "trivy_package_type (p # ps) = do {
     name \<leftarrow> jget ''name'' JNull p;
     if name = JStr ''aquasecurity:trivy:PkgType'' then jget ''value'' (JStr []) p else trivy_package_type ps }"

definition cyclonedx_component :: "json \<Rightarrow> component_row option option" where
  "cyclonedx_component c = do {
     ty \<leftarrow> jget ''type'' JNull c;
     if ty \<noteq> JStr ''library'' then Some None
     else do {
       props \<leftarrow> jget_or ''properties'' (JArr []) c;
       properties \<leftarrow> elements props;
       declared \<leftarrow> trivy_package_type properties;
       purl \<leftarrow> jget ''purl'' (JStr []) c;
       package_type \<leftarrow>
         (if \<not> is_true declared \<and> is_true purl
          then map_option (\<lambda>p. let t = purl_type p in
                 JStr (case map_of PURL_TYPE_TO_PACKAGE_TYPE t of Some q \<Rightarrow> q | None \<Rightarrow> t)) (as_str purl)
          else Some declared);
       name \<leftarrow> jget ''name'' (JStr []) c;
       ver \<leftarrow> jget ''version'' (JStr []) c;
       Some (Some \<lparr>cr_name = name, cr_version = ver, cr_package_type = package_type, cr_purl = purl\<rparr>) } }"

definition parse_sbom_upload :: "json \<Rightarrow> component_row list option" where
  "parse_sbom_upload raw = do {
     doc \<leftarrow> jget ''sbom'' raw raw;
     cyclonedx \<leftarrow> member_of ''components'' doc;
     if cyclonedx then do {
       cs \<leftarrow> jget_or ''components'' (JArr []) doc;
       components \<leftarrow> elements cs;
       map_option (List.map_filter id) (collect cyclonedx_component components) }
     else do {
       spdx \<leftarrow> member_of ''packages'' doc;
       if spdx then parse_spdx_packages (JObj [(''sbom'', doc)]) else Some [] } }"

subsection \<open>Gosec and nuclei\<close>

text \<open>\<open>int(s)\<close>: white space around it, a sign, and digits with single underscores between them.\<close>

fun digits_value :: "string \<Rightarrow> nat \<Rightarrow> nat option" where
  "digits_value [] n = Some n"
| "digits_value [c] n = (if is_digit c then Some (10 * n + digit_value c) else None)"
| "digits_value (c # d # cs) n =
     (if is_digit c then
        (if d = CHR ''_'' then (case cs of e # es \<Rightarrow> if is_digit e then digits_value cs (10 * n + digit_value c) else None
                                 | [] \<Rightarrow> None)
         else digits_value (d # cs) (10 * n + digit_value c))
      else None)"

definition int_of_text :: "string \<Rightarrow> int option" where
  "int_of_text s =
     (case str_strip s of
        [] \<Rightarrow> None
      | c # cs \<Rightarrow>
          if c = CHR ''-'' \<or> c = CHR ''+'' then
            (if cs = [] then None
             else map_option (\<lambda>n. if c = CHR ''-'' then - int n else int n) (digits_value cs 0))
          else map_option int (digits_value (c # cs) 0))"

text \<open>\<open>int(line.split("-")[0] or 0) or None\<close>.\<close>

definition gosec_line :: "string \<Rightarrow> json option" where
  "gosec_line line =
     (let first = hd (split_on CHR ''-'' line) in
      if first = [] then Some JNull
      else map_option (\<lambda>n. if n = 0 then JNull else JInt n) (int_of_text first))"

definition gosec_item :: "json \<Rightarrow> parsed_item option" where
  "gosec_item issue = do {
     rule_id \<leftarrow> jget ''rule_id'' (JStr ''unknown'') issue;
     details \<leftarrow> jget ''details'' (JStr []) issue;
     title \<leftarrow> truncate_title details;
     path \<leftarrow> jget ''file'' (JStr []) issue;
     raw_line \<leftarrow> jget ''line'' (JStr ''0'') issue;
     line \<leftarrow> as_str raw_line;
     line_start \<leftarrow> gosec_line line;
     raw_severity \<leftarrow> jget ''severity'' (JStr []) issue;
     sev \<leftarrow> map_severity raw_severity;
     code \<leftarrow> jget ''code'' (JStr []) issue;
     Some \<lparr>pi_rule_id = rule_id, pi_title = title, pi_description = details, pi_file_path = path,
           pi_line_start = line_start, pi_line_end = JNull, pi_severity = sev, pi_snippet = code,
           pi_cve_id = JNull, pi_package_name = JNull, pi_dependency_scope = None\<rparr> }"

definition parse_gosec :: "json \<Rightarrow> parsed_item list option" where
  "parse_gosec raw = do {
     is \<leftarrow> jget ''Issues'' (JArr []) raw;
     issues \<leftarrow> elements is;
     collect gosec_item issues }"

definition first_cve :: "json \<Rightarrow> json" where
  "first_cve cve = (case cve of JArr [] \<Rightarrow> JNull | JArr (x # xs) \<Rightarrow> x | _ \<Rightarrow> cve)"

definition nuclei_item :: "json \<Rightarrow> parsed_item option" where
  "nuclei_item r = do {
     info \<leftarrow> jget_or ''info'' (JObj []) r;
     classification \<leftarrow> jget_or ''classification'' (JObj []) info;
     cve_id \<leftarrow> jget ''cve-id'' JNull classification;
     template_id \<leftarrow> jget ''template-id'' (JStr ''unknown'') r;
     name \<leftarrow> jget ''name'' template_id info;
     host \<leftarrow> jget ''host'' (JStr []) r;
     matched_at \<leftarrow> jget_or ''matched-at'' host r;
     extracted \<leftarrow> jget_or ''extracted-results'' (JArr []) r;
     matcher \<leftarrow> jget ''matcher-name'' JNull r;
     snippet \<leftarrow>
       (if is_true matcher then Some matcher
        else if is_true extracted then item_at 0 extracted else Some (JStr []));
     title \<leftarrow> truncate_title name;
     description \<leftarrow> jget_or ''description'' name info;
     raw_severity \<leftarrow> jget ''severity'' (JStr []) info;
     sev \<leftarrow> map_severity raw_severity;
     Some \<lparr>pi_rule_id = template_id, pi_title = title, pi_description = description, pi_file_path = matched_at,
           pi_line_start = JNull, pi_line_end = JNull, pi_severity = sev, pi_snippet = snippet,
           pi_cve_id = first_cve cve_id, pi_package_name = JNull, pi_dependency_scope = None\<rparr> }"

definition parse_nuclei :: "json \<Rightarrow> parsed_item list option" where
  "parse_nuclei raw = do { rs \<leftarrow> elements raw; collect nuclei_item rs }"

subsection \<open>Checkov and tfsec\<close>

definition lstrip_slash :: "string \<Rightarrow> string" where
  "lstrip_slash s = dropWhile (\<lambda>c. c = CHR ''/'') s"

definition checkov_item :: "json \<Rightarrow> parsed_item option" where
  "checkov_item check = do {
     lines_of \<leftarrow> jget_or ''file_line_range'' (JArr [JNull, JNull]) check;
     rule_id \<leftarrow> jget ''check_id'' (JStr ''unknown'') check;
     check_id \<leftarrow> jget ''check_id'' (JStr []) check;
     raw_title \<leftarrow> jget_or ''check_name'' check_id check;
     title \<leftarrow> truncate_title raw_title;
     description \<leftarrow> jget ''check_name'' (JStr []) check;
     raw_path \<leftarrow> jget ''file_path'' (JStr []) check;
     path \<leftarrow> as_str raw_path;
     line_start \<leftarrow> item_at 0 lines_of;
     n \<leftarrow> json_len lines_of;
     line_end \<leftarrow> (if n > 1 then item_at 1 lines_of else Some JNull);
     raw_severity \<leftarrow> jget_or ''severity'' (JStr ''medium'') check;
     sev \<leftarrow> map_severity raw_severity;
     resource \<leftarrow> jget ''resource'' (JStr []) check;
     Some \<lparr>pi_rule_id = rule_id, pi_title = title, pi_description = description, pi_file_path = JStr (lstrip_slash path),
           pi_line_start = line_start, pi_line_end = line_end, pi_severity = sev, pi_snippet = resource,
           pi_cve_id = JNull, pi_package_name = JNull, pi_dependency_scope = None\<rparr> }"

definition checkov_report :: "json \<Rightarrow> parsed_item list option" where
  "checkov_report report =
     (if \<not> is_obj report then Some []
      else do {
        results \<leftarrow> jget_or ''results'' (JObj []) report;
        cs \<leftarrow> jget_or ''failed_checks'' (JArr []) results;
        checks \<leftarrow> elements cs;
        collect checkov_item checks })"

definition parse_checkov :: "json \<Rightarrow> parsed_item list option" where
  "parse_checkov raw =
     map_option concat (collect checkov_report (case raw of JArr reports \<Rightarrow> reports | _ \<Rightarrow> [raw]))"

definition tfsec_item :: "json \<Rightarrow> parsed_item option" where
  "tfsec_item r = do {
     location \<leftarrow> jget_or ''location'' (JObj []) r;
     short_id \<leftarrow> jget ''rule_id'' (JStr ''unknown'') r;
     rule_id \<leftarrow> jget_or ''long_id'' short_id r;
     rule_description \<leftarrow> jget_or ''rule_description'' (JStr []) r;
     raw_title \<leftarrow> jget_or ''description'' rule_description r;
     title \<leftarrow> truncate_title raw_title;
     description \<leftarrow> jget ''description'' (JStr []) r;
     path \<leftarrow> jget ''filename'' (JStr []) location;
     line_start \<leftarrow> jget ''start_line'' JNull location;
     line_end \<leftarrow> jget ''end_line'' JNull location;
     raw_severity \<leftarrow> jget ''severity'' (JStr []) r;
     sev \<leftarrow> map_severity raw_severity;
     resource \<leftarrow> jget ''resource'' (JStr []) r;
     Some \<lparr>pi_rule_id = rule_id, pi_title = title, pi_description = description, pi_file_path = path,
           pi_line_start = line_start, pi_line_end = line_end, pi_severity = sev, pi_snippet = resource,
           pi_cve_id = JNull, pi_package_name = JNull, pi_dependency_scope = None\<rparr> }"

definition parse_tfsec :: "json \<Rightarrow> parsed_item list option" where
  "parse_tfsec raw = do {
     rs \<leftarrow> jget_or ''results'' (JArr []) raw;
     results \<leftarrow> elements rs;
     collect tfsec_item results }"

subsection \<open>Modelscan\<close>

definition UNSAFE_DESERIALIZATION_OPERATORS :: "string list" where
  "UNSAFE_DESERIALIZATION_OPERATORS =
     [''system'', ''exec'', ''eval'', ''popen'', ''spawn'', ''fork'', ''run'', ''check_output'', ''call'', ''load'', ''loads'']"

definition UNSAFE_DESERIALIZATION_MODULES :: "string list" where
  "UNSAFE_DESERIALIZATION_MODULES =
     [''os'', ''posix'', ''nt'', ''subprocess'', ''builtins'', ''__builtin__'', ''commands'', ''pty'', ''socket'']"

definition stripped_field :: "string \<Rightarrow> json \<Rightarrow> string option" where
  "stripped_field key issue = do { raw \<leftarrow> jget_or key (JStr []) issue; map_option str_strip (as_str raw) }"

definition unsafe_primitive :: "string \<Rightarrow> string \<Rightarrow> bool" where
  "unsafe_primitive operator modl \<longleftrightarrow>
     str_lower operator \<in> set UNSAFE_DESERIALIZATION_OPERATORS \<and> str_lower modl \<in> set UNSAFE_DESERIALIZATION_MODULES"

definition qualified_name :: "string \<Rightarrow> string \<Rightarrow> string" where
  "qualified_name operator modl =
     (if modl \<noteq> [] \<and> operator \<noteq> [] then modl @ ''.'' @ operator
      else if operator \<noteq> [] then operator else ''unknown'')"

definition modelscan_item :: "(json \<Rightarrow> string) \<Rightarrow> json \<Rightarrow> parsed_item option" where
  "modelscan_item show issue = do {
     operator \<leftarrow> stripped_field ''operator'' issue;
     modl \<leftarrow> stripped_field ''module'' issue;
     raw_severity \<leftarrow> jget ''severity'' (JStr []) issue;
     sev \<leftarrow> map_severity raw_severity;
     let qualified = qualified_name operator modl;
     description \<leftarrow> jget_or ''description''
       (JStr (''Unsafe operator '' @ qualified @ '' in a serialized model file'')) issue;
     rule_id \<leftarrow> jget_or ''scanner'' (JStr ''modelscan'') issue;
     title \<leftarrow> truncate_title (JStr (''Unsafe operator '' @ [CHR 0x27] @ qualified @ [CHR 0x27] @ '' in model file''));
     path \<leftarrow> jget ''source'' (JStr []) issue;
     Some \<lparr>pi_rule_id = rule_id, pi_title = title,
           pi_description = JStr (fmt show description @ '' Loading this file executes the operator: deserializing an untrusted model is arbitrary code execution, not a parsing step.''),
           pi_file_path = path, pi_line_start = JNull, pi_line_end = JNull,
           pi_severity = (if unsafe_primitive operator modl then CRITICAL else sev), pi_snippet = JStr qualified,
           pi_cve_id = JNull, pi_package_name = JNull, pi_dependency_scope = None\<rparr> }"

definition parse_modelscan :: "(json \<Rightarrow> string) \<Rightarrow> json \<Rightarrow> parsed_item list option" where
  "parse_modelscan show raw = do {
     is \<leftarrow> jget_or ''issues'' (JArr []) raw;
     issues \<leftarrow> elements is;
     collect (modelscan_item show) issues }"

subsection \<open>SARIF\<close>

text \<open>\<open>{r.get("id"): r for r in rules}\<close>, newest entry first.\<close>

fun rules_index :: "json list \<Rightarrow> (json \<times> json) list \<Rightarrow> (json \<times> json) list option" where
  "rules_index [] table = Some table"
| "rules_index (r # rs) table = do {
     i \<leftarrow> jget ''id'' JNull r;
     if hashable i then rules_index rs ((i, r) # table) else None }"

definition sarif_level :: "json \<Rightarrow> json \<Rightarrow> json option" where
  "sarif_level result rule_meta = do {
     own \<leftarrow> jget ''level'' JNull result;
     if is_true own then Some own
     else do {
       config \<leftarrow> jget ''defaultConfiguration'' (JObj []) rule_meta;
       jget ''level'' (JStr ''warning'') config } }"

definition sarif_location :: "json \<Rightarrow> (json \<times> json \<times> json) option" where
  "sarif_location locations =
     (if \<not> is_true locations then Some (JStr [], JNull, JNull)
      else do {
        first \<leftarrow> item_at 0 locations;
        phys \<leftarrow> jget ''physicalLocation'' (JObj []) first;
        artifact \<leftarrow> jget ''artifactLocation'' (JObj []) phys;
        path \<leftarrow> jget ''uri'' (JStr []) artifact;
        region \<leftarrow> jget ''region'' (JObj []) phys;
        line_start \<leftarrow> jget ''startLine'' JNull region;
        line_end \<leftarrow> jget ''endLine'' line_start region;
        Some (path, line_start, line_end) })"

definition sarif_item :: "(json \<times> json) list \<Rightarrow> json \<Rightarrow> parsed_item option" where
  "sarif_item index result = do {
     rule_id \<leftarrow> jget ''ruleId'' (JStr ''unknown'') result;
     found \<leftarrow> lookup_key index rule_id;
     level \<leftarrow> sarif_level result (case found of None \<Rightarrow> JObj [] | Some r \<Rightarrow> r);
     locations \<leftarrow> jget ''locations'' (JArr []) result;
     (path, line_start, line_end) \<leftarrow> sarif_location locations;
     message \<leftarrow> jget ''message'' (JObj []) result;
     raw_title \<leftarrow> jget ''text'' rule_id message;
     title \<leftarrow> truncate_title raw_title;
     description \<leftarrow> jget ''text'' (JStr []) message;
     sev \<leftarrow> map_severity level;
     Some \<lparr>pi_rule_id = rule_id, pi_title = title, pi_description = description, pi_file_path = path,
           pi_line_start = line_start, pi_line_end = line_end, pi_severity = sev, pi_snippet = JStr [],
           pi_cve_id = JNull, pi_package_name = JNull, pi_dependency_scope = None\<rparr> }"

definition sarif_run :: "json \<Rightarrow> parsed_item list option" where
  "sarif_run run = do {
     tool \<leftarrow> jget ''tool'' (JObj []) run;
     driver \<leftarrow> jget ''driver'' (JObj []) tool;
     name \<leftarrow> jget ''name'' (JStr ''sarif'') driver;
     rs \<leftarrow> jget ''rules'' (JArr []) driver;
     rules \<leftarrow> elements rs;
     index \<leftarrow> rules_index rules [];
     results \<leftarrow> jget ''results'' (JArr []) run;
     xs \<leftarrow> elements results;
     collect (sarif_item index) xs }"

definition parse_sarif :: "json \<Rightarrow> parsed_item list option" where
  "parse_sarif raw = do {
     rs \<leftarrow> jget ''runs'' (JArr []) raw;
     runs \<leftarrow> elements rs;
     map_option concat (collect sarif_run runs) }"

text \<open>What one invocation says: nothing, that it succeeded, or that it did not.\<close>

definition declared_success :: "json \<Rightarrow> json" where
  "declared_success invocation = (case jget ''executionSuccessful'' JNull invocation of None \<Rightarrow> JNull | Some v \<Rightarrow> v)"

definition driver_name :: "json \<Rightarrow> json" where
  "driver_name run =
     (case jget ''tool'' JNull run of
        None \<Rightarrow> JNull
      | Some tool_block \<Rightarrow>
          (case jget ''driver'' JNull tool_block of
             None \<Rightarrow> JNull
           | Some driver \<Rightarrow> (case jget ''name'' JNull driver of None \<Rightarrow> JNull | Some n \<Rightarrow> n)))"

definition sarif_failure :: "(json \<Rightarrow> string) \<Rightarrow> json \<Rightarrow> string" where
  "sarif_failure show run =
     ''the pushed SARIF reports that '' @ fmt show (py_or (driver_name run) (JStr ''the producing tool'')) @
     '' did not complete successfully, so its result set may be incomplete''"

fun read_invocations :: "(json \<Rightarrow> string) \<Rightarrow> json \<Rightarrow> json list \<Rightarrow> bool \<times> scan_health \<Rightarrow> bool \<times> scan_health" where
  "read_invocations show run [] st = st"
| "read_invocations show run (i # is) (seen, health) =
     (if \<not> is_obj i \<or> declared_success i = JNull then read_invocations show run is (seen, health)
      else read_invocations show run is
             (True, if declared_success i = JBool False then degrade (sarif_failure show run) health else health))"

fun read_runs :: "(json \<Rightarrow> string) \<Rightarrow> json list \<Rightarrow> bool \<times> scan_health \<Rightarrow> (bool \<times> scan_health) option" where
  "read_runs show [] st = Some st"
| "read_runs show (run # runs) st =
     (if \<not> is_obj run then read_runs show runs st
      else do {
        is \<leftarrow> jget_or ''invocations'' (JArr []) run;
        invocations \<leftarrow> elements is;
        read_runs show runs (read_invocations show run invocations st) })"

text \<open>The outer option is a raise; the inner None is the code's None: no evidence.\<close>

definition sarif_health :: "(json \<Rightarrow> string) \<Rightarrow> json \<Rightarrow> string \<Rightarrow> scan_health option option" where
  "sarif_health show raw tool = do {
     rs \<leftarrow> jget_or ''runs'' (JArr []) raw;
     runs \<leftarrow> elements rs;
     (seen, health) \<leftarrow> read_runs show runs (False, \<lparr>sh_tool = tool, sh_reasons = []\<rparr>);
     Some (if seen then Some health else None) }"

subsection \<open>The table\<close>

text \<open>None outside: no parser for the tool (a \<open>KeyError\<close>).\<close>

definition parser_for :: "(json \<Rightarrow> string) \<Rightarrow> string \<Rightarrow> (json \<Rightarrow> parsed_item list option) option" where
  "parser_for show tool =
     map_of [(''semgrep'', parse_semgrep), (''semgrep-llm'', parse_semgrep), (''semgrep-core'', parse_semgrep_core),
       (''semgrep-registry'', parse_semgrep), (''gitleaks'', parse_gitleaks show),
       (''noseyparker'', parse_noseyparker show), (''trivy'', parse_trivy show),
       (''trivy-license'', parse_trivy_license show), (''gosec'', parse_gosec), (''checkov'', parse_checkov),
       (''tfsec'', parse_tfsec), (''modelscan'', parse_modelscan show)] tool"

lemma parser_for_PARSER_MAP: "parser_for show tool \<noteq> None \<longleftrightarrow> tool \<in> set PARSER_MAP"
  by (simp add: parser_for_def PARSER_MAP_def)

definition parse_report :: "(json \<Rightarrow> string) \<Rightarrow> string \<Rightarrow> json \<Rightarrow> parsed_item list option" where
  "parse_report show tool raw = (case parser_for show tool of None \<Rightarrow> None | Some parse \<Rightarrow> parse raw)"

subsection \<open>An item as ingestion takes it\<close>

text \<open>The item whose fields have the types of the columns; None for any other.\<close>

definition scan_item_of :: "parsed_item \<Rightarrow> scan_item option" where
  "scan_item_of p = do {
     rule_id \<leftarrow> as_str (pi_rule_id p);
     title \<leftarrow> as_str (pi_title p);
     description \<leftarrow> as_str (pi_description p);
     path \<leftarrow> as_str (pi_file_path p);
     snippet \<leftarrow> as_str (pi_snippet p);
     line_start \<leftarrow> opt_int (pi_line_start p);
     line_end \<leftarrow> opt_int (pi_line_end p);
     cve_id \<leftarrow> opt_str (pi_cve_id p);
     package_name \<leftarrow> opt_str (pi_package_name p);
     scope \<leftarrow> (case pi_dependency_scope p of None \<Rightarrow> Some ''unknown'' | Some j \<Rightarrow> as_str j);
     Some \<lparr>i_rule_id = rule_id, i_title = title, i_description = description, i_file_path = path,
           i_snippet = snippet, i_line_start = line_start, i_line_end = line_end, i_severity = pi_severity p,
           i_cve_id = cve_id, i_dependency_scope = scope, i_package_name = package_name\<rparr> }"

end
