(* ===== verification/Runner.thy ===== *)
theory Runner
  imports ParserTable Diff
begin

text \<open>
  \<open>scanners/runner.py\<close>: which command a scanner runs, what its exit code, its standard error and its
  report say of the run, and how a diff narrows it.  The process itself, the file system and the
  clock are the record \<open>tool_world\<close>: a spawn is None when the binary is missing, and a text the
  code reads is what \<open>strip\<close> and \<open>json.loads\<close> make of it.  The clone, the locks and the download
  of the Trivy database are not modelled; their outcome is in the record.
\<close>

subsection \<open>The world of a run\<close>

datatype tool_text = Blank | Garbled string | Document json

record process =
  p_code :: int
  p_stdout :: tool_text
  p_stderr :: string
  p_report :: "tool_text option"

datatype file_state = NoFile | NoStat | Bytes int
datatype metadata_state = NoMetadata | BadMetadata | Metadata json

record trivy_cache =
  tc_db :: file_state
  tc_metadata :: metadata_state
  tc_fingerprint :: "nat option"

record tree_entry =
  te_parts :: "string list"
  te_is_file :: bool
  te_size :: "int option"

record checkout =
  co_root :: string
  co_entries :: "tree_entry list"
  co_lines :: "string \<Rightarrow> string list option"

type_synonym env = "(string \<times> string) list option"

record tool_world =
  tw_spawn :: "string list \<Rightarrow> string option \<Rightarrow> env \<Rightarrow> process option"
  tw_isolate :: "string \<Rightarrow> string + string \<times> bool"
  tw_cache_before :: trivy_cache
  tw_cache_after :: trivy_cache
  tw_registry_configs :: "string \<Rightarrow> string list"
  tw_core_config :: string
  tw_llm_rules :: string
  tw_blank_error :: string
  tw_timestamp :: "string \<Rightarrow> timestamp option"
  tw_now :: timestamp

datatype run_error =
  ToolExecutionError string | ToolNotApplicable string | UnsupportedTool string | AttributeError string

subsection \<open>Commands\<close>

definition MODELSCAN_REPORT :: string where "MODELSCAN_REPORT = ''__TOLEMAN_MODELSCAN_REPORT__''"
definition GITLEAKS_REPORT :: string where "GITLEAKS_REPORT = ''__TOLEMAN_GITLEAKS_REPORT__''"
definition NOSEYPARKER_DATASTORE :: string where "NOSEYPARKER_DATASTORE = ''__TOLEMAN_NOSEYPARKER_DATASTORE__''"

definition semgrep_with :: "string list \<Rightarrow> string \<Rightarrow> string list" where
  "semgrep_with configs path =
     [''semgrep'', ''scan''] @ map (\<lambda>c. ''--config='' @ c) configs @ [''--disable-nosem'', ''--json'', ''--quiet'', path]"

text \<open>The table of commands; None is a tool that is not in it.\<close>

definition tool_command :: "tool_world \<Rightarrow> string \<Rightarrow> string \<Rightarrow> string list option" where
  "tool_command w tool path =
     map_of
       [(''semgrep'', semgrep_with [''auto''] path),
        (''semgrep-llm'', semgrep_with [tw_llm_rules w] path),
        (''semgrep-core'', semgrep_with [tw_core_config w] path),
        (''semgrep-registry'', semgrep_with (tw_registry_configs w path) path),
        (''noseyparker'', [''noseyparker'', ''scan'', ''--datastore'', NOSEYPARKER_DATASTORE, path]),
        (''gitleaks'', [''gitleaks'', ''detect'', ''--source'', path, ''--report-format'', ''json'', ''--report-path'',
           GITLEAKS_REPORT, ''--no-git'', ''--exit-code'', ''0'']),
        (''trivy'', [''trivy'', ''fs'', ''--scanners'', ''vuln'', ''--include-dev-deps'', ''--list-all-pkgs'', ''--format'',
           ''json'', ''--quiet'', path]),
        (''trivy-license'', [''trivy'', ''fs'', ''--scanners'', ''license'', ''--format'', ''json'', ''--quiet'', path]),
        (''gosec'', [''gosec'', ''-fmt=json'', ''-quiet'', ''./...'']),
        (''checkov'', [''checkov'', ''-d'', path, ''--output'', ''json'', ''--compact'', ''--quiet'', ''--soft-fail'']),
        (''tfsec'', [''tfsec'', path, ''--format'', ''json'', ''--soft-fail'']),
        (''modelscan'', [''modelscan'', ''-p'', path, ''-r'', ''json'', ''-o'', MODELSCAN_REPORT])] tool"

lemma tool_command_keys: "tool_command w tool path \<noteq> None \<longleftrightarrow> tool \<in> set TOOL_COMMANDS"
  by (auto simp: tool_command_def TOOL_COMMANDS_def)

definition command_of :: "tool_world \<Rightarrow> string \<Rightarrow> string \<Rightarrow> string list" where
  "command_of w tool path = (case tool_command w tool path of None \<Rightarrow> [] | Some cmd \<Rightarrow> cmd)"

subsection \<open>Standard error\<close>

text \<open>\<open>re.sub(r"\x1b\[[0-9;]*[A-Za-z]", "", text)\<close>.\<close>

definition is_letter :: "char \<Rightarrow> bool" where
  "is_letter c \<longleftrightarrow> (let n = (of_char c :: nat) in 65 \<le> n \<and> n \<le> 90 \<or> 97 \<le> n \<and> n \<le> 122)"

definition escape_length :: "string \<Rightarrow> nat option" where
  "escape_length rest =
     (let params = takeWhile (\<lambda>c. is_digit c \<or> c = CHR '';'') rest
      in case drop (length params) rest of
           c # _ \<Rightarrow> if is_letter c then Some (length params + 1) else None
         | [] \<Rightarrow> None)"

function strip_ansi :: "string \<Rightarrow> string" where
  "strip_ansi [] = []"
| "strip_ansi [c] = [c]"
| "strip_ansi (c # d # cs) =
     (if c = CHR 0x1B \<and> d = CHR ''['' then
        (case escape_length cs of Some n \<Rightarrow> strip_ansi (drop n cs) | None \<Rightarrow> c # strip_ansi (d # cs))
      else c # strip_ansi (d # cs))"
  by pat_completeness auto
termination by (relation "measure length") auto

definition stderr_tail :: "string \<Rightarrow> string" where
  "stderr_tail stderr =
     (case splitlines (str_strip (strip_ansi stderr)) of [] \<Rightarrow> ''no stderr'' | ls \<Rightarrow> take 300 (last ls))"

definition SUSPECT_STDERR_MARKERS :: "string list" where
  "SUSPECT_STDERR_MARKERS =
     [''failed to download'', ''unable to open db'', ''unable to open the database'', ''failed to open the database'',
      ''unable to initialize'', ''failed to initialize'', ''db error'', ''database error'', ''context deadline exceeded'',
      ''i/o timeout'', ''connection refused'', ''too many requests'', ''partial results'']"

definition stderr_warning :: "string \<Rightarrow> string \<Rightarrow> string" where
  "stderr_warning tool marker =
     tool @ '' warned '' @ [CHR 0x22] @ marker @ [CHR 0x22] @ '' while scanning, so its results may be incomplete''"

definition note_stderr :: "string \<Rightarrow> string \<Rightarrow> scan_health \<Rightarrow> scan_health" where
  "note_stderr tool stderr health =
     (let text = str_lower (strip_ansi stderr) in
      if text = [] then health
      else fold (\<lambda>m h. if str_contains m text then degrade (stderr_warning tool m) h else h) SUSPECT_STDERR_MARKERS health)"

subsection \<open>Running one command\<close>

record run_context =
  rc_tool :: string
  rc_env :: env
  rc_cached :: bool
  rc_seeded :: bool

definition success_codes :: "string \<Rightarrow> int list option" where
  "success_codes tool =
     map_of [(''semgrep'', [0, 1]), (''semgrep-llm'', [0, 1]), (''semgrep-core'', [0, 1]), (''semgrep-registry'', [0, 1]),
       (''gitleaks'', [0]), (''noseyparker'', [0]), (''trivy'', [0]), (''trivy-license'', [0]), (''gosec'', [0]),
       (''checkov'', [0]), (''tfsec'', [0])] tool"

definition exit_message :: "string \<Rightarrow> process \<Rightarrow> string" where
  "exit_message what p = what @ '' exited '' @ int_str (p_code p) @ '': '' @ stderr_tail (p_stderr p)"

definition not_installed :: "string \<Rightarrow> run_error" where
  "not_installed tool = ToolExecutionError (tool @ '' is not installed on this deployment; install it (see Tool Marketplace for the install command) or turn it off for this workspace''
     @ [CHR 0x27] @ ''s scan surfaces'')"

type_synonym run_result = "run_error + json \<times> scan_health"

definition read_report :: "tool_world \<Rightarrow> string \<Rightarrow> tool_text \<Rightarrow> scan_health \<Rightarrow> run_result" where
  "read_report w tool text health =
     (case text of
        Blank \<Rightarrow> Inr (JArr [], health)
      | Garbled e \<Rightarrow> Inl (ToolExecutionError (tool @ '' produced unreadable JSON: '' @ e))
      | Document j \<Rightarrow> Inr (j, health))"

definition run_noseyparker :: "tool_world \<Rightarrow> string list \<Rightarrow> string option \<Rightarrow> env \<Rightarrow> scan_health \<Rightarrow> run_result" where
  "run_noseyparker w cmd cwd en health =
     (case tw_spawn w cmd cwd en of
        None \<Rightarrow> Inl (not_installed ''noseyparker'')
      | Some p \<Rightarrow>
          if p_code p \<noteq> 0 then Inl (ToolExecutionError (exit_message ''noseyparker scan'' p))
          else (case tw_spawn w [''noseyparker'', ''report'', ''--datastore'', NOSEYPARKER_DATASTORE, ''--format'', ''json''] cwd en of
                  None \<Rightarrow> Inl (not_installed ''noseyparker'')
                | Some report \<Rightarrow>
                    if p_code report \<noteq> 0 then Inl (ToolExecutionError (exit_message ''noseyparker report'' report))
                    else read_report w ''noseyparker'' (p_stdout report) (note_stderr ''noseyparker'' (p_stderr p) health)))"

definition run_gitleaks :: "tool_world \<Rightarrow> string list \<Rightarrow> string option \<Rightarrow> env \<Rightarrow> scan_health \<Rightarrow> run_result" where
  "run_gitleaks w cmd cwd en health =
     (case tw_spawn w cmd cwd en of
        None \<Rightarrow> Inl (not_installed ''gitleaks'')
      | Some p \<Rightarrow>
          if p_code p \<noteq> 0 then Inl (ToolExecutionError (exit_message ''gitleaks'' p))
          else (case p_report p of
                  None \<Rightarrow> Inl (ToolExecutionError ''gitleaks exited 0 but produced no report file'')
                | Some text \<Rightarrow> read_report w ''gitleaks'' text (note_stderr ''gitleaks'' (p_stderr p) health)))"

definition NO_MODELS :: json where
  "NO_MODELS = JObj [(''summary'', JObj [(''total_issues'', JInt 0)]), (''issues'', JArr []), (''errors'', JArr [])]"

definition run_modelscan :: "tool_world \<Rightarrow> string list \<Rightarrow> env \<Rightarrow> scan_health \<Rightarrow> run_result" where
  "run_modelscan w cmd en health =
     (case tw_spawn w cmd None en of
        None \<Rightarrow> Inl (not_installed ''modelscan'')
      | Some p \<Rightarrow>
          if p_code p \<in> {2, 4}
          then Inl (ToolExecutionError (''modelscan failed (exit '' @ int_str (p_code p) @ '')''))
          else (let health' = note_stderr ''modelscan'' (p_stderr p) health in
                case p_report p of
                  None \<Rightarrow> Inr (NO_MODELS, health')
                | Some Blank \<Rightarrow> Inl (ToolExecutionError (''modelscan produced unreadable JSON: '' @ tw_blank_error w))
                | Some text \<Rightarrow> read_report w ''modelscan'' text health'))"

definition DICT_DEFAULT_TOOLS :: "string list" where
  "DICT_DEFAULT_TOOLS = [''semgrep'', ''trivy'', ''trivy-license'', ''gosec'', ''tfsec'', ''checkov'']"

definition empty_report :: "string \<Rightarrow> json" where
  "empty_report tool = (if tool \<in> set DICT_DEFAULT_TOOLS then JObj [] else JArr [])"

definition isolation_flags :: "string \<Rightarrow> string list \<Rightarrow> run_context \<Rightarrow> string list" where
  "isolation_flags tool cmd rc =
     (if rc_seeded rc \<and> tool \<in> {''trivy'', ''trivy-license''} \<and> ''--skip-db-update'' \<notin> set cmd
      then take 2 cmd @ [''--skip-db-update''] @ drop 2 cmd else cmd)"

definition execute :: "tool_world \<Rightarrow> checkout \<Rightarrow> run_context \<Rightarrow> string list \<Rightarrow> scan_health \<Rightarrow> run_result" where
  "execute w co rc cmd0 health =
     (let tool = rc_tool rc;
          cwd = (if tool = ''gosec'' then Some (co_root co) else None);
          cmd = isolation_flags tool cmd0 rc
      in if tool = ''modelscan'' then run_modelscan w cmd (rc_env rc) health
         else if tool = ''gitleaks'' then run_gitleaks w cmd cwd (rc_env rc) health
         else if tool = ''noseyparker'' then run_noseyparker w cmd cwd (rc_env rc) health
         else (case tw_spawn w cmd cwd (rc_env rc) of
                 None \<Rightarrow> Inl (not_installed tool)
               | Some p \<Rightarrow>
                   if (case success_codes tool of None \<Rightarrow> False | Some ok \<Rightarrow> p_code p \<notin> set ok)
                   then Inl (ToolExecutionError (exit_message tool p))
                   else (let health' = note_stderr tool (p_stderr p) health in
                         case p_stdout p of
                           Blank \<Rightarrow> Inr (empty_report tool, degrade (tool @ '' exited successfully but wrote no report, so there were no results to read'') health')
                         | Garbled e \<Rightarrow> Inr (empty_report tool, degrade (tool @ '' produced output that is not valid JSON, so its findings could not be read'') health')
                         | Document j \<Rightarrow> Inr (j, health'))))"

subsection \<open>Narrowing a scan to a diff\<close>

datatype scoping = MULTI_PATH | PER_FILE | MANIFEST | PACKAGE

definition TOOL_SCOPING :: "(string \<times> scoping) list" where
  "TOOL_SCOPING =
     [(''semgrep'', MULTI_PATH), (''semgrep-llm'', MULTI_PATH), (''semgrep-core'', MULTI_PATH),
      (''semgrep-registry'', MULTI_PATH), (''checkov'', MULTI_PATH), (''gitleaks'', PER_FILE),
      (''noseyparker'', MULTI_PATH), (''tfsec'', PER_FILE), (''modelscan'', PER_FILE), (''gosec'', PACKAGE),
      (''trivy'', MANIFEST), (''trivy-license'', MANIFEST)]"

definition MANIFEST_FILENAMES :: "string list" where
  "MANIFEST_FILENAMES =
     [''requirements.txt'', ''requirements-dev.txt'', ''pyproject.toml'', ''poetry.lock'', ''Pipfile'', ''Pipfile.lock'',
      ''setup.py'', ''setup.cfg'', ''uv.lock'', ''pdm.lock'', ''package.json'', ''package-lock.json'', ''yarn.lock'',
      ''pnpm-lock.yaml'', ''go.mod'', ''go.sum'', ''Gemfile'', ''Gemfile.lock'', ''pom.xml'', ''build.gradle'',
      ''build.gradle.kts'', ''gradle.lockfile'', ''Cargo.toml'', ''Cargo.lock'', ''composer.json'', ''composer.lock'',
      ''packages.config'', ''paket.lock'', ''mix.exs'', ''mix.lock'', ''conan.lock'', ''vcpkg.json'', ''Dockerfile'']"

definition TOOL_EXTENSIONS :: "(string \<times> string list) list" where
  "TOOL_EXTENSIONS =
     [(''tfsec'', [''.tf'', ''.tfvars'', ''.hcl'']),
      (''checkov'', [''.tf'', ''.tfvars'', ''.hcl'', ''.yaml'', ''.yml'', ''.json'', ''.template'']),
      (''modelscan'', [''.pkl'', ''.pickle'', ''.pt'', ''.pth'', ''.bin'', ''.h5'', ''.keras'', ''.pb'', ''.onnx'',
         ''.safetensors'', ''.joblib'', ''.dill'', ''.npy'', ''.npz''])]"

text \<open>The components of \<open>PurePosixPath(p)\<close>, its name, and its parent as text.\<close>

definition posix_parts :: "string \<Rightarrow> string list" where
  "posix_parts p = filter (\<lambda>c. c \<noteq> [] \<and> c \<noteq> ''.'') (split_on CHR ''/'' p)"

definition posix_name :: "string \<Rightarrow> string" where
  "posix_name p = (case posix_parts p of [] \<Rightarrow> [] | ps \<Rightarrow> last ps)"

definition posix_text :: "bool \<Rightarrow> string list \<Rightarrow> string" where
  "posix_text absolute parts =
     (if absolute then CHR ''/'' # join ''/'' parts else if parts = [] then ''.'' else join ''/'' parts)"

definition posix_parent :: "string \<Rightarrow> string" where
  "posix_parent p = posix_text (starts_with ''/'' p) (butlast (posix_parts p))"

definition str_ends_with :: "string \<Rightarrow> string \<Rightarrow> bool" where
  "str_ends_with suffix s \<longleftrightarrow> starts_with (rev suffix) (rev s)"

lemma str_ends_with_iff: "str_ends_with suffix s \<longleftrightarrow> (\<exists>p. s = p @ suffix)"
  unfolding str_ends_with_def starts_with_iff by (metis rev_append rev_rev_ident)

definition manifest_changed :: "string list \<Rightarrow> bool" where
  "manifest_changed paths =
     list_ex (\<lambda>p. posix_name p \<in> set MANIFEST_FILENAMES \<or> starts_with ''Dockerfile'' (posix_name p)) paths"

definition paths_for_tool :: "string \<Rightarrow> string list \<Rightarrow> string list" where
  "paths_for_tool tool paths =
     (case map_of TOOL_EXTENSIONS tool of
        None \<Rightarrow> paths
      | Some exts \<Rightarrow> filter (\<lambda>p. list_ex (\<lambda>e. str_ends_with e (str_lower p)) exts) paths)"

definition go_packages_for :: "string list \<Rightarrow> string list" where
  "go_packages_for paths =
     sort_str (map (\<lambda>d. if d = ''.'' then ''.'' else ''./'' @ d)
       (remdups (map posix_parent (filter (\<lambda>p. str_ends_with ''.go'' p) paths))))"

text \<open>\<open>merged.setdefault(key, []).extend(value)\<close> raises when the key already holds something that
  is not a list.\<close>

fun merge_fields :: "(string \<times> json) list \<Rightarrow> (string \<times> json) list \<Rightarrow> (string \<times> json) list option" where
  "merge_fields merged [] = Some merged"
| "merge_fields merged ((key, value) # kvs) =
     (case (value, map_of merged key) of
        (JArr xs, None) \<Rightarrow> merge_fields (merged @ [(key, JArr xs)]) kvs
      | (JArr xs, Some (JArr ys)) \<Rightarrow> merge_fields (AList.update key (JArr (ys @ xs)) merged) kvs
      | (JArr xs, Some _) \<Rightarrow> None
      | (_, None) \<Rightarrow> merge_fields (merged @ [(key, value)]) kvs
      | (_, Some _) \<Rightarrow> merge_fields merged kvs)"

fun merge_dicts :: "json list \<Rightarrow> (string \<times> json) list \<Rightarrow> (string \<times> json) list option" where
  "merge_dicts [] merged = Some merged"
| "merge_dicts (JObj kvs # rs) merged =
     (case merge_fields merged kvs of None \<Rightarrow> None | Some merged' \<Rightarrow> merge_dicts rs merged')"
| "merge_dicts (_ # rs) merged = merge_dicts rs merged"

definition merge_reports :: "json list \<Rightarrow> json option" where
  "merge_reports reports =
     (case reports of
        [] \<Rightarrow> Some (JArr [])
      | first # _ \<Rightarrow>
          (if is_arr first then Some (JArr (concat (map (\<lambda>r. case r of JArr xs \<Rightarrow> xs | _ \<Rightarrow> []) reports)))
           else map_option JObj (merge_dicts reports [])))"

text \<open>\<open>str(repo_path / p)\<close> for a path of GitHub's changed-file list, which has no \<open>.\<close> components.\<close>

definition path_join :: "string \<Rightarrow> string \<Rightarrow> string" where
  "path_join repo p = (if starts_with ''/'' p then p else repo @ ''/'' @ p)"

text \<open>One run per file; the first error ends the loop.\<close>

fun execute_each ::
  "tool_world \<Rightarrow> checkout \<Rightarrow> run_context \<Rightarrow> string list \<Rightarrow> scan_health \<Rightarrow> run_error + json list \<times> scan_health" where
  "execute_each w co rc [] health = Inr ([], health)"
| "execute_each w co rc (p # ps) health =
     (case execute w co rc (command_of w (rc_tool rc) p) health of
        Inl e \<Rightarrow> Inl e
      | Inr (j, health') \<Rightarrow>
          (case execute_each w co rc ps health' of
             Inl e \<Rightarrow> Inl e
           | Inr (js, health'') \<Rightarrow> Inr (j # js, health'')))"

definition MERGE_FAILED :: run_error where
  "MERGE_FAILED = AttributeError ''a field is a list in one report and not in another''"

definition run_tool_scoped ::
  "tool_world \<Rightarrow> checkout \<Rightarrow> run_context \<Rightarrow> string list \<Rightarrow> scan_health \<Rightarrow> run_result" where
  "run_tool_scoped w co rc paths health =
     (let tool = rc_tool rc;
          strategy = (case map_of TOOL_SCOPING tool of None \<Rightarrow> MULTI_PATH | Some s \<Rightarrow> s);
          relevant = paths_for_tool tool paths;
          whole = command_of w tool (co_root co)
      in if strategy = MANIFEST then
           (if manifest_changed paths then execute w co rc whole health
            else Inl (ToolNotApplicable (tool @ '' scans dependency manifests; no manifest or lockfile changed in this diff'')))
         else if relevant = [] then Inl (ToolNotApplicable (''no files in this diff are scannable by '' @ tool))
         else if strategy = PACKAGE then
           (let packages = go_packages_for relevant in
            if packages = [] then Inl (ToolNotApplicable ''no Go files changed in this diff'')
            else execute w co rc ([''gosec'', ''-fmt=json'', ''-quiet''] @ packages) health)
         else
           (let full = map (path_join (co_root co)) relevant in
            if strategy = PER_FILE then
              (case execute_each w co rc full health of
                 Inl e \<Rightarrow> Inl e
               | Inr (reports, health') \<Rightarrow>
                   (case merge_reports reports of None \<Rightarrow> Inl MERGE_FAILED | Some j \<Rightarrow> Inr (j, health')))
            else if tool = ''checkov'' then
              execute w co rc (filter (\<lambda>c. c \<noteq> ''-d'' \<and> c \<noteq> co_root co) whole @ concat (map (\<lambda>p. [''-f'', p]) full)) health
            else execute w co rc (butlast whole @ full) health))"

subsection \<open>A whole run\<close>

definition has_match :: "checkout \<Rightarrow> string \<Rightarrow> bool" where
  "has_match co ext = list_ex (\<lambda>e. te_parts e \<noteq> [] \<and> str_ends_with ext (last (te_parts e))) (co_entries co)"

definition run_tool_inner ::
  "tool_world \<Rightarrow> checkout \<Rightarrow> run_context \<Rightarrow> string list option \<Rightarrow> scan_health \<Rightarrow> run_result" where
  "run_tool_inner w co rc paths health =
     (let tool = rc_tool rc in
      case paths of
        Some ps \<Rightarrow> run_tool_scoped w co rc ps health
      | None \<Rightarrow>
          if tool = ''gosec'' \<and> \<not> has_match co ''.go'' then Inl (ToolNotApplicable ''no Go files in this repository'')
          else if tool = ''semgrep-registry'' \<and> tw_registry_configs w (co_root co) = [] then
            Inl (ToolNotApplicable (''no pruned registry rules for this repository'' @ [CHR 0x27] @ ''s languages (is SEMGREP_RULES_REGISTRY_ROOT provisioned?)''))
          else (case map_of TOOL_EXTENSIONS tool of
                  Some exts \<Rightarrow>
                    if list_ex (has_match co) exts then execute w co rc (command_of w tool (co_root co)) health
                    else Inl (ToolNotApplicable (''no files in this repository match what '' @ tool @ '' scans ('' @ join '', '' exts @ '')''))
                | None \<Rightarrow> execute w co rc (command_of w tool (co_root co)) health))"

definition RESOLVED_LOCKFILES :: "string list" where
  "RESOLVED_LOCKFILES =
     [''package-lock.json'', ''yarn.lock'', ''pnpm-lock.yaml'', ''poetry.lock'', ''Pipfile.lock'', ''uv.lock'',
      ''pdm.lock'', ''go.sum'', ''Gemfile.lock'', ''Cargo.lock'', ''composer.lock'', ''gradle.lockfile'', ''paket.lock'',
      ''mix.lock'', ''conan.lock'']"

definition MIN_LOCKFILE_BYTES :: int where "MIN_LOCKFILE_BYTES = 512"

definition has_resolved_lockfile :: "checkout \<Rightarrow> bool" where
  "has_resolved_lockfile co =
     list_ex (\<lambda>e. te_is_file e \<and> te_parts e \<noteq> [] \<and> ''.git'' \<notin> set (butlast (te_parts e)) \<and>
        last (te_parts e) \<in> set RESOLVED_LOCKFILES \<and>
        (case te_size e of None \<Rightarrow> False | Some n \<Rightarrow> MIN_LOCKFILE_BYTES \<le> n)) (co_entries co)"

subsection \<open>The vulnerability database behind a run\<close>

definition MIN_TRIVY_DB_BYTES :: int where "MIN_TRIVY_DB_BYTES = 32 * 1024 * 1024"
definition TRIVY_DB_STALE_GRACE_HOURS :: int where "TRIVY_DB_STALE_GRACE_HOURS = 72"

text \<open>None when the database is usable, else the reason it is not.\<close>

definition trivy_db_state :: "tool_world \<Rightarrow> trivy_cache \<Rightarrow> string option" where
  "trivy_db_state w tc =
     (case tc_db tc of
        NoFile \<Rightarrow> Some ''there was no vulnerability database file (db/trivy.db), so no CVE could have been found''
      | NoStat \<Rightarrow> Some ''the vulnerability database file could not be read''
      | Bytes len \<Rightarrow>
          if len < MIN_TRIVY_DB_BYTES then
            Some (''the vulnerability database file is only '' @ int_str len @ '' bytes, far short of a complete one (truncated, or still being written)'')
          else (case tc_metadata tc of
                  NoMetadata \<Rightarrow> Some ''the vulnerability database carries no metadata, so its contents cannot be vouched for''
                | BadMetadata \<Rightarrow> Some ''the vulnerability database metadata was unreadable''
                | Metadata j \<Rightarrow>
                    (case jget ''Version'' JNull j of
                       None \<Rightarrow> Some ''the vulnerability database metadata declares no schema version''
                     | Some v \<Rightarrow>
                         if \<not> is_true v then Some ''the vulnerability database metadata declares no schema version''
                         else (case (case jget ''NextUpdate'' JNull j of Some (JStr s) \<Rightarrow> if s = [] then None else tw_timestamp w s | _ \<Rightarrow> None) of
                                 None \<Rightarrow> Some ''the vulnerability database does not say when it is next due for refresh''
                               | Some due \<Rightarrow>
                                   if tw_now w - due > hours TRIVY_DB_STALE_GRACE_HOURS then
                                     Some (''the vulnerability database is '' @ int_str ((tw_now w - due) div days 1) @ '' day(s) past its own refresh deadline, so anything published since then cannot be found'')
                                   else None))))"

definition cache_health :: "tool_world \<Rightarrow> scan_health \<Rightarrow> scan_health" where
  "cache_health w health =
     (case trivy_db_state w (tw_cache_after w) of
        Some reason \<Rightarrow> degrade (''trivy'' @ [CHR 0x27] @ ''s vulnerability database was not usable for this run: '' @ reason) health
      | None \<Rightarrow>
          if tc_fingerprint (tw_cache_before w) \<noteq> None \<and> tc_fingerprint (tw_cache_after w) \<noteq> tc_fingerprint (tw_cache_before w)
          then degrade (''trivy'' @ [CHR 0x27] @ ''s vulnerability database changed while the scan was running, so the scan read it mid-replacement and cannot be treated as complete'') health
          else health)"

definition assess_trivy_run :: "tool_world \<Rightarrow> checkout \<Rightarrow> run_context \<Rightarrow> json \<Rightarrow> scan_health \<Rightarrow> scan_health" where
  "assess_trivy_run w co rc raw health =
     (if rc_tool rc \<noteq> ''trivy'' then health
      else (let h1 = (if rc_cached rc then cache_health w health else health);
                examined = (case jget ''Results'' JNull raw of None \<Rightarrow> False | Some v \<Rightarrow> is_true v)
            in if \<not> examined \<and> has_resolved_lockfile co then
                 degrade (''trivy reported no package sources at all for a repository that contains a dependency lockfile, so it did not resolve this repository'' @ [CHR 0x27] @ ''s dependencies'') h1
               else h1))"

subsection \<open>Isolation\<close>

definition cache_isolation :: "string \<Rightarrow> string option" where
  "cache_isolation tool =
     map_of [(''trivy'', ''TRIVY_CACHE_DIR''), (''trivy-license'', ''TRIVY_CACHE_DIR''),
       (''semgrep'', ''SEMGREP_SETTINGS_FILE''), (''semgrep-llm'', ''SEMGREP_SETTINGS_FILE''),
       (''semgrep-core'', ''SEMGREP_SETTINGS_FILE''), (''semgrep-registry'', ''SEMGREP_SETTINGS_FILE'')] tool"

definition plain_run :: "string \<Rightarrow> run_context" where
  "plain_run tool = \<lparr>rc_tool = tool, rc_env = None, rc_cached = False, rc_seeded = False\<rparr>"

text \<open>\<open>tw_isolate\<close> gives the private path and whether the warm database could be linked into it, or
  the class of the \<open>OSError\<close>.\<close>

definition isolated_run :: "tool_world \<Rightarrow> string \<Rightarrow> run_context \<times> scan_health" where
  "isolated_run w tool =
     (case cache_isolation tool of
        None \<Rightarrow> (plain_run tool, trusted tool)
      | Some var \<Rightarrow>
          (case tw_isolate w tool of
             Inl exc \<Rightarrow>
               (plain_run tool,
                degrade (''could not isolate '' @ tool @ [CHR 0x27] @ ''s cache for this run ('' @ exc @ ''), so it shared mutable state with any concurrent scan'')
                  (trusted tool))
           | Inr (path, linked) \<Rightarrow>
               (let cached = (var = ''TRIVY_CACHE_DIR'') in
                (\<lparr>rc_tool = tool, rc_env = Some [(var, path)], rc_cached = cached, rc_seeded = cached \<and> linked\<rparr>,
                 trusted tool))))"

definition run_tool_checked :: "tool_world \<Rightarrow> string \<Rightarrow> checkout \<Rightarrow> string list option \<Rightarrow> run_result" where
  "run_tool_checked w tool co paths =
     (if tool \<notin> set TOOL_COMMANDS then Inl (UnsupportedTool (''unsupported tool: '' @ tool))
      else (let (rc, health) = isolated_run w tool in
            case run_tool_inner w co rc paths health of
              Inl e \<Rightarrow> Inl e
            | Inr (raw, health') \<Rightarrow> Inr (raw, assess_trivy_run w co rc raw health')))"

definition run_tool :: "tool_world \<Rightarrow> string \<Rightarrow> checkout \<Rightarrow> string list option \<Rightarrow> run_error + json" where
  "run_tool w tool co paths = map_sum id fst (run_tool_checked w tool co paths)"

end
