(* ===== verification/AiRepo.thy ===== *)
theory AiRepo
  imports Runner
begin

text \<open>
  Which repositories hold AI or ML code: \<open>core/ai_repo_detection.py\<close> and \<open>core/ai_repo_status.py\<close>.
  The entries of a checkout are in the order \<open>rglob\<close> yields them.
\<close>

definition MODEL_FILE_EXTENSIONS :: "string list" where
  "MODEL_FILE_EXTENSIONS =
     [''.pkl'', ''.pickle'', ''.pt'', ''.pth'', ''.bin'', ''.safetensors'', ''.h5'', ''.keras'', ''.onnx'', ''.pb'',
      ''.gguf'', ''.ggml'', ''.joblib'', ''.dill'']"

definition SKIP_DIRECTORIES :: "string list" where
  "SKIP_DIRECTORIES =
     [''.git'', ''node_modules'', ''.venv'', ''venv'', ''__pycache__'', ''dist'', ''build'', ''.next'', ''.tox'',
      ''vendor'', ''target'', ''.mypy_cache'', ''.pytest_cache'']"

definition PY_PACKAGES :: "string list" where
  "PY_PACKAGES =
     [''torch'', ''torchvision'', ''torchaudio'', ''tensorflow'', ''tensorflow-cpu'', ''keras'', ''jax'', ''jaxlib'',
      ''scikit-learn'', ''sklearn'', ''xgboost'', ''lightgbm'', ''catboost'', ''onnx'', ''onnxruntime'', ''openai'',
      ''anthropic'', ''transformers'', ''sentence-transformers'', ''huggingface-hub'', ''diffusers'', ''accelerate'',
      ''peft'', ''trl'', ''llama-index'', ''llama-cpp-python'', ''vllm'', ''ollama'', ''litellm'', ''haystack-ai'',
      ''crewai'', ''autogen'', ''pyautogen'', ''guidance'', ''dspy-ai'', ''instructor'', ''outlines'', ''cohere'',
      ''replicate'', ''together'', ''google-generativeai'', ''mistralai'', ''groq'', ''chromadb'', ''pinecone-client'',
      ''pinecone'', ''weaviate-client'', ''qdrant-client'', ''faiss-cpu'', ''faiss-gpu'', ''lancedb'', ''pymilvus'',
      ''mlflow'', ''bentoml'', ''kserve'', ''wandb'', ''sagemaker'']"

definition PY_PREFIXES :: "string list" where
  "PY_PREFIXES = [''langchain'', ''llama-index-'', ''opentelemetry-instrumentation-openai'']"

definition NPM_PACKAGES :: "string list" where
  "NPM_PACKAGES =
     [''openai'', ''anthropic'', ''@anthropic-ai/sdk'', ''ai'', ''cohere-ai'', ''replicate'', ''langchain'', ''llamaindex'',
      ''@huggingface/inference'', ''@huggingface/transformers'', ''@xenova/transformers'', ''@google/generative-ai'',
      ''@mistralai/mistralai'', ''groq-sdk'', ''onnxruntime-node'', ''onnxruntime-web'', ''@tensorflow/tfjs'',
      ''@tensorflow/tfjs-node'', ''chromadb'', ''@pinecone-database/pinecone'', ''weaviate-ts-client'',
      ''@qdrant/js-client-rest'', ''ollama'']"

definition NPM_PREFIXES :: "string list" where
  "NPM_PREFIXES = [''@langchain/'', ''@llamaindex/'', ''@ai-sdk/'']"

definition GO_SUBSTRINGS :: "string list" where
  "GO_SUBSTRINGS = [''github.com/sashabaranov/go-openai'', ''github.com/tmc/langchaingo'',
     ''github.com/anthropics/anthropic-sdk-go'', ''github.com/ollama/ollama'']"

definition in_family :: "string list \<Rightarrow> string list \<Rightarrow> string \<Rightarrow> bool" where
  "in_family names prefixes lowered \<longleftrightarrow> lowered \<in> set names \<or> list_ex (\<lambda>p. starts_with p lowered) prefixes"

definition package_is_ai :: "string \<Rightarrow> string \<Rightarrow> bool" where
  "package_is_ai name package_type =
     (let lowered = str_lower (str_strip name) in
      if lowered = [] then False
      else if package_type = ''npm'' then in_family NPM_PACKAGES NPM_PREFIXES lowered
      else if package_type \<in> {''pip'', ''python-pkg'', ''poetry'', ''conda''} then in_family PY_PACKAGES PY_PREFIXES lowered
      else if package_type \<in> {''gomod'', ''golang''} then list_ex (\<lambda>s. str_contains s lowered) GO_SUBSTRINGS
      else in_family PY_PACKAGES PY_PREFIXES lowered)"

subsection \<open>The two signals\<close>

text \<open>\<open>path.suffix\<close>: from the last dot, unless it begins or ends the name.\<close>

definition path_suffix :: "string \<Rightarrow> string" where
  "path_suffix name =
     (let ext = rev (takeWhile (\<lambda>c. c \<noteq> CHR ''.'') (rev name)) in
      if ext = [] \<or> length ext + 1 \<ge> length name then [] else CHR ''.'' # ext)"

definition is_model_file :: "tree_entry \<Rightarrow> bool" where
  "is_model_file e \<longleftrightarrow>
     te_parts e \<noteq> [] \<and> list_all (\<lambda>d. d \<notin> set SKIP_DIRECTORIES) (butlast (te_parts e)) \<and> te_is_file e \<and>
     str_lower (path_suffix (last (te_parts e))) \<in> set MODEL_FILE_EXTENSIONS"

fun model_files_loop :: "tree_entry list \<Rightarrow> nat \<Rightarrow> string list \<Rightarrow> string list" where
  "model_files_loop [] cap found = found"
| "model_files_loop (e # es) cap found =
     (if length found \<ge> cap then found
      else model_files_loop es cap (if is_model_file e then found @ [join ''/'' (te_parts e)] else found))"

definition detect_model_files :: "checkout \<Rightarrow> nat \<Rightarrow> string list" where
  "detect_model_files co cap = model_files_loop (co_entries co) cap []"

fun ai_packages_loop :: "(string \<times> string) list \<Rightarrow> nat \<Rightarrow> string list \<Rightarrow> string list \<Rightarrow> string list" where
  "ai_packages_loop [] cap seen matched = matched"
| "ai_packages_loop ((name, package_type) # cs) cap seen matched =
     (if length matched \<ge> cap then matched
      else (let key = str_lower (str_strip name) in
            if key \<in> set seen then ai_packages_loop cs cap seen matched
            else if package_is_ai name (str_lower package_type) then ai_packages_loop cs cap (key # seen) (matched @ [name])
            else ai_packages_loop cs cap seen matched))"

definition detect_ai_packages :: "(string \<times> string) list \<Rightarrow> nat \<Rightarrow> string list" where
  "detect_ai_packages components cap = ai_packages_loop components cap [] []"

record ai_detection =
  ai_detected :: bool
  ai_signals :: "string list"

definition detect_ai_repo :: "checkout option \<Rightarrow> (string \<times> string) list \<Rightarrow> ai_detection" where
  "detect_ai_repo repo components =
     (let files = (case repo of None \<Rightarrow> [] | Some co \<Rightarrow> detect_model_files co 5);
          packages = detect_ai_packages components 5;
          signals = (if files \<noteq> [] then [''model files present: '' @ join '', '' files] else [])
            @ (if packages \<noteq> [] then [''AI/ML dependencies: '' @ join '', '' packages] else [])
      in \<lparr>ai_detected = signals \<noteq> [], ai_signals = signals\<rparr>)"

subsection \<open>The flag of a target\<close>

definition MAX_SIGNAL_CHARS :: nat where "MAX_SIGNAL_CHARS = 500"

definition components_for_target :: "db \<Rightarrow> target \<Rightarrow> (string \<times> string) list" where
  "components_for_target db t =
     map (\<lambda>c. (sc_name c, sc_package_type c))
       (filter (\<lambda>c. sc_target_id c = t_id t \<and> sc_branch c = t_default_branch t) (d_sbom db))"

definition effective_is_ai_repo :: "target \<Rightarrow> bool" where
  "effective_is_ai_repo t = (case t_is_ai_repo_override t of Some b \<Rightarrow> b | None \<Rightarrow> t_is_ai_repo t)"

definition refresh_ai_repo_status :: "checkout option \<Rightarrow> target \<Rightarrow> db \<Rightarrow> db" where
  "refresh_ai_repo_status repo t db =
     (let result = detect_ai_repo repo (components_for_target db t);
          signals = take MAX_SIGNAL_CHARS (join ''; '' (ai_signals result))
      in if t_is_ai_repo t = ai_detected result \<and> t_is_ai_repo_signals t = signals then db
         else db\<lparr>d_targets := update_rows t_id (t_id t)
                (\<lambda>t. t\<lparr>t_is_ai_repo := ai_detected result, t_is_ai_repo_signals := signals\<rparr>) (d_targets db)\<rparr>)"

subsection \<open>The caps do not change the verdict\<close>

lemma model_files_loop_empty:
  "0 < cap \<Longrightarrow> model_files_loop es cap [] = [] \<longleftrightarrow> (\<forall>e\<in>set es. \<not> is_model_file e)"
proof -
  have keep: "found \<noteq> [] \<Longrightarrow> model_files_loop es cap found \<noteq> []" for es found
    by (induction es arbitrary: found) auto
  show "0 < cap \<Longrightarrow> model_files_loop es cap [] = [] \<longleftrightarrow> (\<forall>e\<in>set es. \<not> is_model_file e)"
    by (induction es) (auto simp: keep)
qed

lemma ai_packages_loop_empty:
  "0 < cap \<Longrightarrow> ai_packages_loop cs cap [] [] = [] \<longleftrightarrow> (\<forall>(n, ty)\<in>set cs. \<not> package_is_ai n (str_lower ty))"
proof -
  have keep: "matched \<noteq> [] \<Longrightarrow> ai_packages_loop cs cap seen matched \<noteq> []" for cs seen matched
    by (induction cs cap seen matched rule: ai_packages_loop.induct) (auto simp: Let_def)
  show "0 < cap \<Longrightarrow> ai_packages_loop cs cap [] [] = [] \<longleftrightarrow> (\<forall>(n, ty)\<in>set cs. \<not> package_is_ai n (str_lower ty))"
    by (induction cs) (auto simp: keep Let_def split: if_splits)
qed

lemma detection_exact:
  "ai_detected (detect_ai_repo repo components) \<longleftrightarrow>
     (\<exists>co. repo = Some co \<and> (\<exists>e\<in>set (co_entries co). is_model_file e)) \<or>
     (\<exists>(n, ty)\<in>set components. package_is_ai n (str_lower ty))"
  using model_files_loop_empty [of 5] ai_packages_loop_empty [of 5 components]
  by (auto simp: detect_ai_repo_def detect_model_files_def detect_ai_packages_def Let_def split: option.split)

end
