(* ===== verification/ScanTask.thy ===== *)
theory ScanTask
  imports AiRepo IngestProps
begin

text \<open>
  \<open>tasks/scan_tasks.py\<close>, \<open>api/ingest.py\<close> and \<open>scanners/secret_context.py\<close>: a scan from the task's
  arguments to the committed rows, the fan-out of a full scan, and the CI push endpoint.  The clone
  and everything a run fetches are in the record \<open>scan_world\<close>.  A task's result is the database it
  commits, its outcome and the events it sends.
\<close>

subsection \<open>Where a finding is\<close>

text \<open>The root of \<open>PurePosixPath(p)\<close>: exactly two leading slashes are a root of their own.\<close>

definition posix_anchor :: "string \<Rightarrow> string" where
  "posix_anchor p =
     (if starts_with ''///'' p then ''/'' else if starts_with ''//'' p then ''//''
      else if starts_with ''/'' p then ''/'' else [])"

definition relative_to :: "string \<Rightarrow> string \<Rightarrow> string option" where
  "relative_to repo p =
     (let base = posix_parts repo in
      if posix_anchor p = posix_anchor repo \<and> take (length base) (posix_parts p) = base
      then Some (posix_text False (drop (length base) (posix_parts p))) else None)"

text \<open>None is a \<open>TypeError\<close>.\<close>

definition normalize_file_path :: "string \<Rightarrow> json \<Rightarrow> json option" where
  "normalize_file_path repo path =
     (if \<not> is_true path then Some path
      else (case path of
              JStr p \<Rightarrow> Some (JStr (case relative_to repo p of None \<Rightarrow> p | Some r \<Rightarrow> r))
            | _ \<Rightarrow> None))"

subsection \<open>Comment context of a secret\<close>

definition SECRET_TOOLS :: "string list" where "SECRET_TOOLS = [''gitleaks'', ''noseyparker'']"

definition COMMENT_PREFIXES :: "string list" where
  "COMMENT_PREFIXES = [''#'', ''//'', ''--'', '';'', ''/*'', ''*'', ''<!--'', replicate 3 (CHR 0x22), replicate 3 (CHR 0x27), ''%'']"

definition line_looks_like_a_comment :: "string \<Rightarrow> bool" where
  "line_looks_like_a_comment line =
     (let stripped = str_strip line in
      if stripped = [] then False else list_ex (\<lambda>p. starts_with p stripped) COMMENT_PREFIXES)"

text \<open>\<open>co_lines\<close> gives the lines of a file that can be opened.  A float that is not an integer equals
  no line number.\<close>

definition line_at :: "string list \<Rightarrow> rat \<Rightarrow> string option" where
  "line_at ls n =
     (if of_int (\<lfloor>n\<rfloor>) = n \<and> 1 \<le> \<lfloor>n\<rfloor> \<and> nat (\<lfloor>n\<rfloor>) \<le> length ls then Some (ls ! (nat (\<lfloor>n\<rfloor>) - 1)) else None)"

definition read_line :: "checkout \<Rightarrow> json \<Rightarrow> json \<Rightarrow> string option option" where
  "read_line co path line_no =
     (if \<not> is_true path \<or> \<not> is_true line_no then Some None
      else (case numeric line_no of
              None \<Rightarrow> None
            | Some n \<Rightarrow>
                if n < 1 then Some None
                else (case path of
                        JStr p \<Rightarrow> Some (case co_lines co (path_join (co_root co) p) of None \<Rightarrow> None | Some ls \<Rightarrow> line_at ls n)
                      | _ \<Rightarrow> None)))"

definition COMMENT_NOTE :: string where
  "COMMENT_NOTE = ''This line is a comment. A commented-out credential is still committed and still ''
     @ ''in history, so this is context to weigh rather than a reason to dismiss it.''"

definition annotate :: "string \<Rightarrow> checkout \<Rightarrow> parsed_item \<Rightarrow> parsed_item option" where
  "annotate tool co item =
     (if tool \<notin> set SECRET_TOOLS then Some item
      else do {
        line \<leftarrow> read_line co (pi_file_path item) (pi_line_start item);
        if (case line of None \<Rightarrow> True | Some l \<Rightarrow> \<not> line_looks_like_a_comment l) then Some item
        else do {
          description \<leftarrow> join_parts (pi_description item) COMMENT_NOTE;
          Some (item\<lparr>pi_description := JStr description\<rparr>) } })"

definition prepare_item :: "string \<Rightarrow> checkout \<Rightarrow> parsed_item \<Rightarrow> parsed_item option" where
  "prepare_item tool co item = do {
     path \<leftarrow> normalize_file_path (co_root co) (pi_file_path item);
     annotate tool co (item\<lparr>pi_file_path := path\<rparr>) }"

subsection \<open>A scan\<close>

definition AI_ONLY_TOOLS :: "string list" where "AI_ONLY_TOOLS = [''modelscan'', ''semgrep-llm'']"

text \<open>What \<open>clone_repo\<close> does: a failure of \<open>git clone\<close> is retried, any other is not.\<close>

datatype clone_result = Cloned checkout | CloneProcessError | CloneError string

text \<open>\<open>sw_detects\<close> is whether the AI-repository detection ran without raising, and \<open>sw_error_text\<close> the
  text of an exception of a parser or of the scoring.  \<open>sw_refuses\<close> says what the database makes of a batch with a
  field whose type is not its column's: Some when it refuses a row, with the CVE cache committed by then.\<close>

record scan_world =
  sw_clone :: "target \<Rightarrow> row_id \<Rightarrow> clone_result"
  sw_detects :: bool
  sw_tools :: tool_world
  sw_show :: "json \<Rightarrow> string"
  sw_ingest :: ingest_world
  sw_refuses :: "parsed_item list \<Rightarrow> cve_enrichment list option"
  sw_error_text :: string
  sw_now :: timestamp

datatype scan_outcome =
  TargetNotFound | ScanRefused string | ScanNotFound | Ingested nat string | Skipped string | ScanFailed string | Retried
  | TaskRaised

datatype scan_event = FindingAlert alert | ScanFailureNotice row_id string string

definition get_scan :: "db \<Rightarrow> row_id \<Rightarrow> scan option" where
  "get_scan db i = List.find (\<lambda>s. s_id s = i) (d_scans db)"

definition update_scan :: "row_id \<Rightarrow> (scan \<Rightarrow> scan) \<Rightarrow> db \<Rightarrow> db" where
  "update_scan i g db = db\<lparr>d_scans := update_rows s_id i g (d_scans db)\<rparr>"

definition new_scan :: "timestamp \<Rightarrow> row_id \<Rightarrow> string \<Rightarrow> string \<Rightarrow> db \<Rightarrow> row_id \<times> db" where
  "new_scan now target_id tool branch db =
     (let i = next_id s_id (d_scans db) in
      (i, db\<lparr>d_scans := d_scans db @
         [\<lparr>s_id = i, s_target_id = target_id, s_tool = tool, s_branch = branch, s_status = ''running'',
           s_started_at = now, s_completed_at = None, s_findings_count = 0, s_error = [],
           s_health = HEALTH_UNKNOWN, s_health_note = []\<rparr>]\<rparr>))"

definition complete_scan :: "timestamp \<Rightarrow> row_id \<Rightarrow> db \<Rightarrow> db" where
  "complete_scan now i = update_scan i (\<lambda>s. s\<lparr>s_status := ''completed'', s_completed_at := Some now\<rparr>)"

definition fail_scan :: "string \<Rightarrow> row_id \<Rightarrow> db \<Rightarrow> db" where
  "fail_scan error i = update_scan i (\<lambda>s. s\<lparr>s_status := ''failed'', s_error := error\<rparr>)"

definition run_error_text :: "run_error \<Rightarrow> string" where
  "run_error_text e = (case e of ToolExecutionError m \<Rightarrow> m | ToolNotApplicable m \<Rightarrow> m | UnsupportedTool m \<Rightarrow> m | AttributeError m \<Rightarrow> m)"

text \<open>The handler of an exception commits the session, and with it the rows the loop of
  \<open>ingest_findings\<close> had changed when the scoring raised: those of the items before, and of the item's
  own finding the columns assigned before its score.\<close>

fun ingest_until :: "ingest_run \<Rightarrow> scan_item list \<Rightarrow> db \<times> row_id list \<Rightarrow> db" where
  "ingest_until run [] st = fst st"
| "ingest_until run (item # items) st =
     (case ingest_item run item st of
        Inr st' \<Rightarrow> ingest_until run items st'
      | Inl _ \<Rightarrow>
          (case List.find (same_finding run (item_hash run item)) (d_findings (fst st)) of
             None \<Rightarrow> fst st
           | Some f \<Rightarrow> update_finding (f_id f) (observe_again run item (f_priority_score f)) (fst st)))"

definition partial_ingest :: "ingest_world \<Rightarrow> target \<Rightarrow> row_id \<Rightarrow> string \<Rightarrow> string \<Rightarrow> scan_item list \<Rightarrow> db \<Rightarrow> db" where
  "partial_ingest w t scan_id tool branch parsed db =
     (let (run, db1) = start_run w t scan_id tool branch parsed db in ingest_until run parsed (db1, []))"

type_synonym task_result = "db \<times> scan_outcome \<times> scan_event list"

definition scan_failed :: "target \<Rightarrow> string \<Rightarrow> row_id \<Rightarrow> string \<Rightarrow> db \<Rightarrow> task_result" where
  "scan_failed t tool i error db = (fail_scan error i db, ScanFailed error, [ScanFailureNotice (t_id t) tool error])"

text \<open>A database statement failed: the handler's own commit raises, so the task raises, and nothing is committed but
  the CVE cache.\<close>

definition session_lost :: "cve_enrichment list \<Rightarrow> db \<Rightarrow> task_result" where
  "session_lost rows db = (db\<lparr>d_enrichments := rows\<rparr>, TaskRaised, [])"

text \<open>The body of the task once there is a checkout.  None: an item has a field whose type is not
  its column's, and the database does not refuse it: either it stores the value after all, or a function
  of the ingestion raises on it first.\<close>

definition scan_checkout :: "scan_world \<Rightarrow> target \<Rightarrow> string \<Rightarrow> row_id \<Rightarrow> checkout \<Rightarrow> db \<Rightarrow> task_result option" where
  "scan_checkout w t0 tool i co db0 =
     (let db = (if sw_detects w then refresh_ai_repo_status (Some co) t0 db0 else db0);
          t = (case get_target db (t_id t0) of None \<Rightarrow> t0 | Some t \<Rightarrow> t)
      in if tool \<in> set AI_ONLY_TOOLS \<and> \<not> effective_is_ai_repo t then
           Some (complete_scan (sw_now w) i db, Skipped ''not an AI/ML repo'', [])
         else (case run_tool_checked (sw_tools w) tool co None of
                 Inl (ToolNotApplicable reason) \<Rightarrow> Some (complete_scan (sw_now w) i db, Skipped reason, [])
               | Inl e \<Rightarrow> Some (scan_failed t tool i (run_error_text e) db)
               | Inr (raw, health) \<Rightarrow>
                   (case Option.bind (parse_report (sw_show w) tool raw) (collect (prepare_item tool co)) of
                      None \<Rightarrow> Some (scan_failed t tool i (sw_error_text w) db)
                    | Some parsed \<Rightarrow>
                        (case collect scan_item_of parsed of
                           None \<Rightarrow> map_option (\<lambda>rows. session_lost rows db) (sw_refuses w parsed)
                         | Some items \<Rightarrow>
                             (case ingest_findings (sw_ingest w) t i tool (t_default_branch t) items (Some health) db of
                                Inl SessionLost \<Rightarrow> Some (session_lost
                                  (d_enrichments (snd (start_run (sw_ingest w) t i tool (t_default_branch t) items db))) db)
                              | Inl (ScoringError _) \<Rightarrow> Some (scan_failed t tool i (sw_error_text w)
                                           (partial_ingest (sw_ingest w) t i tool (t_default_branch t) items db))
                              | Inr (db', alerts) \<Rightarrow>
                                  Some (db', Ingested (length items) (health_status health), map FindingAlert alerts))))))"

text \<open>A task whose scan exists; \<open>last_attempt\<close> is whether the retries are used up.\<close>

definition run_scan_row :: "scan_world \<Rightarrow> target \<Rightarrow> string \<Rightarrow> row_id \<Rightarrow> bool \<Rightarrow> db \<Rightarrow> task_result option" where
  "run_scan_row w t tool i last_attempt db =
     (case sw_clone w t i of
        Cloned co \<Rightarrow> scan_checkout w t tool i co db
      | CloneProcessError \<Rightarrow>
          (let error = ''git clone failed after retries'' in
           Some (if last_attempt then (fail_scan error i db, Retried, [ScanFailureNotice (t_id t) tool error])
                 else (db, Retried, [])))
      | CloneError error \<Rightarrow> Some (scan_failed t tool i error db))"

definition refuse_scan :: "timestamp \<Rightarrow> string \<Rightarrow> row_id option \<Rightarrow> db \<Rightarrow> db" where
  "refuse_scan now reason scan_id db =
     (case scan_id of
        None \<Rightarrow> db
      | Some i \<Rightarrow> update_scan i (\<lambda>s. s\<lparr>s_status := ''failed'', s_error := reason, s_completed_at := Some now\<rparr>) db)"

definition run_scan :: "scan_world \<Rightarrow> row_id \<Rightarrow> string \<Rightarrow> row_id option \<Rightarrow> bool \<Rightarrow> db \<Rightarrow> task_result option" where
  "run_scan w target_id tool scan_id last_attempt db =
     (case get_target db target_id of
        None \<Rightarrow>
          Some (case scan_id of None \<Rightarrow> db | Some i \<Rightarrow> update_scan i (\<lambda>s. s\<lparr>s_status := ''failed''\<rparr>) db,
                TargetNotFound, [])
      | Some t \<Rightarrow>
          (case scan_refusal_reason t of
             Some reason \<Rightarrow> Some (refuse_scan (sw_now w) reason scan_id db, ScanRefused reason, [])
           | None \<Rightarrow>
               (case scan_id of
                  Some i \<Rightarrow> if get_scan db i = None then Some (db, ScanNotFound, [])
                            else run_scan_row w t tool i last_attempt db
                | None \<Rightarrow>
                    (let (i, db1) = new_scan (sw_now w) (t_id t) tool (t_default_branch t) db
                     in run_scan_row w t tool i last_attempt db1))))"

text \<open>\<open>core/staleness.py\<close> on a scan, when it is read: one that has been running too long is failed.\<close>

definition mark_scan_stale :: "duration \<Rightarrow> timestamp \<Rightarrow> scan \<Rightarrow> scan" where
  "mark_scan_stale timeout now s =
     (if s_status s \<noteq> ''running'' \<or> now - s_started_at s < timeout then s
      else s\<lparr>s_status := ''failed'', s_completed_at := Some now,
             s_error := ''Timed out: no update received within '' @ int_str (timeout div 60000000) @ '' minutes''\<rparr>)"

definition poll_scan :: "duration \<Rightarrow> timestamp \<Rightarrow> row_id \<Rightarrow> db \<Rightarrow> db" where
  "poll_scan timeout now i = update_scan i (mark_scan_stale timeout now)"

subsection \<open>Fan-out\<close>

record scan_job =
  sj_target_id :: row_id
  sj_tool :: string
  sj_scan_id :: row_id

fun dispatch_tools :: "timestamp \<Rightarrow> target \<Rightarrow> string list \<Rightarrow> db \<Rightarrow> db \<times> scan_job list" where
  "dispatch_tools now t [] db = (db, [])"
| "dispatch_tools now t (tool # tools) db =
     (let (i, db1) = new_scan now (t_id t) tool (t_default_branch t) db;
          (db2, jobs) = dispatch_tools now t tools db1
      in (db2, \<lparr>sj_target_id = t_id t, sj_tool = tool, sj_scan_id = i\<rparr> # jobs))"

definition queue_full_scan :: "timestamp \<Rightarrow> workspace_tool_config list \<Rightarrow> target \<Rightarrow> db \<Rightarrow> db \<times> scan_job list" where
  "queue_full_scan now configs t db =
     (case scan_refusal_reason t of
        Some _ \<Rightarrow> (db, [])
      | None \<Rightarrow>
          (case tools_for_surface configs (t_workspace_id t) ''on_demand_scan'' of
             Inl _ \<Rightarrow> (db, [])
           | Inr tools \<Rightarrow> dispatch_tools now t tools db))"

definition queue_full_scan_for_target_task ::
  "timestamp \<Rightarrow> workspace_tool_config list \<Rightarrow> row_id \<Rightarrow> db \<Rightarrow> db \<times> scan_job list" where
  "queue_full_scan_for_target_task now configs i db =
     (case get_target db i of None \<Rightarrow> (db, []) | Some t \<Rightarrow> queue_full_scan now configs t db)"

fun queue_targets :: "timestamp \<Rightarrow> workspace_tool_config list \<Rightarrow> (db \<Rightarrow> target \<Rightarrow> bool) \<Rightarrow> target list \<Rightarrow> db \<Rightarrow> db \<times> scan_job list" where
  "queue_targets now configs skip [] db = (db, [])"
| "queue_targets now configs skip (t # ts) db =
     (let (db1, jobs) = (if skip db t then (db, []) else queue_full_scan now configs t db);
          (db2, rest) = queue_targets now configs skip ts db1
      in (db2, jobs @ rest))"

definition run_scheduled_full_scans :: "timestamp \<Rightarrow> workspace_tool_config list \<Rightarrow> db \<Rightarrow> db \<times> scan_job list" where
  "run_scheduled_full_scans now configs db =
     queue_targets now configs (\<lambda>_ _. False) (scannable_targets (d_targets db)) db"

definition has_completed_scan :: "db \<Rightarrow> target \<Rightarrow> bool" where
  "has_completed_scan db t \<longleftrightarrow>
     list_ex (\<lambda>s. s_target_id s = t_id t \<and> s_branch s = t_default_branch t \<and> s_status s = ''completed'') (d_scans db)"

definition queue_missing_baselines :: "timestamp \<Rightarrow> workspace_tool_config list \<Rightarrow> db \<Rightarrow> db \<times> scan_job list" where
  "queue_missing_baselines now configs db =
     queue_targets now configs has_completed_scan (scannable_targets (d_targets db)) db"

subsection \<open>The push endpoint\<close>

datatype push_outcome = RateLimited | PushError string | Raised | Pushed row_id nat

text \<open>\<open>allowed\<close> is the verdict of the rate limiter.  A raise after the scan row is committed leaves
  the row running.  None, as in the task, is an item the columns cannot hold.\<close>

definition push_ingest ::
  "scan_world \<Rightarrow> bool \<Rightarrow> row_id \<Rightarrow> row_id \<Rightarrow> (string \<times> json) list \<Rightarrow> string \<Rightarrow> string \<Rightarrow> db
     \<Rightarrow> (db \<times> push_outcome \<times> alert list) option" where
  "push_ingest w allowed workspace_id target_id payload tool branch db =
     (if \<not> allowed then Some (db, RateLimited, [])
      else (case get_target db target_id of
        None \<Rightarrow> Some (db, PushError ''target not found in this workspace'', [])
      | Some t \<Rightarrow>
          if t_workspace_id t \<noteq> workspace_id then Some (db, PushError ''target not found in this workspace'', [])
          else (case scan_refusal_reason t of
            Some reason \<Rightarrow> Some (db, PushError reason, [])
          | None \<Rightarrow>
              (case parse_sarif (JObj payload) of
                 None \<Rightarrow> Some (db, Raised, [])
               | Some parsed \<Rightarrow>
                   (let (i, db1) = new_scan (sw_now w) (t_id t) tool branch db in
                    case sarif_health (sw_show w) (JObj payload) tool of
                      None \<Rightarrow> Some (db1, Raised, [])
                    | Some health \<Rightarrow>
                        (case collect scan_item_of parsed of
                           None \<Rightarrow> None
                         | Some items \<Rightarrow>
                             (case ingest_findings (sw_ingest w) t i tool branch items health db1 of
                                Inl _ \<Rightarrow> Some (snd (start_run (sw_ingest w) t i tool branch items db1), Raised, [])
                              | Inr (db', alerts) \<Rightarrow> Some (db', Pushed i (length items), alerts))))))))"

end
