(* ===== verification/ParserProps.thy ===== *)
theory ParserProps
  imports ParserTable
begin

text \<open>
  What the parsers promise: nothing a scanner reported is dropped, a title stays readable, a secret
  is not part of what is written about it, an arbitrary-code primitive is Critical whatever its
  report says, the fingerprint of a rule does not depend on where the rules were stored, and a
  pushed document is judged by what it says of its own run.
\<close>

subsection \<open>Nothing is dropped\<close>

text \<open>The specification: the entries of a list field, none when the field is not a list.\<close>

definition entries :: "json \<Rightarrow> json list" where
  "entries j = (case j of JArr xs \<Rightarrow> xs | _ \<Rightarrow> [])"

definition field :: "string \<Rightarrow> json \<Rightarrow> json" where
  "field key j = (case j of JObj kvs \<Rightarrow> (case map_of kvs key of None \<Rightarrow> JNull | Some v \<Rightarrow> v) | _ \<Rightarrow> JNull)"

definition total_over :: "(json \<Rightarrow> nat) \<Rightarrow> json list \<Rightarrow> nat" where
  "total_over n js = sum_list (map n js)"

definition reported_issues :: "string \<Rightarrow> json \<Rightarrow> nat" where
  "reported_issues tool raw =
     (if tool \<in> {''semgrep'', ''semgrep-llm'', ''semgrep-core'', ''semgrep-registry'', ''tfsec''}
      then length (entries (field ''results'' raw))
      else if tool = ''gitleaks'' then length (entries raw)
      else if tool = ''noseyparker'' then total_over (\<lambda>f. length (entries (field ''matches'' f))) (entries raw)
      else if tool = ''trivy'' then
        total_over (\<lambda>r. length (entries (field ''Vulnerabilities'' r)) + length (entries (field ''Misconfigurations'' r)))
          (entries (field ''Results'' raw))
      else if tool = ''trivy-license'' then
        total_over (\<lambda>r. length (entries (field ''Licenses'' r))) (entries (field ''Results'' raw))
      else if tool = ''gosec'' then length (entries (field ''Issues'' raw))
      else if tool = ''checkov'' then
        total_over (\<lambda>r. length (entries (field ''failed_checks'' (field ''results'' r))))
          (case raw of JArr reports \<Rightarrow> reports | _ \<Rightarrow> [raw])
      else if tool = ''modelscan'' then length (entries (field ''issues'' raw)) else 0)"

lemma jget_field: "jget k d j = Some v \<Longrightarrow> v = field k j \<or> (field k j = JNull \<and> v = d)"
  by (cases j) (auto simp: field_def split: option.splits)

lemma jget_or_field: "jget_or k d j = Some v \<Longrightarrow> v = field k j \<or> (\<not> is_true (field k j) \<and> v = d)"
  by (cases j) (auto simp: jget_or_def field_def py_or_def split: option.splits if_splits)

lemma entries_jget: "jget k (JArr []) j = Some v \<Longrightarrow> entries v = entries (field k j)"
  by (drule jget_field) (auto simp: entries_def)

lemma entries_jget_or: "jget_or k (JArr []) j = Some v \<Longrightarrow> entries v = entries (field k j)"
  by (drule jget_or_field) (auto simp: entries_def split: json.split)

lemma field_jget_or: "jget_or k (JObj []) j = Some v \<Longrightarrow> entries (field l v) = entries (field l (field k j))"
  by (drule jget_or_field) (auto simp: field_def split: json.split)

text \<open>Only objects have an item, so a loop over the letters of a string or the keys of a dict
  returns only when there are none.\<close>

lemma elements_entries:
  assumes "elements j = Some xs" and "collect f xs = Some ys" and "\<And>x y. f x = Some y \<Longrightarrow> is_obj x"
  shows "xs = entries j \<and> length ys = length (entries j)"
proof -
  have obj: "is_obj x" if "x \<in> set xs" for x
  proof -
    have "f x \<noteq> None" using assms(2) that by (metis collect_None option.distinct(1))
    with assms(3) show ?thesis by auto
  qed
  then have "list_all is_obj xs" by (simp add: list_all_iff)
  with assms(1) have "xs = entries j"
    by (cases j; cases xs) (auto simp: entries_def is_obj_def map_eq_Cons_conv)
  with collect_length [OF assms(2)] show ?thesis by simp
qed

declare bind_is_Some [simp]

lemma obj_items:
  "semgrep_item r = Some p \<Longrightarrow> is_obj r" "gitleaks_item show r = Some p \<Longrightarrow> is_obj r"
  "noseyparker_match show rule r = Some p \<Longrightarrow> is_obj r" "vulnerability_item show target scopes r = Some p \<Longrightarrow> is_obj r"
  "misconfiguration_item target r = Some p \<Longrightarrow> is_obj r" "license_item show target r = Some p \<Longrightarrow> is_obj r"
  "gosec_item r = Some p \<Longrightarrow> is_obj r" "checkov_item r = Some p \<Longrightarrow> is_obj r"
  "tfsec_item r = Some p \<Longrightarrow> is_obj r" "modelscan_item show r = Some p \<Longrightarrow> is_obj r"
  "trivy_result show r = Some ps \<Longrightarrow> is_obj r"
  unfolding semgrep_item_def gitleaks_item_def noseyparker_match_def vulnerability_item_def
    misconfiguration_item_def license_item_def gosec_item_def checkov_item_def tfsec_item_def
    modelscan_item_def trivy_result_def stripped_field_def jget_or_def
  by (auto dest: jget_is_obj)


lemma items_of:
  "collect semgrep_item xs = Some ps \<Longrightarrow> elements j = Some xs \<Longrightarrow> length ps = length (entries j)"
  "collect (gitleaks_item show) xs = Some ps \<Longrightarrow> elements j = Some xs \<Longrightarrow> length ps = length (entries j)"
  "collect (noseyparker_match show rule) xs = Some ps \<Longrightarrow> elements j = Some xs \<Longrightarrow> length ps = length (entries j)"
  "collect (vulnerability_item show target scopes) xs = Some ps \<Longrightarrow> elements j = Some xs \<Longrightarrow> length ps = length (entries j)"
  "collect (misconfiguration_item target) xs = Some ps \<Longrightarrow> elements j = Some xs \<Longrightarrow> length ps = length (entries j)"
  "collect (license_item show target) xs = Some ps \<Longrightarrow> elements j = Some xs \<Longrightarrow> length ps = length (entries j)"
  "collect gosec_item xs = Some ps \<Longrightarrow> elements j = Some xs \<Longrightarrow> length ps = length (entries j)"
  "collect checkov_item xs = Some ps \<Longrightarrow> elements j = Some xs \<Longrightarrow> length ps = length (entries j)"
  "collect tfsec_item xs = Some ps \<Longrightarrow> elements j = Some xs \<Longrightarrow> length ps = length (entries j)"
  "collect (modelscan_item show) xs = Some ps \<Longrightarrow> elements j = Some xs \<Longrightarrow> length ps = length (entries j)"
  using elements_entries obj_items by metis+

text \<open>A loop over loops.\<close>

lemma collect_total:
  assumes "collect f xs = Some yss" and "\<And>x ys. x \<in> set xs \<Longrightarrow> f x = Some ys \<Longrightarrow> length ys = n x"
  shows "length (concat yss) = total_over n xs"
  using assms
proof (induction xs arbitrary: yss)
  case (Cons x xs)
  from Cons.prems(1) obtain ys yss' where y: "f x = Some ys" "collect f xs = Some yss'" "yss = ys # yss'"
    by (auto split: option.splits)
  with Cons.IH [OF y(2)] Cons.prems(2) show ?case by (simp add: total_over_def)
qed (simp add: total_over_def)

lemma count_semgrep: "parse_semgrep raw = Some ps \<Longrightarrow> length ps = length (entries (field ''results'' raw))"
  unfolding parse_semgrep_def by (auto dest!: items_of entries_jget)

lemma count_core: "parse_semgrep_core raw = Some ps \<Longrightarrow> length ps = length (entries (field ''results'' raw))"
  unfolding parse_semgrep_core_def by (auto dest!: collect_length count_semgrep)

lemma count_noseyparker:
  assumes "parse_noseyparker show raw = Some ps"
  shows "length ps = total_over (\<lambda>f. length (entries (field ''matches'' f))) (entries raw)"
proof -
  let ?f = "\<lambda>f. jget_or ''rule_name'' (JStr ''secret'') f \<bind> (\<lambda>rule. jget_or ''matches'' (JArr []) f \<bind>
    (\<lambda>ms. elements ms \<bind> collect (noseyparker_match show rule)))"
  from assms obtain xs pss where x: "elements (py_or raw (JArr [])) = Some xs" "collect ?f xs = Some pss" "ps = concat pss"
    unfolding parse_noseyparker_def by auto
  have "is_obj x" if "?f x = Some y" for x y
    using that by (auto simp: jget_or_def dest: jget_is_obj)
  with elements_entries [OF x(1,2)] have "xs = entries (py_or raw (JArr []))" by blast
  then have e: "xs = entries raw" by (auto simp: py_or_def entries_def split: json.splits)
  have "length (concat pss) = total_over (\<lambda>f. length (entries (field ''matches'' f))) xs"
    using x(2) by (rule collect_total) (auto dest!: items_of entries_jget_or)
  with e x(3) show ?thesis by simp
qed

lemma count_trivy:
  assumes "parse_trivy show raw = Some ps"
  shows "length ps = total_over (\<lambda>r. length (entries (field ''Vulnerabilities'' r))
    + length (entries (field ''Misconfigurations'' r))) (entries (field ''Results'' raw))"
proof -
  from assms obtain v xs pss where x: "jget ''Results'' (JArr []) raw = Some v" "elements v = Some xs"
    "collect (trivy_result show) xs = Some pss" "ps = concat pss"
    unfolding parse_trivy_def by auto
  have "xs = entries (field ''Results'' raw)"
    using elements_entries [OF x(2,3)] obj_items(11) entries_jget [OF x(1)] by metis
  moreover have "length (concat pss) = total_over (\<lambda>r. length (entries (field ''Vulnerabilities'' r))
    + length (entries (field ''Misconfigurations'' r))) xs"
    using x(3) by (rule collect_total) (auto simp: trivy_result_def dest!: items_of entries_jget_or)
  ultimately show ?thesis using x(4) by simp
qed

lemma count_license:
  assumes "parse_trivy_license show raw = Some ps"
  shows "length ps = total_over (\<lambda>r. length (entries (field ''Licenses'' r))) (entries (field ''Results'' raw))"
proof -
  let ?f = "\<lambda>result. jget ''Target'' (JStr []) result \<bind> (\<lambda>target. jget_or ''Licenses'' (JArr []) result \<bind>
    (\<lambda>ls. elements ls \<bind> collect (license_item show target)))"
  from assms obtain v xs pss where x: "jget ''Results'' (JArr []) raw = Some v" "elements v = Some xs"
    "collect ?f xs = Some pss" "ps = concat pss"
    unfolding parse_trivy_license_def by auto
  have "is_obj x" if "?f x = Some y" for x y using that by (auto dest: jget_is_obj)
  with elements_entries [OF x(2,3)] entries_jget [OF x(1)] have "xs = entries (field ''Results'' raw)" by metis
  moreover have "length (concat pss) = total_over (\<lambda>r. length (entries (field ''Licenses'' r))) xs"
    using x(3) by (rule collect_total) (auto dest!: items_of entries_jget_or)
  ultimately show ?thesis using x(4) by simp
qed

lemma count_checkov:
  assumes "parse_checkov raw = Some ps"
  shows "length ps = total_over (\<lambda>r. length (entries (field ''failed_checks'' (field ''results'' r))))
    (case raw of JArr reports \<Rightarrow> reports | _ \<Rightarrow> [raw])"
proof -
  from assms obtain pss where x: "collect checkov_report (case raw of JArr reports \<Rightarrow> reports | _ \<Rightarrow> [raw]) = Some pss"
    "ps = concat pss" unfolding parse_checkov_def by auto
  have "length ys = length (entries (field ''failed_checks'' (field ''results'' r)))"
    if "checkov_report r = Some ys" for r ys
  proof (cases "is_obj r")
    case False
    then have "field ''results'' r = JNull" by (cases r) (simp_all add: field_def is_obj_def)
    with that False show ?thesis by (simp add: checkov_report_def field_def entries_def)
  next
    case True
    with that obtain res cs xs where r: "jget_or ''results'' (JObj []) r = Some res"
      "jget_or ''failed_checks'' (JArr []) res = Some cs" "elements cs = Some xs" "collect checkov_item xs = Some ys"
      by (auto simp: checkov_report_def)
    have "length ys = length (entries cs)" using r(4,3) by (rule items_of)
    also have "entries cs = entries (field ''failed_checks'' (field ''results'' r))"
      using entries_jget_or [OF r(2)] field_jget_or [OF r(1)] by simp
    finally show ?thesis .
  qed
  note n = this
  show ?thesis unfolding x(2) using x(1) by (rule collect_total) (rule n)
qed

lemma count_rest:
  "parse_gitleaks show raw = Some ps \<Longrightarrow> length ps = length (entries raw)"
  "parse_gosec raw = Some ps \<Longrightarrow> length ps = length (entries (field ''Issues'' raw))"
  "parse_tfsec raw = Some ps \<Longrightarrow> length ps = length (entries (field ''results'' raw))"
  "parse_modelscan show raw = Some ps \<Longrightarrow> length ps = length (entries (field ''issues'' raw))"
  unfolding parse_gitleaks_def parse_gosec_def parse_tfsec_def parse_modelscan_def
  by (auto dest!: items_of entries_jget_or entries_jget)

lemma parse_report_cases:
  assumes "parse_report show tool raw = Some ps"
  shows "tool \<in> {''semgrep'', ''semgrep-llm'', ''semgrep-registry''} \<and> parse_semgrep raw = Some ps
    \<or> tool = ''semgrep-core'' \<and> parse_semgrep_core raw = Some ps \<or> tool = ''gitleaks'' \<and> parse_gitleaks show raw = Some ps
    \<or> tool = ''noseyparker'' \<and> parse_noseyparker show raw = Some ps \<or> tool = ''trivy'' \<and> parse_trivy show raw = Some ps
    \<or> tool = ''trivy-license'' \<and> parse_trivy_license show raw = Some ps \<or> tool = ''gosec'' \<and> parse_gosec raw = Some ps
    \<or> tool = ''checkov'' \<and> parse_checkov raw = Some ps \<or> tool = ''tfsec'' \<and> parse_tfsec raw = Some ps
    \<or> tool = ''modelscan'' \<and> parse_modelscan show raw = Some ps"
  using assms unfolding parse_report_def parser_for_def by (auto split: if_splits)

text \<open>C37: Nothing a scanner reported is dropped.  Whenever the parser of a tool returns at all, it
  returns exactly one item per issue of the report: per result, leak, match, vulnerability,
  misconfiguration, license or failed check.\<close>

theorem no_issue_is_dropped:
  assumes "parse_report show tool raw = Some items"
  shows "length items = reported_issues tool raw"
  using parse_report_cases [OF assms]
  by (elim disjE conjE insertE emptyE)
    (simp_all add: reported_issues_def count_semgrep count_core count_noseyparker count_trivy count_license
      count_checkov count_rest)

theorem no_issue_is_dropped_witness:
  "\<exists>items. parse_report (\<lambda>_. []) ''semgrep'' (JObj [(''results'', JArr [JObj [(''check_id'', JStr ''a'')], JObj []])])
     = Some items \<and> length items = 2"
proof -
  let ?raw = "JObj [(''results'', JArr [JObj [(''check_id'', JStr ''a'')], JObj []])]"
  have "parse_report (\<lambda>_. []) ''semgrep'' ?raw \<noteq> None" by code_simp
  then obtain items where i: "parse_report (\<lambda>_. []) ''semgrep'' ?raw = Some items" by blast
  have "reported_issues ''semgrep'' ?raw = 2" by code_simp
  with no_issue_is_dropped [OF i] i show ?thesis by simp
qed

subsection \<open>Titles\<close>

lemma str_rstrip_decomp: "\<exists>w. s = str_rstrip s @ w \<and> list_all is_space w"
proof (intro exI conjI)
  show "s = str_rstrip s @ rev (takeWhile is_space (rev s))"
    unfolding str_rstrip_def by (metis rev_append rev_rev_ident takeWhile_dropWhile_id)
  show "list_all is_space (rev (takeWhile is_space (rev s)))"
    by (auto simp: list_all_iff dest: set_takeWhileD)
qed

lemma str_rstrip_last: "str_rstrip s \<noteq> [] \<Longrightarrow> \<not> is_space (last (str_rstrip s))"
  unfolding str_rstrip_def by (metis hd_dropWhile last_rev rev_is_Nil_conv)

lemma str_rstrip_id: "s = [] \<or> \<not> is_space (last s) \<Longrightarrow> str_rstrip s = s"
proof (cases "s = []")
  case False
  assume "s = [] \<or> \<not> is_space (last s)"
  with False have "\<not> is_space (hd (rev s))" "rev s \<noteq> []" by (simp_all add: hd_rev)
  then have "dropWhile is_space (rev s) = rev s" by (cases "rev s") auto
  then show ?thesis by (simp add: str_rstrip_def)
qed (simp add: str_rstrip_def)

lemma str_rstrip_Nil: "str_rstrip s = [] \<longleftrightarrow> list_all is_space s"
  by (simp add: str_rstrip_def list_all_iff)

text \<open>What \<open>rsplit\<close> keeps: the text up to the last word, or the last word when it is the only one.\<close>

lemma rsplit_first_spec:
  assumes "rsplit_first s = Some w"
  shows "w \<noteq> [] \<and> \<not> is_space (last w) \<and>
    (\<exists>gap word rest. s = w @ gap @ word @ rest \<and> gap \<noteq> [] \<and> list_all is_space gap \<and> list_all is_space rest \<and>
       word \<noteq> [] \<and> list_all (\<lambda>c. \<not> is_space c) word
     \<or> s = gap @ w @ rest \<and> list_all is_space gap \<and> list_all is_space rest \<and> list_all (\<lambda>c. \<not> is_space c) w)"
proof -
  let ?t = "str_rstrip s"
  let ?word = "rev (takeWhile (\<lambda>c. \<not> is_space c) (rev ?t))"
  let ?pre = "take (length ?t - length ?word) ?t"
  let ?rest = "str_rstrip ?pre"
  obtain tail where tail: "s = ?t @ tail" "list_all is_space tail" using str_rstrip_decomp by blast
  from assms have t: "?t \<noteq> []" and w: "w = (if ?rest = [] then ?word else ?rest)"
    by (auto simp: rsplit_first_def Let_def split: if_splits)
  have "?t = rev (dropWhile (\<lambda>c. \<not> is_space c) (rev ?t)) @ ?word"
    by (metis rev_append rev_rev_ident takeWhile_dropWhile_id)
  then have t2: "?t = ?pre @ ?word" by (metis append_eq_conv_conj append_take_drop_id length_append diff_add_inverse2 take_append append.right_neutral diff_self_eq_0 take_0 le_refl take_all)
  have word: "list_all (\<lambda>c. \<not> is_space c) ?word" by (auto simp: list_all_iff dest: set_takeWhileD)
  have wne: "?word \<noteq> []"
    using str_rstrip_last [OF t] t by (cases "rev ?t") (auto simp: hd_rev [symmetric])
  obtain gap where gap: "?pre = ?rest @ gap" "list_all is_space gap" using str_rstrip_decomp by blast
  show ?thesis
  proof (cases "?rest = []")
    case True
    have "s = gap @ ?word @ tail" using tail(1) t2 gap(1) True by (metis append.assoc append_Nil)
    moreover have "\<not> is_space (last ?word)" using word last_in_set [OF wne] unfolding list_all_iff by blast
    ultimately show ?thesis using True w gap(2) tail(2) word wne by auto
  next
    case False
    have s: "s = ?rest @ gap @ ?word @ tail" using tail(1) t2 gap(1) by (metis append.assoc)
    have "gap \<noteq> []"
    proof
      assume "gap = []"
      then have "last ?pre = last ?rest" "?pre \<noteq> []" using gap(1) False by auto
      then have "\<not> is_space (last ?pre)" using str_rstrip_last [OF False] by simp
      moreover have "?pre = rev (dropWhile (\<lambda>c. \<not> is_space c) (rev ?t))"
        using t2 \<open>?t = rev (dropWhile _ _) @ ?word\<close> by (metis append_same_eq)
      ultimately show False using \<open>?pre \<noteq> []\<close> by (metis hd_dropWhile last_rev rev_is_Nil_conv)
    qed
    moreover have w': "w = ?rest" using w False by simp
    ultimately show ?thesis
      unfolding w' using s False gap(2) tail(2) word wne str_rstrip_last [OF False] by blast
  qed
qed


definition readable :: "string \<Rightarrow> string \<Rightarrow> bool" where
  "readable s t \<longleftrightarrow>
     (\<exists>lead shown rest. s = lead @ shown @ rest \<and> t = shown @ [ELLIPSIS] \<and> shown \<noteq> [] \<and>
        \<not> is_space (last shown) \<and> list_all is_space lead \<and>
        (lead = [] \<and> (\<exists>c cs. rest = c # cs \<and> is_space c) \<or> list_all (\<lambda>c. \<not> is_space c) shown))"

lemma truncate_long:
  assumes "MAX_TITLE_LENGTH < length s"
  shows "truncate_text s MAX_TITLE_LENGTH = map_option (\<lambda>w. w @ [ELLIPSIS]) (rsplit_first (take (MAX_TITLE_LENGTH - 1) s))"
proof (cases "rsplit_first (take (MAX_TITLE_LENGTH - 1) s)")
  case (Some w)
  then have "w \<noteq> []" "str_rstrip w = w" using rsplit_first_spec str_rstrip_id by metis+
  then have "(case str_rstrip w of [] \<Rightarrow> z | c # cs \<Rightarrow> c # cs) = w" for z by (cases w) simp_all
  with assms Some show ?thesis by (simp add: truncate_text_def MAX_TITLE_LENGTH_def)
qed (use assms in \<open>simp add: truncate_text_def MAX_TITLE_LENGTH_def\<close>)

lemma rsplit_readable:
  assumes "rsplit_first (take n s) = Some w"
  shows "readable s (w @ [ELLIPSIS]) \<and> length w \<le> n"
proof -
  from rsplit_first_spec [OF assms] have w: "w \<noteq> []" "\<not> is_space (last w)" by auto
  from rsplit_first_spec [OF assms] show ?thesis
  proof (elim conjE exE disjE)
    fix gap word rest
    assume a: "take n s = w @ gap @ word @ rest" "gap \<noteq> []" "list_all is_space gap"
    then obtain c cs where g: "gap = c # cs" "is_space c" by (cases gap) auto
    have "take n s @ drop n s = [] @ w @ (c # cs @ word @ rest @ drop n s)" by (simp add: a(1) g(1))
    then have "s = [] @ w @ (c # cs @ word @ rest @ drop n s)" by simp
    moreover have "length w \<le> n" using arg_cong [OF a(1), of length] by simp
    moreover have "list_all is_space []" by simp
    ultimately show ?thesis using w g(2) unfolding readable_def by blast
  next
    fix gap rest
    assume a: "take n s = gap @ w @ rest" "list_all is_space gap" "list_all (\<lambda>c. \<not> is_space c) w"
    have "take n s @ drop n s = gap @ w @ (rest @ drop n s)" by (simp add: a(1))
    then have "s = gap @ w @ (rest @ drop n s)" by simp
    moreover have "length w \<le> n" using arg_cong [OF a(1), of length] by simp
    ultimately show ?thesis using w a(2,3) unfolding readable_def by blast
  qed
qed

text \<open>A title is the message or a readable beginning of it.  A message of at most 200
  characters is the title.  A longer one is cut to at most 200 characters, ends in the ellipsis,
  and is cut between two words of the message unless the part kept is a single word.  It fails,
  which aborts the whole report, exactly when the first 199 characters are all white space.\<close>

theorem title_is_readable:
  "case truncate_title (JStr s) of
     Some j \<Rightarrow> (\<exists>t. j = JStr t \<and> length t \<le> MAX_TITLE_LENGTH \<and>
                  (if length s \<le> MAX_TITLE_LENGTH then t = s else readable s t))
   | None \<Rightarrow> MAX_TITLE_LENGTH < length s \<and> list_all is_space (take (MAX_TITLE_LENGTH - 1) s)"
proof (cases "length s \<le> MAX_TITLE_LENGTH")
  case True
  then show ?thesis by (simp add: truncate_title_def truncate_text_def)
next
  case False
  then have l: "MAX_TITLE_LENGTH < length s" by simp
  show ?thesis
  proof (cases "rsplit_first (take (MAX_TITLE_LENGTH - 1) s)")
    case None
    then have "list_all is_space (take (MAX_TITLE_LENGTH - 1) s)"
      by (auto simp: rsplit_first_def Let_def str_rstrip_Nil split: if_splits)
    with None l show ?thesis by (simp add: truncate_title_def truncate_long)
  next
    case (Some w)
    have "length (w @ [ELLIPSIS]) \<le> MAX_TITLE_LENGTH" "readable s (w @ [ELLIPSIS])"
      using rsplit_readable [OF Some] by (simp_all add: MAX_TITLE_LENGTH_def)
    with Some l show ?thesis by (simp add: truncate_title_def truncate_long)
  qed
qed

subsection \<open>Secrets\<close>

definition with_secret :: "string \<Rightarrow> (string \<times> json) list \<Rightarrow> json" where
  "with_secret s fs = JObj ((''Secret'', JStr s) # fs)"

text \<open>No part of a secret is written about it.  The title and the description of a gitleaks
  finding, its rule, path and lines are the same for any two secrets that have the same length and
  the same character class; only the matched text gitleaks itself reports, which the code keeps
  apart for the fingerprint, may differ.\<close>

theorem secret_is_not_described:
  assumes "length s = length s'" and "charset_of s = charset_of s'"
  shows "gitleaks_item show (with_secret s fs) = gitleaks_item show (with_secret s' fs)"
proof -
  have "describe_secret_shape (JStr s) e = describe_secret_shape (JStr s') e" for e
    using assms by (auto simp: describe_secret_shape_def)
  then show ?thesis by (simp add: gitleaks_item_def with_secret_def)
qed

theorem secret_is_not_described_witness:
  "gitleaks_item (\<lambda>_. []) (with_secret ''deadbeef'' [(''File'', JStr ''a.py'')]) =
   gitleaks_item (\<lambda>_. []) (with_secret ''cafe0123'' [(''File'', JStr ''a.py'')])"
  by (rule secret_is_not_described) code_simp+

subsection \<open>Deserialisation primitives\<close>

lemma modelscan_severity:
  "modelscan_item show issue = Some p \<Longrightarrow> stripped_field ''operator'' issue = Some operator \<Longrightarrow>
   stripped_field ''module'' issue = Some modl \<Longrightarrow> unsafe_primitive operator modl \<Longrightarrow> pi_severity p = CRITICAL"
  by (auto simp: modelscan_item_def Let_def)

text \<open>An arbitrary-code primitive is Critical, whatever the report rates it.  When modelscan's
  report is read at all, an issue whose operator and module are in the two lists, in any case and
  with any white space around them, is stored as Critical.\<close>

theorem unsafe_primitive_is_critical:
  assumes "parse_modelscan show raw = Some items" and "k < length (entries (field ''issues'' raw))"
    and "stripped_field ''operator'' (entries (field ''issues'' raw) ! k) = Some operator"
    and "stripped_field ''module'' (entries (field ''issues'' raw) ! k) = Some modl"
    and "unsafe_primitive operator modl"
  shows "pi_severity (items ! k) = CRITICAL"
proof -
  from assms(1) obtain v xs where v: "jget_or ''issues'' (JArr []) raw = Some v" "elements v = Some xs"
    "collect (modelscan_item show) xs = Some items" unfolding parse_modelscan_def by auto
  have "xs = entries (field ''issues'' raw)"
    using elements_entries [OF v(2,3)] obj_items(10) entries_jget_or [OF v(1)] by metis
  with v(3) assms(2) have "modelscan_item show (entries (field ''issues'' raw) ! k) = Some (items ! k)"
    by (simp add: collect_Some_iff)
  from this assms(3,4,5) show ?thesis by (rule modelscan_severity)
qed

theorem unsafe_primitive_is_critical_witness:
  "\<exists>items. parse_modelscan (\<lambda>_. []) (JObj [(''issues'', JArr [JObj [(''operator'', JStr '' System ''),
      (''module'', JStr ''posix''), (''severity'', JStr ''low'')]])]) = Some items \<and>
    pi_severity (items ! 0) = CRITICAL"
proof -
  let ?raw = "JObj [(''issues'', JArr [JObj [(''operator'', JStr '' System ''), (''module'', JStr ''posix''),
    (''severity'', JStr ''low'')]])]"
  have "parse_modelscan (\<lambda>_. []) ?raw \<noteq> None" by code_simp
  then obtain items where i: "parse_modelscan (\<lambda>_. []) ?raw = Some items" by blast
  have "0 < length (entries (field ''issues'' ?raw))" by code_simp
  moreover have "stripped_field ''operator'' (entries (field ''issues'' ?raw) ! 0) = Some ''System''" by code_simp
  moreover have "stripped_field ''module'' (entries (field ''issues'' ?raw) ! 0) = Some ''posix''" by code_simp
  moreover have "unsafe_primitive ''System'' ''posix''" by code_simp
  ultimately show ?thesis using unsafe_primitive_is_critical [OF i] i by blast
qed

subsection \<open>Rule identity\<close>

text \<open>The same report with its rule files stored elsewhere: each check id keeps its last segment and
  has another path before it.\<close>

definition core_result :: "string \<Rightarrow> string \<Rightarrow> (string \<times> json) list \<Rightarrow> json" where
  "core_result path rule fs = JObj ((''check_id'', JStr (path @ ''.'' @ rule)) # fs)"

lemma last_segment_append:
  assumes "CHR ''.'' \<notin> set rule"
  shows "last_segment (path @ CHR ''.'' # rule) = rule"
proof -
  have r: "split_on CHR ''.'' rule = [rule]" using assms by (induction rule) auto
  have "\<exists>w ws. split_on CHR ''.'' (path @ CHR ''.'' # rule) = (w # ws) @ [rule]"
  proof (induction path)
    case (Cons c path)
    then show ?case by auto
  qed (simp add: r)
  then show ?thesis by (auto simp: last_segment_def)
qed

text \<open>Moving the rule files does not rename a finding.  Two semgrep-core reports that differ
  only in the directories in front of a rule's own id give items with the same rule id, so with the
  same path and code the same fingerprint, as long as a result carries its message.\<close>

theorem core_rule_survives_a_move:
  assumes "\<forall>(path, path', rule, fs)\<in>set rs. CHR ''.'' \<notin> set rule \<and>
      (\<exists>kvs m. map_of fs ''extra'' = Some (JObj kvs) \<and> map_of kvs ''message'' = Some m)"
  shows "parse_semgrep_core (JObj [(''results'', JArr (map (\<lambda>(path, path', rule, fs). core_result path rule fs) rs))]) =
    parse_semgrep_core (JObj [(''results'', JArr (map (\<lambda>(path, path', rule, fs). core_result path' rule fs) rs))])"
proof -
  let ?core = "\<lambda>item. map_option (\<lambda>s. item\<lparr>pi_rule_id := JStr (last_segment s)\<rparr>) (as_str (pi_rule_id item))"
  have one: "semgrep_item (core_result path rule fs) \<bind> ?core = semgrep_item (core_result path' rule fs) \<bind> ?core"
    if "(path, path', rule, fs) \<in> set rs" for path path' rule fs
  proof -
    from assms that obtain kvs m where "CHR ''.'' \<notin> set rule" "map_of fs ''extra'' = Some (JObj kvs)"
      "map_of kvs ''message'' = Some m" by fastforce
    then show ?thesis
      by (cases "truncate_title m") (simp_all add: semgrep_item_def core_result_def last_segment_append split: bind_split)
  qed
  have all: "collect semgrep_item (map f xs) \<bind> collect ?core = collect (\<lambda>x. semgrep_item (f x) \<bind> ?core) xs"
    for f and xs :: "'b list"
  proof (induction xs)
    case (Cons x xs)
    then show ?case
      by (cases "semgrep_item (f x)"; cases "collect semgrep_item (map f xs)")
        (auto split: option.split)
  qed simp
  have "collect (\<lambda>x. semgrep_item ((\<lambda>(path, path', rule, fs). core_result path rule fs) x) \<bind> ?core) rs =
      collect (\<lambda>x. semgrep_item ((\<lambda>(path, path', rule, fs). core_result path' rule fs) x) \<bind> ?core) rs"
    using one by (intro collect_cong) auto
  then show ?thesis
    unfolding parse_semgrep_core_def parse_semgrep_def by (simp add: all)
qed

theorem core_rule_survives_a_move_witness:
  "let fs = [(''extra'', JObj [(''message'', JStr ''bad'')])] in
   parse_semgrep_core (JObj [(''results'', JArr [core_result ''a.b'' ''java-sqli'' fs])]) =
   parse_semgrep_core (JObj [(''results'', JArr [core_result ''c'' ''java-sqli'' fs])])"
  using core_rule_survives_a_move [of "[(''a.b'', ''c'', ''java-sqli'', [(''extra'', JObj [(''message'', JStr ''bad'')])])]"]
  by simp

subsection \<open>Pushed documents\<close>

definition invocations_of :: "json \<Rightarrow> json list" where
  "invocations_of raw = concat (map (\<lambda>run. entries (field ''invocations'' run)) (entries (field ''runs'' raw)))"

definition read_state :: "json list \<Rightarrow> bool \<times> scan_health \<Rightarrow> bool \<times> scan_health \<Rightarrow> bool" where
  "read_state invs st st' \<longleftrightarrow>
     (fst st' \<longleftrightarrow> fst st \<or> (\<exists>i\<in>set invs. declared_success i \<noteq> JNull)) \<and>
     (healthy (snd st') \<longleftrightarrow> healthy (snd st) \<and> (\<forall>i\<in>set invs. declared_success i \<noteq> JBool False))"

lemma degrade_failure: "\<not> healthy (degrade (sarif_failure show run) h)"
  by (auto simp: degrade_def sarif_failure_def healthy_def)

lemma declared_success_obj: "\<not> is_obj i \<Longrightarrow> declared_success i = JNull"
  by (cases i) (simp_all add: declared_success_def is_obj_def)

lemma read_invocations_state: "read_state invs st (read_invocations show run invs st)"
proof (induction invs arbitrary: st)
  case (Cons i invs)
  obtain seen h where st: "st = (seen, h)" by (cases st)
  show ?case
    using Cons [of "(seen, h)"] Cons [of "(True, h)"] Cons [of "(True, degrade (sarif_failure show run) h)"]
      degrade_failure [of "show" run h] declared_success_obj [of i]
    by (cases "is_obj i"; cases "declared_success i = JNull"; cases "declared_success i = JBool False")
      (simp_all add: st read_state_def)
qed (simp add: read_state_def)

lemma read_state_append: "read_state invs st st' \<Longrightarrow> read_state invs' st' st'' \<Longrightarrow> read_state (invs @ invs') st st''"
  by (auto simp: read_state_def)

lemma elements_objs: "elements j = Some xs \<Longrightarrow> filter is_obj xs = filter is_obj (entries j)"
  by (cases j) (auto simp: entries_def is_obj_def filter_empty_conv)

lemma read_state_objs: "read_state (filter is_obj invs) st st' \<longleftrightarrow> read_state invs st st'"
  using declared_success_obj by (fastforce simp: read_state_def)

lemma read_runs_state:
  "read_runs show runs st = Some st' \<Longrightarrow>
   read_state (concat (map (\<lambda>run. entries (field ''invocations'' run)) (filter is_obj runs))) st st'"
proof (induction runs arbitrary: st)
  case (Cons run runs)
  show ?case
  proof (cases "is_obj run")
    case True
    with Cons.prems obtain v xs where v: "jget_or ''invocations'' (JArr []) run = Some v" "elements v = Some xs"
      "read_runs show runs (read_invocations show run xs st) = Some st'" by auto
    have "read_state (entries v) st (read_invocations show run xs st)"
      using read_invocations_state [of xs st "show" run] elements_objs [OF v(2)] read_state_objs by metis
    then have "read_state (entries (field ''invocations'' run)) st (read_invocations show run xs st)"
      using entries_jget_or [OF v(1)] by simp
    from read_state_append [OF this Cons.IH [OF v(3)]] True show ?thesis by simp
  qed (use Cons in simp)
qed (simp add: read_state_def)

text \<open>A pushed document is judged by its own words.  When \<open>sarif_health\<close> returns, it has no
  evidence exactly when no invocation of the document states whether it succeeded, and otherwise
  calls the run healthy exactly when none states that it did not.\<close>

lemma pushed_run_is_judged:
  assumes "sarif_health show raw tool = Some h"
  shows "case h of
      None \<Rightarrow> \<forall>i\<in>set (invocations_of raw). declared_success i = JNull
    | Some k \<Rightarrow> (\<exists>i\<in>set (invocations_of raw). declared_success i \<noteq> JNull) \<and>
        (healthy k \<longleftrightarrow> (\<forall>i\<in>set (invocations_of raw). declared_success i \<noteq> JBool False))"
proof -
  from assms obtain v runs seen k where v: "jget_or ''runs'' (JArr []) raw = Some v" "elements v = Some runs"
    "read_runs show runs (False, \<lparr>sh_tool = tool, sh_reasons = []\<rparr>) = Some (seen, k)" "h = (if seen then Some k else None)"
    by (auto simp: sarif_health_def)
  let ?inv = "\<lambda>run. entries (field ''invocations'' run)"
  have "concat (map ?inv (filter is_obj xs)) = concat (map ?inv xs)" for xs
    by (induction xs) (auto simp: is_obj_def field_def entries_def split: json.splits)
  then have "read_state (invocations_of raw) (False, \<lparr>sh_tool = tool, sh_reasons = []\<rparr>) (seen, k)"
    using read_runs_state [OF v(3)] elements_objs [OF v(2)] entries_jget_or [OF v(1)]
    by (metis invocations_of_def)
  with v(4) show ?thesis by (auto simp: read_state_def healthy_def)
qed

text \<open>The guards of \<open>sarif_health\<close> come too late: the document goes to \<open>parse_sarif\<close> first, which
  raises on the shapes they were written for.\<close>

lemma unguarded_sarif:
  "parse_sarif (JObj [(''runs'', JNull)]) = None"
  "sarif_health (\<lambda>_. []) (JObj [(''runs'', JNull)]) ''sarif'' = Some None"
  "parse_sarif (JObj [(''runs'', JArr [JObj [(''tool'', JStr ''x'')]])]) = None"
  "sarif_health (\<lambda>_. []) (JObj [(''runs'', JArr [JObj [(''tool'', JStr ''x'')]])]) ''sarif'' = Some None"
  by code_simp+

end
