(* ===== verification/RunnerProps.thy ===== *)
theory RunnerProps
  imports Runner ParserProps
begin

text \<open>
  What a run says of itself: a healthy one really ran, with the exceptions stated, and a narrowed
  scan reports what its files reported.
\<close>

subsection \<open>Health only gets worse\<close>

lemma healthy_degrade [simp]: "healthy (degrade r h) \<longleftrightarrow> healthy h \<and> r = []"
  by (auto simp: healthy_def degrade_def)

definition suspect_stderr :: "string \<Rightarrow> bool" where
  "suspect_stderr stderr \<longleftrightarrow> (\<exists>m\<in>set SUSPECT_STDERR_MARKERS. str_contains m (str_lower (strip_ansi stderr)))"

lemma healthy_fold:
  "(\<And>m. r m \<noteq> []) \<Longrightarrow>
   healthy (fold (\<lambda>m h. if P m then degrade (r m) h else h) ms h) \<longleftrightarrow> healthy h \<and> (\<forall>m\<in>set ms. \<not> P m)"
  by (induction ms arbitrary: h) auto

lemma markers_nonempty: "m \<in> set SUSPECT_STDERR_MARKERS \<Longrightarrow> m \<noteq> []"
  by (auto simp: SUSPECT_STDERR_MARKERS_def)

lemma healthy_note_stderr: "healthy (note_stderr tool stderr h) \<longleftrightarrow> healthy h \<and> \<not> suspect_stderr stderr"
proof (cases "str_lower (strip_ansi stderr) = []")
  case True
  then have "\<not> suspect_stderr stderr" using markers_nonempty by (auto simp: suspect_stderr_def)
  with True show ?thesis by (simp add: note_stderr_def)
next
  case False
  have "stderr_warning tool m \<noteq> []" for m by (simp add: stderr_warning_def)
  from healthy_fold [OF this, of "\<lambda>m. str_contains m (str_lower (strip_ansi stderr))"] False
  show ?thesis by (simp add: note_stderr_def suspect_stderr_def)
qed

subsection \<open>One command\<close>

text \<open>A process that stands for its result: it was started, ended with a code that means success,
  warned of nothing, and left a JSON document.\<close>

definition vouched :: "string \<Rightarrow> process \<Rightarrow> tool_text option \<Rightarrow> json \<Rightarrow> bool" where
  "vouched tool p report raw \<longleftrightarrow>
     (case success_codes tool of Some ok \<Rightarrow> p_code p \<in> set ok | None \<Rightarrow> p_code p \<notin> {2, 4}) \<and>
     \<not> suspect_stderr (p_stderr p) \<and> report = Some (Document raw)"

text \<open>The two ways a healthy result comes without a document: an empty report of gitleaks or of
  noseyparker, and no report at all of modelscan.\<close>

definition silent :: "string \<Rightarrow> process \<Rightarrow> tool_text option \<Rightarrow> json \<Rightarrow> bool" where
  "silent tool p report raw \<longleftrightarrow>
     tool \<in> {''gitleaks'', ''noseyparker''} \<and> p_code p = 0 \<and> report = Some Blank \<and> raw = JArr [] \<or>
     tool = ''modelscan'' \<and> p_code p \<notin> {2, 4} \<and> report = None \<and> raw = NO_MODELS"

definition believed :: "tool_world \<Rightarrow> string \<Rightarrow> string list \<Rightarrow> string option \<Rightarrow> env \<Rightarrow> json \<Rightarrow> bool" where
  "believed w tool cmd cwd en raw \<longleftrightarrow>
     (\<exists>p report. tw_spawn w cmd cwd en = Some p \<and>
        report = (if tool \<in> {''gitleaks'', ''modelscan''} then p_report p
                  else if tool = ''noseyparker'' then
                    map_option p_stdout (tw_spawn w [''noseyparker'', ''report'', ''--datastore'', NOSEYPARKER_DATASTORE, ''--format'', ''json''] cwd en)
                  else Some (p_stdout p)) \<and>
        (vouched tool p report raw \<or> silent tool p report raw))"

lemma read_report_Inr:
  "read_report w tool text h = Inr (j, h') \<Longrightarrow> h' = h \<and> (text = Document j \<or> text = Blank \<and> j = JArr [])"
  by (cases "text") (auto simp: read_report_def)

lemma execute_believed:
  assumes "execute w co rc cmd h = Inr (raw, h')" and "healthy h'" and "rc_tool rc \<in> set TOOL_COMMANDS"
  shows "healthy h \<and> believed w (rc_tool rc) (isolation_flags (rc_tool rc) cmd rc)
    (if rc_tool rc = ''gosec'' then Some (co_root co) else None) (rc_env rc) raw"
proof -
  let ?cmd = "isolation_flags (rc_tool rc) cmd rc"
  consider (modelscan) "rc_tool rc = ''modelscan''" | (gitleaks) "rc_tool rc = ''gitleaks''"
    | (noseyparker) "rc_tool rc = ''noseyparker''"
    | (other) "rc_tool rc \<notin> {''modelscan'', ''gitleaks'', ''noseyparker''}" by blast
  then show ?thesis
  proof cases
    case modelscan
    with assms(1) have r: "run_modelscan w ?cmd (rc_env rc) h = Inr (raw, h')" by (simp add: execute_def)
    then obtain p where p: "tw_spawn w ?cmd None (rc_env rc) = Some p" "p_code p \<notin> {2, 4}"
      "h' = note_stderr ''modelscan'' (p_stderr p) h"
      "p_report p = None \<and> raw = NO_MODELS \<or> p_report p = Some (Document raw)"
      by (auto simp: run_modelscan_def Let_def read_report_def split: option.splits if_splits tool_text.splits)
    with assms(2) have "healthy h" "\<not> suspect_stderr (p_stderr p)" by (simp_all add: healthy_note_stderr)
    with p modelscan show ?thesis
      by (auto simp: believed_def vouched_def silent_def success_codes_def)
  next
    case gitleaks
    with assms(1) have r: "run_gitleaks w ?cmd None (rc_env rc) h = Inr (raw, h')" by (simp add: execute_def)
    then obtain p body where p: "tw_spawn w ?cmd None (rc_env rc) = Some p" "p_code p = 0" "p_report p = Some body"
      "read_report w ''gitleaks'' body (note_stderr ''gitleaks'' (p_stderr p) h) = Inr (raw, h')"
      by (auto simp: run_gitleaks_def split: option.splits if_splits)
    from read_report_Inr [OF p(4)] assms(2) have "healthy h" "\<not> suspect_stderr (p_stderr p)"
      by (auto simp: healthy_note_stderr)
    with p(1-3) read_report_Inr [OF p(4)] gitleaks show ?thesis
      by (auto simp: believed_def vouched_def silent_def success_codes_def)
  next
    case noseyparker
    with assms(1) have r: "run_noseyparker w ?cmd None (rc_env rc) h = Inr (raw, h')" by (simp add: execute_def)
    then obtain p q where p: "tw_spawn w ?cmd None (rc_env rc) = Some p" "p_code p = 0"
      "tw_spawn w [''noseyparker'', ''report'', ''--datastore'', NOSEYPARKER_DATASTORE, ''--format'', ''json''] None (rc_env rc) = Some q"
      "read_report w ''noseyparker'' (p_stdout q) (note_stderr ''noseyparker'' (p_stderr p) h) = Inr (raw, h')"
      by (auto simp: run_noseyparker_def split: option.splits if_splits)
    from read_report_Inr [OF p(4)] assms(2) have "healthy h" "\<not> suspect_stderr (p_stderr p)"
      by (auto simp: healthy_note_stderr)
    with p(1-3) read_report_Inr [OF p(4)] noseyparker show ?thesis
      by (auto simp: believed_def vouched_def silent_def success_codes_def)
  next
    case other
    let ?cwd = "if rc_tool rc = ''gosec'' then Some (co_root co) else None"
    from assms(1) other obtain p where p: "tw_spawn w ?cmd ?cwd (rc_env rc) = Some p"
      "\<not> (case success_codes (rc_tool rc) of None \<Rightarrow> False | Some ok \<Rightarrow> p_code p \<notin> set ok)"
      by (auto simp: execute_def Let_def split: option.splits if_splits)
    have "p_stdout p = Document raw \<and> h' = note_stderr (rc_tool rc) (p_stderr p) h"
      using assms other p by (cases "p_stdout p") (auto simp: execute_def Let_def)
    with assms(2) have "p_stdout p = Document raw" "healthy h" "\<not> suspect_stderr (p_stderr p)"
      by (simp_all add: healthy_note_stderr)
    moreover have "case success_codes (rc_tool rc) of Some ok \<Rightarrow> p_code p \<in> set ok | None \<Rightarrow> p_code p \<notin> {2, 4}"
      using p(2) assms(3) other by (auto simp: TOOL_COMMANDS_def success_codes_def split: if_splits)
    ultimately show ?thesis using p(1) other by (simp add: believed_def vouched_def)
  qed
qed

subsection \<open>A whole run\<close>

definition trivy_vouched :: "tool_world \<Rightarrow> checkout \<Rightarrow> run_context \<Rightarrow> json \<Rightarrow> bool" where
  "trivy_vouched w co rc raw \<longleftrightarrow>
     (rc_cached rc \<longrightarrow> trivy_db_state w (tw_cache_after w) = None \<and>
        (tc_fingerprint (tw_cache_before w) = None \<or>
         tc_fingerprint (tw_cache_after w) = tc_fingerprint (tw_cache_before w))) \<and>
     (is_true (field ''Results'' raw) \<or> \<not> has_resolved_lockfile co)"

lemma assess_healthy:
  "healthy (assess_trivy_run w co rc raw h) \<longleftrightarrow> healthy h \<and> (rc_tool rc = ''trivy'' \<longrightarrow> trivy_vouched w co rc raw)"
proof -
  have "(case jget ''Results'' JNull raw of None \<Rightarrow> False | Some v \<Rightarrow> is_true v) \<longleftrightarrow> is_true (field ''Results'' raw)"
    by (cases raw) (auto simp: field_def split: option.split)
  then show ?thesis
    by (auto simp: assess_trivy_run_def cache_health_def trivy_vouched_def Let_def split: option.split)
qed

lemma isolated_run_tool [simp]: "rc_tool (fst (isolated_run w tool)) = tool"
  by (auto simp: isolated_run_def plain_run_def Let_def split: option.split sum.split prod.split)

lemma isolated_run_healthy:
  "healthy (snd (isolated_run w tool)) \<longleftrightarrow> cache_isolation tool = None \<or> (\<exists>r. tw_isolate w tool = Inr r)"
proof -
  have "healthy (trusted tool)" by (simp add: healthy_def trusted_def)
  then show ?thesis by (auto simp: isolated_run_def Let_def split: option.split sum.split prod.split)
qed

lemma inner_whole_scan:
  "run_tool_inner w co rc None h = Inr r \<Longrightarrow> execute w co rc (command_of w (rc_tool rc) (co_root co)) h = Inr r"
  by (auto simp: run_tool_inner_def Let_def split: if_splits option.splits)

definition whole_scan_believed :: "tool_world \<Rightarrow> string \<Rightarrow> checkout \<Rightarrow> json \<Rightarrow> bool" where
  "whole_scan_believed w tool co raw \<longleftrightarrow>
     (let rc = fst (isolated_run w tool) in
      (cache_isolation tool \<noteq> None \<longrightarrow> (\<exists>r. tw_isolate w tool = Inr r)) \<and>
      believed w tool (isolation_flags tool (command_of w tool (co_root co)) rc)
        (if tool = ''gosec'' then Some (co_root co) else None) (rc_env rc) raw \<and>
      (tool = ''trivy'' \<longrightarrow> trivy_vouched w co rc raw))"

lemma healthy_whole_scan:
  assumes "run_tool_checked w tool co None = Inr (raw, health)" and "healthy health"
  shows "whole_scan_believed w tool co raw"
proof -
  obtain rc h0 where r: "isolated_run w tool = (rc, h0)" by (cases "isolated_run w tool")
  have t: "rc_tool rc = tool" using isolated_run_tool [of w tool] r by simp
  from assms(1) r obtain h1 where 1: "tool \<in> set TOOL_COMMANDS" "run_tool_inner w co rc None h0 = Inr (raw, h1)"
    "health = assess_trivy_run w co rc raw h1"
    by (auto simp: run_tool_checked_def split: if_splits sum.splits)
  from assms(2) 1(3) t have 2: "healthy h1" "tool = ''trivy'' \<longrightarrow> trivy_vouched w co rc raw"
    by (simp_all add: assess_healthy)
  from execute_believed [OF inner_whole_scan [OF 1(2)] 2(1)] t 1(1)
  have "healthy h0" "believed w tool (isolation_flags tool (command_of w tool (co_root co)) rc)
      (if tool = ''gosec'' then Some (co_root co) else None) (rc_env rc) raw" by simp_all
  with 2(2) isolated_run_healthy [of w tool] r show ?thesis by (auto simp: whole_scan_believed_def)
qed


definition idle_cache :: trivy_cache where
  "idle_cache = \<lparr>tc_db = NoFile, tc_metadata = NoMetadata, tc_fingerprint = None\<rparr>"

definition world_of :: "process \<Rightarrow> tool_world" where
  "world_of p = \<lparr>tw_spawn = (\<lambda>_ _ _. Some p), tw_isolate = (\<lambda>_. Inr (''/cache/run'', True)),
     tw_cache_before = idle_cache, tw_cache_after = idle_cache, tw_registry_configs = (\<lambda>_. []),
     tw_core_config = ''/rules/core'', tw_llm_rules = ''/rules/llm'', tw_blank_error = ''empty'',
     tw_timestamp = (\<lambda>_. None), tw_now = 0\<rparr>"

definition model_checkout :: checkout where
  "model_checkout = \<lparr>co_root = ''/scans/api-3'',
     co_entries = [\<lparr>te_parts = [''model.pkl''], te_is_file = True, te_size = Some 10\<rparr>], co_lines = (\<lambda>_. None)\<rparr>"

definition clean_gitleaks :: process where
  "clean_gitleaks = \<lparr>p_code = 0, p_stdout = Blank, p_stderr = [], p_report = Some (Document (JArr []))\<rparr>"


text \<open>A modelscan that was killed (by the kernel, for the memory a model takes) is one of the
  exceptions: it leaves no report, and its run is healthy.\<close>

definition killed :: process where
  "killed = \<lparr>p_code = -9, p_stdout = Blank, p_stderr = [], p_report = None\<rparr>"

lemma killed_modelscan_is_healthy:
  "run_tool_checked (world_of killed) ''modelscan'' model_checkout None = Inr (NO_MODELS, trusted ''modelscan'')"
  "healthy (trusted ''modelscan'')"
  by code_simp+

text \<open>An empty report of semgrep-llm, semgrep-core or semgrep-registry becomes a list, which their
  parser cannot read.\<close>

lemma empty_core_report_is_not_readable:
  "empty_report ''semgrep-core'' = JArr []" "parse_report show ''semgrep-core'' (empty_report ''semgrep-core'') = None"
  by (simp_all add: empty_report_def DICT_DEFAULT_TOOLS_def parse_report_def parser_for_def parse_semgrep_core_def
      parse_semgrep_def)

subsection \<open>One report per file\<close>

lemma merge_step:
  assumes "merge_fields merged ((key, val) # kvs) = Some m"
  shows "\<exists>next. merge_fields next kvs = Some m \<and>
    (\<forall>k. entries (field k (JObj next)) = entries (field k (JObj merged)) @ (if k = key then entries val else []))"
proof (cases "map_of merged key")
  case None
  have "merge_fields (merged @ [(key, val)]) kvs = Some m"
    using assms None by (cases val) (auto split: option.splits)
  moreover have "entries (field k (JObj (merged @ [(key, val)]))) =
      entries (field k (JObj merged)) @ (if k = key then entries val else [])" for k
    using None by (auto simp: field_def entries_def map_add_def split: option.split)
  ultimately show ?thesis by blast
next
  case (Some old)
  show ?thesis
  proof (cases "is_arr val")
    case False
    then have "merge_fields merged kvs = Some m" "entries val = []"
      using assms Some by (cases val; auto simp: is_arr_def entries_def)+
    then show ?thesis by (intro exI [of _ merged]) simp
  next
    case True
    then obtain xs where xs: "val = JArr xs" by (cases val) (simp_all add: is_arr_def)
    with assms Some obtain ys where ys: "old = JArr ys" by (cases old) auto
    let ?next = "AList.update key (JArr (ys @ xs)) merged"
    have "merge_fields ?next kvs = Some m" using assms Some xs ys by simp
    moreover have "entries (field k (JObj ?next)) = entries (field k (JObj merged)) @ (if k = key then entries val else [])" for k
      using Some xs ys by (simp add: field_def entries_def update_conv')
    ultimately show ?thesis by blast
  qed
qed

lemma merge_fields_entries:
  "merge_fields merged kvs = Some m \<Longrightarrow> distinct (map fst kvs) \<Longrightarrow>
   entries (field k (JObj m)) = entries (field k (JObj merged)) @ entries (field k (JObj kvs))"
proof (induction kvs arbitrary: merged)
  case (Cons kv kvs)
  obtain key val where kv: "kv = (key, val)" by (cases kv)
  from merge_step [OF Cons.prems(1) [unfolded kv]] obtain m1 where m1: "merge_fields m1 kvs = Some m"
    "\<forall>k. entries (field k (JObj m1)) = entries (field k (JObj merged)) @ (if k = key then entries val else [])" by blast
  have "map_of kvs key = None" using Cons.prems(2) kv by (simp add: map_of_eq_None_iff)
  then have "entries (field k (JObj (kv # kvs))) = (if k = key then entries val else entries (field k (JObj kvs)))"
    and "k = key \<Longrightarrow> entries (field k (JObj kvs)) = []"
    by (simp_all add: kv field_def entries_def)
  with Cons.IH [OF m1(1)] Cons.prems(2) m1(2) show ?case by auto
qed (simp add: field_def entries_def)

definition plain_dict :: "json \<Rightarrow> bool" where
  "plain_dict j \<longleftrightarrow> (case j of JObj kvs \<Rightarrow> distinct (map fst kvs) | _ \<Rightarrow> True)"

lemma merge_dicts_entries:
  "merge_dicts rs merged = Some m \<Longrightarrow> list_all plain_dict rs \<Longrightarrow>
   entries (field k (JObj m)) = entries (field k (JObj merged)) @ concat (map (\<lambda>r. entries (field k r)) rs)"
proof (induction rs arbitrary: merged)
  case (Cons r rs)
  show ?case
  proof (cases "is_obj r")
    case True
    then obtain kvs where r: "r = JObj kvs" by (cases r) (simp_all add: is_obj_def)
    with Cons.prems obtain m1 where m1: "merge_fields merged kvs = Some m1" "merge_dicts rs m1 = Some m"
      by (auto split: option.splits)
    have d: "distinct (map fst kvs)" using Cons.prems(2) r by (simp add: plain_dict_def)
    from Cons.IH [OF m1(2)] merge_fields_entries [OF m1(1) d] Cons.prems(2) r show ?thesis by simp
  next
    case False
    then have "merge_dicts rs merged = Some m" "entries (field k r) = []"
      using Cons.prems(1) by (cases r; simp add: is_obj_def field_def entries_def)+
    with Cons show ?thesis by simp
  qed
qed simp

lemma merge_reports_entries:
  assumes "merge_reports rs = Some m" and "list_all plain_dict rs" and "\<exists>r\<in>set rs. is_obj r" and "\<not> is_arr (hd rs)"
  shows "entries (field k m) = concat (map (\<lambda>r. entries (field k r)) rs)"
proof -
  have "rs \<noteq> []" using assms(3) by auto
  with assms(1,4) obtain fs where "merge_dicts rs [] = Some fs" "m = JObj fs"
    by (auto simp: merge_reports_def split: list.splits if_splits)
  with merge_dicts_entries [OF _ assms(2), of "[]" fs k] show ?thesis by (simp add: field_def entries_def)
qed

definition report_shape :: "string \<Rightarrow> json \<Rightarrow> bool" where
  "report_shape tool j \<longleftrightarrow> (if tool = ''gitleaks'' then is_arr j else is_obj j \<and> plain_dict j)"

lemma length_concat_map: "length (concat (map f xs)) = sum_list (map (\<lambda>x. length (f x)) xs)"
  by (simp add: length_concat comp_def)

lemma merged_count:
  assumes "tool \<in> {''gitleaks'', ''tfsec'', ''modelscan''}" and "merge_reports rs = Some m"
    and "list_all (report_shape tool) rs" and "rs \<noteq> []"
  shows "reported_issues tool m = total_over (reported_issues tool) rs"
proof (cases "tool = ''gitleaks''")
  case True
  have arrs: "\<forall>r\<in>set rs. is_arr r" using assms(3) True by (simp add: list_all_iff report_shape_def)
  then have "is_arr (hd rs)" using assms(4) by simp
  with assms(2,4) have "m = JArr (concat (map (\<lambda>r. case r of JArr xs \<Rightarrow> xs | _ \<Rightarrow> []) rs))"
    by (cases rs) (auto simp: merge_reports_def)
  moreover have "(\<lambda>r. case r of JArr xs \<Rightarrow> xs | _ \<Rightarrow> []) = entries" by (rule ext) (simp add: entries_def)
  ultimately have "m = JArr (concat (map entries rs))" by simp
  then have "reported_issues tool m = length (concat (map entries rs))"
    using True by (simp add: reported_issues_def entries_def)
  moreover have "reported_issues tool r = length (entries r)" for r using True by (simp add: reported_issues_def)
  then have "reported_issues tool = (\<lambda>r. length (entries r))" by (rule ext)
  ultimately show ?thesis by (simp only: total_over_def length_concat_map)
next
  case False
  have objs: "\<forall>r\<in>set rs. is_obj r \<and> plain_dict r" using assms(3) False by (simp add: list_all_iff report_shape_def)
  have hd_obj: "is_obj (hd rs)" using objs assms(4) by simp
  then have nh: "\<not> is_arr (hd rs)" by (cases "hd rs") (simp_all add: is_obj_def is_arr_def)
  have "list_all plain_dict rs" "\<exists>r\<in>set rs. is_obj r"
    using objs hd_obj hd_in_set [OF assms(4)] unfolding list_all_iff by blast+
  note e = merge_reports_entries [OF assms(2) this nh]
  obtain k where k: "reported_issues tool = (\<lambda>j. length (entries (field k j)))"
    using assms(1) False by (elim insertE emptyE) (simp_all add: reported_issues_def fun_eq_iff, blast+)
  show ?thesis unfolding k total_over_def e [of k] length_concat_map ..
qed

lemma execute_each_reports:
  "execute_each w co rc ps h = Inr (rs, h') \<Longrightarrow>
   length rs = length ps \<and> (\<forall>r\<in>set rs. \<exists>p\<in>set ps. \<exists>h1 h2. execute w co rc (command_of w (rc_tool rc) p) h1 = Inr (r, h2))"
proof (induction ps arbitrary: h rs)
  case (Cons p ps)
  from Cons.prems obtain j h1 js where j: "execute w co rc (command_of w (rc_tool rc) p) h = Inr (j, h1)"
    "execute_each w co rc ps h1 = Inr (js, h')" "rs = j # js" by (auto split: sum.splits)
  from Cons.IH [OF j(2)] j(1,3) show ?case by auto
qed simp

text \<open>A scan of the changed files reports what each file's scan reported.  For the tools that
  run once per file, when the runs and the merge succeed, the merged report holds exactly as many
  issues as the single reports together, one report per relevant file; so, with C90, no file's
  findings are lost between the runs and the parser.\<close>

theorem per_file_scan_loses_nothing:
  assumes "run_tool_scoped w co rc paths h = Inr (m, h')" and "rc_tool rc \<in> {''gitleaks'', ''tfsec'', ''modelscan''}"
    and "\<And>p h1 r h2. execute w co rc (command_of w (rc_tool rc) p) h1 = Inr (r, h2) \<Longrightarrow> report_shape (rc_tool rc) r"
  shows "\<exists>reports. length reports = length (paths_for_tool (rc_tool rc) paths) \<and> reports \<noteq> [] \<and>
    merge_reports reports = Some m \<and>
    reported_issues (rc_tool rc) m = total_over (reported_issues (rc_tool rc)) reports"
proof -
  let ?tool = "rc_tool rc" and ?relevant = "paths_for_tool (rc_tool rc) paths"
  have "map_of TOOL_SCOPING ?tool = Some PER_FILE" using assms(2) by (auto simp: TOOL_SCOPING_def)
  with assms(1) have ne: "?relevant \<noteq> []" and
    "\<exists>reports. execute_each w co rc (map (path_join (co_root co)) ?relevant) h = Inr (reports, h') \<and> merge_reports reports = Some m"
    by (auto simp: run_tool_scoped_def Let_def split: if_splits sum.splits option.splits)
  then obtain reports where r: "execute_each w co rc (map (path_join (co_root co)) ?relevant) h = Inr (reports, h')"
    "merge_reports reports = Some m" by blast
  have l: "length reports = length ?relevant" using execute_each_reports [OF r(1)] by simp
  with ne have "reports \<noteq> []" by auto
  moreover have "list_all (report_shape ?tool) reports"
    using execute_each_reports [OF r(1)] assms(3) by (auto simp: list_all_iff)
  ultimately show ?thesis using merged_count [OF assms(2) r(2)] l r(2) by blast
qed

theorem per_file_scan_loses_nothing_witness:
  "\<exists>reports. length reports = 2 \<and> merge_reports reports = Some (JArr []) \<and>
     reported_issues ''gitleaks'' (JArr []) = total_over (reported_issues ''gitleaks'') reports"
proof -
  let ?rc = "plain_run ''gitleaks''" and ?w = "world_of clean_gitleaks" and ?ps = "[''a.py'', ''b.py'']"
  have r: "run_tool_scoped ?w model_checkout ?rc ?ps (trusted ''gitleaks'') = Inr (JArr [], trusted ''gitleaks'')"
    by code_simp
  have t: "rc_tool ?rc = ''gitleaks''" by (simp add: plain_run_def)
  have one: "r = JArr []" if "execute ?w model_checkout ?rc cmd h1 = Inr (r, h2)" for cmd h1 r h2
    using that by (simp add: execute_def plain_run_def run_gitleaks_def world_of_def clean_gitleaks_def read_report_def)
  have s: "report_shape (rc_tool ?rc) r"
    if "execute ?w model_checkout ?rc (command_of ?w (rc_tool ?rc) p) h1 = Inr (r, h2)" for p h1 r h2
    using one [OF that] t by (simp add: report_shape_def is_arr_def)
  have "\<exists>reports. length reports = length (paths_for_tool (rc_tool ?rc) ?ps) \<and> reports \<noteq> [] \<and>
    merge_reports reports = Some (JArr []) \<and>
    reported_issues (rc_tool ?rc) (JArr []) = total_over (reported_issues (rc_tool ?rc)) reports"
    by (rule per_file_scan_loses_nothing [OF r]) (simp add: t, rule s)
  moreover have "paths_for_tool ''gitleaks'' ?ps = ?ps" by code_simp
  ultimately show ?thesis unfolding t by (auto simp: numeral_2_eq_2)
qed

text \<open>tfsec writes null when a file is clean.  A clean file before one with findings makes the merge
  raise, so the tool fails on a change whose files it could read.\<close>

lemma tfsec_merge_breaks:
  "merge_reports [JObj [(''results'', JNull)], JObj [(''results'', JArr [JObj []])]] = None"
  "merge_reports [JObj [(''results'', JArr [JObj []])], JObj [(''results'', JNull)]] = Some (JObj [(''results'', JArr [JObj []])])"
  by code_simp+

text \<open>A directory that is named with three dots makes the one package the recursive form.\<close>

lemma three_dots: "go_packages_for [''.../x.go''] = [''./...'']"
  by code_simp

end
