(* ===== verification/ScanTaskProps.thy ===== *)
theory ScanTaskProps
  imports ScanTask RunnerProps ScanClaims
begin

text \<open>
  A whole scan, from the arguments of the task to the rows it commits: what it may do to the
  findings, and what becomes of its scan row.
\<close>

subsection \<open>Branches that leave the findings alone\<close>

lemma scan_frame [simp]:
  "d_findings (update_scan i g db) = d_findings db"
  "d_findings (complete_scan now i db) = d_findings db"
  "d_findings (fail_scan error i db) = d_findings db"
  "d_findings (refuse_scan now reason scan_id db) = d_findings db"
  "d_findings (snd (new_scan now target_id tool branch db)) = d_findings db"
  "d_findings (refresh_ai_repo_status repo t db) = d_findings db"
  by (simp_all add: update_scan_def complete_scan_def fail_scan_def refuse_scan_def new_scan_def Let_def
      refresh_ai_repo_status_def split: option.split)

lemma target_frame [simp]:
  "d_targets (update_scan i g db) = d_targets db"
  "d_targets (snd (new_scan now target_id tool branch db)) = d_targets db"
  by (simp_all add: update_scan_def new_scan_def Let_def)

lemma findings_ok_frame: "d_findings db' = d_findings db \<Longrightarrow> findings_ok db' = findings_ok db"
  by (simp add: findings_ok_def)

lemma find_updated:
  "(\<And>r. key (g r) = key r) \<Longrightarrow>
   List.find (\<lambda>r. key r = i) (update_rows key j g rows) =
     map_option (\<lambda>r. if key r = j then g r else r) (List.find (\<lambda>r. key r = i) rows)"
  by (induction rows) (auto simp: update_rows_def)

lemma refreshed_target:
  assumes "get_target db i = Some t"
  shows "\<exists>t'. get_target (refresh_ai_repo_status repo t db) i = Some t' \<and> t_id t' = t_id t \<and>
     t_default_branch t' = t_default_branch t"
  using assms
  by (auto simp: refresh_ai_repo_status_def get_target_def Let_def find_updated)

subsection \<open>A run that is cut short\<close>

lemma ingest_until_refines:
  "created_ok run old db cs \<Longrightarrow> item_hash run ` set items \<subseteq> seen \<Longrightarrow>
   ingest_steps run may seen old db (ingest_until run items (db, cs))"
proof (induction items arbitrary: db cs)
  case (Cons item items)
  show ?case
  proof (cases "ingest_item run item (db, cs)")
    case (Inr st)
    obtain db1 cs1 where st: "st = (db1, cs1)" by (cases st)
    have "ingest_steps run may seen old db db1" "created_ok run old db1 cs1"
      using ingest_item_refines [OF Inr [unfolded st] Cons.prems(1)] Cons.prems(2) by auto
    with Cons.IH [of db1 cs1] Cons.prems(2) Inr st show ?thesis by (auto intro: rtranclp_trans)
  next
    case (Inl e)
    show ?thesis
    proof (cases "List.find (same_finding run (item_hash run item)) (d_findings db)")
      case (Some f)
      then have "f \<in> set (d_findings db)" "in_scope run f" using find_mem [OF Some] by (auto simp: same_finding_scope)
      from ingest_step.observe [OF this] Some Inl show ?thesis by auto
    qed (use Inl in simp)
  qed
qed simp

lemma start_run_created:
  assumes "findings_ok db"
  shows "created_ok run (finding_ids db) (snd (start_run w t sid tool branch parsed db)) []"
    and "ingest_step run' may seen old db (snd (start_run w t sid tool branch parsed db))"
proof -
  have d: "d_findings (snd (start_run w t sid tool branch parsed db)) = d_findings db"
    by (simp add: start_run_def Let_def)
  with assms show "created_ok run (finding_ids db) (snd (start_run w t sid tool branch parsed db)) []"
    by (simp add: created_ok_def finding_ids_def findings_ok_def)
  have e: "snd (start_run w t sid tool branch parsed db) =
      db\<lparr>d_enrichments := d_enrichments (snd (start_run w t sid tool branch parsed db)), d_scans := d_scans db\<rparr>"
    by (simp add: start_run_def Let_def)
  show "ingest_step run' may seen old db (snd (start_run w t sid tool branch parsed db))"
    by (subst e) (rule ingest_step.elsewhere)
qed

lemma partial_refines:
  assumes "findings_ok db"
  shows "ingest_steps (run_of w t sid tool branch parsed db) False (reported (run_of w t sid tool branch parsed db) parsed)
     (finding_ids db) db (partial_ingest w t sid tool branch parsed db)"
proof -
  let ?run = "run_of w t sid tool branch parsed db"
  let ?db1 = "snd (start_run w t sid tool branch parsed db)"
  have "partial_ingest w t sid tool branch parsed db = ingest_until ?run parsed (?db1, [])"
    by (simp add: partial_ingest_def run_of_def split_beta)
  moreover have "ingest_steps ?run False (reported ?run parsed) (finding_ids db) ?db1 (ingest_until ?run parsed (?db1, []))"
    by (rule ingest_until_refines [OF start_run_created(1) [OF assms]]) (simp add: reported_def)
  ultimately show ?thesis
    using start_run_created(2) [OF assms, of ?run False "reported ?run parsed" "finding_ids db"]
    by (metis converse_rtranclp_into_rtranclp)
qed

subsection \<open>Only findings of the scanner's own tool, target and branch are cleared\<close>

lemma open_elsewhere_step:
  assumes "ingest_step run may seen old db db'" and "findings_ok db"
    and "f \<in> set (d_findings db)" and "f_id f \<in> old" and "f_state f = OPEN"
    and "\<not> (in_scope run f \<and> f_tool f = ir_tool run \<and> may \<and> f_dedup_hash f \<notin> seen)"
  shows "\<exists>f'\<in>set (d_findings db'). identity f' = identity f \<and> f_state f' = OPEN"
  using assms(1)
proof (cases rule: step_shape)
  case (edit q g)
  let ?f = "if f_id f = f_id q then g f else f"
  have "?f \<in> set (d_findings db')" using edit(3) assms(3) by (auto simp: edits_def update_rows_def)
  moreover have "identity ?f = identity f" using edit(3) by (simp add: edits_def)
  moreover have "f_state ?f = OPEN"
  proof (cases "f_id f = f_id q")
    case True
    then have "f = q" using same_row [OF assms(2,3) edit(1)] by simp
    with edit(2,4) assms(4-6) show ?thesis by (elim disjE exE conjE) auto
  qed (use assms in simp)
  ultimately show ?thesis by blast
qed (use assms in auto)

lemma open_elsewhere:
  assumes "ingest_steps run may seen old db db'" and "findings_ok db"
    and "f \<in> set (d_findings db)" and "f_id f \<in> old" and "f_state f = OPEN"
    and "\<not> (in_scope run f \<and> f_tool f = ir_tool run \<and> may \<and> f_dedup_hash f \<notin> seen)"
  shows "\<exists>f'\<in>set (d_findings db'). identity f' = identity f \<and> f_state f' = OPEN"
  using assms(1)
proof (induction rule: rtranclp_induct)
  case (step db1 db2)
  then obtain f1 where f1: "f1 \<in> set (d_findings db1)" "identity f1 = identity f" "f_state f1 = OPEN" by blast
  have ok: "findings_ok db1" using findings_ok_steps [OF step(1) assms(2)] by simp
  have "f_id f1 \<in> old" "\<not> (in_scope run f1 \<and> f_tool f1 = ir_tool run \<and> may \<and> f_dedup_hash f1 \<notin> seen)"
    using identity_eqD [OF f1(2)] in_scope_identity [OF f1(2), of run] assms(4,6) by auto
  from open_elsewhere_step [OF step(2) ok f1(1) this(1) f1(3) this(2)] f1(2) show ?case by auto
qed (use assms in auto)

lemma ingest_open:
  assumes "ingest_findings w t sid tool branch parsed health db = Inr (db', alerts)" and "findings_ok db"
    and "f \<in> set (d_findings db)" and "f_state f = OPEN"
  shows "\<exists>f'\<in>set (d_findings db'). identity f' = identity f \<and>
     (f_state f' = OPEN \<or>
      f_state f' = MITIGATED \<and> f_target_id f = t_id t \<and> f_branch f = branch \<and> f_tool f = tool \<and>
      fst (may_mitigate parsed health) \<and>
      f_dedup_hash f \<notin> reported (run_of w t sid tool branch parsed db) parsed)"
proof -
  let ?run = "run_of w t sid tool branch parsed db"
  have old: "f_id f \<in> finding_ids db" using assms(3) by (simp add: finding_ids_def)
  note steps = ingest_refines [OF assms(1,2)]
  show ?thesis
  proof (cases "in_scope ?run f \<and> f_tool f = tool \<and> fst (may_mitigate parsed health) \<and> f_dedup_hash f \<notin> reported ?run parsed")
    case True
    from fate_steps [OF steps assms(2,3) old] obtain f' where "f' \<in> set (d_findings db')" "identity f' = identity f"
      "f_state f' \<in> {OPEN, MITIGATED}"
      using True assms(4) by (auto simp: fate_ok_def fates_def)
    with True show ?thesis by (auto simp: in_scope_def)
  next
    case False
    from open_elsewhere [OF steps assms(2,3) old assms(4)] False show ?thesis by auto
  qed
qed

definition fingerprints :: "ingest_world \<Rightarrow> string \<Rightarrow> scan_item list \<Rightarrow> string set" where
  "fingerprints w tool items =
     (\<lambda>item. compute_dedup_hash (iw_digest w) (i_rule_id item) (i_file_path item) tool (i_snippet item) (i_line_start item))
       ` set items"

lemma reported_fingerprints: "reported (run_of w t sid tool branch items db) items = fingerprints w tool items"
  by (simp add: reported_def fingerprints_def item_hash_def)

text \<open>The scanner of the task read the target's checkout, really ran, and its report has no issue of
  the finding's fingerprint.\<close>

definition seen_absent :: "scan_world \<Rightarrow> target \<Rightarrow> row_id \<Rightarrow> finding \<Rightarrow> bool" where
  "seen_absent w t i f \<longleftrightarrow>
     (\<exists>co raw parsed items. sw_clone w t i = Cloned co \<and> whole_scan_believed (sw_tools w) (f_tool f) co raw \<and>
        Option.bind (parse_report (sw_show w) (f_tool f) raw) (collect (prepare_item (f_tool f) co)) = Some parsed \<and>
        collect scan_item_of parsed = Some items \<and> f_dedup_hash f \<notin> fingerprints (sw_ingest w) (f_tool f) items)"

definition cleared_for_cause :: "scan_world \<Rightarrow> target \<Rightarrow> row_id \<Rightarrow> string \<Rightarrow> finding \<Rightarrow> finding \<Rightarrow> bool" where
  "cleared_for_cause w t i tool f f' \<longleftrightarrow>
     f_state f' = MITIGATED \<and> f_target_id f = t_id t \<and> f_branch f = t_default_branch t \<and> f_tool f = tool \<and> seen_absent w t i f"

text \<open>What a task may do to an open finding.\<close>

definition open_or_cleared :: "scan_world \<Rightarrow> target \<Rightarrow> row_id \<Rightarrow> string \<Rightarrow> finding \<Rightarrow> db \<Rightarrow> bool" where
  "open_or_cleared w t i tool f db' \<longleftrightarrow>
     (\<exists>f'\<in>set (d_findings db'). identity f' = identity f \<and> (f_state f' = OPEN \<or> cleared_for_cause w t i tool f f'))"

lemma open_or_clearedI: "f' \<in> set (d_findings db') \<Longrightarrow> identity f' = identity f \<Longrightarrow> f_state f' = OPEN \<Longrightarrow> open_or_cleared w t i tool f db'"
  by (auto simp: open_or_cleared_def)

lemma judged_ingest_open:
  assumes "ingest_findings (sw_ingest w) t' i tool (t_default_branch t') items (Some health) db = Inr (db', alerts)"
    and "run_tool_checked (sw_tools w) tool co None = Inr (raw, health)"
    and "Option.bind (parse_report (sw_show w) tool raw) (collect (prepare_item tool co)) = Some parsed"
    and "collect scan_item_of parsed = Some items" and "sw_clone w t i = Cloned co"
    and "t_id t' = t_id t" and "t_default_branch t' = t_default_branch t"
    and "findings_ok db" and "f \<in> set (d_findings db)" and "f_state f = OPEN"
  shows "open_or_cleared w t i tool f db'"
proof -
  from ingest_open [OF assms(1,8-10)] obtain f' where f': "f' \<in> set (d_findings db')" "identity f' = identity f"
    "f_state f' = OPEN \<or> f_state f' = MITIGATED \<and> f_target_id f = t_id t' \<and> f_branch f = t_default_branch t' \<and>
     f_tool f = tool \<and> fst (may_mitigate items (Some health)) \<and>
     f_dedup_hash f \<notin> fingerprints (sw_ingest w) tool items"
    by (auto simp: reported_fingerprints)
  have "whole_scan_believed (sw_tools w) tool co raw" if "fst (may_mitigate items (Some health))"
    using that healthy_whole_scan [OF assms(2)] by (simp add: may_mitigate_def split: if_splits)
  with f' assms(3-7) show ?thesis
    unfolding open_or_cleared_def by (intro bexI [of _ f']) (auto simp: cleared_for_cause_def seen_absent_def)
qed

lemma checkout_open:
  assumes "scan_checkout w t tool i co db = Some (db', out, events)" and "sw_clone w t i = Cloned co"
    and "get_target db (t_id t) = Some t" and "findings_ok db"
    and "f \<in> set (d_findings db)" and "f_state f = OPEN"
  shows "open_or_cleared w t i tool f db'"
proof -
  let ?db = "if sw_detects w then refresh_ai_repo_status (Some co) t db else db"
  obtain t' where t': "get_target ?db (t_id t) = Some t'" "t_id t' = t_id t" "t_default_branch t' = t_default_branch t"
    using refreshed_target [OF assms(3), of "Some co"] assms(3) by (cases "sw_detects w") auto
  have d: "d_findings ?db = d_findings db" by simp
  then have ok: "findings_ok ?db" and f: "f \<in> set (d_findings ?db)" using findings_ok_frame [OF d] assms(4,5) by simp_all
  have keep: "d_findings db' = d_findings db \<Longrightarrow> ?thesis" using assms(5,6) by (auto intro: open_or_clearedI)
  let ?parsed = "\<lambda>raw. Option.bind (parse_report (sw_show w) tool raw) (collect (prepare_item tool co))"
  let ?ingest = "\<lambda>items health. ingest_findings (sw_ingest w) t' i tool (t_default_branch t') items (Some health) ?db"
  let ?partial = "\<lambda>items. partial_ingest (sw_ingest w) t' i tool (t_default_branch t') items ?db"
  note body = assms(1) [unfolded scan_checkout_def Let_def t'(1) option.case]
  consider (quiet) "d_findings db' = d_findings db"
    | (cut) items where "d_findings db' = d_findings (?partial items)"
    | (ingested) raw health parsed items alerts where "run_tool_checked (sw_tools w) tool co None = Inr (raw, health)"
        "?parsed raw = Some parsed" "collect scan_item_of parsed = Some items" "?ingest items health = Inr (db', alerts)"
    using body by (auto simp: scan_failed_def session_lost_def split: if_splits sum.splits option.splits prod.splits run_error.splits
        ingest_error.splits)
  then show ?thesis
  proof cases
    case (cut items)
    have "f_id f \<in> finding_ids ?db" using f by (simp add: finding_ids_def)
    from open_elsewhere [OF partial_refines [OF ok] ok f this assms(6)]
    show ?thesis unfolding open_or_cleared_def cut by blast
  next
    case (ingested raw health parsed items alerts)
    show ?thesis by (rule judged_ingest_open [OF ingested(4,1-3) assms(2) t'(2,3) ok f assms(6)])
  qed (rule keep)
qed

lemma row_open:
  assumes "run_scan_row w t tool i final db = Some (db', out, events)"
    and "get_target db (t_id t) = Some t" and "findings_ok db" and "f \<in> set (d_findings db)" and "f_state f = OPEN"
  shows "open_or_cleared w t i tool f db'"
proof (cases "sw_clone w t i")
  case (Cloned co)
  with assms(1) checkout_open [OF _ Cloned assms(2-5)] show ?thesis by (auto simp: run_scan_row_def)
qed (use assms in \<open>auto simp: run_scan_row_def scan_failed_def Let_def intro: open_or_clearedI split: if_splits\<close>)

subsection \<open>What becomes of the scan row\<close>

lemma updated_row: "s \<in> set (update_rows s_id i g rows) \<Longrightarrow> (\<And>r. s_id (g r) = s_id r) \<Longrightarrow> s_id s = i \<Longrightarrow> \<exists>q. s = g q"
  by (auto simp: update_rows_def split: if_splits)

text \<open>The status an outcome stands for; None where the row is left as it is.\<close>

definition settled_status :: "scan_outcome \<Rightarrow> bool \<Rightarrow> string option" where
  "settled_status out final =
     (case out of Ingested _ _ \<Rightarrow> Some ''completed'' | Skipped _ \<Rightarrow> Some ''completed''
      | Retried \<Rightarrow> if final then Some ''failed'' else None | TaskRaised \<Rightarrow> None | _ \<Rightarrow> Some ''failed'')"

definition row_has :: "row_id \<Rightarrow> string \<Rightarrow> db \<Rightarrow> bool" where
  "row_has i status db \<longleftrightarrow> (\<forall>s\<in>set (d_scans db). s_id s = i \<longrightarrow> s_status s = status)"

lemma row_has_update:
  "(\<And>r. s_id (g r) = s_id r \<and> s_status (g r) = status) \<Longrightarrow> row_has i status (update_scan i g db)"
  by (fastforce simp: row_has_def update_scan_def dest: updated_row)

lemma row_has_simps [simp]:
  "row_has i ''completed'' (complete_scan now i db)"
  "row_has i ''failed'' (fail_scan error i db)"
  "row_has i ''failed'' (refuse_scan now reason (Some i) db)"
  "row_has i ''failed'' (update_scan i (\<lambda>s. s\<lparr>s_status := ''failed''\<rparr>) db)"
  unfolding complete_scan_def fail_scan_def refuse_scan_def option.case by (rule row_has_update, simp)+

lemma ingest_row:
  assumes "ingest_findings w t i tool branch items health db = Inr (db', alerts)"
  shows "row_has i ''completed'' db'"
proof -
  obtain db4 where "db' = db4\<lparr>d_scans := update_rows s_id i
      (finish_scan (iw_now w) (length items) health (may_mitigate items health)) (d_scans db4)\<rparr>"
    by (rule ingest_parts [OF assms])
  then have "db' = update_scan i (finish_scan (iw_now w) (length items) health (may_mitigate items health)) db4"
    by (simp add: update_scan_def)
  then show ?thesis by (simp add: row_has_update finish_scan_def Let_def)
qed

definition statement_failed :: "scan_world \<Rightarrow> bool" where
  "statement_failed w \<longleftrightarrow> (\<exists>parsed. sw_refuses w parsed \<noteq> None) \<or> (\<exists>cves rows. iw_lost (sw_ingest w) cves rows)"

definition settles :: "scan_world \<Rightarrow> bool \<Rightarrow> row_id \<Rightarrow> db \<Rightarrow> scan_outcome \<Rightarrow> db \<Rightarrow> bool" where
  "settles w final i db out db' \<longleftrightarrow>
     (case settled_status out final of
        Some status \<Rightarrow> row_has i status db'
      | None \<Rightarrow> d_scans db' = d_scans db \<and> (out = TaskRaised \<longrightarrow> statement_failed w))"

lemma refresh_scans [simp]: "d_scans (refresh_ai_repo_status repo t db) = d_scans db"
  by (simp add: refresh_ai_repo_status_def Let_def split: option.split)

lemma settles_simps [simp]:
  "settles w final i db (Ingested n h) db' = row_has i ''completed'' db'"
  "settles w final i db (Skipped reason) db' = row_has i ''completed'' db'"
  "settles w final i db (ScanFailed e) db' = row_has i ''failed'' db'"
  "settles w final i db (ScanRefused e) db' = row_has i ''failed'' db'"
  "settles w final i db TargetNotFound db' = row_has i ''failed'' db'"
  "settles w final i db ScanNotFound db' = row_has i ''failed'' db'"
  "settles w True i db Retried db' = row_has i ''failed'' db'"
  "settles w False i db Retried db' = (d_scans db' = d_scans db)"
  "settles w final i db TaskRaised db' = (d_scans db' = d_scans db \<and> statement_failed w)"
  by (simp_all add: settles_def settled_status_def)

lemma refused_statement: "sw_refuses w parsed = Some rows \<Longrightarrow> statement_failed w"
  by (auto simp: statement_failed_def)

lemma lost_statement: "ingest_findings (sw_ingest w) t i tool branch items health db = Inl SessionLost \<Longrightarrow> statement_failed w"
  unfolding statement_failed_def ingest_findings_def Let_def by (auto split: prod.splits if_splits sum.splits)

lemma checkout_row: "scan_checkout w t tool i co db = Some (db', out, events) \<Longrightarrow> settles w final i db out db'"
  by (auto simp: scan_checkout_def scan_failed_def session_lost_def Let_def ingest_row refused_statement lost_statement
      split: if_splits sum.splits option.splits prod.splits run_error.splits ingest_error.splits)

lemma row_settled:
  assumes "run_scan_row w t tool i final db = Some (db', out, events)"
  shows "settles w final i db out db'"
proof (cases "sw_clone w t i")
  case (Cloned co)
  with assms checkout_row [of w t tool i co db db' out events final] show ?thesis by (auto simp: run_scan_row_def)
qed (use assms in \<open>cases final; auto simp: run_scan_row_def scan_failed_def Let_def\<close>)+

subsection \<open>The task\<close>

definition model_scan :: "process \<Rightarrow> scan_world" where
  "model_scan p = \<lparr>sw_clone = (\<lambda>_ _. Cloned model_checkout), sw_detects = True, sw_tools = world_of p,
     sw_show = (\<lambda>_. []), sw_ingest = example_world, sw_refuses = (\<lambda>_. None), sw_error_text = ''error'', sw_now = 1000\<rparr>"

definition secret_db :: db where
  "secret_db = empty_db\<lparr>d_targets := [example_target], d_findings := [example_finding\<lparr>f_tool := ''gitleaks''\<rparr>],
     d_scans := [\<lparr>s_id = 5, s_target_id = 1, s_tool = ''gitleaks'', s_branch = ''main'', s_status = ''running'',
       s_started_at = 0, s_completed_at = None, s_findings_count = 0, s_error = [], s_health = ''unknown'',
       s_health_note = []\<rparr>]\<rparr>"

text \<open>C1: A scan clears a finding only for cause.  Whatever the clone, the scanner's process, its
  report and the feeds do, and whether the task completes, is skipped, fails half-way through its
  rows or is to be retried, an Open finding is still in the table afterwards, and it is still Open
  unless all of this holds: the target exists and may be scanned; the finding is of that target, of
  its default branch and of the scanner the task ran; the checkout was cloned; the scanner really ran
  on it (\<open>whole_scan_believed\<close>); and its report could be read and has no issue with the finding's
  fingerprint.\<close>

theorem scan_clears_only_for_cause:
  assumes "run_scan w target_id tool scan_id final db = Some (db', out, events)" and "findings_ok db"
    and "f \<in> set (d_findings db)" and "f_state f = OPEN"
  shows "\<exists>f'\<in>set (d_findings db'). identity f' = identity f \<and>
     (f_state f' = OPEN \<or>
      (\<exists>t i. get_target db target_id = Some t \<and> scan_refusal_reason t = None \<and> cleared_for_cause w t i tool f f'))"
proof (cases "get_target db target_id")
  case None
  with assms show ?thesis by (auto simp: run_scan_def split: option.splits)
next
  case (Some t)
  have t: "get_target db (t_id t) = Some t" using find_mem [OF Some [unfolded get_target_def]] Some by simp
  let ?new = "new_scan (sw_now w) (t_id t) tool (t_default_branch t) db"
  have new: "get_target (snd ?new) (t_id t) = Some t" "findings_ok (snd ?new)" "f \<in> set (d_findings (snd ?new))"
    using t assms(2,3) by (simp_all add: get_target_def findings_ok_def)
  consider (same) "d_findings db' = d_findings db"
    | (given) i where "run_scan_row w t tool i final db = Some (db', out, events)" "scan_refusal_reason t = None"
    | (own) "run_scan_row w t tool (fst ?new) final (snd ?new) = Some (db', out, events)" "scan_refusal_reason t = None"
    using assms(1) Some by (auto simp: run_scan_def split_beta split: option.splits if_splits)
  then show ?thesis
  proof cases
    case same
    with assms(3,4) show ?thesis by auto
  next
    case (given i)
    from row_open [OF given(1) t assms(2-4)] given(2) Some show ?thesis by (auto simp: open_or_cleared_def)
  next
    case own
    from row_open [OF own(1) new assms(4)] own(2) Some show ?thesis by (auto simp: open_or_cleared_def)
  qed
qed

theorem scan_clears_only_for_cause_witness:
  "\<exists>db' out events. run_scan (model_scan clean_gitleaks) 1 ''gitleaks'' (Some 5) False secret_db = Some (db', out, events) \<and>
     (\<exists>f'\<in>set (d_findings db'). f_id f' = 11)"
proof -
  have "run_scan (model_scan clean_gitleaks) 1 ''gitleaks'' (Some 5) False secret_db \<noteq> None" by code_simp
  then obtain db' out events where
    r: "run_scan (model_scan clean_gitleaks) 1 ''gitleaks'' (Some 5) False secret_db = Some (db', out, events)" by auto
  have ok: "findings_ok secret_db" by (simp add: findings_ok_def secret_db_def empty_db_def)
  have m: "example_finding\<lparr>f_tool := ''gitleaks''\<rparr> \<in> set (d_findings secret_db)" by (simp add: secret_db_def)
  have f: "f_state (example_finding\<lparr>f_tool := ''gitleaks''\<rparr>) = OPEN" "f_id (example_finding\<lparr>f_tool := ''gitleaks''\<rparr>) = 11"
    by (simp_all add: example_finding_def)
  obtain f' where f': "f' \<in> set (d_findings db')" "identity f' = identity (example_finding\<lparr>f_tool := ''gitleaks''\<rparr>)"
    using scan_clears_only_for_cause [OF r ok m f(1)] by blast
  then have "f_id f' = 11" using f(2) identity_eqD [OF f'(2)] by simp
  with f'(1) r show ?thesis by blast
qed

text \<open>The clean run above does clear it; so does, for a modelscan finding, a modelscan that the
  kernel killed before it wrote its report.\<close>

lemma clean_run_clears:
  "map f_state (d_findings (fst (the (run_scan (model_scan clean_gitleaks) 1 ''gitleaks'' (Some 5) False secret_db)))) = [MITIGATED]"
  by code_simp

lemma killed_modelscan_clears:
  "map f_state (d_findings (fst (the (run_scan (model_scan killed) 1 ''modelscan'' None False
     (secret_db\<lparr>d_targets := [example_target\<lparr>t_is_ai_repo_override := Some True\<rparr>],
        d_findings := [example_finding\<lparr>f_tool := ''modelscan''\<rparr>]\<rparr>))))) = [MITIGATED]"
  by code_simp



subsection \<open>The push endpoint\<close>

text \<open>What a pushed document says for itself: some invocation states its success and none its failure,
  or none states anything and there are results.\<close>

definition declares_complete :: "json \<Rightarrow> parsed_item list \<Rightarrow> bool" where
  "declares_complete raw parsed \<longleftrightarrow>
     (\<forall>i\<in>set (invocations_of raw). declared_success i \<noteq> JBool False) \<and>
     ((\<forall>i\<in>set (invocations_of raw). declared_success i = JNull) \<longrightarrow> parsed \<noteq> [])"

lemma may_mitigate_pushed:
  assumes "sarif_health show raw tool = Some health" and "fst (may_mitigate items health)"
    and "items \<noteq> [] \<longleftrightarrow> parsed \<noteq> []"
  shows "declares_complete raw parsed"
  using pushed_run_is_judged [OF assms(1)] assms(2,3)
  by (cases health) (auto simp: may_mitigate_def declares_complete_def split: if_splits)

text \<open>C28: A push clears a finding only on its document's word.  An Open finding is still Open after
  a request to the push endpoint unless the request was within its rate, the target is the
  workspace's own and may be scanned, the finding is of that target and of the branch and tool the
  request names, the document parsed and does not report it, and the document says that its run
  succeeded, or says nothing of it but has results.\<close>

theorem push_clears_only_on_evidence:
  assumes "push_ingest w allowed workspace_id target_id payload tool branch db = Some (db', out, alerts)"
    and "findings_ok db" and "f \<in> set (d_findings db)" and "f_state f = OPEN"
  shows "\<exists>f'\<in>set (d_findings db'). identity f' = identity f \<and>
     (f_state f' = OPEN \<or>
      (f_state f' = MITIGATED \<and> allowed \<and> f_target_id f = target_id \<and> f_branch f = branch \<and> f_tool f = tool \<and>
       (\<exists>t parsed items. get_target db target_id = Some t \<and> t_workspace_id t = workspace_id \<and>
          scan_refusal_reason t = None \<and> parse_sarif (JObj payload) = Some parsed \<and>
          collect scan_item_of parsed = Some items \<and> f_dedup_hash f \<notin> fingerprints (sw_ingest w) tool items \<and>
          declares_complete (JObj payload) parsed)))"
proof -
  have start: "d_findings (snd (start_run v t i tl br items d)) = d_findings d" for v t i tl br items d
    by (simp add: start_run_def Let_def)
  consider (same) "d_findings db' = d_findings db"
    | (ingested) t parsed health items al where "allowed" "get_target db target_id = Some t" "t_workspace_id t = workspace_id"
        "scan_refusal_reason t = None" "parse_sarif (JObj payload) = Some parsed"
        "sarif_health (sw_show w) (JObj payload) tool = Some health" "collect scan_item_of parsed = Some items"
        "ingest_findings (sw_ingest w) t (fst (new_scan (sw_now w) (t_id t) tool branch db)) tool branch items health
           (snd (new_scan (sw_now w) (t_id t) tool branch db)) = Inr (db', al)"
    using assms(1) by (auto simp: push_ingest_def split_beta start split: option.splits if_splits sum.splits)
  then show ?thesis
  proof cases
    case (ingested t parsed health items al)
    let ?db = "snd (new_scan (sw_now w) (t_id t) tool branch db)"
    have ok: "findings_ok ?db" "f \<in> set (d_findings ?db)" using assms(2,3) by (simp_all add: findings_ok_def)
    have "t_id t = target_id" using find_mem [OF ingested(2) [unfolded get_target_def]] by simp
    moreover have "items \<noteq> [] \<longleftrightarrow> parsed \<noteq> []" using collect_length [OF ingested(7)] by auto
    ultimately show ?thesis
      using ingest_open [OF ingested(8) ok assms(4)] ingested(1-7) may_mitigate_pushed [OF ingested(6)]
      by (fastforce simp: reported_fingerprints)
  qed (use assms(3,4) in auto)
qed

definition failed_push :: "(string \<times> json) list" where
  "failed_push = [(''runs'', JArr [JObj [(''results'', JArr []),
     (''invocations'', JArr [JObj [(''executionSuccessful'', JBool False)]])]])]"

theorem push_clears_only_on_evidence_witness:
  "\<exists>db' out alerts. push_ingest (model_scan killed) True 7 1 failed_push ''gitleaks'' ''main'' secret_db = Some (db', out, alerts) \<and>
     (\<exists>f'\<in>set (d_findings db'). f_id f' = 11 \<and> f_state f' = OPEN)"
proof -
  have "push_ingest (model_scan killed) True 7 1 failed_push ''gitleaks'' ''main'' secret_db \<noteq> None" by code_simp
  then obtain db' out alerts where
    r: "push_ingest (model_scan killed) True 7 1 failed_push ''gitleaks'' ''main'' secret_db = Some (db', out, alerts)" by auto
  let ?f = "example_finding\<lparr>f_tool := ''gitleaks''\<rparr>"
  have ok: "findings_ok secret_db" by (simp add: findings_ok_def secret_db_def empty_db_def)
  have m: "?f \<in> set (d_findings secret_db)" by (simp add: secret_db_def)
  have f: "f_state ?f = OPEN" "f_id ?f = 11" by (simp_all add: example_finding_def)
  have "JObj [(''executionSuccessful'', JBool False)] \<in> set (invocations_of (JObj failed_push))" by code_simp
  moreover have "declared_success (JObj [(''executionSuccessful'', JBool False)]) = JBool False" by code_simp
  ultimately have n: "\<not> declares_complete (JObj failed_push) parsed" for parsed by (auto simp: declares_complete_def)
  obtain f' where f': "f' \<in> set (d_findings db')" "identity f' = identity ?f" "f_state f' = OPEN"
    using push_clears_only_on_evidence [OF r ok m f(1)] n by blast
  with f(2) identity_eqD [OF f'(2)] r show ?thesis by auto
qed

subsection \<open>Fan-out\<close>

definition job_of :: "scan \<Rightarrow> scan_job" where
  "job_of s = \<lparr>sj_target_id = s_target_id s, sj_tool = s_tool s, sj_scan_id = s_id s\<rparr>"

text \<open>The rows a dispatch adds, one per job.\<close>

definition fresh_rows :: "db \<Rightarrow> scan list \<Rightarrow> bool" where
  "fresh_rows db rows \<longleftrightarrow>
     (\<forall>s\<in>set rows. s_status s = ''running'' \<and> (\<exists>t\<in>set (d_targets db). s_branch s = t_default_branch t \<and> s_target_id s = t_id t)) \<and>
     (distinct (map s_id (d_scans db)) \<longrightarrow> distinct (map s_id (d_scans db @ rows)))"

definition queued :: "db \<Rightarrow> db \<Rightarrow> scan_job list \<Rightarrow> bool" where
  "queued db db' jobs \<longleftrightarrow>
     (\<exists>rows. db' = db\<lparr>d_scans := d_scans db @ rows\<rparr> \<and> jobs = map job_of rows \<and> fresh_rows db rows)"

lemma queuedI: "db' = db\<lparr>d_scans := d_scans db @ rows\<rparr> \<Longrightarrow> jobs = map job_of rows \<Longrightarrow> fresh_rows db rows \<Longrightarrow> queued db db' jobs"
  unfolding queued_def by blast

lemma queued_none [simp]: "queued db db []"
  by (rule queuedI [of _ _ "[]"]) (simp_all add: fresh_rows_def)

lemma queued_append:
  assumes "queued db db1 jobs" and "queued db1 db2 jobs'"
  shows "queued db db2 (jobs @ jobs')"
proof -
  obtain r1 r2 where 1: "db1 = db\<lparr>d_scans := d_scans db @ r1\<rparr>" "jobs = map job_of r1" "fresh_rows db r1"
    and 2: "db2 = db1\<lparr>d_scans := d_scans db1 @ r2\<rparr>" "jobs' = map job_of r2" "fresh_rows db1 r2"
    using assms by (auto simp: queued_def)
  have "fresh_rows db (r1 @ r2)"
    using 1(3) 2(3) unfolding fresh_rows_def 1(1) by (simp add: ball_Un)
  then show ?thesis using 1(1,2) 2(1,2) by (intro queuedI [of _ _ "r1 @ r2"]) simp_all
qed

lemma queued_one:
  assumes "t \<in> set (d_targets db)" and "new_scan now (t_id t) tool (t_default_branch t) db = (i, db')"
  shows "queued db db' [\<lparr>sj_target_id = t_id t, sj_tool = tool, sj_scan_id = i\<rparr>]"
proof -
  let ?row = "\<lparr>s_id = next_id s_id (d_scans db), s_target_id = t_id t, s_tool = tool, s_branch = t_default_branch t,
     s_status = ''running'', s_started_at = now, s_completed_at = None, s_findings_count = 0, s_error = [],
     s_health = HEALTH_UNKNOWN, s_health_note = []\<rparr>"
  have n: "db' = db\<lparr>d_scans := d_scans db @ [?row]\<rparr>" "i = next_id s_id (d_scans db)"
    using assms(2) by (auto simp: new_scan_def Let_def)
  have "fresh_rows db [?row]"
    using assms(1) next_id_notin [of s_id "d_scans db"] by (auto simp: fresh_rows_def)
  with n show ?thesis by (intro queuedI [of _ _ "[?row]"]) (simp_all add: job_of_def)
qed

lemma dispatch_queued:
  "dispatch_tools now t tools db = (db', jobs) \<Longrightarrow> t \<in> set (d_targets db) \<Longrightarrow>
   queued db db' jobs \<and> map (\<lambda>j. (sj_target_id j, sj_tool j)) jobs = map (\<lambda>tool. (t_id t, tool)) tools"
proof (induction tools arbitrary: db db' jobs)
  case (Cons tool tools)
  obtain i db1 where 1: "new_scan now (t_id t) tool (t_default_branch t) db = (i, db1)" by fastforce
  obtain db2 rest where 2: "dispatch_tools now t tools db1 = (db2, rest)" by fastforce
  have "t \<in> set (d_targets db1)" using 1 Cons.prems(2) by (auto simp: new_scan_def Let_def)
  from Cons.IH [OF 2 this] queued_append [OF queued_one [OF Cons.prems(2) 1]] Cons.prems(1) 1 2
  show ?case by auto
qed simp

text \<open>The tools a full scan of a target runs.\<close>

definition full_scan_tools :: "workspace_tool_config list \<Rightarrow> target \<Rightarrow> string list" where
  "full_scan_tools configs t =
     (case tools_for_surface configs (t_workspace_id t) ''on_demand_scan'' of Inl _ \<Rightarrow> [] | Inr tools \<Rightarrow> tools)"

lemma full_scan_queued:
  assumes "queue_full_scan now configs t db = (db', jobs)" and "t \<in> set (d_targets db)"
  shows "queued db db' jobs \<and> map (\<lambda>j. (sj_target_id j, sj_tool j)) jobs =
     (if scan_refusal_reason t = None then map (\<lambda>tool. (t_id t, tool)) (full_scan_tools configs t) else [])"
  using assms dispatch_queued [OF _ assms(2)]
  by (auto simp: queue_full_scan_def full_scan_tools_def split: option.splits sum.splits)

lemma queued_completed:
  "queued db db' jobs \<Longrightarrow> has_completed_scan db' t = has_completed_scan db t"
  by (auto simp: queued_def fresh_rows_def has_completed_scan_def list_ex_iff)

lemma targets_queued:
  "queue_targets now configs skip ts db = (db', jobs) \<Longrightarrow> set ts \<subseteq> set (d_targets db) \<Longrightarrow>
   (\<And>a b js t. queued a b js \<Longrightarrow> skip b t = skip a t) \<Longrightarrow>
   queued db db' jobs \<and> map (\<lambda>j. (sj_target_id j, sj_tool j)) jobs =
     concat (map (\<lambda>t. map (\<lambda>tool. (t_id t, tool)) (full_scan_tools configs t))
       (filter (\<lambda>t. scan_refusal_reason t = None \<and> \<not> skip db t) ts))"
proof (induction ts arbitrary: db db' jobs)
  case (Cons t ts)
  let ?first = "if skip db t then (db, []) else queue_full_scan now configs t db"
  obtain db1 js where 1: "?first = (db1, js)" by fastforce
  obtain db2 rest where 2: "queue_targets now configs skip ts db1 = (db2, rest)" by fastforce
  have q: "queued db db1 js" "map (\<lambda>j. (sj_target_id j, sj_tool j)) js =
      (if scan_refusal_reason t = None \<and> \<not> skip db t then map (\<lambda>tool. (t_id t, tool)) (full_scan_tools configs t) else [])"
    using full_scan_queued [of now configs t db db1 js] 1 Cons.prems(2) by (auto split: if_splits)
  have "set ts \<subseteq> set (d_targets db1)" using q(1) Cons.prems(2) by (auto simp: queued_def)
  note rest = Cons.IH [OF 2 this Cons.prems(3)]
  have "skip db1 t' = skip db t'" for t' by (rule Cons.prems(3) [OF q(1)])
  moreover have "db' = db2" "jobs = js @ rest" using Cons.prems(1) 1 2 by (simp_all split: if_splits)
  ultimately show ?case using q(2) rest queued_append [OF q(1), of db2 rest] by simp
qed simp

text \<open>The start-up catch-up is exact.  It queues one scan per scanner the workspace has enabled
  for exactly the targets that are active, not deleted and have no completed scan of their default
  branch; each job names a running scan row of its own, created for it on the target's default
  branch, and nothing else in the database changes.\<close>

theorem baseline_catch_up_exact:
  assumes "queue_missing_baselines now configs db = (db', jobs)" and "distinct (map s_id (d_scans db))"
  shows "set (map (\<lambda>j. (sj_target_id j, sj_tool j)) jobs) =
      {(t_id t, tool) | t tool. t \<in> set (d_targets db) \<and> t_deactivated_at t = None \<and> t_deleted_at t = None \<and>
         \<not> has_completed_scan db t \<and> tool \<in> set (full_scan_tools configs t)} \<and>
    (\<exists>rows. db' = db\<lparr>d_scans := d_scans db @ rows\<rparr> \<and> jobs = map job_of rows \<and>
       distinct (map s_id (d_scans db @ rows)) \<and>
       (\<forall>s\<in>set rows. s_status s = ''running'' \<and>
          (\<exists>t\<in>set (d_targets db). s_branch s = t_default_branch t \<and> s_target_id s = t_id t)))"
proof -
  have "set (scannable_targets (d_targets db)) \<subseteq> set (d_targets db)" by (auto simp: scannable_targets_def)
  from targets_queued [OF assms(1) [unfolded queue_missing_baselines_def] this queued_completed]
  have q: "queued db db' jobs" "map (\<lambda>j. (sj_target_id j, sj_tool j)) jobs =
     concat (map (\<lambda>t. map (\<lambda>tool. (t_id t, tool)) (full_scan_tools configs t))
       (filter (\<lambda>t. scan_refusal_reason t = None \<and> \<not> has_completed_scan db t) (scannable_targets (d_targets db))))"
    by auto
  have "set (map (\<lambda>j. (sj_target_id j, sj_tool j)) jobs) =
      {(t_id t, tool) | t tool. t \<in> set (d_targets db) \<and> t_deactivated_at t = None \<and> t_deleted_at t = None \<and>
         \<not> has_completed_scan db t \<and> tool \<in> set (full_scan_tools configs t)}"
    unfolding q(2) by (auto simp: scannable_targets_def refusal_iff)
  with q(1) assms(2) show ?thesis unfolding queued_def fresh_rows_def by blast
qed

theorem baseline_catch_up_exact_witness:
  "length (snd (queue_missing_baselines 9 [] (empty_db\<lparr>d_targets := [example_target]\<rparr>))) > 0"
proof -
  let ?db = "empty_db\<lparr>d_targets := [example_target]\<rparr>"
  obtain db' jobs where r: "queue_missing_baselines 9 [] ?db = (db', jobs)" by fastforce
  have "distinct (map s_id (d_scans ?db))" by (simp add: empty_db_def)
  from baseline_catch_up_exact [OF r this]
  have "set (map (\<lambda>j. (sj_target_id j, sj_tool j)) jobs) =
      {(t_id t, tool) | t tool. t \<in> set (d_targets ?db) \<and> t_deactivated_at t = None \<and> t_deleted_at t = None \<and>
         \<not> has_completed_scan ?db t \<and> tool \<in> set (full_scan_tools [] t)}" by simp
  moreover have "''trivy'' \<in> set (full_scan_tools [] example_target)" by (simp add: full_scan_tools_def default_tools)
  moreover have "t_deactivated_at example_target = None" "t_deleted_at example_target = None"
    "\<not> has_completed_scan ?db example_target"
    by (simp_all add: example_target_def has_completed_scan_def empty_db_def)
  ultimately have "(1, ''trivy'') \<in> set (map (\<lambda>j. (sj_target_id j, sj_tool j)) jobs)"
    by (force simp: example_target_def)
  then show ?thesis using r by (cases jobs) auto
qed

end
