(* ===== verification/Enrichment.thy ===== *)
theory Enrichment
  imports Ingestion Json
begin

text \<open>
  \<open>core/osv.py\<close>, \<open>core/nvd.py\<close> and \<open>core/cve_enrichment.py\<close>: the cached facts of a CVE.  The two HTTP
  calls are parameters, each giving the JSON of a successful answer, or None for a failed request,
  another status or a body that is no JSON, and so is the database, which takes the commit of a row or not.  A
  function that raises on a malformed answer is None.
\<close>

subsection \<open>OSV\<close>

record osv_vuln =
  ov_id :: json
  ov_fixed_versions :: "fix_entry list"
  ov_references :: "json list"

definition range_events :: "json \<Rightarrow> json option" where
  "range_events r = do {
     specific \<leftarrow> jget_or ''database_specific'' (JObj []) r;
     extracted \<leftarrow> jget ''extracted_events'' JNull specific;
     if is_true extracted then Some extracted else jget ''events'' (JArr []) r }"

text \<open>The entry of one event, if it names a fix.  A field is held as its readers take it, by \<open>str\<close> (\<open>show\<close> for what
  is no text) and an empty value like a missing one; only the readers that compare a package's name would tell a number
  from its text.\<close>

definition field_text :: "(json \<Rightarrow> string) \<Rightarrow> json \<Rightarrow> string option" where
  "field_text show j = (case j of JStr s \<Rightarrow> Some s | _ \<Rightarrow> if is_true j then Some (show j) else None)"

definition event_fix :: "(json \<Rightarrow> string) \<Rightarrow> json \<Rightarrow> json \<Rightarrow> fix_entry list option" where
  "event_fix show package event = do {
     fixed \<leftarrow> jget ''fixed'' JNull event;
     if \<not> is_true fixed then Some []
     else do {
       name \<leftarrow> jget ''name'' JNull package;
       ecosystem \<leftarrow> jget ''ecosystem'' JNull package;
       Some [\<lparr>fx_package = field_text show name, fx_ecosystem = field_text show ecosystem,
         fx_fixed = field_text show fixed\<rparr>] } }"

definition affected_fixes :: "(json \<Rightarrow> string) \<Rightarrow> json \<Rightarrow> fix_entry list option" where
  "affected_fixes show affected = do {
     package \<leftarrow> jget_or ''package'' (JObj []) affected;
     rs \<leftarrow> jget ''ranges'' (JArr []) affected;
     ranges \<leftarrow> elements rs;
     per_range \<leftarrow> collect (\<lambda>r. do {
       es \<leftarrow> range_events r;
       events \<leftarrow> elements es;
       map_option concat (collect (event_fix show package) events) }) ranges;
     Some (concat per_range) }"

definition urls :: "json \<Rightarrow> json list option" where
  "urls j = do {
     rs \<leftarrow> jget ''references'' (JArr []) j;
     refs \<leftarrow> elements rs;
     us \<leftarrow> collect (jget ''url'' JNull) refs;
     Some (take 10 (filter is_true us)) }"

text \<open>The inner None is the function's own None.\<close>

definition fetch_osv_vuln :: "(json \<Rightarrow> string) \<Rightarrow> json option \<Rightarrow> osv_vuln option option" where
  "fetch_osv_vuln show response =
     (case response of
        None \<Rightarrow> Some None
      | Some payload \<Rightarrow> do {
          osv_id \<leftarrow> jget ''id'' JNull payload;
          if \<not> is_true osv_id then Some None
          else do {
            as \<leftarrow> jget ''affected'' (JArr []) payload;
            affected \<leftarrow> elements as;
            fixes \<leftarrow> collect (affected_fixes show) affected;
            references \<leftarrow> urls payload;
            Some (Some \<lparr>ov_id = osv_id, ov_fixed_versions = concat fixes, ov_references = references\<rparr>) } })"

subsection \<open>NVD\<close>

record nvd_cve =
  nv_description :: json
  nv_cvss_score :: json
  nv_cvss_vector :: json
  nv_cwe_ids :: "string list"
  nv_references :: "json list"

fun english :: "json list \<Rightarrow> json option" where
  "english [] = Some (JStr [])"
| "english (d # ds) = do {
     lang \<leftarrow> jget ''lang'' JNull d;
     if lang = JStr ''en'' then jget ''value'' (JStr []) d else english ds }"

fun newest_cvss :: "json \<Rightarrow> string list \<Rightarrow> (json \<times> json) option" where
  "newest_cvss metrics [] = Some (JNull, JNull)"
| "newest_cvss metrics (key # keys) = do {
     entries \<leftarrow> jget key JNull metrics;
     if \<not> is_true entries then newest_cvss metrics keys
     else do {
       first \<leftarrow> item_at 0 entries;
       cvss_data \<leftarrow> jget ''cvssData'' (JObj []) first;
       score \<leftarrow> jget ''baseScore'' JNull cvss_data;
       vector \<leftarrow> jget ''vectorString'' JNull cvss_data;
       Some (score, vector) } }"

definition weakness_ids :: "json \<Rightarrow> string list option" where
  "weakness_ids weakness = do {
     ds \<leftarrow> jget ''description'' (JArr []) weakness;
     descriptions \<leftarrow> elements ds;
     values \<leftarrow> collect (\<lambda>d. Option.bind (jget ''value'' (JStr []) d) as_str) descriptions;
     Some (filter (starts_with ''CWE-'') values) }"

definition fetch_nvd_cve :: "json option \<Rightarrow> nvd_cve option option" where
  "fetch_nvd_cve response =
     (case response of
        None \<Rightarrow> Some None
      | Some payload \<Rightarrow> do {
          vulnerabilities \<leftarrow> jget_or ''vulnerabilities'' (JArr []) payload;
          if \<not> is_true vulnerabilities then Some None
          else do {
            first \<leftarrow> item_at 0 vulnerabilities;
            cve \<leftarrow> jget ''cve'' (JObj []) first;
            ds \<leftarrow> jget ''descriptions'' (JArr []) cve;
            descriptions \<leftarrow> elements ds;
            description \<leftarrow> english descriptions;
            metrics \<leftarrow> jget ''metrics'' (JObj []) cve;
            (score, vector) \<leftarrow> newest_cvss metrics [''cvssMetricV31'', ''cvssMetricV30'', ''cvssMetricV2''];
            ws \<leftarrow> jget ''weaknesses'' (JArr []) cve;
            weaknesses \<leftarrow> elements ws;
            cwes \<leftarrow> collect weakness_ids weaknesses;
            references \<leftarrow> urls cve;
            Some (Some \<lparr>nv_description = description, nv_cvss_score = score, nv_cvss_vector = vector,
              nv_cwe_ids = sort_str (remdups (concat cwes)), nv_references = references\<rparr>) } })"

subsection \<open>The cache\<close>

definition apply_cvss_decomposition :: "cve_enrichment \<Rightarrow> bool \<times> cve_enrichment" where
  "apply_cvss_decomposition row =
     (let d = parse_cvss_vector (ce_cvss_vector row);
          row' = row\<lparr>ce_cvss_version := version d, ce_cvss_attack_vector := attack_vector d,
            ce_cvss_attack_complexity := attack_complexity d,
            ce_cvss_privileges_required := privileges_required d,
            ce_cvss_user_interaction := user_interaction d\<rparr>
      in if is_unknown d \<or> row' = row then (False, row) else (True, row'))"

text \<open>The vector as the column holds it; a value that is neither text nor empty makes the parser
  raise.\<close>

definition vector_column :: "json \<Rightarrow> string option option" where
  "vector_column j = (if \<not> is_true j then Some None else map_option Some (as_str j))"

definition bare_row :: "string \<Rightarrow> string option \<Rightarrow> osv_vuln option \<Rightarrow> cve_enrichment" where
  "bare_row cve_id vector osv =
     \<lparr>ce_cve_id = cve_id, ce_cvss_vector = vector, ce_cvss_version = None, ce_cvss_attack_vector = None,
      ce_cvss_attack_complexity = None, ce_cvss_privileges_required = None, ce_cvss_user_interaction = None,
      ce_fixed_versions = (case osv of
         None \<Rightarrow> NoText
       | Some v \<Rightarrow> if ov_fixed_versions v \<noteq> [] then Entries (ov_fixed_versions v) else NoText),
      ce_osv_found = (osv \<noteq> None)\<rparr>"

definition enrichment_row :: "string \<Rightarrow> nvd_cve option \<Rightarrow> osv_vuln option \<Rightarrow> cve_enrichment option" where
  "enrichment_row cve_id nvd osv =
     (case nvd of
        None \<Rightarrow> Some (bare_row cve_id None osv)
      | Some n \<Rightarrow> do {
          vector \<leftarrow> vector_column (nv_cvss_vector n);
          Some (snd (apply_cvss_decomposition (bare_row cve_id vector osv))) })"

text \<open>The whole row as it is written.  The table of the model keeps the columns that scoring and remediation read; the
  others are for a finding's page.  A list that is empty is a column without text.\<close>

record cve_details = cve_enrichment +
  cd_nvd_found :: bool
  cd_nvd_description :: json
  cd_cvss_score :: json
  cd_cwe_ids :: "string list"
  cd_nvd_references :: "json list"
  cd_osv_id :: json
  cd_osv_references :: "json list"
  cd_fetched_at :: timestamp

definition details_row :: "timestamp \<Rightarrow> nvd_cve option \<Rightarrow> osv_vuln option \<Rightarrow> cve_enrichment \<Rightarrow> cve_details" where
  "details_row now nvd osv row = cve_enrichment.extend row (cve_details.fields (nvd \<noteq> None)
     (case nvd of None \<Rightarrow> JNull | Some n \<Rightarrow> py_or (nv_description n) JNull)
     (case nvd of None \<Rightarrow> JNull | Some n \<Rightarrow> nv_cvss_score n)
     (case nvd of None \<Rightarrow> [] | Some n \<Rightarrow> nv_cwe_ids n)
     (case nvd of None \<Rightarrow> [] | Some n \<Rightarrow> nv_references n)
     (case osv of None \<Rightarrow> JNull | Some v \<Rightarrow> ov_id v)
     (case osv of None \<Rightarrow> [] | Some v \<Rightarrow> ov_references v) now)"

text \<open>\<open>cs_commit\<close> is whether the database takes a new row: it may not for a value that is not of its column's type,
  for a CVE another worker has cached meanwhile (the column is unique), or for any fault of its own; \<open>cs_backfill\<close> the
  same for a row that is read and completed.\<close>

record cve_sources =
  cs_nvd :: "string \<Rightarrow> json option"
  cs_osv :: "string \<Rightarrow> json option"
  cs_show :: "json \<Rightarrow> string"
  cs_commit :: "cve_enrichment list \<Rightarrow> cve_details \<Rightarrow> bool"
  cs_backfill :: "cve_enrichment list \<Rightarrow> cve_enrichment \<Rightarrow> bool"
  cs_now :: timestamp

datatype lookup = Looked cve_enrichment "cve_enrichment list" | LookupRaised | CommitFailed

definition new_row :: "cve_sources \<Rightarrow> string \<Rightarrow> (cve_enrichment \<times> cve_details) option" where
  "new_row w cve_id = do {
     nvd \<leftarrow> fetch_nvd_cve (cs_nvd w cve_id);
     osv \<leftarrow> fetch_osv_vuln (cs_show w) (cs_osv w cve_id);
     row \<leftarrow> enrichment_row cve_id nvd osv;
     Some (row, details_row (cs_now w) nvd osv row) }"

definition get_cve_enrichment :: "cve_sources \<Rightarrow> string \<Rightarrow> cve_enrichment list \<Rightarrow> lookup" where
  "get_cve_enrichment w cve_id rows =
     (case List.find (\<lambda>r. ce_cve_id r = cve_id) rows of
        Some existing \<Rightarrow>
          (let (changed, row) = apply_cvss_decomposition existing in
           if \<not> changed then Looked row rows
           else if cs_backfill w rows row then Looked row (map (\<lambda>r. if r = existing then row else r) rows)
           else CommitFailed)
      | None \<Rightarrow>
          (case new_row w cve_id of
             None \<Rightarrow> LookupRaised
           | Some (row, details) \<Rightarrow> if cs_commit w rows details then Looked row (rows @ [row]) else CommitFailed))"

definition MAX_ENRICHMENT_LOOKUPS_PER_RUN :: nat where "MAX_ENRICHMENT_LOOKUPS_PER_RUN = 25"

text \<open>A lookup that raises is logged and passed over.  After a failed commit every later lookup raises at its first
  statement, so nothing more is looked up; the last component says that the session was lost.\<close>

fun warm_each :: "cve_sources \<Rightarrow> string list \<Rightarrow> cve_enrichment list \<Rightarrow> nat \<Rightarrow> nat \<times> cve_enrichment list \<times> bool" where
  "warm_each w [] rows fetched = (fetched, rows, False)"
| "warm_each w (cve # cves) rows fetched =
     (case get_cve_enrichment w cve rows of
        LookupRaised \<Rightarrow> warm_each w cves rows fetched
      | Looked _ rows' \<Rightarrow> warm_each w cves rows' (fetched + 1)
      | CommitFailed \<Rightarrow> (fetched, rows, True))"

definition warm_cve_enrichment ::
  "cve_sources \<Rightarrow> string list \<Rightarrow> cve_enrichment list \<Rightarrow> nat \<times> cve_enrichment list \<times> bool" where
  "warm_cve_enrichment w cve_ids rows =
     (let missing = filter (\<lambda>c. c \<notin> ce_cve_id ` set rows) cve_ids in
      warm_each w (take MAX_ENRICHMENT_LOOKUPS_PER_RUN missing) rows 0)"

end
