(* ===== verification/EnrichmentProps.thy ===== *)
theory EnrichmentProps
  imports Enrichment ScanClaims ScoreProps
begin

text \<open>What the cache writes is what scoring can read, so a scan never fails on it.\<close>

declare bind_is_Some [simp]

subsection \<open>The type of a cached row\<close>

definition stored_metrics :: "cve_enrichment \<Rightarrow> cvss_decomposition" where
  "stored_metrics r = \<lparr>version = ce_cvss_version r, attack_vector = ce_cvss_attack_vector r,
     attack_complexity = ce_cvss_attack_complexity r, privileges_required = ce_cvss_privileges_required r,
     user_interaction = ce_cvss_user_interaction r\<rparr>"

text \<open>Every stored metric is a value of its table, and every stored fix names a version.\<close>

definition names_version :: "fix_entry \<Rightarrow> bool" where
  "names_version e \<longleftrightarrow> (case fx_fixed e of None \<Rightarrow> False | Some v \<Rightarrow> v \<noteq> [])"

definition row_ok :: "cve_enrichment \<Rightarrow> bool" where
  "row_ok r \<longleftrightarrow> well_formed (stored_metrics r) \<and>
     (case ce_fixed_versions r of NoText \<Rightarrow> True | Unparseable \<Rightarrow> False
      | Entries es \<Rightarrow> es \<noteq> [] \<and> list_all names_version es)"

lemma apply_metrics:
  "stored_metrics (snd (apply_cvss_decomposition r)) \<in> {stored_metrics r, parse_cvss_vector (ce_cvss_vector r)}"
  by (simp add: apply_cvss_decomposition_def stored_metrics_def Let_def)

lemma apply_keeps [simp]:
  "ce_fixed_versions (snd (apply_cvss_decomposition r)) = ce_fixed_versions r"
  "ce_cve_id (snd (apply_cvss_decomposition r)) = ce_cve_id r"
  "ce_cvss_vector (snd (apply_cvss_decomposition r)) = ce_cvss_vector r"
  by (simp_all add: apply_cvss_decomposition_def Let_def)

lemma apply_ok: "row_ok r \<Longrightarrow> row_ok (snd (apply_cvss_decomposition r))"
  using apply_metrics [of r] parse_well_formed [of "ce_cvss_vector r"] by (auto simp: row_ok_def)

text \<open>\<open>str\<close> of a value that is true is not the empty text.\<close>

definition shows_something :: "(json \<Rightarrow> string) \<Rightarrow> bool" where
  "shows_something show \<longleftrightarrow> (\<forall>j. show j \<noteq> [])"

lemma field_text_true: "is_true j \<Longrightarrow> shows_something show \<Longrightarrow> \<exists>v. field_text show j = Some v \<and> v \<noteq> []"
  by (cases j) (simp_all add: field_text_def shows_something_def is_true_def)

lemma event_fix_ok: "event_fix show package event = Some es \<Longrightarrow> shows_something show \<Longrightarrow> list_all names_version es"
  using field_text_true by (fastforce simp: event_fix_def names_version_def split: if_splits)

lemma collect_ok: "collect f xs = Some yss \<Longrightarrow> (\<And>x ys. f x = Some ys \<Longrightarrow> list_all P ys) \<Longrightarrow> list_all P (concat yss)"
  by (induction xs arbitrary: yss) (auto split: option.splits)

lemma affected_ok:
  assumes "affected_fixes show affected = Some es" and "shows_something show"
  shows "list_all names_version es"
proof -
  from assms(1) obtain package ranges per where
    p: "collect (\<lambda>r. do {
       es \<leftarrow> range_events r;
       events \<leftarrow> elements es;
       map_option concat (collect (event_fix show package) events) }) ranges = Some per" "es = concat per"
    by (auto simp: affected_fixes_def)
  show ?thesis unfolding p(2)
    by (rule collect_ok [OF p(1)]) (use assms(2) in \<open>auto intro: collect_ok event_fix_ok\<close>)
qed

lemma fetch_osv_ok:
  assumes "fetch_osv_vuln show response = Some (Some ov)" and "shows_something show"
  shows "list_all names_version (ov_fixed_versions ov)"
proof -
  from assms(1) obtain affected fs where "collect (affected_fixes show) affected = Some fs" "ov_fixed_versions ov = concat fs"
    by (auto simp: fetch_osv_vuln_def split: option.splits if_splits)
  then show ?thesis using collect_ok affected_ok assms(2) by metis
qed

lemma empty_metrics: "well_formed \<lparr>version = v, attack_vector = None, attack_complexity = None,
    privileges_required = None, user_interaction = None\<rparr>"
  by (simp add: well_formed_def METRICS_def)

lemma bare_row_ok:
  "(\<And>ov. osv = Some ov \<Longrightarrow> list_all names_version (ov_fixed_versions ov)) \<Longrightarrow> row_ok (bare_row cve vector osv)"
  by (cases osv) (auto simp: row_ok_def bare_row_def stored_metrics_def empty_metrics)

lemma enrichment_row_ok:
  assumes "enrichment_row cve nvd osv = Some row" and "\<And>ov. osv = Some ov \<Longrightarrow> list_all names_version (ov_fixed_versions ov)"
  shows "row_ok row \<and> ce_cve_id row = cve"
proof (cases nvd)
  case None
  with assms bare_row_ok show ?thesis by (auto simp: enrichment_row_def bare_row_def)
next
  case (Some n)
  with assms apply_ok [OF bare_row_ok [of osv]] show ?thesis by (auto simp: enrichment_row_def bare_row_def)
qed

subsection \<open>The cache keeps the type\<close>

definition cve_cache_ok :: "cve_enrichment list \<Rightarrow> bool" where
  "cve_cache_ok rows \<longleftrightarrow> list_all row_ok rows \<and> distinct (map ce_cve_id rows)"

lemma new_row_ok:
  assumes "new_row w cve = Some (row, details)"
  shows "ce_cve_id row = cve \<and> well_formed (stored_metrics row) \<and> (shows_something (cs_show w) \<longrightarrow> row_ok row)"
proof -
  from assms obtain nvd osv where r: "fetch_osv_vuln (cs_show w) (cs_osv w cve) = Some osv" "enrichment_row cve nvd osv = Some row"
    by (auto simp: new_row_def)
  have "ce_cve_id row = cve \<and> well_formed (stored_metrics row)"
  proof (cases nvd)
    case None
    with r(2) show ?thesis by (auto simp: enrichment_row_def bare_row_def stored_metrics_def empty_metrics)
  next
    case (Some n)
    with r(2) obtain vector where row: "row = snd (apply_cvss_decomposition (bare_row cve vector osv))"
      by (auto simp: enrichment_row_def)
    have "well_formed (stored_metrics (bare_row cve vector osv))" by (simp add: bare_row_def stored_metrics_def empty_metrics)
    with row apply_metrics [of "bare_row cve vector osv"] parse_well_formed show ?thesis by (auto simp: bare_row_def)
  qed
  then show ?thesis using enrichment_row_ok [OF r(2)] fetch_osv_ok [of "cs_show w"] r(1) by blast
qed

text \<open>What one lookup does to the table, for a property of rows that the decomposition keeps.\<close>

lemma lookup_rows:
  assumes "get_cve_enrichment w cve rows = Looked row rows'" and "list_all P rows" and "distinct (map ce_cve_id rows)"
    and new: "\<And>r d. new_row w cve = Some (r, d) \<Longrightarrow> P r" and keep: "\<And>r. P r \<Longrightarrow> P (snd (apply_cvss_decomposition r))"
  shows "list_all P rows' \<and> distinct (map ce_cve_id rows') \<and>
    set (map ce_cve_id rows') = insert cve (set (map ce_cve_id rows)) \<and> length rows' \<le> length rows + 1"
proof (cases "List.find (\<lambda>r. ce_cve_id r = cve) rows")
  case None
  then have fresh: "cve \<notin> ce_cve_id ` set rows" by (auto simp: find_None_iff)
  from None assms(1) obtain d where d: "new_row w cve = Some (row, d)" "rows' = rows @ [row]"
    by (auto simp: get_cve_enrichment_def split: option.splits if_splits)
  with fresh assms(2,3) new new_row_ok [OF d(1)] show ?thesis by auto
next
  case (Some e)
  have e: "e \<in> set rows" "ce_cve_id e = cve" using find_mem [OF Some] by auto
  let ?a = "snd (apply_cvss_decomposition e)"
  let ?rows = "map (\<lambda>r. if r = e then ?a else r) rows"
  have "map ce_cve_id ?rows = map ce_cve_id rows" "list_all P ?rows" "length ?rows = length rows"
    using assms(2) keep by (auto simp: list_all_iff)
  moreover have "rows' = rows \<or> rows' = ?rows"
    using assms(1) Some by (auto simp: get_cve_enrichment_def split_beta Let_def split: if_splits)
  ultimately have r: "map ce_cve_id rows' = map ce_cve_id rows" "list_all P rows'" "length rows' = length rows"
    using assms(2) by auto
  have "cve \<in> set (map ce_cve_id rows)" using e by auto
  with r assms(3) show ?thesis unfolding r(1) by (simp add: insert_absorb)
qed

lemma warm_each_rows:
  assumes "list_all P rows" and "distinct (map ce_cve_id rows)" and "warm_each w cves rows n = (n', rows', lost)"
    and new: "\<And>cve r d. new_row w cve = Some (r, d) \<Longrightarrow> P r" and keep: "\<And>r. P r \<Longrightarrow> P (snd (apply_cvss_decomposition r))"
  shows "list_all P rows' \<and> distinct (map ce_cve_id rows') \<and> n \<le> n' \<and> n' \<le> n + length cves \<and>
    length rows' \<le> length rows + length cves \<and> set (map ce_cve_id rows) \<subseteq> set (map ce_cve_id rows') \<and>
    set (map ce_cve_id rows') \<subseteq> set (map ce_cve_id rows) \<union> set cves"
  using assms(1-3)
proof (induction cves arbitrary: rows n)
  case (Cons cve cves)
  show ?case
  proof (cases "get_cve_enrichment w cve rows")
    case (Looked row rows1)
    have l: "list_all P rows1" "distinct (map ce_cve_id rows1)"
      "set (map ce_cve_id rows1) = insert cve (set (map ce_cve_id rows))" "length rows1 \<le> length rows + 1"
      using lookup_rows [OF Looked Cons.prems(1,2)] new keep by blast+
    have "warm_each w cves rows1 (n + 1) = (n', rows', lost)" using Cons.prems(3) Looked by simp
    from Cons.IH [OF l(1,2) this] l(3,4) show ?thesis by auto
  next
    case LookupRaised
    then have "warm_each w cves rows n = (n', rows', lost)" using Cons.prems(3) by simp
    from Cons.IH [OF Cons.prems(1,2) this] show ?thesis by auto
  next
    case CommitFailed
    with Cons.prems show ?thesis by auto
  qed
qed auto

text \<open>C29: The cache is typed.  Whatever NVD and OSV answer and whichever commits the database takes, warming the cache keeps every
  stored CVSS metric in its table, every stored fix naming a version (as \<open>str\<close>, which is never empty for a value
  that is true, and is how it is read), and one row per CVE; it looks up and adds at most 25 CVEs, only those it was given,
  and forgets none.\<close>

theorem warm_keeps_cache_typed:
  assumes "warm_cve_enrichment w cve_ids rows = (n, rows', lost)" and "cve_cache_ok rows" and "shows_something (cs_show w)"
  shows "cve_cache_ok rows' \<and> n \<le> 25 \<and> length rows' \<le> length rows + 25 \<and> ce_cve_id ` set rows \<subseteq> ce_cve_id ` set rows' \<and>
    ce_cve_id ` set rows' \<subseteq> ce_cve_id ` set rows \<union> set cve_ids"
proof -
  let ?missing = "filter (\<lambda>c. c \<notin> ce_cve_id ` set rows) cve_ids"
  let ?budget = "take MAX_ENRICHMENT_LOOKUPS_PER_RUN ?missing"
  have l: "length ?budget \<le> 25" "set ?budget \<subseteq> set cve_ids"
    using set_take_subset [of MAX_ENRICHMENT_LOOKUPS_PER_RUN ?missing] by (auto simp: MAX_ENRICHMENT_LOOKUPS_PER_RUN_def)
  have w: "warm_each w ?budget rows 0 = (n, rows', lost)" using assms(1) by (simp add: warm_cve_enrichment_def)
  have "list_all row_ok rows" "distinct (map ce_cve_id rows)" using assms(2) by (simp_all add: cve_cache_ok_def)
  from warm_each_rows [OF this w] new_row_ok apply_ok assms(3) have
    "list_all row_ok rows' \<and> distinct (map ce_cve_id rows') \<and> n \<le> length ?budget \<and>
     length rows' \<le> length rows + length ?budget \<and> ce_cve_id ` set rows \<subseteq> ce_cve_id ` set rows' \<and>
     ce_cve_id ` set rows' \<subseteq> ce_cve_id ` set rows \<union> set ?budget"
    by (metis (no_types, lifting) add_0 set_map)
  with l show ?thesis by (auto simp: cve_cache_ok_def)
qed

subsection \<open>When a scan fails on its own cache\<close>

definition metrics_typed :: "cve_enrichment list \<Rightarrow> bool" where
  "metrics_typed rows \<longleftrightarrow> list_all (\<lambda>r. well_formed (stored_metrics r)) rows \<and> distinct (map ce_cve_id rows)"

lemma apply_metrics_ok: "well_formed (stored_metrics r) \<Longrightarrow> well_formed (stored_metrics (snd (apply_cvss_decomposition r)))"
  using apply_metrics [of r] parse_well_formed [of "ce_cvss_vector r"] by auto

lemma warm_metrics_typed:
  assumes "metrics_typed rows"
  shows "metrics_typed (fst (snd (warm_cve_enrichment w cve_ids rows)))"
proof -
  let ?budget = "take MAX_ENRICHMENT_LOOKUPS_PER_RUN (filter (\<lambda>c. c \<notin> ce_cve_id ` set rows) cve_ids)"
  obtain n rows' lost where w: "warm_each w ?budget rows 0 = (n, rows', lost)" by (metis prod_cases3)
  have "list_all (\<lambda>r. well_formed (stored_metrics r)) rows" "distinct (map ce_cve_id rows)"
    using assms by (simp_all add: metrics_typed_def)
  from warm_each_rows [OF this w] new_row_ok apply_metrics_ok have "metrics_typed rows'"
    unfolding metrics_typed_def by blast
  with w show ?thesis by (simp add: warm_cve_enrichment_def)
qed

lemma warm_each_lost:
  "snd (snd (warm_each w cves rows n)) \<Longrightarrow> (\<exists>rows d. \<not> cs_commit w rows d) \<or> (\<exists>rows r. \<not> cs_backfill w rows r)"
  by (induction w cves rows n rule: warm_each.induct)
    (auto simp: get_cve_enrichment_def split_beta Let_def split: lookup.splits option.splits if_splits)

lemma cvss_for_row: "well_formed (stored_metrics r) \<Longrightarrow> well_formed (cvss_for_enrichment (Some r))"
  by (simp add: cvss_for_enrichment_def stored_metrics_def Let_def parse_well_formed)

definition run_ok :: "ingest_run \<Rightarrow> bool" where
  "run_ok run \<longleftrightarrow> (\<forall>r\<in>ran (ir_enrichments run). well_formed (stored_metrics r))"

lemma score_for_defined:
  assumes "run_ok run"
  shows "\<exists>p. score_for run sev cve epss kev scope = Inr p"
proof -
  let ?e = "if has_cve cve then ir_enrichments run (the cve) else None"
  have "well_formed (cvss_for_enrichment ?e)"
    using assms cvss_for_row unfolding run_ok_def
    by (cases ?e) (auto simp: cvss_for_enrichment_def parse_well_formed ran_def split: if_splits)
  then obtain b where "compute_score_breakdown sev (t_criticality_weight (ir_target run))
      \<lparr>sg_epss_score = epss, sg_kev_listed = kev, sg_cvss = Some (cvss_for_enrichment ?e), sg_cve_id = cve,
       sg_target_label = Some (t_label (ir_target run)), sg_target_environment = t_environment (ir_target run),
       sg_target_owner = t_owner (ir_target run),
       sg_fixability = Some (if has_cve cve then fixability_for_enrichment ?e else UNKNOWN),
       sg_dependency_scope = Some scope\<rparr> (as_overrides (ir_weights run)) = Inr b"
    using score_breakdown_defined by fastforce
  then show ?thesis by (simp only: score_for_def compute_priority_score_def Let_def sum.case) blast
qed

lemma ingest_item_defined:
  assumes "run_ok run"
  shows "\<exists>db' cs'. ingest_item run item (db, cs) = Inr (db', cs') \<and> d_enrichments db' = d_enrichments db"
proof (cases "List.find (same_finding run (item_hash run item)) (d_findings db)")
  case (Some f)
  obtain p where "score_for run (f_severity f) (f_cve_id f) (f_epss_score f) (f_kev_listed f) ''unknown'' = Inr p"
    using score_for_defined [OF assms] by blast
  with Some show ?thesis
    by (simp add: ingest_item_def Let_def transition_def update_finding_def add_log_def)
next
  case None
  let ?cve = "i_cve_id item"
  obtain p where "score_for run (i_severity item) ?cve (if has_cve ?cve then ir_epss run (the ?cve) else None)
      (has_cve ?cve \<and> the ?cve \<in> set (ir_kev run)) (i_dependency_scope item) = Inr p"
    using score_for_defined [OF assms] by blast
  with None show ?thesis by (simp add: ingest_item_def Let_def)
qed

lemma ingest_items_defined:
  assumes "run_ok run"
  shows "\<exists>db' cs'. ingest_items run items (db, cs) = Inr (db', cs') \<and> d_enrichments db' = d_enrichments db"
proof (induction items arbitrary: db cs)
  case (Cons item items)
  obtain db1 cs1 where "ingest_item run item (db, cs) = Inr (db1, cs1)" "d_enrichments db1 = d_enrichments db"
    using ingest_item_defined [OF assms] by blast
  with Cons [of db1 cs1] show ?case by auto
qed simp

lemma fold_enrichments:
  "(\<And>x db. d_enrichments (g x db) = d_enrichments db) \<Longrightarrow> d_enrichments (fold g xs db) = d_enrichments db"
  by (induction xs arbitrary: db) auto

lemma enrichments_frame [simp]:
  "d_enrichments (fold (suppress_created run) cs db) = d_enrichments db"
  "d_enrichments (mitigate_stale run seen db) = d_enrichments db"
  by (auto simp: mitigate_stale_def suppress_created_def apply_auto_suppression_def transition_def Let_def
      update_finding_def add_log_def intro!: fold_enrichments split: option.splits)

lemma enrichment_map_rows: "enrichment_map db cves c = Some r \<Longrightarrow> r \<in> set (d_enrichments db)"
  by (auto simp: enrichment_map_def dest!: map_of_SomeD split: if_splits)

text \<open>C17: A scan fails on its cache only when a commit fails.  Let the metrics of the cache be typed and the cache be warmed by
  the code's own \<open>warm_cve_enrichment\<close>.  Then \<open>ingest_findings\<close> returns, whatever the scan reported and NVD and OSV
  answered, with typed metrics again and the cache as the warm-up left it, unless the commit of a cache row failed: the
  warm-up passes over that error and leaves the session unusable, and the ingestion raises.  The \<open>KeyError\<close> of a metric
  outside its table cannot happen.\<close>

theorem scan_fails_only_on_a_lost_session:
  assumes "metrics_typed (d_enrichments db)"
    and "iw_warm w = (\<lambda>cves rows. fst (snd (warm_cve_enrichment sources cves rows)))"
    and "iw_lost w = (\<lambda>cves rows. snd (snd (warm_cve_enrichment sources cves rows)))"
  shows "case ingest_findings w t sid tool branch parsed health db of
      Inl e \<Rightarrow> e = SessionLost \<and> batch_cve_ids parsed \<noteq> [] \<and>
        snd (snd (warm_cve_enrichment sources (batch_cve_ids parsed) (d_enrichments db))) \<and>
        ((\<exists>rows d. \<not> cs_commit sources rows d) \<or> (\<exists>rows r. \<not> cs_backfill sources rows r))
    | Inr (db', alerts) \<Rightarrow> metrics_typed (d_enrichments db') \<and>
        (batch_cve_ids parsed = [] \<and> d_enrichments db' = d_enrichments db \<or>
         (\<exists>n. warm_cve_enrichment sources (batch_cve_ids parsed) (d_enrichments db) = (n, d_enrichments db', False)))"
proof (cases "batch_cve_ids parsed \<noteq> [] \<and> iw_lost w (batch_cve_ids parsed) (d_enrichments db)")
  case True
  then have "ingest_findings w t sid tool branch parsed health db = Inl SessionLost"
    by (simp add: ingest_findings_def split_beta)
  with True assms(3) warm_each_lost [of sources _ "d_enrichments db" 0] show ?thesis
    by (auto simp: warm_cve_enrichment_def Let_def)
next
  case False
  obtain run db1 where r: "start_run w t sid tool branch parsed db = (run, db1)" by fastforce
  have rows: "d_enrichments db1 = (if batch_cve_ids parsed \<noteq> []
      then fst (snd (warm_cve_enrichment sources (batch_cve_ids parsed) (d_enrichments db))) else d_enrichments db)"
    using r assms(2) by (auto simp: start_run_def Let_def split: if_splits)
  then have c1: "metrics_typed (d_enrichments db1)" using assms(1) warm_metrics_typed by simp
  have e: "ir_enrichments run = enrichment_map db1 (batch_cve_ids parsed)"
    using r by (auto simp: start_run_def Let_def)
  have "run_ok run"
    using c1 enrichment_map_rows unfolding run_ok_def ran_def e metrics_typed_def by (auto simp: list_all_iff)
  from ingest_items_defined [OF this] obtain db2 cs where
    2: "ingest_items run parsed (db1, []) = Inr (db2, cs)" "d_enrichments db2 = d_enrichments db1" by blast
  obtain n ws lost where warm: "warm_cve_enrichment sources (batch_cve_ids parsed) (d_enrichments db) = (n, ws, lost)"
    by (metis prod_cases3)
  obtain db' alerts where "ingest_findings w t sid tool branch parsed health db = Inr (db', alerts)"
    "d_enrichments db' = d_enrichments db1"
    using False r 2 by (simp add: ingest_findings_def Let_def)
  with False c1 rows warm assms(3) show ?thesis by (cases "batch_cve_ids parsed = []") auto
qed

text \<open>Both sides: an outage of NVD and OSV does not stop a scan; a second worker that has cached the CVE first does.\<close>

definition silent_sources :: cve_sources where
  "silent_sources = \<lparr>cs_nvd = (\<lambda>_. None), cs_osv = (\<lambda>_. None), cs_show = (\<lambda>_. ''x''), cs_commit = (\<lambda>_ _. True),
     cs_backfill = (\<lambda>_ _. True), cs_now = 0\<rparr>"

definition warmed_by :: "cve_sources \<Rightarrow> ingest_world" where
  "warmed_by sources = example_world\<lparr>
     iw_warm := (\<lambda>cves rows. fst (snd (warm_cve_enrichment sources cves rows))),
     iw_lost := (\<lambda>cves rows. snd (snd (warm_cve_enrichment sources cves rows)))\<rparr>"

lemma raced_cache_fails_the_scan:
  "ingest_findings (warmed_by (silent_sources\<lparr>cs_commit := \<lambda>_ _. False\<rparr>)) example_target 3 ''trivy'' ''main''
     [example_item\<lparr>i_cve_id := Some ''CVE-1''\<rparr>] None empty_db = Inl SessionLost"
  by code_simp

theorem scan_fails_only_on_a_lost_session_witness:
  "\<exists>db' alerts. ingest_findings (warmed_by silent_sources) example_target 3 ''trivy'' ''main''
     [example_item\<lparr>i_cve_id := Some ''CVE-1''\<rparr>] None empty_db = Inr (db', alerts) \<and> metrics_typed (d_enrichments db')"
proof -
  let ?r = "ingest_findings (warmed_by silent_sources) example_target 3 ''trivy'' ''main''
     [example_item\<lparr>i_cve_id := Some ''CVE-1''\<rparr>] None empty_db"
  have "metrics_typed (d_enrichments empty_db)" by (simp add: metrics_typed_def empty_db_def)
  moreover have "iw_warm (warmed_by silent_sources) = (\<lambda>cves rows. fst (snd (warm_cve_enrichment silent_sources cves rows)))"
    "iw_lost (warmed_by silent_sources) = (\<lambda>cves rows. snd (snd (warm_cve_enrichment silent_sources cves rows)))"
    by (simp_all add: warmed_by_def)
  moreover have "\<not> cs_commit silent_sources rows d \<longleftrightarrow> False" "\<not> cs_backfill silent_sources rows r \<longleftrightarrow> False" for rows d r
    by (simp_all add: silent_sources_def)
  ultimately show ?thesis
    using scan_fails_only_on_a_lost_session [of empty_db "warmed_by silent_sources" silent_sources
        "[example_item\<lparr>i_cve_id := Some ''CVE-1''\<rparr>]" example_target 3 "''trivy''" "''main''" None]
    by (auto split: sum.splits)
qed

theorem warm_keeps_cache_typed_witness:
  "cve_cache_ok (fst (snd (warm_cve_enrichment (silent_sources\<lparr>cs_osv := \<lambda>_. Some (JObj [(''id'', JStr ''X'')])\<rparr>) [''CVE-1''] [])))"
proof -
  let ?w = "silent_sources\<lparr>cs_osv := \<lambda>_. Some (JObj [(''id'', JStr ''X'')])\<rparr>"
  obtain n rows lost where w: "warm_cve_enrichment ?w [''CVE-1''] [] = (n, rows, lost)" by (metis prod_cases3)
  from warm_keeps_cache_typed [OF w] w show ?thesis
    by (simp add: cve_cache_ok_def shows_something_def silent_sources_def)
qed

end
