(* ===== verification/Regex.thy ===== *)
theory Regex
  imports Prelude
begin

text \<open>
  The part of Python's \<open>re\<close> the backend's patterns use: single characters, greedy repetition of a
  class, alternatives, line starts and word boundaries.  A match is searched by backtracking, so the
  matches at a position come in the order the engine tries them and the first is the one it returns.
\<close>

subsection \<open>Matching\<close>

definition LINE_FEED :: char where "LINE_FEED = CHR 0x0A"

datatype re =
    Eps
  | Chr "char \<Rightarrow> bool"
  | Many "char \<Rightarrow> bool"
  | Seq re re
  | Alt re re
  | LineStart
  | Boundary

definition alnum_char :: "char \<Rightarrow> bool" where
  "alnum_char c \<longleftrightarrow> is_digit c \<or> char_upper c \<noteq> c \<or> char_lower c \<noteq> c"

definition word_char :: "char option \<Rightarrow> bool" where
  "word_char c = (case c of None \<Rightarrow> False | Some c \<Rightarrow> alnum_char c \<or> c = CHR ''_'')"

definition next_char :: "string \<Rightarrow> char option" where
  "next_char s = (case s of [] \<Rightarrow> None | c # _ \<Rightarrow> Some c)"

text \<open>The character before the rest, after \<open>m\<close> has been read.\<close>

definition after :: "char option \<Rightarrow> string \<Rightarrow> char option" where
  "after prev m = (if m = [] then prev else Some (last m))"

text \<open>The texts \<open>r\<close> matches at the start of \<open>s\<close>, longest repetition and leftmost alternative first.\<close>

fun matches :: "re \<Rightarrow> char option \<Rightarrow> string \<Rightarrow> string list" where
  "matches Eps prev s = [[]]"
| "matches (Chr p) prev s = (case s of [] \<Rightarrow> [] | c # _ \<Rightarrow> if p c then [[c]] else [])"
| "matches (Many p) prev s = map (\<lambda>n. take n s) (rev [0..<Suc (length (takeWhile p s))])"
| "matches (Seq r q) prev s =
     concat (map (\<lambda>m. map ((@) m) (matches q (after prev m) (drop (length m) s))) (matches r prev s))"
| "matches (Alt r q) prev s = matches r prev s @ matches q prev s"
| "matches LineStart prev s = (if prev = None \<or> prev = Some LINE_FEED then [[]] else [])"
| "matches Boundary prev s = (if word_char prev \<noteq> word_char (next_char s) then [[]] else [])"

definition maybe :: "re \<Rightarrow> re" where "maybe r = Alt r Eps"

definition exactly :: "string \<Rightarrow> re" where
  "exactly w = foldr (\<lambda>c. Seq (Chr ((=) c))) w Eps"

definition ignoring_case :: "string \<Rightarrow> re" where
  "ignoring_case w = foldr (\<lambda>c. Seq (Chr (\<lambda>d. char_lower d = char_lower c))) w Eps"

fun one_of :: "re list \<Rightarrow> re" where
  "one_of [] = Eps"
| "one_of [r] = r"
| "one_of (r # rs) = Alt r (one_of rs)"

text \<open>A pattern that is a sequence of groups, with the text of each; an optional group that did not
  take part has the empty text.\<close>

fun groups :: "re list \<Rightarrow> char option \<Rightarrow> string \<Rightarrow> string list list" where
  "groups [] prev s = [[]]"
| "groups (r # rs) prev s =
     concat (map (\<lambda>m. map ((#) m) (groups rs (after prev m) (drop (length m) s))) (matches r prev s))"

text \<open>\<open>finditer\<close>, for patterns that do not match the empty text: the non-overlapping matches from left to
  right.  The counter is the rest of the match before.\<close>

fun finditer :: "re list \<Rightarrow> nat \<Rightarrow> char option \<Rightarrow> string \<Rightarrow> string list list" where
  "finditer rs k prev [] = []"
| "finditer rs (Suc k) prev (c # cs) = finditer rs k (Some c) cs"
| "finditer rs 0 prev (c # cs) =
     (case groups rs prev (c # cs) of
        [] \<Rightarrow> finditer rs 0 (Some c) cs
      | g # _ \<Rightarrow> g # finditer rs (length (concat g) - 1) (Some c) cs)"

definition find_all :: "re list \<Rightarrow> string \<Rightarrow> string list list" where
  "find_all rs s = finditer rs 0 None s"

definition search :: "re \<Rightarrow> string \<Rightarrow> string option" where
  "search r s = (case find_all [r] s of [] \<Rightarrow> None | g # _ \<Rightarrow> Some (concat g))"

subsection \<open>What a match says\<close>

text \<open>The language of an expression, with the character before and the text after the match.\<close>

inductive lang :: "re \<Rightarrow> char option \<Rightarrow> string \<Rightarrow> string \<Rightarrow> bool" where
  eps: "lang Eps prev [] rest"
| chr: "p c \<Longrightarrow> lang (Chr p) prev [c] rest"
| many: "list_all p m \<Longrightarrow> lang (Many p) prev m rest"
| seq: "lang r prev m (n @ rest) \<Longrightarrow> lang q (after prev m) n rest \<Longrightarrow> lang (Seq r q) prev (m @ n) rest"
| altl: "lang r prev m rest \<Longrightarrow> lang (Alt r q) prev m rest"
| altr: "lang q prev m rest \<Longrightarrow> lang (Alt r q) prev m rest"
| line: "prev = None \<or> prev = Some LINE_FEED \<Longrightarrow> lang LineStart prev [] rest"
| bound: "word_char prev \<noteq> word_char (next_char rest) \<Longrightarrow> lang Boundary prev [] rest"

inductive_simps lang_simps [simp]:
  "lang Eps prev m rest" "lang (Chr p) prev m rest" "lang (Many p) prev m rest" "lang (Seq r q) prev m rest"
  "lang (Alt r q) prev m rest" "lang LineStart prev m rest" "lang Boundary prev m rest"

lemma takeWhile_take: "n \<le> length (takeWhile p s) \<longleftrightarrow> n \<le> length s \<and> list_all p (take n s)"
proof (induction s arbitrary: n)
  case (Cons c s)
  then show ?case by (cases n) auto
qed simp

text \<open>The matcher is sound and complete: it returns exactly the splits of the text whose first part is in the
  language.\<close>

lemma matches_iff: "m \<in> set (matches r prev s) \<longleftrightarrow> (\<exists>rest. s = m @ rest \<and> lang r prev m rest)"
proof (induction r arbitrary: prev s m)
  case (Many p)
  have "m \<in> set (matches (Many p) prev s) \<longleftrightarrow> (\<exists>n. n \<le> length (takeWhile p s) \<and> m = take n s)"
    by (simp add: image_iff less_Suc_eq_le Bex_def del: upt_Suc)
  also have "\<dots> \<longleftrightarrow> (\<exists>n\<le>length s. m = take n s \<and> list_all p m)" by (auto simp: takeWhile_take)
  also have "\<dots> \<longleftrightarrow> (\<exists>rest. s = m @ rest \<and> list_all p m)"
  proof
    assume "\<exists>n\<le>length s. m = take n s \<and> list_all p m"
    then show "\<exists>rest. s = m @ rest \<and> list_all p m" by (metis append_take_drop_id)
  next
    assume "\<exists>rest. s = m @ rest \<and> list_all p m"
    then obtain rest where "s = m @ rest" "list_all p m" by blast
    then show "\<exists>n\<le>length s. m = take n s \<and> list_all p m" by (intro exI [of _ "length m"]) simp
  qed
  finally show ?case by simp
next
  case (Seq r q)
  have split: "(\<exists>x. s = a @ x \<and> L x) \<and> (\<exists>y. drop (length a) s = b @ y \<and> M y) \<longleftrightarrow>
      (\<exists>y. s = a @ b @ y \<and> L (b @ y) \<and> M y)" for a b L M
    by auto
  have "m \<in> set (matches (Seq r q) prev s) \<longleftrightarrow>
      (\<exists>a b. m = a @ b \<and> a \<in> set (matches r prev s) \<and> b \<in> set (matches q (after prev a) (drop (length a) s)))"
    by auto
  also have "\<dots> \<longleftrightarrow> (\<exists>a b. m = a @ b \<and>
      (\<exists>y. s = a @ b @ y \<and> lang r prev a (b @ y) \<and> lang q (after prev a) b y))"
    unfolding Seq split ..
  also have "\<dots> \<longleftrightarrow> (\<exists>rest. s = m @ rest \<and> lang (Seq r q) prev m rest)"
    by (simp del: append_assoc add: append_assoc [symmetric]) blast
  finally show ?case .
next
  case (Chr p)
  then show ?case by (cases s) auto
qed auto

fun group_lang :: "re list \<Rightarrow> char option \<Rightarrow> string list \<Rightarrow> string \<Rightarrow> bool" where
  "group_lang [] prev g rest \<longleftrightarrow> g = []"
| "group_lang (r # rs) prev [] rest \<longleftrightarrow> False"
| "group_lang (r # rs) prev (m # g) rest \<longleftrightarrow>
     lang r prev m (concat g @ rest) \<and> group_lang rs (after prev m) g rest"

lemma groups_iff: "g \<in> set (groups rs prev s) \<longleftrightarrow> (\<exists>rest. s = concat g @ rest \<and> group_lang rs prev g rest)"
proof (induction rs arbitrary: prev s g)
  case (Cons r rs)
  show ?case
  proof (cases g)
    case Nil
    then show ?thesis by auto
  next
    case (Cons m h)
    have "g \<in> set (groups (r # rs) prev s) \<longleftrightarrow>
        m \<in> set (matches r prev s) \<and> h \<in> set (groups rs (after prev m) (drop (length m) s))"
      using Cons by auto
    also have "\<dots> \<longleftrightarrow> (\<exists>rest. s = concat g @ rest \<and> group_lang (r # rs) prev g rest)"
      unfolding matches_iff Cons.IH using Cons by auto
    finally show ?thesis .
  qed
qed auto

lemma after_append [simp]: "after (after prev a) b = after prev (a @ b)"
  by (simp add: after_def)

lemma after_Nil [simp]: "after prev [] = prev"
  by (simp add: after_def)

lemma after_Cons: "after (Some c) a = after prev (c # a)"
  by (simp add: after_def)

text \<open>Every match found is a match where it was found.\<close>

lemma finditer_sound:
  "g \<in> set (finditer rs k prev s) \<Longrightarrow>
   \<exists>a b. s = a @ concat g @ b \<and> group_lang rs (after prev a) g b"
proof (induction rs k prev s rule: finditer.induct)
  case (2 rs k prev c cs)
  then obtain a b where "cs = a @ concat g @ b" "group_lang rs (after (Some c) a) g b" by auto
  then show ?case by (intro exI [of _ "c # a"] exI [of _ b]) (simp add: after_Cons [of _ _ prev])
next
  case (3 rs prev c cs)
  show ?case
  proof (cases "groups rs prev (c # cs)")
    case Nil
    with 3 obtain a b where "cs = a @ concat g @ b" "group_lang rs (after (Some c) a) g b" by auto
    then show ?thesis by (intro exI [of _ "c # a"] exI [of _ b]) (simp add: after_Cons [of _ _ prev])
  next
    case (Cons h hs)
    consider "g = h" | "g \<in> set (finditer rs (length (concat h) - 1) (Some c) cs)" using 3(3) Cons by auto
    then show ?thesis
    proof cases
      case 1
      then have "g \<in> set (groups rs prev (c # cs))" using Cons by simp
      then show ?thesis unfolding groups_iff by (auto intro: exI [of _ "[]"])
    next
      case 2
      with 3(2) Cons obtain a b where "cs = a @ concat g @ b" "group_lang rs (after (Some c) a) g b" by auto
      then show ?thesis by (intro exI [of _ "c # a"] exI [of _ b]) (simp add: after_Cons [of _ _ prev])
    qed
  qed
qed simp

lemma find_all_sound: "g \<in> set (find_all rs s) \<Longrightarrow> \<exists>a b. s = a @ concat g @ b \<and> group_lang rs (after None a) g b"
  unfolding find_all_def by (rule finditer_sound)

text \<open>A search that finds nothing means there is no match anywhere.\<close>

lemma finditer_none:
  "finditer rs 0 prev s = [] \<Longrightarrow> s = a @ c # b \<Longrightarrow> groups rs (after prev a) (c # b) = []"
proof (induction a arbitrary: prev s)
  case Nil
  then show ?case by (auto split: list.splits)
next
  case (Cons d a)
  then have "finditer rs 0 (Some d) (a @ c # b) = []" by (auto split: list.splits)
  with Cons.IH [of "Some d" "a @ c # b"] show ?case by (simp add: after_Cons [of _ _ prev])
qed

lemma search_none: "search r s = None \<longleftrightarrow> find_all [r] s = []"
  by (simp add: search_def split: list.splits)

lemma lang_exactly [simp]: "lang (exactly w) prev m rest \<longleftrightarrow> m = w"
  by (induction w arbitrary: prev m) (auto simp: exactly_def)

lemma lang_ignoring_case [simp]: "lang (ignoring_case w) prev m rest \<longleftrightarrow> str_lower m = str_lower w"
proof (induction w arbitrary: prev m)
  case (Cons c w)
  note IH = Cons.IH [unfolded ignoring_case_def str_lower_def]
  have "lang (ignoring_case (c # w)) prev m rest \<longleftrightarrow>
      (\<exists>d n. m = d # n \<and> char_lower d = char_lower c \<and> map char_lower n = map char_lower w)"
    by (simp add: ignoring_case_def IH) (metis append_Cons append_Nil)
  then show ?case by (cases m) (auto simp: str_lower_def)
qed (auto simp: ignoring_case_def str_lower_def)

lemma lang_maybe [simp]: "lang (maybe r) prev m rest \<longleftrightarrow> lang r prev m rest \<or> m = []"
  by (auto simp: maybe_def)

end
