(* ===== verification/Remediation.thy ===== *)
theory Remediation
  imports ScoringConfig
begin

text \<open>
  \<open>core/remediation.py\<close>: the open findings of a target grouped into the package upgrades that close
  them, and the counts that say how much is known.  A dictionary is the list of its items in insertion order.  \<open>casefold\<close> is
  lower-casing, which it equals on ASCII.
\<close>

subsection \<open>Order and sorting\<close>

definition parse_version :: "string \<Rightarrow> version_chunk list" where
  "parse_version raw =
     map (\<lambda>chunk. if str_isdigit chunk then Num (str_nat chunk) else Txt chunk)
       (split_on CHR ''.'' (map (\<lambda>c. if c = CHR ''-'' then CHR ''.'' else c) raw))"

text \<open>\<open>min\<close> and \<open>max\<close> with a key return the first extreme element, and \<open>sort\<close> is stable.\<close>

fun least_by :: "('a \<Rightarrow> 'a \<Rightarrow> bool) \<Rightarrow> 'a \<Rightarrow> 'a list \<Rightarrow> 'a" where
  "least_by lt best [] = best"
| "least_by lt best (x # xs) = least_by lt (if lt x best then x else best) xs"

definition version_less :: "string \<Rightarrow> string \<Rightarrow> bool" where
  "version_less v w \<longleftrightarrow> chunks_less (parse_version v) (parse_version w)"

definition lowest_version :: "string list \<Rightarrow> string" where
  "lowest_version vs = (case vs of [] \<Rightarrow> [] | v # rest \<Rightarrow> least_by version_less v rest)"

definition highest_version :: "string list \<Rightarrow> string" where
  "highest_version vs = (case vs of [] \<Rightarrow> [] | v # rest \<Rightarrow> least_by (\<lambda>a b. version_less b a) v rest)"

fun insert_by :: "('a \<Rightarrow> 'a \<Rightarrow> bool) \<Rightarrow> 'a \<Rightarrow> 'a list \<Rightarrow> 'a list" where
  "insert_by lt x [] = [x]"
| "insert_by lt x (y # ys) = (if lt y x then y # insert_by lt x ys else x # y # ys)"

definition sort_by :: "('a \<Rightarrow> 'a \<Rightarrow> bool) \<Rightarrow> 'a list \<Rightarrow> 'a list" where
  "sort_by lt xs = foldr (insert_by lt) xs []"

subsection \<open>The fixes of an advisory\<close>

definition given :: "string option \<Rightarrow> bool" where "given s \<longleftrightarrow> s \<noteq> None \<and> s \<noteq> Some []"

text \<open>\<open>out[key].append(value)\<close> on a \<open>defaultdict(list)\<close>.\<close>

fun push :: "'k \<Rightarrow> 'v \<Rightarrow> ('k \<times> 'v list) list \<Rightarrow> ('k \<times> 'v list) list" where
  "push k v [] = [(k, [v])]"
| "push k v ((k', vs) # d) = (if k' = k then (k', vs @ [v]) # d else (k', vs) # push k v d)"

fun fixes_loop :: "string option \<Rightarrow> fix_entry list \<Rightarrow> (string \<times> string list) list \<Rightarrow> (string \<times> string list) list" where
  "fixes_loop fallback [] out = out"
| "fixes_loop fallback (e # es) out =
     (let package = (if given (fx_package e) then fx_package e else fallback) in
      if given package \<and> given (fx_fixed e)
      then fixes_loop fallback es (push (the package) (the (fx_fixed e)) out)
      else fixes_loop fallback es out)"

definition fixes_by_package :: "cve_enrichment \<Rightarrow> string option \<Rightarrow> (string \<times> string list) list" where
  "fixes_by_package row fallback =
     (case ce_fixed_versions row of Entries es \<Rightarrow> fixes_loop fallback es [] | _ \<Rightarrow> [])"

definition open_cve_findings :: "db \<Rightarrow> row_id \<Rightarrow> finding list" where
  "open_cve_findings db target_id =
     filter (\<lambda>f. f_target_id f = target_id \<and> f_state f = OPEN \<and> f_cve_id f \<noteq> None) (d_findings db)"

definition enrichment_by_cve :: "db \<Rightarrow> finding list \<Rightarrow> string \<rightharpoonup> cve_enrichment" where
  "enrichment_by_cve db findings =
     (if findings = [] then Map.empty
      else map_of (rev (map (\<lambda>r. (ce_cve_id r, r))
        (filter (\<lambda>r. Some (ce_cve_id r) \<in> f_cve_id ` set findings) (d_enrichments db)))))"

text \<open>The row of a finding: \<open>by_cve.get(finding.cve_id)\<close>.\<close>

definition cve_row :: "(string \<rightharpoonup> cve_enrichment) \<Rightarrow> finding \<Rightarrow> cve_enrichment option" where
  "cve_row by_cve f = Option.bind (f_cve_id f) by_cve"

definition fixes_for :: "(string \<rightharpoonup> cve_enrichment) \<Rightarrow> finding \<Rightarrow> (string \<times> string list) list" where
  "fixes_for by_cve f = (case cve_row by_cve f of None \<Rightarrow> [] | Some r \<Rightarrow> fixes_by_package r (f_package_name f))"

record coverage =
  cv_cve_findings :: nat
  cv_distinct_cves :: nat
  cv_enriched_findings :: nat
  cv_findings_with_advisory :: nat
  cv_findings_with_fix_data :: nat

definition enrichment_coverage :: "finding list \<Rightarrow> (string \<rightharpoonup> cve_enrichment) \<Rightarrow> coverage" where
  "enrichment_coverage findings by_cve =
     \<lparr>cv_cve_findings = length findings,
      cv_distinct_cves = length (remdups (map f_cve_id findings)),
      cv_enriched_findings = length (filter (\<lambda>f. cve_row by_cve f \<noteq> None) findings),
      cv_findings_with_advisory =
        length (filter (\<lambda>f. case cve_row by_cve f of None \<Rightarrow> False | Some r \<Rightarrow> ce_osv_found r) findings),
      cv_findings_with_fix_data = length (filter (\<lambda>f. fixes_for by_cve f \<noteq> []) findings)\<rparr>"

subsection \<open>Grouping by package\<close>

record package_bucket =
  bk_fixed :: "(finding \<times> string list) list"
  bk_unfixed :: "finding list"
  bk_ecosystem :: "string option"

definition empty_bucket :: package_bucket where
  "empty_bucket = \<lparr>bk_fixed = [], bk_unfixed = [], bk_ecosystem = None\<rparr>"

definition entries_of :: "cve_enrichment \<Rightarrow> fix_entry list" where
  "entries_of row = (case ce_fixed_versions row of Entries es \<Rightarrow> es | _ \<Rightarrow> [])"

definition ecosystem_for :: "cve_enrichment \<Rightarrow> string \<Rightarrow> string option" where
  "ecosystem_for row package =
     (case List.find (\<lambda>e. fx_package e = Some package) (entries_of row) of None \<Rightarrow> None | Some e \<Rightarrow> fx_ecosystem e)"

definition advisory_mentions :: "cve_enrichment \<Rightarrow> string \<Rightarrow> bool" where
  "advisory_mentions row package = list_ex (\<lambda>e. fx_package e = Some package) (entries_of row)"

definition bucket_of :: "(string \<times> package_bucket) list \<Rightarrow> string \<Rightarrow> package_bucket" where
  "bucket_of buckets package = (case map_of buckets package of None \<Rightarrow> empty_bucket | Some b \<Rightarrow> b)"

definition add_fixed :: "cve_enrichment \<Rightarrow> finding \<Rightarrow> string \<times> string list \<Rightarrow> (string \<times> package_bucket) list \<Rightarrow> (string \<times> package_bucket) list" where
  "add_fixed row f = (\<lambda>(package, versions) buckets.
     (let b = bucket_of buckets package in
      AList.update package
        (b\<lparr>bk_fixed := bk_fixed b @ [(f, versions)],
           bk_ecosystem := (if bk_ecosystem b = None then ecosystem_for row package else bk_ecosystem b)\<rparr>) buckets))"

definition first_pass :: "(string \<rightharpoonup> cve_enrichment) \<Rightarrow> finding list \<Rightarrow> (string \<times> package_bucket) list" where
  "first_pass by_cve findings =
     fold (\<lambda>f buckets. case cve_row by_cve f of
         None \<Rightarrow> buckets
       | Some row \<Rightarrow> fold (add_fixed row f) (fixes_by_package row (f_package_name f)) buckets) findings []"

definition left_behind :: "(string \<rightharpoonup> cve_enrichment) \<Rightarrow> string \<Rightarrow> finding \<Rightarrow> bool" where
  "left_behind by_cve package f =
     (case cve_row by_cve f of
        None \<Rightarrow> False
      | Some row \<Rightarrow> fixes_by_package row (f_package_name f) = [] \<and> ce_osv_found row \<and> advisory_mentions row package)"

definition second_pass :: "(string \<rightharpoonup> cve_enrichment) \<Rightarrow> finding list \<Rightarrow> (string \<times> package_bucket) list \<Rightarrow> (string \<times> package_bucket) list" where
  "second_pass by_cve findings buckets =
     map (\<lambda>(package, b). (package, b\<lparr>bk_unfixed := bk_unfixed b @ filter (left_behind by_cve package) findings\<rparr>)) buckets"

record cve_ref =
  fr_cve_id :: "string option"
  fr_finding_id :: row_id
  fr_severity :: string

record fix_ref = cve_ref +
  fr_title :: string

record upgrade =
  up_package :: string
  up_ecosystem :: "string option"
  up_to :: string
  up_fixes :: "fix_ref list"
  up_unresolved :: "cve_ref list"
  up_highest_severity :: "string option"

definition fixes_count :: "upgrade \<Rightarrow> nat" where "fixes_count p = length (up_fixes p)"

definition SEVERITY_RANK :: "(string \<times> nat) list" where
  "SEVERITY_RANK = [(''Critical'', 5), (''High'', 4), (''Medium'', 3), (''Low'', 2), (''Informational'', 1)]"

definition severity_name_rank :: "string option \<Rightarrow> nat" where
  "severity_name_rank s =
     (case map_of SEVERITY_RANK (case s of None \<Rightarrow> [] | Some n \<Rightarrow> n) of None \<Rightarrow> 0 | Some n \<Rightarrow> n)"

definition highest_fix_severity :: "fix_ref list \<Rightarrow> string option" where
  "highest_fix_severity fixes =
     (case map fr_severity fixes of
        [] \<Rightarrow> None
      | s # ss \<Rightarrow> Some (least_by (\<lambda>a b. severity_name_rank (Some b) < severity_name_rank (Some a)) s ss))"

definition fix_ref_of :: "finding \<Rightarrow> fix_ref" where
  "fix_ref_of f = \<lparr>fr_cve_id = f_cve_id f, fr_finding_id = f_id f, fr_severity = severity_value (f_severity f), fr_title = f_title f\<rparr>"

definition cve_ref_of :: "finding \<Rightarrow> cve_ref" where
  "cve_ref_of f = \<lparr>fr_cve_id = f_cve_id f, fr_finding_id = f_id f, fr_severity = severity_value (f_severity f)\<rparr>"

definition upgrade_of :: "string \<times> package_bucket \<Rightarrow> upgrade" where
  "upgrade_of = (\<lambda>(package, b).
     (let fixes = map (fix_ref_of \<circ> fst) (bk_fixed b) in
      \<lparr>up_package = package, up_ecosystem = bk_ecosystem b,
       up_to = highest_version (map (lowest_version \<circ> snd) (bk_fixed b)),
       up_fixes = fixes, up_unresolved = map cve_ref_of (bk_unfixed b),
       up_highest_severity = highest_fix_severity fixes\<rparr>))"

definition upgrade_less :: "upgrade \<Rightarrow> upgrade \<Rightarrow> bool" where
  "upgrade_less p q \<longleftrightarrow>
     fixes_count q < fixes_count p \<or>
     fixes_count p = fixes_count q \<and>
       (severity_name_rank (up_highest_severity q) < severity_name_rank (up_highest_severity p) \<or>
        severity_name_rank (up_highest_severity p) = severity_name_rank (up_highest_severity q) \<and>
          str_less (str_lower (up_package p)) (str_lower (up_package q)))"

definition group_by_package :: "finding list \<Rightarrow> (string \<rightharpoonup> cve_enrichment) \<Rightarrow> upgrade list" where
  "group_by_package findings by_cve =
     (if findings = [] then []
      else sort_by upgrade_less (map upgrade_of (filter (\<lambda>(_, b). bk_fixed b \<noteq> [])
             (second_pass by_cve findings (first_pass by_cve findings)))))"

definition group_remediations :: "db \<Rightarrow> row_id \<Rightarrow> upgrade list" where
  "group_remediations db target_id =
     (let findings = open_cve_findings db target_id
      in group_by_package findings (enrichment_by_cve db findings))"

subsection \<open>Pages\<close>

definition page_of :: "int \<Rightarrow> int \<Rightarrow> 'a list \<Rightarrow> 'a list" where
  "page_of page page_size rows =
     (let p = max page 1;
          size = max (min page_size 500) 1
      in take (nat size) (drop (nat ((p - 1) * size)) rows))"

record 'p plan_page =
  pp_plans :: "'p list"
  pp_coverage :: coverage
  pp_total :: nat

definition remediation_plan :: "db \<Rightarrow> row_id \<Rightarrow> int \<Rightarrow> int \<Rightarrow> upgrade plan_page" where
  "remediation_plan db target_id page page_size =
     (let findings = open_cve_findings db target_id;
          by_cve = enrichment_by_cve db findings;
          plans = group_by_package findings by_cve
      in \<lparr>pp_plans = page_of page page_size plans, pp_coverage = enrichment_coverage findings by_cve,
          pp_total = length plans\<rparr>)"

record target_upgrade =
  tu_upgrade :: upgrade
  tu_target_id :: row_id
  tu_target_name :: string

definition target_upgrade_less :: "target_upgrade \<Rightarrow> target_upgrade \<Rightarrow> bool" where
  "target_upgrade_less a b \<longleftrightarrow>
     upgrade_less (tu_upgrade a) (tu_upgrade b) \<or>
     \<not> upgrade_less (tu_upgrade b) (tu_upgrade a) \<and>
       (let x = str_lower (tu_target_name a); y = str_lower (tu_target_name b) in
        str_less x y \<or> x = y \<and> tu_target_id a < tu_target_id b)"

definition workspace_remediation_plan :: "db \<Rightarrow> row_id list \<Rightarrow> int \<Rightarrow> int \<Rightarrow> target_upgrade plan_page" where
  "workspace_remediation_plan db target_ids page page_size =
     (if target_ids = [] then \<lparr>pp_plans = [], pp_coverage = enrichment_coverage [] Map.empty, pp_total = 0\<rparr>
      else (let known = filter (\<lambda>i. get_target db i \<noteq> None) target_ids;
                findings = filter (\<lambda>f. f_target_id f \<in> set known \<and> f_state f = OPEN \<and> f_cve_id f \<noteq> None) (d_findings db);
                by_cve = enrichment_by_cve db findings;
                rows = concat (map (\<lambda>i. map (\<lambda>p. \<lparr>tu_upgrade = p, tu_target_id = i, tu_target_name = t_name (the (get_target db i))\<rparr>)
                         (group_by_package (filter (\<lambda>f. f_target_id f = i) findings) by_cve)) known);
                ordered = sort_by target_upgrade_less rows
            in \<lparr>pp_plans = page_of page page_size ordered, pp_coverage = enrichment_coverage findings by_cve,
                pp_total = length rows\<rparr>))"

end
