(* ===== verification/Autofix.thy ===== *)
theory Autofix
  imports Regex Remediation ToolRegistry Json Diff
begin

text \<open>
  \<open>core/autofix.py\<close> and the endpoint of \<open>api/findings.py\<close> that raises a fix: a recommendation, a patch
  of the file a finding points at, and the calls to GitHub that commit it and open a pull request.
  What the outside answers (a stored credential, GitHub, the AI provider, \<open>json.loads\<close>, \<open>difflib\<close>,
  base64, the clock) is the record \<open>fix_world\<close>; every call that writes is logged.
\<close>

subsection \<open>Text\<close>

text \<open>\<open>s.replace(old, new, 1)\<close> and \<open>s.count(old)\<close>, which counts occurrences that do not overlap.\<close>

fun replace_once :: "string \<Rightarrow> string \<Rightarrow> string \<Rightarrow> string" where
  "replace_once old new [] = (if old = [] then new else [])"
| "replace_once old new (c # cs) =
     (if starts_with old (c # cs) then new @ drop (length old) (c # cs) else c # replace_once old new cs)"

fun count_from :: "nat \<Rightarrow> string \<Rightarrow> string \<Rightarrow> nat" where
  "count_from k old [] = 0"
| "count_from (Suc k) old (c # cs) = count_from k old cs"
| "count_from 0 old (c # cs) =
     (if starts_with old (c # cs) then Suc (count_from (length old - 1) old cs) else count_from 0 old cs)"

definition count_in :: "string \<Rightarrow> string \<Rightarrow> nat" where
  "count_in old s = (if old = [] then length s + 1 else count_from 0 old s)"

definition int_text :: "int \<Rightarrow> string" where
  "int_text i = (if i < 0 then CHR ''-'' # nat_str (nat (- i)) else nat_str (nat i))"

subsection \<open>Suppression comments\<close>

definition SUPPRESSION_COMMENT_PATTERNS :: re where
  "SUPPRESSION_COMMENT_PATTERNS = one_of
     [ignoring_case ''nosemgrep'', Seq (ignoring_case ''nosem'') Boundary, ignoring_case ''noqa'', ignoring_case ''nosec'',
      Seq (ignoring_case ''pylint:'') (Seq (Many is_space) (ignoring_case ''disable'')), ignoring_case ''eslint-disable'',
      ignoring_case ''checkov:skip'', ignoring_case ''tfsec:ignore'', Seq (ignoring_case ''nolint'') Boundary,
      ignoring_case ''gitleaks:allow'', ignoring_case ''trivyignore'']"

definition or_zero :: "int option \<Rightarrow> int" where "or_zero i = (case i of None \<Rightarrow> 0 | Some n \<Rightarrow> n)"

text \<open>\<open>xs[a:b]\<close> for \<open>0 \<le> a\<close>; a negative end counts from the back.\<close>

definition line_slice :: "int \<Rightarrow> int \<Rightarrow> 'a list \<Rightarrow> 'a list" where
  "line_slice a b xs =
     (let e = (if b < 0 then max 0 (int (length xs) + b) else b) in drop (nat a) (take (nat e) xs))"

definition find_suppression_comment :: "string \<Rightarrow> finding \<Rightarrow> string option" where
  "find_suppression_comment new_content f =
     (if or_zero (f_line_start f) = 0 then None
      else (let ls = splitlines new_content;
                start = max 0 (or_zero (f_line_start f) - 1);
                stop = min (int (length ls)) (if or_zero (f_line_end f) \<noteq> 0 then or_zero (f_line_end f) else or_zero (f_line_start f))
            in search SUPPRESSION_COMMENT_PATTERNS (join [LF] (line_slice start stop ls))))"

subsection \<open>Manifest bumpers\<close>

definition blank :: "char \<Rightarrow> bool" where "blank c \<longleftrightarrow> c = CHR '' '' \<or> c = CHR 0x09"

definition fuzzy_pkg_pattern :: "string \<Rightarrow> re" where
  "fuzzy_pkg_pattern pkg =
     foldr (\<lambda>ch. Seq (if ch \<in> set ''-_.'' then Chr (\<lambda>c. c \<in> set ''-_.'') else Chr (\<lambda>c. char_lower c = char_lower ch))) pkg Eps"

definition requirement_pattern :: "string \<Rightarrow> re list" where
  "requirement_pattern package =
     [Seq LineStart (Seq (Many blank) (Seq (fuzzy_pkg_pattern package) (Seq (Many blank)
        (Seq (one_of [exactly ''=='', exactly ''>='', exactly ''~='', exactly ''<='']) (Many blank))))),
      Seq (Chr is_digit) (Many (\<lambda>c. \<not> is_space c \<and> c \<noteq> CHR ''#'' \<and> c \<noteq> CHR '';''))]"

text \<open>A bumper gives the text to replace and its replacement when the package is pinned exactly once.\<close>

definition bump_requirements_txt :: "string \<Rightarrow> string \<Rightarrow> string \<Rightarrow> (string \<times> string) option" where
  "bump_requirements_txt content package new_version =
     (case find_all (requirement_pattern package) content of
        [[g1, g2]] \<Rightarrow> Some (g1 @ g2, g1 @ new_version) | _ \<Rightarrow> None)"

definition QUOTE :: char where "QUOTE = CHR 0x22"

definition package_json_pattern :: "string \<Rightarrow> re list" where
  "package_json_pattern package =
     [Seq (Chr ((=) QUOTE)) (Seq (exactly package) (Seq (Chr ((=) QUOTE)) (Seq (Many is_space) (Seq (Chr ((=) CHR '':''))
        (Seq (Many is_space) (Chr ((=) QUOTE))))))),
      maybe (one_of [exactly ''^'', exactly ''~'', exactly ''>='']),
      Seq (Chr is_digit) (Many (\<lambda>c. c \<noteq> QUOTE)),
      Chr ((=) QUOTE)]"

definition bump_package_json :: "string \<Rightarrow> string \<Rightarrow> string \<Rightarrow> (string \<times> string) option" where
  "bump_package_json content package new_version =
     (case find_all (package_json_pattern package) content of
        [[g1, g2, g3, g4]] \<Rightarrow> Some (g1 @ g2 @ g3 @ g4, g1 @ g2 @ new_version @ g4) | _ \<Rightarrow> None)"

definition go_mod_pattern :: "string \<Rightarrow> re list" where
  "go_mod_pattern package =
     [Seq LineStart (Seq (Many blank) (Seq (maybe (Seq (exactly ''require'') (Seq (Chr blank) (Many blank))))
        (Seq (exactly package) (Seq (Chr blank) (Many blank))))),
      maybe (Chr ((=) CHR ''v'')),
      Seq (Chr is_digit) (Many (\<lambda>c. \<not> is_space c))]"

definition bump_go_mod :: "string \<Rightarrow> string \<Rightarrow> string \<Rightarrow> (string \<times> string) option" where
  "bump_go_mod content package new_version =
     (case find_all (go_mod_pattern package) content of
        [[g1, g2, g3]] \<Rightarrow>
          Some (g1 @ g2 @ g3, g1 @ (if starts_with ''v'' new_version then new_version else CHR ''v'' # new_version))
      | _ \<Rightarrow> None)"

definition MANIFEST_BUMPERS :: "(string \<times> (string \<Rightarrow> string \<Rightarrow> string \<Rightarrow> (string \<times> string) option)) list" where
  "MANIFEST_BUMPERS = [(''requirements.txt'', bump_requirements_txt), (''package.json'', bump_package_json),
     (''go.mod'', bump_go_mod)]"

definition base_name :: "string \<Rightarrow> string" where
  "base_name path = rev (takeWhile (\<lambda>c. c \<noteq> CHR ''/'') (rev path))"

definition bumper_for_path :: "string \<Rightarrow> (string \<Rightarrow> string \<Rightarrow> string \<Rightarrow> (string \<times> string) option) option" where
  "bumper_for_path path = map_of MANIFEST_BUMPERS (base_name path)"

subsection \<open>The world\<close>

datatype fix_error =
    NoInstallation | BranchUnreadable string | BranchRefused string | FileRefused string | PullRefused
  | NoVersionPin string | ManifestUnreadable string | ReadCredentialsUnreadable | WriteCredentialsUnreadable
  | PullFailed string | NoLockfileNamed string | NoLockfileFound string | ToolMissing string
  | ToolTimedOut string | ToolFailed string | BumpIncomplete string

datatype exn = AutofixError fix_error | SecretDecryptionError | OtherError

datatype gh_request =
    GetRef string
  | CreateBranch string json
  | GetContents string string
  | PutContents string string string "json option"
  | OpenPull string string

datatype prompt = Recommend finding | PatchFor finding string

record patch =
  pa_file_path :: string
  pa_old_content :: string
  pa_new_content :: string
  pa_ref :: string
  pa_strategy :: string
  pa_explanation :: string

text \<open>An answer of GitHub is None when the request itself fails, else the status and the JSON of the
  body, None when the body is no JSON.\<close>

type_synonym answer = "(int \<times> json option) option"

record fix_world =
  fw_token :: "target \<Rightarrow> exn option"
  fw_contents :: "target \<Rightarrow> string \<Rightarrow> string \<Rightarrow> answer"
  fw_base64 :: "string \<Rightarrow> string option"
  fw_ai_configured :: bool
  fw_generate :: "prompt \<Rightarrow> string option"
  fw_loads :: "string \<Rightarrow> json option"
  fw_unified_diff :: "patch \<Rightarrow> string"
  fw_installation :: "target \<Rightarrow> exn + bool"
  fw_answer :: "gh_request list \<Rightarrow> gh_request \<Rightarrow> answer"
  fw_time :: "gh_request list \<Rightarrow> int"

subsection \<open>Reading a file\<close>

definition fetch_file :: "fix_world \<Rightarrow> target \<Rightarrow> string \<Rightarrow> string \<Rightarrow> exn + string option" where
  "fetch_file w target ref path =
     (case fw_token w target of
        Some e \<Rightarrow> Inl e
      | None \<Rightarrow>
          (case fw_contents w target ref path of
             None \<Rightarrow> Inr None
           | Some (status, body) \<Rightarrow>
               if status \<noteq> 200 then Inr None
               else (case body of
                   Some (JObj kvs) \<Rightarrow>
                     if map_of kvs ''encoding'' \<noteq> Some (JStr ''base64'') then Inr None
                     else (case map_of kvs ''content'' of
                         None \<Rightarrow> Inr None
                       | Some (JStr s) \<Rightarrow>
                           (case fw_base64 w s of
                              None \<Rightarrow> Inr None
                            | Some content \<Rightarrow> if map_of kvs ''sha'' = None then Inl OtherError else Inr (Some content))
                       | Some _ \<Rightarrow> Inl OtherError)
                 | _ \<Rightarrow> Inl OtherError)))"

subsection \<open>Recommendation\<close>

definition STATIC_GUIDANCE :: "(string \<times> string) list" where
  "STATIC_GUIDANCE = [
    (''Secrets'',
      ''Rotate the exposed credential immediately (treat it as compromised), remove it from the file '' @
      ''and from git history, and load it at runtime from an environment variable or a secrets manager '' @
      ''instead of committing it to source.''),
    (''IaC'',
      ''Update the flagged resource'' @ [CHR 0x27] @ ''s configuration to the secure setting the rule describes '' @
      ''(least-privilege access, encryption at rest/in transit, or closing the open ingress rule), then '' @
      ''re-run the scan to confirm it clears.''),
    (''License'',
      ''Replace the flagged dependency with one under a compatible license, or obtain a commercial '' @
      ''license/exception for it, before shipping this code.''),
    (''Malicious Package'',
      ''Remove this dependency immediately -- it (or this version of it) has been identified as '' @
      ''malicious, not merely vulnerable. Audit anywhere it was installed for signs of compromise.'')]"

definition location :: "finding \<Rightarrow> string" where
  "location f = f_file_path f @ (if or_zero (f_line_start f) \<noteq> 0 then '':'' @ int_text (or_zero (f_line_start f)) else [])"

definition general_guidance :: "finding \<Rightarrow> string" where
  "general_guidance f =
     (case map_of STATIC_GUIDANCE (tool_category (f_tool f)) of
        Some g \<Rightarrow> g
      | None \<Rightarrow> ''Review '' @ location f @ '' against '' @ f_tool f @ [CHR 0x27] @ ''s rule `'' @ f_rule_id f @
          ''` and apply the fix it describes. Configure an AI provider (Admin > Global Integrations) for a specific '' @
          ''code-level suggestion here.'')"

definition deterministic_recommendation :: "db \<Rightarrow> finding \<Rightarrow> string" where
  "deterministic_recommendation db f =
     (if has_cve (f_cve_id f) then
        (let verdict = fixability_for_finding db f; cve = the (f_cve_id f) in
         if verdict = FIXABLE then
           (case fixed_version_summary (enrichment_of db cve) of
              Some s \<Rightarrow> if s \<noteq> [] then ''Upgrade to '' @ s @ ''. This resolves '' @ cve @ ''.'' else general_guidance f
            | None \<Rightarrow> general_guidance f)
         else if verdict = NO_KNOWN_FIX then
           ''No fixed version has been published for '' @ cve @ '' yet. Track the advisory for a fix, or mitigate (pin '' @
           ''away from the vulnerable code path, add compensating controls) in the meantime.''
         else general_guidance f)
      else general_guidance f)"

definition build_recommendation :: "fix_world \<Rightarrow> db \<Rightarrow> finding \<Rightarrow> string" where
  "build_recommendation w db f =
     (if fw_ai_configured w
      then (case fw_generate w (Recommend f) of Some s \<Rightarrow> s | None \<Rightarrow> deterministic_recommendation db f)
      else deterministic_recommendation db f)"

subsection \<open>Patches\<close>

definition CONTEXT_LINES :: int where "CONTEXT_LINES = 40"
definition MAX_WINDOW_CHARS :: nat where "MAX_WINDOW_CHARS = 6000"

definition file_window :: "string \<Rightarrow> int option \<Rightarrow> string" where
  "file_window content line_start =
     (let ls = splitlines content; n = or_zero line_start in
      if n < 1 \<or> int (length ls) < n then take MAX_WINDOW_CHARS content
      else (let start = nat (max 0 (n - 1 - CONTEXT_LINES)); stop = nat (min (int (length ls)) (n - 1 + CONTEXT_LINES)) in
            take MAX_WINDOW_CHARS
              (join [LF] (map (\<lambda>i. nat_str (i + 1) @ '': '' @ ls ! i) [start..<stop]))))"

text \<open>The text from the first opening to the last closing brace; \<open>fw_loads\<close> is None when it does not parse.\<close>

definition extract_json :: "(string \<Rightarrow> json option) \<Rightarrow> string \<Rightarrow> json option" where
  "extract_json loads s =
     (let opening = length (takeWhile (\<lambda>c. c \<noteq> CHR ''{'') s);
          tail_length = length (takeWhile (\<lambda>c. c \<noteq> CHR ''}'') (rev s))
      in if opening = length s \<or> tail_length = length s \<or> length s - 1 - tail_length \<le> opening then None
         else loads (drop opening (take (length s - tail_length) s)))"

definition branch_of :: "target \<Rightarrow> finding \<Rightarrow> string" where
  "branch_of target f = (if f_branch f \<noteq> [] then f_branch f else t_default_branch target)"

text \<open>The fields of the provider's answer: None when there is nothing to replace, an error when the answer
  is no object.\<close>

definition proposed_edit :: "json \<Rightarrow> exn + (json \<times> json \<times> json) option" where
  "proposed_edit parsed =
     (if \<not> is_true parsed then Inr None
      else (case parsed of
          JObj kvs \<Rightarrow>
            (let field = (\<lambda>k. case map_of kvs k of None \<Rightarrow> JNull | Some v \<Rightarrow> v)
             in if \<not> is_true (field ''old_code'') \<or> field ''new_code'' = JNull then Inr None
                else Inr (Some (field ''old_code'', field ''new_code'', py_or (field ''explanation'') (JStr ''AI-generated fix.''))))
        | _ \<Rightarrow> Inl OtherError))"

text \<open>The edit is applied only when the old code occurs once.  Code that is not text raises, and so does
  the response model on an explanation that is not.\<close>

definition apply_edit :: "string \<Rightarrow> json \<times> json \<times> json \<Rightarrow> exn + (string \<times> string) option" where
  "apply_edit content = (\<lambda>(old_code, new_code, explanation).
     (case old_code of
        JStr old \<Rightarrow>
          if count_in old content \<noteq> 1 then Inr None
          else (case (new_code, explanation) of
              (JStr new, JStr e) \<Rightarrow> Inr (Some (replace_once old new content, e))
            | _ \<Rightarrow> Inl OtherError)
      | _ \<Rightarrow> Inl OtherError))"

definition ai_patch :: "fix_world \<Rightarrow> finding \<Rightarrow> target \<Rightarrow> exn + patch option" where
  "ai_patch w f target =
     (let ref = branch_of target f in
      case fetch_file w target ref (f_file_path f) of
        Inl e \<Rightarrow> Inl e
      | Inr None \<Rightarrow> Inr None
      | Inr (Some content) \<Rightarrow>
          (case fw_generate w (PatchFor f (file_window content (f_line_start f))) of
             None \<Rightarrow> Inr None
           | Some raw \<Rightarrow>
               (case extract_json (fw_loads w) raw of
                  None \<Rightarrow> Inr None
                | Some parsed \<Rightarrow>
                    (case proposed_edit parsed of
                       Inl e \<Rightarrow> Inl e
                     | Inr None \<Rightarrow> Inr None
                     | Inr (Some edit) \<Rightarrow>
                         (case apply_edit content edit of
                            Inl e \<Rightarrow> Inl e
                          | Inr None \<Rightarrow> Inr None
                          | Inr (Some (new_content, explanation)) \<Rightarrow>
                              Inr (Some \<lparr>pa_file_path = f_file_path f, pa_old_content = content,
                                pa_new_content = new_content, pa_ref = ref,
                                pa_strategy = ''ai'', pa_explanation = explanation\<rparr>))))))"

text \<open>The entry with the lowest version, the first of equals; \<open>str\<close> of a missing version is the text None.\<close>

definition entry_version :: "fix_entry \<Rightarrow> string" where
  "entry_version e = (case fx_fixed e of None \<Rightarrow> ''None'' | Some v \<Rightarrow> v)"

definition sca_package_version :: "db \<Rightarrow> finding \<Rightarrow> (string \<times> string) option" where
  "sca_package_version db f =
     (if \<not> has_cve (f_cve_id f) then None
      else (case enrichment_of db (the (f_cve_id f)) of
          None \<Rightarrow> None
        | Some row \<Rightarrow>
            (case entries_of row of
               [] \<Rightarrow> None
             | e # es \<Rightarrow>
                 (let best = least_by (\<lambda>a b. version_less (entry_version a) (entry_version b)) e es in
                  if given (fx_package best) \<and> given (fx_fixed best)
                  then Some (the (fx_package best), the (fx_fixed best)) else None))))"

definition deterministic_sca_patch :: "fix_world \<Rightarrow> db \<Rightarrow> finding \<Rightarrow> target \<Rightarrow> exn + patch option" where
  "deterministic_sca_patch w db f target =
     (case sca_package_version db f of
        None \<Rightarrow> Inr None
      | Some (package, new_version) \<Rightarrow>
          (case bumper_for_path (f_file_path f) of
             None \<Rightarrow> Inr None
           | Some bumper \<Rightarrow>
               (let ref = branch_of target f in
                case fetch_file w target ref (f_file_path f) of
                  Inl e \<Rightarrow> Inl e
                | Inr None \<Rightarrow> Inr None
                | Inr (Some content) \<Rightarrow>
                    (case bumper content package new_version of
                       None \<Rightarrow> Inr None
                     | Some (old_str, new_str) \<Rightarrow>
                         Inr (Some \<lparr>pa_file_path = f_file_path f, pa_old_content = content,
                           pa_new_content = replace_once old_str new_str content, pa_ref = ref,
                           pa_strategy = ''deterministic_sca'',
                           pa_explanation = ''Upgrade '' @ package @ '' to '' @ new_version @ '', resolving '' @ the (f_cve_id f) @ ''.''\<rparr>)))))"

definition build_patch :: "fix_world \<Rightarrow> db \<Rightarrow> finding \<Rightarrow> exn + patch option" where
  "build_patch w db f =
     (case get_target db (f_target_id f) of
        None \<Rightarrow> Inr None
      | Some target \<Rightarrow>
          if fw_ai_configured w
          then (case ai_patch w f target of
                  Inl e \<Rightarrow> Inl e
                | Inr (Some p) \<Rightarrow> Inr (Some p)
                | Inr None \<Rightarrow> deterministic_sca_patch w db f target)
          else deterministic_sca_patch w db f target)"

text \<open>A suggestion: the recommendation, and the diff and the fields of a patch when there is one.\<close>

definition suggest_fix :: "fix_world \<Rightarrow> db \<Rightarrow> finding \<Rightarrow> exn + (string \<times> (string \<times> patch) option)" where
  "suggest_fix w db f =
     (case build_patch w db f of
        Inl e \<Rightarrow> Inl e
      | Inr p \<Rightarrow> Inr (build_recommendation w db f, map_option (\<lambda>p. (fw_unified_diff w p, p)) p))"

end
