(* ===== verification/FixPr.thy ===== *)
theory FixPr
  imports Autofix
begin

text \<open>
  Opening fix pull requests: the calls of \<open>core/autofix.py\<close> that write to GitHub, the endpoint that raises
  a patch, \<open>core/npm_lockfile_autofix.py\<close>, \<open>core/remediation_autofix.py\<close> and \<open>tasks/remediation_tasks.py\<close>.
  The requests sent to GitHub are logged in order, and so are the package managers that are run.
\<close>

subsection \<open>Committing files\<close>

record pull =
  pl_url :: string
  pl_number :: int
  pl_branch :: string

definition accepted :: "int \<Rightarrow> bool" where "accepted status \<longleftrightarrow> status = 200 \<or> status = 201"

definition json_key :: "string \<Rightarrow> json option \<Rightarrow> json option" where
  "json_key k body = (case body of Some (JObj kvs) \<Rightarrow> map_of kvs k | _ \<Rightarrow> None)"

text \<open>The file's present hash: the inner None when GitHub has no such file, the outer None when its answer is
  no object.\<close>

definition existing_sha :: "int \<Rightarrow> json option \<Rightarrow> json option option" where
  "existing_sha status body =
     (if status \<noteq> 200 then Some None
      else (case body of
          Some (JObj kvs) \<Rightarrow>
            Some (case map_of kvs ''sha'' of None \<Rightarrow> None | Some v \<Rightarrow> if is_true v then Some v else None)
        | _ \<Rightarrow> None))"

fun put_files :: "fix_world \<Rightarrow> string \<Rightarrow> (string \<times> string) list \<Rightarrow> gh_request list \<Rightarrow> exn option \<times> gh_request list" where
  "put_files w branch [] sent = (None, sent)"
| "put_files w branch ((path, content) # files) sent =
     (let got = sent @ [GetContents path branch] in
      case fw_answer w sent (GetContents path branch) of
        None \<Rightarrow> (Some OtherError, got)
      | Some (status, body) \<Rightarrow>
          (case existing_sha status body of
             None \<Rightarrow> (Some OtherError, got)
           | Some sha \<Rightarrow>
               (let put = PutContents path content branch sha; put_sent = got @ [put] in
                case fw_answer w got put of
                  None \<Rightarrow> (Some OtherError, put_sent)
                | Some (put_status, _) \<Rightarrow>
                    if accepted put_status then put_files w branch files put_sent
                    else (Some (AutofixError (FileRefused path)), put_sent))))"

text \<open>A pull request GitHub opened but whose answer lacks the link or the number raises.  A link that is no text or a
  number that is no integer, which GitHub does not send, raises here, in the code where the answer is next typed: at
  the endpoint's response model or the row that records it.\<close>

definition pull_of :: "string \<Rightarrow> json option \<Rightarrow> exn + pull" where
  "pull_of branch body =
     (case (json_key ''html_url'' body, json_key ''number'' body) of
        (Some (JStr url), Some (JInt n)) \<Rightarrow> Inr \<lparr>pl_url = url, pl_number = n, pl_branch = branch\<rparr>
      | _ \<Rightarrow> Inl OtherError)"

definition open_pull :: "fix_world \<Rightarrow> string \<Rightarrow> string \<Rightarrow> gh_request list \<Rightarrow> (exn + pull) \<times> gh_request list" where
  "open_pull w ref branch sent =
     (case fw_answer w sent (OpenPull branch ref) of
        None \<Rightarrow> (Inl OtherError, sent @ [OpenPull branch ref])
      | Some (status, body) \<Rightarrow>
          (if accepted status then pull_of branch body else Inl (AutofixError PullRefused), sent @ [OpenPull branch ref]))"

definition create_branch :: "fix_world \<Rightarrow> string \<Rightarrow> string \<Rightarrow> gh_request list \<Rightarrow> exn option \<times> gh_request list" where
  "create_branch w ref branch sent =
     (let ref_sent = sent @ [GetRef ref] in
      case fw_answer w sent (GetRef ref) of
        None \<Rightarrow> (Some OtherError, ref_sent)
      | Some (status, body) \<Rightarrow>
          if status \<noteq> 200 then (Some (AutofixError (BranchUnreadable ref)), ref_sent)
          else (case json_key ''sha'' (json_key ''object'' body) of
              None \<Rightarrow> (Some OtherError, ref_sent)
            | Some sha \<Rightarrow>
                (let sent' = ref_sent @ [CreateBranch branch sha] in
                 case fw_answer w ref_sent (CreateBranch branch sha) of
                   None \<Rightarrow> (Some OtherError, sent')
                 | Some (status, _) \<Rightarrow>
                     (if accepted status then None else Some (AutofixError (BranchRefused branch)), sent'))))"

definition commit_files_and_open_pr ::
  "fix_world \<Rightarrow> target \<Rightarrow> string \<Rightarrow> string \<Rightarrow> (string \<times> string) list \<Rightarrow> gh_request list \<Rightarrow> (exn + pull) \<times> gh_request list" where
  "commit_files_and_open_pr w target ref branch files sent =
     (case fw_installation w target of
        Inl e \<Rightarrow> (Inl e, sent)
      | Inr False \<Rightarrow> (Inl (AutofixError NoInstallation), sent)
      | Inr True \<Rightarrow>
          (case create_branch w ref branch sent of
             (Some e, sent) \<Rightarrow> (Inl e, sent)
           | (None, sent) \<Rightarrow>
               (case put_files w branch files sent of
                  (Some e, sent) \<Rightarrow> (Inl e, sent)
                | (None, sent) \<Rightarrow> open_pull w ref branch sent)))"

definition open_fix_pr :: "fix_world \<Rightarrow> target \<Rightarrow> finding \<Rightarrow> patch \<Rightarrow> gh_request list \<Rightarrow> (exn + pull) \<times> gh_request list" where
  "open_fix_pr w target f p sent =
     commit_files_and_open_pr w target (pa_ref p)
       (''toleman/fix-finding-'' @ int_text (f_id f) @ ''-'' @ int_text (fw_time w sent)) [(pa_file_path p, pa_new_content p)] sent"

text \<open>The endpoint.  \<open>accessible\<close> is None for a user who may see every workspace; the role was checked.\<close>

datatype api_answer = Opened pull | HttpError int | ServerError

definition may_see :: "row_id set option \<Rightarrow> target \<Rightarrow> bool" where
  "may_see accessible t \<longleftrightarrow> (case accessible of None \<Rightarrow> True | Some ws \<Rightarrow> t_workspace_id t \<in> ws)"

definition raise_fix_pr_endpoint ::
  "fix_world \<Rightarrow> db \<Rightarrow> row_id set option \<Rightarrow> row_id \<Rightarrow> patch \<Rightarrow> gh_request list \<Rightarrow> api_answer \<times> gh_request list" where
  "raise_fix_pr_endpoint w db accessible finding_id payload sent =
     (case get_finding db finding_id of
        None \<Rightarrow> (HttpError 404, sent)
      | Some f \<Rightarrow>
          (case get_target db (f_target_id f) of
             None \<Rightarrow> (HttpError 404, sent)
           | Some t \<Rightarrow>
               if \<not> may_see accessible t then (HttpError 404, sent)
               else if pa_file_path payload \<noteq> f_file_path f then (HttpError 400, sent)
               else if given (find_suppression_comment (pa_new_content payload) f) then (HttpError 400, sent)
               else (case open_fix_pr w t f payload sent of
                   (Inr pr, sent) \<Rightarrow> (Opened pr, sent)
                 | (Inl (AutofixError _), sent) \<Rightarrow> (HttpError 422, sent)
                 | (Inl _, sent) \<Rightarrow> (ServerError, sent))))"

subsection \<open>Package managers\<close>

text \<open>A checkout is the map of its files.  A package manager is missing, runs out of time, or ends with an
  exit code, what it printed and the files it leaves.\<close>

type_synonym files = "string \<Rightarrow> string option"

datatype pm_outcome = NotInstalled | TimedOut files | Exited int string files

text \<open>A run of a package manager: its command, directory, environment and the files it sees.\<close>

type_synonym pm_run = "string list \<times> string list \<times> (string \<times> string) list \<times> files"

record npm_world =
  nw_clone :: "target \<Rightarrow> string \<Rightarrow> string \<Rightarrow> exn + files"
  nw_run :: "pm_run \<Rightarrow> pm_outcome"
  nw_environ :: "string \<Rightarrow> string option"
  nw_set_order :: "string list \<Rightarrow> string list"

definition NPM_ECOSYSTEMS :: "string list" where "NPM_ECOSYSTEMS = [''npm'']"

definition LOCKFILE_BASENAMES :: "string list" where
  "LOCKFILE_BASENAMES = [''package-lock.json'', ''yarn.lock'', ''pnpm-lock.yaml'']"

definition UNTRUSTED_PM_CONFIG_FILES :: "string list" where
  "UNTRUSTED_PM_CONFIG_FILES = [''.npmrc'', ''.yarnrc'', ''.yarnrc.yml'']"

text \<open>\<open>Path\<close>: the parts of a relative path, empty ones and single dots dropped.\<close>

definition path_pieces :: "string \<Rightarrow> string list" where
  "path_pieces path = filter (\<lambda>p. p \<noteq> [] \<and> p \<noteq> ''.'') (split_on CHR ''/'' path)"

definition path_name :: "string \<Rightarrow> string" where
  "path_name path = (case rev (path_pieces path) of [] \<Rightarrow> [] | p # _ \<Rightarrow> p)"

text \<open>The parent directory as text, empty for the current one; an absolute path keeps its slash.\<close>

definition parent_dir :: "string \<Rightarrow> string" where
  "parent_dir path =
     (if starts_with ''/'' path then CHR ''/'' # join ''/'' (butlast (path_pieces path))
      else join ''/'' (butlast (path_pieces path)))"

text \<open>\<open>max(set(xs), key=xs.count)\<close>: the order of a set of strings is not fixed, so it is the world's.\<close>

definition most_common :: "(string list \<Rightarrow> string list) \<Rightarrow> string list \<Rightarrow> string" where
  "most_common order xs =
     (case order (remdups xs) of
        [] \<Rightarrow> []
      | y # ys \<Rightarrow> least_by (\<lambda>a b. count_list xs b < count_list xs a) y ys)"

definition majority_ref_and_dir :: "(string list \<Rightarrow> string list) \<Rightarrow> (string \<times> string) list \<Rightarrow> string \<times> string" where
  "majority_ref_and_dir order pairs =
     (let base_ref = most_common order (map fst pairs);
          dirs = map (parent_dir \<circ> snd) (filter (\<lambda>p. fst p = base_ref) pairs)
      in (base_ref, most_common order dirs))"

definition in_dir :: "string list \<Rightarrow> string \<Rightarrow> string" where
  "in_dir dir file_name = join ''/'' (dir @ [file_name])"

definition detect_lockfile :: "files \<Rightarrow> string list \<Rightarrow> string option" where
  "detect_lockfile files dir =
     List.find (\<lambda>b. files (in_dir dir b) \<noteq> None) [''package-lock.json'', ''pnpm-lock.yaml'', ''yarn.lock'']"

definition scrubbed_pm_env :: "npm_world \<Rightarrow> (string \<times> string) list \<Rightarrow> (string \<times> string) list" where
  "scrubbed_pm_env w extra =
     (let base = [(''PATH'', case nw_environ w ''PATH'' of None \<Rightarrow> ''/usr/local/bin:/usr/bin:/bin'' | Some v \<Rightarrow> v),
        (''HOME'', case nw_environ w ''HOME'' of None \<Rightarrow> ''/tmp'' | Some v \<Rightarrow> v), (''YARN_IGNORE_PATH'', ''1'')];
          locale_vars = concat (map (\<lambda>k. case nw_environ w k of None \<Rightarrow> [] | Some v \<Rightarrow> [(k, v)]) [''LANG'', ''LC_ALL''])
      in fold (\<lambda>(k, v). AList.update k v) extra (base @ locale_vars))"

text \<open>\<open>resolve\<close> without symbolic links: None for a directory outside the checkout.\<close>

fun resolve_dir :: "string list \<Rightarrow> string list \<Rightarrow> string list option" where
  "resolve_dir dir [] = Some dir"
| "resolve_dir dir (p # ps) =
     (if p = ''..'' then (if dir = [] then None else resolve_dir (butlast dir) ps) else resolve_dir (dir @ [p]) ps)"

definition levels :: "string list \<Rightarrow> string list list" where
  "levels dir = map (\<lambda>n. take n dir) [0..<Suc (length dir)]"

definition strip_untrusted_pm_config :: "string list \<Rightarrow> files \<Rightarrow> files" where
  "strip_untrusted_pm_config dir files =
     fold (\<lambda>d. fold (\<lambda>b fs. fs(in_dir d b := None)) UNTRUSTED_PM_CONFIG_FILES) (levels dir) files"

definition safe_scan_id_suffix :: "string \<Rightarrow> string" where
  "safe_scan_id_suffix package = map (\<lambda>c. if alnum_char c \<or> c \<in> set ''._-'' then c else CHR ''-'') package"

definition run_pm_command :: "npm_world \<Rightarrow> pm_run \<Rightarrow> fix_error + string \<times> files" where
  "run_pm_command w r =
     (let tool = hd (fst r) in
      case nw_run w r of
        NotInstalled \<Rightarrow> Inl (ToolMissing tool)
      | TimedOut _ \<Rightarrow> Inl (ToolTimedOut tool)
      | Exited code stdout files \<Rightarrow> if code \<noteq> 0 then Inl (ToolFailed tool) else Inr (stdout, files))"

text \<open>The probe runs with the repository as its directory; the files are those it leaves.\<close>

definition yarn_major :: "npm_world \<Rightarrow> string list \<Rightarrow> (string \<times> string) list \<Rightarrow> files \<Rightarrow> string \<times> files" where
  "yarn_major w dir env files =
     (case nw_run w ([''yarn'', ''--version''], dir, env, files) of
        Exited code stdout files' \<Rightarrow>
          (if code \<noteq> 0 then ''1''
           else (let major = hd (split_on CHR ''.'' (str_strip stdout)) in if major = [] then ''1'' else major), files')
      | TimedOut files' \<Rightarrow> (''1'', files')
      | NotInstalled \<Rightarrow> (''1'', files))"

text \<open>The commands to run for a lockfile, in order; each sees the files the one before left.\<close>

definition bump_lockfile ::
  "npm_world \<Rightarrow> string list \<Rightarrow> string \<Rightarrow> string \<Rightarrow> string \<Rightarrow> files \<Rightarrow> (fix_error + files) \<times> pm_run list" where
  "bump_lockfile w dir lockfile_name package new_version files =
     (let env = scrubbed_pm_env w [];
          spec = package @ ''@'' @ new_version;
          finish = (\<lambda>runs r. (case run_pm_command w r of Inl e \<Rightarrow> Inl e | Inr (_, fs) \<Rightarrow> Inr fs, runs @ [r]))
      in if lockfile_name = ''package-lock.json'' then
           finish [] ([''npm'', ''install'', spec, ''--package-lock-only'', ''--ignore-scripts'', ''--no-audit'', ''--no-fund''],
             dir, env, files)
         else if lockfile_name = ''pnpm-lock.yaml'' then
           finish [] ([''pnpm'', ''add'', spec, ''--lockfile-only'', ''--ignore-scripts'', ''--ignore-pnpmfile''], dir, env, files)
         else (let probe = ([''yarn'', ''--version''], dir, env, files); (major, files') = yarn_major w dir env files in
           if major = ''1'' then finish [probe] ([''yarn'', ''add'', spec, ''--ignore-scripts''], dir, env, files')
           else finish [probe] ([''yarn'', ''up'', spec, ''--mode=update-lockfile''], dir,
             scrubbed_pm_env w [(''YARN_ENABLE_SCRIPTS'', ''false'')], files')))"

definition is_lockfile :: "string \<Rightarrow> bool" where
  "is_lockfile path \<longleftrightarrow> path_name path \<in> set LOCKFILE_BASENAMES"

definition build_npm_patch_files ::
  "npm_world \<Rightarrow> fix_world \<Rightarrow> target \<Rightarrow> upgrade \<Rightarrow> (string \<times> string) list \<Rightarrow>
   (exn + (string \<times> string \<times> string) list) \<times> pm_run list" where
  "build_npm_patch_files w g target plan pairs =
     (let pairs = filter (is_lockfile \<circ> snd) pairs in
      if pairs = [] then (Inl (AutofixError (NoLockfileNamed (up_package plan))), [])
      else (let (ref, rel) = majority_ref_and_dir (nw_set_order w) pairs in
        case fw_token g target of
          Some e \<Rightarrow> (Inl e, [])
        | None \<Rightarrow>
            (case nw_clone w target ref (''npmfix-'' @ int_text (t_id target) @ ''-'' @ safe_scan_id_suffix (up_package plan)) of
               Inl e \<Rightarrow> (Inl e, [])
             | Inr files \<Rightarrow>
                 (case (if starts_with ''/'' rel then None else resolve_dir [] (path_pieces rel)) of
                    None \<Rightarrow> (Inl OtherError, [])
                  | Some dir \<Rightarrow>
                      (let stripped = strip_untrusted_pm_config dir files in
                       case detect_lockfile stripped dir of
                         None \<Rightarrow> (Inl (AutofixError (NoLockfileFound rel)), [])
                       | Some lockfile_name \<Rightarrow>
                           (case bump_lockfile w dir lockfile_name (up_package plan) (up_to plan) stripped of
                              (Inl e, runs) \<Rightarrow> (Inl (AutofixError e), runs)
                            | (Inr files', runs) \<Rightarrow>
                                (case (files' (in_dir dir ''package.json''), files' (in_dir dir lockfile_name)) of
                                   (Some manifest, Some lock) \<Rightarrow>
                                     (Inr [(ref, (if rel = [] then [] else rel @ ''/'') @ ''package.json'', manifest),
                                       (ref, (if rel = [] then [] else rel @ ''/'') @ lockfile_name, lock)], runs)
                                 | _ \<Rightarrow> (Inl (AutofixError (BumpIncomplete lockfile_name)), runs)))))))) "

end
