(* ===== verification/RemediationPr.thy ===== *)
theory RemediationPr
  imports FixPr Lifecycle
begin

text \<open>
  \<open>core/remediation_autofix.py\<close>, \<open>tasks/remediation_tasks.py\<close> and the handlers of \<open>api/findings.py\<close> that
  start them: one pull request per package of the Fix Plan, raised by hand, in a batch, or by the sweep.
  \<open>finding_ids\<close> is None for a column that does not parse.
\<close>

subsection \<open>State\<close>

record fix_pr =
  fp_target_id :: row_id
  fp_package :: string
  fp_ecosystem :: "string option"
  fp_upgrade_to :: string
  fp_finding_ids :: "row_id list option"
  fp_pr_url :: string
  fp_pr_number :: int
  fp_branch :: string
  fp_raised_by :: string
  fp_created_at :: timestamp

datatype item_error = NoPlanEntry | NotDispatched | FixFailed fix_error

record batch_item =
  ri_id :: row_id
  ri_batch_id :: row_id
  ri_package :: string
  ri_status :: string
  ri_error :: "item_error option"
  ri_pr_url :: "string option"
  ri_pr_number :: "int option"
  ri_completed_at :: "timestamp option"

record pr_batch =
  rb_id :: row_id
  rb_target_id :: row_id
  rb_created_by :: row_id
  rb_status :: string
  rb_total :: nat
  rb_succeeded :: nat
  rb_failed :: nat
  rb_started_at :: timestamp
  rb_completed_at :: "timestamp option"

record fix_state =
  fs_prs :: "fix_pr list"
  fs_batches :: "pr_batch list"
  fs_items :: "batch_item list"
  fs_sent :: "gh_request list"
  fs_runs :: "pm_run list"

text \<open>GitHub and the clock, the package managers, and the time as the requests go out.\<close>

record pr_raising_world =
  rw_github :: fix_world
  rw_npm :: npm_world
  rw_now :: "gh_request list \<Rightarrow> timestamp"

subsection \<open>The files of a package\<close>

definition plan_finding_ids :: "upgrade \<Rightarrow> row_id list" where
  "plan_finding_ids plan = map fr_finding_id (up_fixes plan)"

definition find_package_finding_files ::
  "db \<Rightarrow> target \<Rightarrow> upgrade \<Rightarrow> ((string \<times> string) \<times> finding list) list" where
  "find_package_finding_files db target plan =
     fold (\<lambda>f grouped. if f_file_path f = [] then grouped else push (branch_of target f, f_file_path f) f grouped)
       (filter (\<lambda>f. f_id f \<in> set (plan_finding_ids plan)) (d_findings db)) []"

text \<open>One manifest: its bumped text, None when it is not patched.\<close>

definition patched_file :: "fix_world \<Rightarrow> target \<Rightarrow> upgrade \<Rightarrow> string \<Rightarrow> string \<Rightarrow> exn + string option" where
  "patched_file w target plan ref path =
     (case bumper_for_path path of
        None \<Rightarrow> Inr None
      | Some bumper \<Rightarrow>
          (case fetch_file w target ref path of
             Inl e \<Rightarrow> Inl e
           | Inr None \<Rightarrow> Inr None
           | Inr (Some content) \<Rightarrow>
               Inr (case bumper content (up_package plan) (up_to plan) of
                   None \<Rightarrow> None
                 | Some (old_str, new_str) \<Rightarrow> Some (replace_once old_str new_str content))))"

fun patched_files :: "fix_world \<Rightarrow> target \<Rightarrow> upgrade \<Rightarrow> (string \<times> string) list \<Rightarrow> exn + (string \<times> string \<times> string) list" where
  "patched_files w target plan [] = Inr []"
| "patched_files w target plan ((ref, path) # pairs) =
     (case patched_file w target plan ref path of
        Inl e \<Rightarrow> Inl e
      | Inr r \<Rightarrow>
          (case patched_files w target plan pairs of
             Inl e \<Rightarrow> Inl e
           | Inr ps \<Rightarrow> Inr (case r of None \<Rightarrow> ps | Some content \<Rightarrow> (ref, path, content) # ps)))"

text \<open>The paths of each branch are a set, iterated in the order of the world.\<close>

definition files_by_ref :: "(string list \<Rightarrow> string list) \<Rightarrow> (string \<times> string) list \<Rightarrow> (string \<times> string) list" where
  "files_by_ref order pairs =
     concat (map (\<lambda>(ref, paths). map (Pair ref) (order (remdups paths))) (fold (\<lambda>(ref, path). push ref path) pairs []))"

definition is_npm :: "upgrade \<Rightarrow> bool" where
  "is_npm plan \<longleftrightarrow> (case up_ecosystem plan of None \<Rightarrow> False | Some e \<Rightarrow> e \<in> set NPM_ECOSYSTEMS)"

definition build_package_patch_files ::
  "pr_raising_world \<Rightarrow> db \<Rightarrow> target \<Rightarrow> upgrade \<Rightarrow> (exn + (string \<times> string \<times> string) list) \<times> pm_run list" where
  "build_package_patch_files w db target plan =
     (let pairs = map fst (find_package_finding_files db target plan) in
      if is_npm plan then build_npm_patch_files (rw_npm w) (rw_github w) target plan pairs
      else (patched_files (rw_github w) target plan (files_by_ref (nw_set_order (rw_npm w)) pairs), []))"

definition slugify :: "string \<Rightarrow> string" where
  "slugify name =
     (let hyphens = map (\<lambda>c. if alnum_char c then c else CHR ''-'') (str_lower (str_strip name));
          slug = rev (dropWhile ((=) CHR ''-'') (rev (dropWhile ((=) CHR ''-'') hyphens)))
      in if slug = [] then ''package'' else slug)"

subsection \<open>What was raised before\<close>

definition prs_for :: "fix_pr list \<Rightarrow> row_id \<Rightarrow> string \<Rightarrow> fix_pr list" where
  "prs_for prs target_id package = filter (\<lambda>r. fp_target_id r = target_id \<and> fp_package r = package) prs"

definition already_raised_finding_ids :: "fix_pr list \<Rightarrow> row_id \<Rightarrow> string \<Rightarrow> row_id list option" where
  "already_raised_finding_ids prs target_id package =
     (case prs_for prs target_id package of
        [] \<Rightarrow> None
      | rows \<Rightarrow> Some (concat (map (\<lambda>r. case fp_finding_ids r of None \<Rightarrow> [] | Some ids \<Rightarrow> ids) rows)))"

definition latest_raised_pr :: "fix_pr list \<Rightarrow> row_id \<Rightarrow> string \<Rightarrow> fix_pr option" where
  "latest_raised_pr prs target_id package =
     (case prs_for prs target_id package of
        [] \<Rightarrow> None | r # rs \<Rightarrow> Some (least_by (\<lambda>a b. fp_created_at b < fp_created_at a) r rs))"

definition is_covered :: "fix_pr list \<Rightarrow> row_id \<Rightarrow> upgrade \<Rightarrow> bool" where
  "is_covered prs target_id plan \<longleftrightarrow>
     (case already_raised_finding_ids prs target_id (up_package plan) of
        None \<Rightarrow> False | Some ids \<Rightarrow> set (plan_finding_ids plan) \<subseteq> set ids)"

subsection \<open>Raising a pull request\<close>

datatype raise_outcome = Raised pull | AlreadyRaised pull | Failed fix_error

definition failure_of :: "fix_error \<Rightarrow> fix_error \<Rightarrow> exn \<Rightarrow> fix_error" where
  "failure_of credentials other e =
     (case e of AutofixError f \<Rightarrow> f | SecretDecryptionError \<Rightarrow> credentials | OtherError \<Rightarrow> other)"

definition pr_of :: "fix_pr \<Rightarrow> pull" where
  "pr_of r = \<lparr>pl_url = fp_pr_url r, pl_number = fp_pr_number r, pl_branch = fp_branch r\<rparr>"

definition fix_pr_row :: "target \<Rightarrow> upgrade \<Rightarrow> pull \<Rightarrow> string \<Rightarrow> timestamp \<Rightarrow> fix_pr" where
  "fix_pr_row target plan pr raised_by now =
     \<lparr>fp_target_id = t_id target, fp_package = up_package plan, fp_ecosystem = up_ecosystem plan,
      fp_upgrade_to = up_to plan, fp_finding_ids = Some (plan_finding_ids plan), fp_pr_url = pl_url pr,
      fp_pr_number = pl_number pr, fp_branch = pl_branch pr, fp_raised_by = raised_by, fp_created_at = now\<rparr>"

definition branch_name :: "target \<Rightarrow> string \<Rightarrow> int \<Rightarrow> string" where
  "branch_name target package now =
     ''toleman/fix-pkg-'' @ int_text (t_id target) @ ''-'' @ slugify package @ ''-'' @ int_text now"

definition raise_package_fix_pr ::
  "pr_raising_world \<Rightarrow> db \<Rightarrow> target \<Rightarrow> upgrade \<Rightarrow> string \<Rightarrow> fix_state \<Rightarrow> raise_outcome \<times> fix_state" where
  "raise_package_fix_pr w db target plan raised_by st =
     (if is_covered (fs_prs st) (t_id target) plan
      then (AlreadyRaised (pr_of (the (latest_raised_pr (fs_prs st) (t_id target) (up_package plan)))), st)
      else (let (built, runs) = build_package_patch_files w db target plan; st = st\<lparr>fs_runs := fs_runs st @ runs\<rparr> in
        case built of
          Inl e \<Rightarrow> (Failed (failure_of ReadCredentialsUnreadable (ManifestUnreadable (up_package plan)) e), st)
        | Inr [] \<Rightarrow> (Failed (NoVersionPin (up_package plan)), st)
        | Inr (p # ps) \<Rightarrow>
            (let base_ref = most_common (nw_set_order (rw_npm w)) (map fst (p # ps));
                 files = map snd (filter (\<lambda>x. fst x = base_ref) (p # ps));
                 (result, sent) = commit_files_and_open_pr (rw_github w) target base_ref
                   (branch_name target (up_package plan) (fw_time (rw_github w) (fs_sent st))) files (fs_sent st);
                 st = st\<lparr>fs_sent := sent\<rparr>
             in case result of
                  Inl e \<Rightarrow> (Failed (failure_of WriteCredentialsUnreadable (PullFailed (up_package plan)) e), st)
                | Inr pr \<Rightarrow>
                    (Raised pr, st\<lparr>fs_prs := fs_prs st @ [fix_pr_row target plan pr raised_by (rw_now w sent)]\<rparr>))))"

subsection \<open>The sweep\<close>

record sweep_summary =
  sm_targets_considered :: nat
  sm_targets_opted_in :: nat
  sm_packages_considered :: nat
  sm_prs_raised :: nat
  sm_prs_skipped :: nat
  sm_prs_failed :: nat

definition sweep_plan ::
  "pr_raising_world \<Rightarrow> db \<Rightarrow> target \<Rightarrow> upgrade \<Rightarrow> fix_state \<times> sweep_summary \<Rightarrow> fix_state \<times> sweep_summary" where
  "sweep_plan w db target plan = (\<lambda>(st, sm).
     (let sm = sm\<lparr>sm_packages_considered := sm_packages_considered sm + 1\<rparr> in
      if is_covered (fs_prs st) (t_id target) plan then (st, sm\<lparr>sm_prs_skipped := sm_prs_skipped sm + 1\<rparr>)
      else (case raise_package_fix_pr w db target plan ''sweep'' st of
          (Raised _, st) \<Rightarrow> (st, sm\<lparr>sm_prs_raised := sm_prs_raised sm + 1\<rparr>)
        | (AlreadyRaised _, st) \<Rightarrow> (st, sm\<lparr>sm_prs_skipped := sm_prs_skipped sm + 1\<rparr>)
        | (Failed _, st) \<Rightarrow> (st, sm\<lparr>sm_prs_failed := sm_prs_failed sm + 1\<rparr>))))"

definition sweep_target ::
  "pr_raising_world \<Rightarrow> db \<Rightarrow> target \<Rightarrow> fix_state \<times> sweep_summary \<Rightarrow> fix_state \<times> sweep_summary" where
  "sweep_target w db target = (\<lambda>(st, sm).
     fold (sweep_plan w db target) (group_remediations db (t_id target))
       (st, sm\<lparr>sm_targets_opted_in := sm_targets_opted_in sm + 1\<rparr>))"

definition opted_in :: "db \<Rightarrow> target list" where
  "opted_in db = scannable_targets (filter t_auto_raise_fix_prs (d_targets db))"

definition sweep_auto_raise_prs :: "pr_raising_world \<Rightarrow> db \<Rightarrow> fix_state \<Rightarrow> fix_state \<times> sweep_summary" where
  "sweep_auto_raise_prs w db st =
     fold (sweep_target w db) (opted_in db)
       (st, \<lparr>sm_targets_considered = length (opted_in db), sm_targets_opted_in = 0, sm_packages_considered = 0,
          sm_prs_raised = 0, sm_prs_skipped = 0, sm_prs_failed = 0\<rparr>)"

subsection \<open>The batch\<close>

definition update_item :: "row_id \<Rightarrow> (batch_item \<Rightarrow> batch_item) \<Rightarrow> fix_state \<Rightarrow> fix_state" where
  "update_item i g st = st\<lparr>fs_items := map (\<lambda>r. if ri_id r = i then g r else r) (fs_items st)\<rparr>"

definition update_batch :: "row_id \<Rightarrow> (pr_batch \<Rightarrow> pr_batch) \<Rightarrow> fix_state \<Rightarrow> fix_state" where
  "update_batch i g st = st\<lparr>fs_batches := map (\<lambda>r. if rb_id r = i then g r else r) (fs_batches st)\<rparr>"

definition succeed_item :: "row_id \<Rightarrow> row_id \<Rightarrow> pull \<Rightarrow> timestamp \<Rightarrow> fix_state \<Rightarrow> fix_state" where
  "succeed_item batch_id i pr now st =
     update_batch batch_id (\<lambda>b. b\<lparr>rb_succeeded := rb_succeeded b + 1\<rparr>)
       (update_item i (\<lambda>r. r\<lparr>ri_status := ''succeeded'', ri_pr_url := Some (pl_url pr), ri_pr_number := Some (pl_number pr),
          ri_completed_at := Some now\<rparr>) st)"

definition fail_item :: "row_id \<Rightarrow> row_id \<Rightarrow> item_error \<Rightarrow> timestamp \<Rightarrow> fix_state \<Rightarrow> fix_state" where
  "fail_item batch_id i e now st =
     update_batch batch_id (\<lambda>b. b\<lparr>rb_failed := rb_failed b + 1\<rparr>)
       (update_item i (\<lambda>r. r\<lparr>ri_status := ''failed'', ri_error := Some e, ri_completed_at := Some now\<rparr>) st)"

text \<open>\<open>\{p["package"]: p for p in plans\}.get(package)\<close>.\<close>

definition plan_of :: "upgrade list \<Rightarrow> string \<Rightarrow> upgrade option" where
  "plan_of plans package = List.find (\<lambda>p. up_package p = package) (rev plans)"

definition run_item ::
  "pr_raising_world \<Rightarrow> db \<Rightarrow> target \<Rightarrow> upgrade list \<Rightarrow> string \<Rightarrow> row_id \<Rightarrow> batch_item \<Rightarrow> fix_state \<Rightarrow> fix_state" where
  "run_item w db target plans raised_by batch_id item st =
     (case plan_of plans (ri_package item) of
        None \<Rightarrow> fail_item batch_id (ri_id item) NoPlanEntry (rw_now w (fs_sent st)) st
      | Some plan \<Rightarrow>
          (let (outcome, st) = raise_package_fix_pr w db target plan raised_by
                 (update_item (ri_id item) (\<lambda>r. r\<lparr>ri_status := ''running''\<rparr>) st);
               now = rw_now w (fs_sent st)
           in case outcome of
                Raised pr \<Rightarrow> succeed_item batch_id (ri_id item) pr now st
              | AlreadyRaised pr \<Rightarrow> succeed_item batch_id (ri_id item) pr now st
              | Failed e \<Rightarrow> fail_item batch_id (ri_id item) (FixFailed e) now st))"

definition complete_batch :: "row_id \<Rightarrow> timestamp \<Rightarrow> fix_state \<Rightarrow> fix_state" where
  "complete_batch batch_id now =
     update_batch batch_id (\<lambda>b. b\<lparr>rb_status := ''completed'', rb_completed_at := Some now\<rparr>)"

datatype batch_task_result = BatchNotFound | TargetNotFound | PlanRaised | BatchDone

text \<open>\<open>raiser\<close> is the name the task gives the creator of the batch.  Building the Fix Plan may raise (\<open>plan_fails\<close>),
  which nothing in the task catches.\<close>

definition run_raise_all_batch ::
  "pr_raising_world \<Rightarrow> db \<Rightarrow> bool \<Rightarrow> (row_id \<Rightarrow> string) \<Rightarrow> row_id \<Rightarrow> fix_state \<Rightarrow> batch_task_result \<times> fix_state" where
  "run_raise_all_batch w db plan_fails raiser batch_id st =
     (case List.find (\<lambda>b. rb_id b = batch_id) (fs_batches st) of
        None \<Rightarrow> (BatchNotFound, st)
      | Some batch \<Rightarrow>
          (case get_target db (rb_target_id batch) of
             None \<Rightarrow> (TargetNotFound, complete_batch batch_id (rw_now w (fs_sent st)) st)
           | Some target \<Rightarrow>
               if plan_fails then (PlanRaised, st)
               else (let plans = group_remediations db (t_id target);
                    items = filter (\<lambda>i. ri_batch_id i = batch_id) (fs_items st);
                    st = fold (run_item w db target plans (raiser (rb_created_by batch)) batch_id) items st
                in (BatchDone, complete_batch batch_id (rw_now w (fs_sent st)) st))))"

subsection \<open>The handlers\<close>

text \<open>A started batch with one pending item per package.  When the message cannot be queued, the batch
  and its items fail at once.\<close>

fun add_items :: "row_id \<Rightarrow> string list \<Rightarrow> batch_item list \<Rightarrow> batch_item list" where
  "add_items batch_id [] rows = rows"
| "add_items batch_id (p # ps) rows =
     add_items batch_id ps (rows @ [\<lparr>ri_id = next_id ri_id rows, ri_batch_id = batch_id, ri_package = p,
       ri_status = ''pending'', ri_error = None, ri_pr_url = None, ri_pr_number = None, ri_completed_at = None\<rparr>])"

definition start_batch :: "row_id \<Rightarrow> row_id \<Rightarrow> string list \<Rightarrow> timestamp \<Rightarrow> fix_state \<Rightarrow> row_id \<times> fix_state" where
  "start_batch target_id user_id packages now st =
     (let i = next_id rb_id (fs_batches st) in
      (i, st\<lparr>fs_batches := fs_batches st @ [\<lparr>rb_id = i, rb_target_id = target_id, rb_created_by = user_id,
            rb_status = ''running'', rb_total = length packages, rb_succeeded = 0, rb_failed = 0,
            rb_started_at = now, rb_completed_at = None\<rparr>],
          fs_items := add_items i packages (fs_items st)\<rparr>))"

definition fail_dispatch :: "row_id \<Rightarrow> timestamp \<Rightarrow> fix_state \<Rightarrow> fix_state" where
  "fail_dispatch batch_id now st =
     update_batch batch_id (\<lambda>b. b\<lparr>rb_status := ''completed'', rb_failed := rb_total b, rb_completed_at := Some now\<rparr>)
       (st\<lparr>fs_items := map (\<lambda>r. if ri_batch_id r = batch_id
           then r\<lparr>ri_status := ''failed'', ri_error := Some NotDispatched, ri_completed_at := Some now\<rparr> else r) (fs_items st)\<rparr>)"

datatype fix_answer = PullOpened pull | BatchStarted row_id | Refused int

definition visible_target :: "db \<Rightarrow> row_id set option \<Rightarrow> row_id \<Rightarrow> target option" where
  "visible_target db accessible i =
     (case get_target db i of
        None \<Rightarrow> None
      | Some t \<Rightarrow> if is_deleted t \<or> \<not> may_see accessible t then None else Some t)"

definition dispatch_batch :: "bool \<Rightarrow> row_id \<Rightarrow> row_id \<Rightarrow> string list \<Rightarrow> timestamp \<Rightarrow> fix_state \<Rightarrow> fix_answer \<times> fix_state" where
  "dispatch_batch queued target_id user_id packages now st =
     (let (i, st) = start_batch target_id user_id packages now st in
      if queued then (BatchStarted i, st) else (Refused 422, fail_dispatch i now st))"

text \<open>\<open>queued\<close> says whether the broker takes the message, \<open>plan_fails\<close> whether building the plan raises.\<close>

definition raise_package_fix_pr_endpoint ::
  "pr_raising_world \<Rightarrow> db \<Rightarrow> row_id set option \<Rightarrow> bool \<Rightarrow> bool \<Rightarrow> row_id \<Rightarrow> string \<Rightarrow> row_id \<Rightarrow> string \<Rightarrow> fix_state \<Rightarrow>
   fix_answer \<times> fix_state" where
  "raise_package_fix_pr_endpoint w db accessible plan_fails queued user_id user_name target_id package st =
     (case visible_target db accessible target_id of
        None \<Rightarrow> (Refused 404, st)
      | Some target \<Rightarrow>
          if plan_fails then (Refused 422, st)
          else (case List.find (\<lambda>p. up_package p = package) (group_remediations db (t_id target)) of
             None \<Rightarrow> (Refused 404, st)
           | Some plan \<Rightarrow>
               if is_npm plan then dispatch_batch queued (t_id target) user_id [up_package plan] (rw_now w (fs_sent st)) st
               else (case raise_package_fix_pr w db target plan user_name st of
                   (Raised pr, st) \<Rightarrow> (PullOpened pr, st)
                 | (AlreadyRaised pr, st) \<Rightarrow> (PullOpened pr, st)
                 | (Failed _, st) \<Rightarrow> (Refused 422, st))))"

definition raise_all_endpoint ::
  "pr_raising_world \<Rightarrow> db \<Rightarrow> row_id set option \<Rightarrow> bool \<Rightarrow> bool \<Rightarrow> row_id \<Rightarrow> row_id \<Rightarrow> fix_state \<Rightarrow> fix_answer \<times> fix_state" where
  "raise_all_endpoint w db accessible plan_fails queued user_id target_id st =
     (case visible_target db accessible target_id of
        None \<Rightarrow> (Refused 404, st)
      | Some target \<Rightarrow>
          if plan_fails then (Refused 422, st)
          else (let plans = group_remediations db (t_id target) in
           if plans = [] then (Refused 400, st)
           else dispatch_batch queued (t_id target) user_id (map up_package plans) (rw_now w (fs_sent st)) st))"

text \<open>\<open>core/staleness.py\<close> on a batch, which has no error column: a batch that has been running too long is
  failed when it is next read.\<close>

definition mark_stale_if_needed :: "duration \<Rightarrow> timestamp \<Rightarrow> pr_batch \<Rightarrow> bool \<times> pr_batch" where
  "mark_stale_if_needed timeout now b =
     (if rb_status b \<noteq> ''running'' \<or> now - rb_started_at b < timeout then (False, b)
      else (True, b\<lparr>rb_status := ''failed'', rb_completed_at := Some now\<rparr>))"

definition get_batch ::
  "db \<Rightarrow> row_id set option \<Rightarrow> duration \<Rightarrow> timestamp \<Rightarrow> row_id \<Rightarrow> fix_state \<Rightarrow> (pr_batch \<times> batch_item list) option \<times> fix_state" where
  "get_batch db accessible timeout now batch_id st =
     (case List.find (\<lambda>b. rb_id b = batch_id) (fs_batches st) of
        None \<Rightarrow> (None, st)
      | Some b \<Rightarrow>
          (let (stale, b') = mark_stale_if_needed timeout now b;
               st = (if stale then update_batch batch_id (\<lambda>_. b') st else st)
           in case get_target db (rb_target_id b) of
                Some t \<Rightarrow> if may_see accessible t then (Some (b', filter (\<lambda>i. ri_batch_id i = batch_id) (fs_items st)), st)
                           else (None, st)
              | None \<Rightarrow> (Some (b', filter (\<lambda>i. ri_batch_id i = batch_id) (fs_items st)), st)))"

end
