(* ===== verification/RemediationProps.thy ===== *)
theory RemediationProps
  imports Remediation EnrichmentProps "HOL-Library.List_Lexorder" "HOL-Library.Char_ord" "HOL-Library.Product_Lexorder" "HOL-Library.Multiset"
begin

text \<open>
  What the Fix Plan promises: which packages it lists and what closing them covers, the version it
  recommends, the meaning of an empty plan, and that paging loses nothing.
\<close>

subsection \<open>Version order\<close>

lemma str_less_iff: "str_less s t \<longleftrightarrow> s < t"
  by (induction s t rule: str_less.induct) (auto simp: less_char_def)

instantiation version_chunk :: linorder
begin

definition less_version_chunk :: "version_chunk \<Rightarrow> version_chunk \<Rightarrow> bool" where
  "less_version_chunk x y \<longleftrightarrow> chunk_less x y"

definition less_eq_version_chunk :: "version_chunk \<Rightarrow> version_chunk \<Rightarrow> bool" where
  "less_eq_version_chunk x y \<longleftrightarrow> chunk_less x y \<or> x = y"

instance
proof
  fix x y z :: version_chunk
  show "(x < y) = (x \<le> y \<and> \<not> y \<le> x)"
    by (cases x; cases y) (auto simp: less_version_chunk_def less_eq_version_chunk_def str_less_iff)
  show "x \<le> x" by (simp add: less_eq_version_chunk_def)
  show "x \<le> y \<Longrightarrow> y \<le> z \<Longrightarrow> x \<le> z"
    by (cases x; cases y; cases z) (auto simp: less_eq_version_chunk_def str_less_iff)
  show "x \<le> y \<Longrightarrow> y \<le> x \<Longrightarrow> x = y"
    by (cases x; cases y) (auto simp: less_eq_version_chunk_def str_less_iff)
  show "x \<le> y \<or> y \<le> x"
    by (cases x; cases y) (auto simp: less_eq_version_chunk_def str_less_iff)
qed

end

lemma chunks_less_iff: "chunks_less xs ys \<longleftrightarrow> xs < ys"
  by (induction xs ys rule: chunks_less.induct) (auto simp: less_version_chunk_def)

lemma version_less_iff: "version_less v w \<longleftrightarrow> parse_version v < parse_version w"
  by (simp add: version_less_def chunks_less_iff)

text \<open>\<open>min\<close> and \<open>max\<close> by a key in a linear order.\<close>

lemma least_by_min:
  fixes key :: "'a \<Rightarrow> 'k :: linorder"
  assumes "\<And>a b. lt a b \<longleftrightarrow> key a < key b"
  shows "least_by lt v vs \<in> set (v # vs) \<and> (\<forall>x\<in>set (v # vs). key (least_by lt v vs) \<le> key x)"
proof (induction vs arbitrary: v)
  case (Cons w ws)
  let ?m = "if lt w v then w else v"
  from Cons [of ?m] have m: "least_by lt v (w # ws) \<in> set (?m # ws)"
    "\<forall>x\<in>set (?m # ws). key (least_by lt v (w # ws)) \<le> key x" by simp_all
  moreover have "key ?m \<le> key v" "key ?m \<le> key w" by (auto simp: assms not_less intro: less_imp_le)
  ultimately show ?case by (auto split: if_splits intro: order_trans)
qed simp

lemma lowest_version_spec:
  "vs \<noteq> [] \<Longrightarrow> lowest_version vs \<in> set vs \<and> (\<forall>v\<in>set vs. \<not> version_less v (lowest_version vs))"
  using least_by_min [of version_less parse_version "hd vs" "tl vs"]
  by (cases vs) (auto simp: lowest_version_def version_less_iff not_less)

lemma least_by_max:
  fixes key :: "'a \<Rightarrow> 'k :: linorder"
  assumes "\<And>a b. lt a b \<longleftrightarrow> key b < key a"
  shows "least_by lt v vs \<in> set (v # vs) \<and> (\<forall>x\<in>set (v # vs). key x \<le> key (least_by lt v vs))"
proof (induction vs arbitrary: v)
  case (Cons w ws)
  let ?m = "if lt w v then w else v"
  from Cons [of ?m] have m: "least_by lt v (w # ws) \<in> set (?m # ws)"
    "\<forall>x\<in>set (?m # ws). key x \<le> key (least_by lt v (w # ws))" by simp_all
  moreover have "key v \<le> key ?m" "key w \<le> key ?m" by (auto simp: assms not_less intro: less_imp_le)
  ultimately show ?case by (auto split: if_splits intro: order_trans)
qed simp

lemma highest_version_spec:
  "vs \<noteq> [] \<Longrightarrow> highest_version vs \<in> set vs \<and> (\<forall>v\<in>set vs. \<not> version_less (highest_version vs) v)"
  using least_by_max [of "\<lambda>a b. version_less b a" parse_version "hd vs" "tl vs"]
  by (cases vs) (auto simp: highest_version_def version_less_iff not_less)

subsection \<open>Sorting\<close>

lemma insert_by_mset [simp]: "mset (insert_by lt x xs) = add_mset x (mset xs)"
  by (induction xs) auto

lemma sort_by_mset [simp]: "mset (sort_by lt xs) = mset xs"
  unfolding sort_by_def by (induction xs) auto

lemma sort_by_set [simp]: "set (sort_by lt xs) = set xs"
  using sort_by_mset [of lt xs] by (metis set_mset_mset)

lemma insert_by_set [simp]: "set (insert_by lt x xs) = insert x (set xs)"
  using insert_by_mset [of lt x xs] by (metis set_mset_add_mset_insert set_mset_mset)

lemma sort_by_sorted:
  assumes asym: "\<And>a b. lt a b \<Longrightarrow> \<not> lt b a" and trans: "\<And>a b c. \<not> lt b a \<Longrightarrow> \<not> lt c b \<Longrightarrow> \<not> lt c a"
  shows "sorted_wrt (\<lambda>a b. \<not> lt b a) (sort_by lt xs)"
proof -
  have "sorted_wrt (\<lambda>a b. \<not> lt b a) ys \<Longrightarrow> sorted_wrt (\<lambda>a b. \<not> lt b a) (insert_by lt x ys)" for x ys
  proof (induction ys)
    case (Cons y ys)
    then show ?case by (auto dest: asym) (meson trans)+
  qed simp
  then show ?thesis unfolding sort_by_def by (induction xs) auto
qed

subsection \<open>What an advisory offers\<close>

lemma push_keys: "fst ` set (push k v d) = insert k (fst ` set d)"
  by (induction k v d rule: push.induct) auto

lemma push_distinct: "distinct (map fst d) \<Longrightarrow> distinct (map fst (push k v d))"
  by (induction k v d rule: push.induct) (auto simp: push_keys)

lemma push_nonempty: "\<forall>(k, vs)\<in>set d. vs \<noteq> [] \<Longrightarrow> \<forall>(k, vs)\<in>set (push k' v d). vs \<noteq> []"
  by (induction k' v d rule: push.induct) auto

definition fix_names :: "string option \<Rightarrow> fix_entry \<Rightarrow> string option" where
  "fix_names fallback e =
     (let package = (if given (fx_package e) then fx_package e else fallback) in
      if given package \<and> given (fx_fixed e) then package else None)"

lemma fixes_loop_step:
  "fixes_loop fallback (e # es) out =
     fixes_loop fallback es (case fix_names fallback e of None \<Rightarrow> out | Some p \<Rightarrow> push p (the (fx_fixed e)) out)"
  by (auto simp: fix_names_def Let_def given_def)

lemma fixes_loop_spec:
  "distinct (map fst out) \<Longrightarrow> \<forall>(k, vs)\<in>set out. vs \<noteq> [] \<Longrightarrow>
   distinct (map fst (fixes_loop fallback es out)) \<and> (\<forall>(k, vs)\<in>set (fixes_loop fallback es out). vs \<noteq> []) \<and>
   fst ` set (fixes_loop fallback es out) = fst ` set out \<union> {p. \<exists>e\<in>set es. fix_names fallback e = Some p}"
proof (induction es arbitrary: out)
  case (Cons e es)
  let ?out = "case fix_names fallback e of None \<Rightarrow> out | Some p \<Rightarrow> push p (the (fx_fixed e)) out"
  have "distinct (map fst ?out)" "\<forall>(k, vs)\<in>set ?out. vs \<noteq> []"
    using Cons.prems by (simp_all add: push_distinct push_nonempty split: option.split)
  note IH = Cons.IH [OF this]
  have "fst ` set ?out = fst ` set out \<union> {p. fix_names fallback e = Some p}"
    by (auto simp: push_keys split: option.splits)
  with IH show ?case unfolding fixes_loop_step by auto
qed simp

lemma fixes_for_spec:
  "distinct (map fst (fixes_for by_cve f))" "(p, vs) \<in> set (fixes_for by_cve f) \<Longrightarrow> vs \<noteq> []"
  using fixes_loop_spec [of "[]" "f_package_name f"]
  by (fastforce simp: fixes_for_def fixes_by_package_def split: option.splits fixed_versions_column.splits)+

definition covers :: "(string \<rightharpoonup> cve_enrichment) \<Rightarrow> string \<Rightarrow> finding \<Rightarrow> bool" where
  "covers by_cve package f \<longleftrightarrow> package \<in> fst ` set (fixes_for by_cve f)"

lemma covers_any: "(\<exists>p. covers by_cve p f) \<longleftrightarrow> fixes_for by_cve f \<noteq> []"
  by (cases "fixes_for by_cve f") (auto simp: covers_def)

lemma fix_names_nonempty: "fix_names fallback e = Some p \<Longrightarrow> p \<noteq> []"
  by (auto simp: fix_names_def given_def Let_def split: if_splits)

subsection \<open>The buckets\<close>

lemma bucket_of_update [simp]:
  "bucket_of (AList.update p b bs) q = (if q = p then b else bucket_of bs q)"
  by (simp add: bucket_of_def update_conv')

lemma bucket_of_Nil [simp]: "bucket_of [] q = empty_bucket"
  by (simp add: bucket_of_def)

lemma add_fixed_bucket:
  "bk_fixed (bucket_of (add_fixed row f pv bs) q) = bk_fixed (bucket_of bs q) @ (if fst pv = q then [(f, snd pv)] else [])"
  "bk_unfixed (bucket_of (add_fixed row f pv bs) q) = bk_unfixed (bucket_of bs q)"
  "fst ` set (add_fixed row f pv bs) = insert (fst pv) (fst ` set bs)"
  "distinct (map fst bs) \<Longrightarrow> distinct (map fst (add_fixed row f pv bs))"
  by (auto simp: add_fixed_def split_beta Let_def dom_update distinct_update)

lemma add_all_bucket:
  "bk_fixed (bucket_of (fold (add_fixed row f) pvs bs) q) =
     bk_fixed (bucket_of bs q) @ map (\<lambda>pv. (f, snd pv)) (filter (\<lambda>pv. fst pv = q) pvs)"
  "bk_unfixed (bucket_of (fold (add_fixed row f) pvs bs) q) = bk_unfixed (bucket_of bs q)"
  "fst ` set (fold (add_fixed row f) pvs bs) = fst ` set pvs \<union> fst ` set bs"
  "distinct (map fst bs) \<Longrightarrow> distinct (map fst (fold (add_fixed row f) pvs bs))"
  by (induction pvs arbitrary: bs) (auto simp: add_fixed_bucket)

definition first_step :: "(string \<rightharpoonup> cve_enrichment) \<Rightarrow> finding \<Rightarrow> (string \<times> package_bucket) list \<Rightarrow> (string \<times> package_bucket) list" where
  "first_step by_cve f bs = (case cve_row by_cve f of
       None \<Rightarrow> bs | Some row \<Rightarrow> fold (add_fixed row f) (fixes_by_package row (f_package_name f)) bs)"

lemma first_step_bucket:
  "bk_fixed (bucket_of (first_step by_cve f bs) q) =
     bk_fixed (bucket_of bs q) @ map (\<lambda>pv. (f, snd pv)) (filter (\<lambda>pv. fst pv = q) (fixes_for by_cve f))"
  "bk_unfixed (bucket_of (first_step by_cve f bs) q) = bk_unfixed (bucket_of bs q)"
  "fst ` set (first_step by_cve f bs) = fst ` set (fixes_for by_cve f) \<union> fst ` set bs"
  "distinct (map fst bs) \<Longrightarrow> distinct (map fst (first_step by_cve f bs))"
  by (auto simp: first_step_def fixes_for_def add_all_bucket split: option.splits)

lemma first_steps_bucket:
  "bk_fixed (bucket_of (fold (first_step by_cve) fs bs) q) = bk_fixed (bucket_of bs q) @
     concat (map (\<lambda>f. map (\<lambda>pv. (f, snd pv)) (filter (\<lambda>pv. fst pv = q) (fixes_for by_cve f))) fs)"
  "bk_unfixed (bucket_of (fold (first_step by_cve) fs bs) q) = bk_unfixed (bucket_of bs q)"
  "fst ` set (fold (first_step by_cve) fs bs) = (\<Union>f\<in>set fs. fst ` set (fixes_for by_cve f)) \<union> fst ` set bs"
  "distinct (map fst bs) \<Longrightarrow> distinct (map fst (fold (first_step by_cve) fs bs))"
  by (induction fs arbitrary: bs) (auto simp: first_step_bucket)

lemma first_pass_steps: "first_pass by_cve fs = fold (first_step by_cve) fs []"
  by (simp add: first_pass_def first_step_def [abs_def])

lemma first_pass_keys:
  "distinct (map fst (first_pass by_cve fs))"
  "fst ` set (first_pass by_cve fs) = {p. \<exists>f\<in>set fs. covers by_cve p f}"
  by (auto simp: first_pass_steps first_steps_bucket covers_def)

text \<open>One package of an advisory is listed once, so its bucket holds each covered finding once.\<close>

lemma one_entry:
  "distinct (map fst kvs) \<Longrightarrow>
   map (\<lambda>pv. (f, snd pv)) (filter (\<lambda>pv. fst pv = q) kvs) = (case map_of kvs q of None \<Rightarrow> [] | Some vs \<Rightarrow> [(f, vs)])"
proof (induction kvs)
  case (Cons kv kvs)
  show ?case
  proof (cases "fst kv = q")
    case True
    with Cons.prems have "q \<notin> fst ` set kvs" by simp
    then have "filter (\<lambda>pv. fst pv = q) kvs = []" by (auto simp: filter_empty_conv)
    with True show ?thesis by simp
  next
    case False
    with Cons show ?thesis by simp
  qed
qed simp

lemma first_pass_fixed:
  "bk_fixed (bucket_of (first_pass by_cve fs) q) =
     map (\<lambda>f. (f, the (map_of (fixes_for by_cve f) q))) (filter (covers by_cve q) fs)"
proof -
  have one: "map (\<lambda>pv. (f, snd pv)) (filter (\<lambda>pv. fst pv = q) (fixes_for by_cve f)) =
      (if covers by_cve q f then [(f, the (map_of (fixes_for by_cve f) q))] else [])" for f
    unfolding one_entry [OF fixes_for_spec(1)] covers_def
    by (simp add: map_of_eq_None_iff [symmetric] split: option.split)
  have "concat (map (\<lambda>f. map (\<lambda>pv. (f, snd pv)) (filter (\<lambda>pv. fst pv = q) (fixes_for by_cve f))) fs) =
    map (\<lambda>f. (f, the (map_of (fixes_for by_cve f) q))) (filter (covers by_cve q) fs)"
    by (induction fs) (simp_all add: one)
  then show ?thesis by (simp add: first_pass_steps first_steps_bucket empty_bucket_def)
qed

lemma bucket_mem: "distinct (map fst bs) \<Longrightarrow> (p, b) \<in> set bs \<Longrightarrow> bucket_of bs p = b"
  by (simp add: bucket_of_def)

lemma first_pass_member:
  "(p, b) \<in> set (first_pass by_cve fs) \<Longrightarrow>
     bk_fixed b = map (\<lambda>f. (f, the (map_of (fixes_for by_cve f) p))) (filter (covers by_cve p) fs) \<and>
     bk_unfixed b = [] \<and> (\<exists>f\<in>set fs. covers by_cve p f)"
proof -
  assume m: "(p, b) \<in> set (first_pass by_cve fs)"
  have b: "bucket_of (first_pass by_cve fs) p = b" using bucket_mem [OF first_pass_keys(1) m] .
  have "bk_unfixed (bucket_of (first_pass by_cve fs) p) = []"
    by (simp add: first_pass_steps first_steps_bucket empty_bucket_def)
  moreover have "p \<in> fst ` set (first_pass by_cve fs)" using m by force
  ultimately show ?thesis using first_pass_fixed [of by_cve fs p] first_pass_keys(2) [of by_cve fs] b by auto
qed

subsection \<open>The plan\<close>

definition bucket_plan :: "(string \<rightharpoonup> cve_enrichment) \<Rightarrow> finding list \<Rightarrow> string \<Rightarrow> upgrade" where
  "bucket_plan by_cve fs p = upgrade_of (p,
     (bucket_of (first_pass by_cve fs) p)\<lparr>bk_unfixed := filter (left_behind by_cve p) fs\<rparr>)"

lemma group_mset:
  "mset (group_by_package fs by_cve) = mset (map (bucket_plan by_cve fs) (map fst (first_pass by_cve fs)))"
proof -
  let ?bs = "first_pass by_cve fs"
  have mem: "bk_fixed b \<noteq> [] \<and> bk_unfixed b = [] \<and> bucket_of ?bs p = b" if "(p, b) \<in> set ?bs" for p b
    using first_pass_member [OF that] bucket_mem [OF first_pass_keys(1) that] by (auto simp: filter_empty_conv)
  have "filter (\<lambda>(_, b). bk_fixed b \<noteq> []) (second_pass by_cve fs ?bs) = second_pass by_cve fs ?bs"
    using mem by (fastforce simp: second_pass_def filter_id_conv)
  moreover have "map upgrade_of (second_pass by_cve fs ?bs) = map (bucket_plan by_cve fs) (map fst ?bs)"
    using mem by (fastforce simp: second_pass_def bucket_plan_def)
  moreover have "fs = [] \<Longrightarrow> ?bs = []" by (simp add: first_pass_def)
  ultimately show ?thesis by (simp add: group_by_package_def)
qed

lemma group_set: "set (group_by_package fs by_cve) = bucket_plan by_cve fs ` {p. \<exists>f\<in>set fs. covers by_cve p f}"
proof -
  have "set (group_by_package fs by_cve) = set (map (bucket_plan by_cve fs) (map fst (first_pass by_cve fs)))"
    using group_mset by (rule mset_eq_setD)
  then show ?thesis by (simp only: set_map first_pass_keys)
qed

lemma bucket_plan_simps [simp]:
  "up_package (bucket_plan by_cve fs p) = p"
  "up_fixes (bucket_plan by_cve fs p) = map fix_ref_of (filter (covers by_cve p) fs)"
  "up_unresolved (bucket_plan by_cve fs p) = map cve_ref_of (filter (left_behind by_cve p) fs)"
  "up_to (bucket_plan by_cve fs p) =
     highest_version (map (\<lambda>f. lowest_version (the (map_of (fixes_for by_cve f) p))) (filter (covers by_cve p) fs))"
  by (simp_all add: bucket_plan_def upgrade_of_def Let_def first_pass_fixed comp_def)

text \<open>The Fix Plan is exact.  It lists each package once, and exactly the packages some open
  finding's advisory offers a fixed version for; the findings it claims an upgrade closes are exactly the
  ones so covered, each once, and there is at least one.\<close>

theorem plans_exact:
  "distinct (map up_package (group_by_package fs by_cve)) \<and>
   up_package ` set (group_by_package fs by_cve) = {p. \<exists>f\<in>set fs. p \<in> fst ` set (fixes_for by_cve f)} \<and>
   map up_fixes (group_by_package fs by_cve) =
     map (\<lambda>plan. map fix_ref_of (filter (\<lambda>f. up_package plan \<in> fst ` set (fixes_for by_cve f)) fs)) (group_by_package fs by_cve) \<and>
   [] \<notin> up_fixes ` set (group_by_package fs by_cve)"
proof (intro conjI)
  have "mset (map up_package (group_by_package fs by_cve)) = mset (map fst (first_pass by_cve fs))"
    using arg_cong [OF group_mset, of "image_mset up_package"] by (simp add: multiset.map_comp comp_def)
  then show "distinct (map up_package (group_by_package fs by_cve))"
    using first_pass_keys(1) mset_eq_imp_distinct_iff by blast
  show "up_package ` set (group_by_package fs by_cve) = {p. \<exists>f\<in>set fs. p \<in> fst ` set (fixes_for by_cve f)}"
    by (simp add: group_set image_image covers_def)
  show "map up_fixes (group_by_package fs by_cve) =
     map (\<lambda>plan. map fix_ref_of (filter (\<lambda>f. up_package plan \<in> fst ` set (fixes_for by_cve f)) fs)) (group_by_package fs by_cve)"
    by (auto simp: group_set covers_def [abs_def])
  show "[] \<notin> up_fixes ` set (group_by_package fs by_cve)"
    by (auto simp: group_set filter_empty_conv)
qed

text \<open>The recommended version is the lowest that suffices.  Every finding the plan claims to close
  has a published fix at or below it, so the upgrade closes them all; and it is itself the lowest fix of one
  of them, so no lower version would.\<close>

theorem upgrade_is_least:
  assumes "plan \<in> set (group_by_package fs by_cve)"
  shows "(\<forall>f\<in>set fs. \<forall>vs. (up_package plan, vs) \<in> set (fixes_for by_cve f) \<longrightarrow>
            (\<exists>v\<in>set vs. \<not> version_less (up_to plan) v)) \<and>
         (\<exists>f\<in>set fs. \<exists>vs. (up_package plan, vs) \<in> set (fixes_for by_cve f) \<and> up_to plan \<in> set vs \<and>
            (\<forall>v\<in>set vs. \<not> version_less v (up_to plan)))"
proof -
  from assms obtain p where p: "plan = bucket_plan by_cve fs p" "\<exists>f\<in>set fs. covers by_cve p f"
    by (auto simp: group_set)
  let ?vs = "\<lambda>f. the (map_of (fixes_for by_cve f) p)"
  have vs: "(p, vs) \<in> set (fixes_for by_cve f) \<longleftrightarrow> covers by_cve p f \<and> vs = ?vs f" for f vs
    using fixes_for_spec(1) [of by_cve f] by (force simp: covers_def)
  have low: "lowest_version (?vs f) \<in> set (?vs f) \<and> (\<forall>v\<in>set (?vs f). \<not> version_less v (lowest_version (?vs f)))"
    if "covers by_cve p f" for f
    using lowest_version_spec fixes_for_spec(2) vs that by blast
  let ?mins = "map (\<lambda>f. lowest_version (?vs f)) (filter (covers by_cve p) fs)"
  have "?mins \<noteq> []" using p(2) by (auto simp: filter_empty_conv)
  from highest_version_spec [OF this]
  have high: "up_to plan \<in> set ?mins" "\<forall>v\<in>set ?mins. \<not> version_less (up_to plan) v" using p(1) by simp_all
  have "\<exists>v\<in>set (?vs f). \<not> version_less (up_to plan) v" if "f \<in> set fs" "covers by_cve p f" for f
    using low [OF that(2)] high(2) that by auto
  moreover from high(1) obtain f where "f \<in> set fs" "covers by_cve p f" "up_to plan = lowest_version (?vs f)" by auto
  ultimately show ?thesis using low vs p(1) by (simp add: vs) metis
qed

text \<open>An empty plan is a statement about the data.  The number of plans is zero exactly when the
  coverage counts no finding with fix data, so a reader can tell an empty answer from an unmeasured one.\<close>

theorem empty_plan_means_no_fix_data:
  "pp_total (remediation_plan db target_id page page_size) = 0 \<longleftrightarrow>
   cv_findings_with_fix_data (pp_coverage (remediation_plan db target_id page page_size)) = 0"
proof -
  have "group_by_package fs by_cve = [] \<longleftrightarrow> filter (\<lambda>f. fixes_for by_cve f \<noteq> []) fs = []" for fs by_cve
  proof -
    have "group_by_package fs by_cve = [] \<longleftrightarrow> set (group_by_package fs by_cve) = {}" by simp
    then show ?thesis unfolding group_set covers_any [symmetric] by (auto simp: filter_empty_conv)
  qed
  then show ?thesis by (simp add: remediation_plan_def Let_def enrichment_coverage_def)
qed

subsection \<open>Order and pages\<close>

lemma upgrade_less_key:
  "upgrade_less p q \<longleftrightarrow>
     (- int (fixes_count p), - int (severity_name_rank (up_highest_severity p)), str_lower (up_package p))
     < (- int (fixes_count q), - int (severity_name_rank (up_highest_severity q)), str_lower (up_package q))"
  by (auto simp: upgrade_less_def less_prod_def' str_less_iff)

lemma sorted_by_key:
  fixes key :: "'a \<Rightarrow> 'k :: linorder"
  assumes "\<And>a b. lt a b \<longleftrightarrow> key a < key b"
  shows "sorted (map key (sort_by lt xs))"
proof -
  have "sorted_wrt (\<lambda>a b. \<not> lt b a) (sort_by lt xs)"
    by (rule sort_by_sorted) (auto simp: assms)
  then show ?thesis by (simp add: sorted_map assms not_less)
qed

lemma pages_partition:
  assumes "sz = nat (max (min page_size 500) 1)"
  shows "concat (map (\<lambda>i. page_of (int i + 1) page_size rows) [0..<n]) = take (n * sz) rows"
proof (induction n)
  case (Suc n)
  have "nat ((max (int n + 1) 1 - 1) * max (min page_size 500) 1) = n * sz"
    by (simp add: assms nat_mult_distrib)
  then have "page_of (int n + 1) page_size rows = take sz (drop (n * sz) rows)"
    by (simp only: page_of_def Let_def assms)
  moreover have "take (Suc n * sz) rows = take (n * sz) rows @ take sz (drop (n * sz) rows)"
    by (metis add.commute mult_Suc take_add)
  ultimately show ?case using Suc by simp
qed simp

definition rank :: "upgrade \<Rightarrow> int \<times> int \<times> string" where
  "rank p = (- int (fixes_count p), - int (severity_name_rank (up_highest_severity p)), str_lower (up_package p))"

text \<open>Pages lose nothing.  The pages of the Fix Plan, read one after the other, are the whole plan
  in order: no package is dropped or shown twice, and the plan is sorted by findings closed, then by highest severity,
  then by name.\<close>

theorem pages_are_the_plan:
  assumes "1 \<le> page_size" and "page_size \<le> 500" and "pp_total (remediation_plan db target_id 1 page_size) \<le> n * nat page_size"
  shows "concat (map (\<lambda>i. pp_plans (remediation_plan db target_id (int i + 1) page_size)) [0..<n]) = group_remediations db target_id \<and>
    sorted (map rank (group_remediations db target_id))"
proof
  let ?plan = "group_remediations db target_id"
  have sz: "nat page_size = nat (max (min page_size 500) 1)" using assms(1,2) by simp
  have "concat (map (\<lambda>i. pp_plans (remediation_plan db target_id (int i + 1) page_size)) [0..<n]) =
    concat (map (\<lambda>i. page_of (int i + 1) page_size ?plan) [0..<n])"
    by (simp add: remediation_plan_def group_remediations_def Let_def)
  with assms(3) show "concat (map (\<lambda>i. pp_plans (remediation_plan db target_id (int i + 1) page_size)) [0..<n]) = ?plan"
    using pages_partition [OF sz, of ?plan n] by (simp add: remediation_plan_def group_remediations_def Let_def)
  have "upgrade_less a b \<longleftrightarrow> rank a < rank b" for a b by (simp add: rank_def upgrade_less_key)
  from sorted_by_key [of upgrade_less rank, OF this]
  show "sorted (map rank ?plan)" by (simp add: group_remediations_def group_by_package_def Let_def)
qed

subsection \<open>What a plan leaves behind\<close>

text \<open>Every entry the cache stores names a version, so an advisory that names the package at all offers
  a fix for it.\<close>

lemma named_has_fix:
  assumes "row_ok row" and "p \<noteq> []" and "advisory_mentions row p"
  shows "fixes_by_package row fallback \<noteq> []"
proof -
  from assms obtain es e where e: "ce_fixed_versions row = Entries es" "e \<in> set es" "fx_package e = Some p" "names_version e"
    by (auto simp: advisory_mentions_def entries_of_def row_ok_def list_ex_iff list_all_iff split: fixed_versions_column.splits)
  then have "fix_names fallback e = Some p"
    using assms(2) by (auto simp: fix_names_def given_def names_version_def split: option.splits)
  with e(2) have "p \<in> fst ` set (fixes_loop fallback es [])" using fixes_loop_spec [of "[]" fallback es] by auto
  with e(1) show ?thesis by (auto simp: fixes_by_package_def)
qed

lemma covered_name: "covers by_cve p f \<Longrightarrow> p \<noteq> []"
proof -
  assume "covers by_cve p f"
  then obtain es where "p \<in> fst ` set (fixes_loop (f_package_name f) es [])"
    by (auto simp: covers_def fixes_for_def fixes_by_package_def split: option.splits fixed_versions_column.splits)
  then obtain e where "fix_names (f_package_name f) e = Some p" using fixes_loop_spec [of "[]" "f_package_name f" es] by auto
  then show ?thesis by (rule fix_names_nonempty)
qed

text \<open>The unresolved list is always empty.  With a cache that the code itself filled, no plan ever
  reports a CVE the upgrade leaves behind, although the plan's documentation promises that list as its
  guard against overstating: the cache keeps no entry for a package without a fix.\<close>

theorem unresolved_is_always_empty:
  assumes "cve_cache_ok (d_enrichments db)" and "plan \<in> set (group_remediations db target_id)"
  shows "up_unresolved plan = []"
proof -
  let ?fs = "open_cve_findings db target_id" and ?by = "enrichment_by_cve db (open_cve_findings db target_id)"
  from assms(2) obtain p where p: "plan = bucket_plan ?by ?fs p" "p \<noteq> []"
    by (auto simp: group_remediations_def group_set Let_def dest: covered_name)
  have "\<not> left_behind ?by p f" for f
  proof
    assume l: "left_behind ?by p f"
    then obtain row where row: "cve_row ?by f = Some row" "fixes_by_package row (f_package_name f) = []" "advisory_mentions row p"
      by (auto simp: left_behind_def split: option.splits)
    then have "row \<in> set (d_enrichments db)"
      by (auto simp: cve_row_def enrichment_by_cve_def dest!: map_of_SomeD split: if_splits)
    with assms(1) have "row_ok row" by (auto simp: cve_cache_ok_def list_all_iff)
    from named_has_fix [OF this p(2) row(3)] row(2) show False by blast
  qed
  with p(1) show ?thesis by simp
qed

subsection \<open>Concrete plans\<close>

definition cve_finding :: "row_id \<Rightarrow> string \<Rightarrow> string option \<Rightarrow> finding" where
  "cve_finding i cve package =
     example_finding\<lparr>f_id := i, f_state := OPEN, f_cve_id := Some cve, f_package_name := package\<rparr>"

definition advisory_row :: "string \<Rightarrow> (string \<times> string) list \<Rightarrow> cve_enrichment" where
  "advisory_row cve fixes = (bare_row cve None None)\<lparr>ce_osv_found := True, ce_fixed_versions := Entries
     (map (\<lambda>(p, v). \<lparr>fx_package = Some p, fx_ecosystem = Some ''PyPI'', fx_fixed = Some v\<rparr>) fixes)\<rparr>"

definition plan_db :: "finding list \<Rightarrow> cve_enrichment list \<Rightarrow> db" where
  "plan_db fs rows = empty_db\<lparr>d_targets := [example_target], d_findings := fs, d_enrichments := rows\<rparr>"

definition two_branches :: db where
  "two_branches = plan_db [cve_finding 1 ''CVE-1'' (Some ''lib''), cve_finding 2 ''CVE-2'' (Some ''lib'')]
     [advisory_row ''CVE-1'' [(''lib'', ''1.2.5''), (''lib'', ''2.0.3'')], advisory_row ''CVE-2'' [(''lib'', ''2.0.0'')]]"

text \<open>The lowest fix is taken over all release branches, so the recommended version can lie below the
  fix of its own branch: here 2.0.0 is recommended for CVE-1, which is fixed in 1.2.5 and only again in 2.0.3.\<close>

lemma branch_fix_is_missed:
  "map (\<lambda>u. (up_to u, length (up_fixes u))) (group_remediations two_branches 1) = [(''2.0.0'', 2)]"
  by code_simp

text \<open>A finding joins the plan of every package its advisory lists, not only of the one it was found in.\<close>

lemma other_package_is_grouped:
  "map (\<lambda>u. (up_package u, up_to u)) (group_remediations (plan_db [cve_finding 1 ''CVE-1'' (Some ''a'')]
     [advisory_row ''CVE-1'' [(''b'', ''3.0'')]]) 1) = [(''b'', ''3.0'')]"
  by code_simp

text \<open>The order does not separate two names that differ in case alone, so between those the plan follows the
  order the database returned the findings in.\<close>

lemma case_only_tie:
  "map (\<lambda>fs. map up_package (group_remediations (plan_db fs
       [advisory_row ''CVE-1'' [(''Lib'', ''2'')], advisory_row ''CVE-2'' [(''lib'', ''2'')]]) 1))
     [[cve_finding 1 ''CVE-1'' None, cve_finding 2 ''CVE-2'' None], [cve_finding 2 ''CVE-2'' None, cve_finding 1 ''CVE-1'' None]] =
   [[''Lib'', ''lib''], [''lib'', ''Lib'']]"
  by code_simp

theorem upgrade_is_least_witness:
  "\<exists>plan\<in>set (group_remediations two_branches 1). \<exists>f\<in>set (open_cve_findings two_branches 1).
     \<exists>vs. (up_package plan, vs) \<in> set (fixes_for (enrichment_by_cve two_branches (open_cve_findings two_branches 1)) f) \<and>
       up_to plan \<in> set vs"
proof -
  have "group_remediations two_branches 1 \<noteq> []" by code_simp
  then obtain plan where p: "plan \<in> set (group_remediations two_branches 1)" by (meson list.set_sel(1))
  then have "plan \<in> set (group_by_package (open_cve_findings two_branches 1)
      (enrichment_by_cve two_branches (open_cve_findings two_branches 1)))"
    by (simp add: group_remediations_def Let_def)
  from upgrade_is_least [OF this] p show ?thesis by blast
qed

theorem pages_are_the_plan_witness:
  "concat (map (\<lambda>i. pp_plans (remediation_plan two_branches 1 (int i + 1) 25)) [0..<1]) = group_remediations two_branches 1"
proof -
  have "pp_total (remediation_plan two_branches 1 1 25) \<le> 1 * nat 25" by code_simp
  from pages_are_the_plan [OF _ _ this] show ?thesis by simp
qed

theorem unresolved_is_always_empty_witness:
  "\<exists>plan\<in>set (group_remediations two_branches 1). up_unresolved plan = []"
proof -
  have "group_remediations two_branches 1 \<noteq> []" by code_simp
  then obtain plan where p: "plan \<in> set (group_remediations two_branches 1)" by (meson list.set_sel(1))
  have "cve_cache_ok (d_enrichments two_branches)" by code_simp
  from unresolved_is_always_empty [OF this p] p show ?thesis by blast
qed

end
