(* ===== verification/AutofixProps.thy ===== *)
theory AutofixProps
  imports FixPr RemediationProps
begin

text \<open>
  What a fix may do: a patch edits text that is really in the file, a bump changes one version, and a pull
  request writes to a branch of its own and is opened last.
\<close>

subsection \<open>Replacing text\<close>

lemma replace_once_split:
  "str_contains old s \<Longrightarrow> \<exists>a b. s = a @ old @ b \<and> replace_once old new s = a @ new @ b"
proof (induction s)
  case (Cons c cs)
  show ?case
  proof (cases "starts_with old (c # cs)")
    case True
    then obtain b where b: "c # cs = old @ b" by (auto simp: starts_with_iff)
    then have "drop (length old) (c # cs) = b" by simp
    with True have "replace_once old new (c # cs) = new @ b" by (simp only: replace_once.simps if_True)
    with b show ?thesis by (intro exI [of _ "[]"] exI [of _ b]) simp
  next
    case False
    with Cons.prems have "str_contains old cs" by simp
    from Cons.IH [OF this] obtain a b where "cs = a @ old @ b" "replace_once old new cs = a @ new @ b" by blast
    with False show ?thesis by (intro exI [of _ "c # a"] exI [of _ b]) simp
  qed
qed simp

lemma count_from_contains: "0 < count_from k old s \<Longrightarrow> str_contains old s"
  by (induction k old s rule: count_from.induct) (auto split: if_splits)

lemma count_in_contains: "count_in old s = 1 \<Longrightarrow> old \<noteq> [] \<Longrightarrow> str_contains old s"
  using count_from_contains [of 0 old s] by (simp add: count_in_def)

text \<open>Counting occurrences that do not overlap takes two overlapping ones for a unique match.\<close>

lemma overlap_counts_once: "count_in ''aa'' ''aaa'' = 1"
  by code_simp

subsection \<open>What the bumpers replace\<close>

text \<open>A name is the package's up to case and the characters the package index treats alike.\<close>

definition same_char :: "char \<Rightarrow> char \<Rightarrow> bool" where
  "same_char c d \<longleftrightarrow> char_lower c = char_lower d \<or> c \<in> set ''-_.'' \<and> d \<in> set ''-_.''"

definition names_package :: "string \<Rightarrow> string \<Rightarrow> bool" where
  "names_package package pin \<longleftrightarrow> (\<exists>x n y. pin = x @ n @ y \<and> list_all2 same_char n package)"

text \<open>A part of a match.\<close>

definition inside :: "re \<Rightarrow> string \<Rightarrow> bool" where
  "inside r m \<longleftrightarrow> (\<exists>x n y prev rest. m = x @ n @ y \<and> lang r prev n rest)"

lemma insideI: "lang r prev m rest \<Longrightarrow> inside r m"
  unfolding inside_def by (intro exI [of _ "[]"] exI [of _ m] exI [of _ prev] exI [of _ rest]) simp

lemma inside_Seq:
  assumes "inside (Seq r q) m"
  shows "inside r m" and "inside q m"
proof -
  from assms obtain x n y prev rest where m: "m = x @ n @ y" "lang (Seq r q) prev n rest" unfolding inside_def by blast
  from m(2) obtain a b where ab: "n = a @ b" "lang r prev a (b @ rest)" "lang q (after prev a) b rest" by auto
  have "m = x @ a @ (b @ y)" "m = (x @ a) @ b @ y" using m(1) ab(1) by simp_all
  with ab show "inside r m" "inside q m" unfolding inside_def by blast+
qed

lemma inside_parts: "inside (Seq r q) m \<Longrightarrow> inside r m \<and> inside q m"
  using inside_Seq by blast

lemma lang_first: "lang (Seq (Chr p) r) prev m rest \<Longrightarrow> \<exists>d ds. m = d # ds \<and> p d"
  by auto

lemma lang_maybe_chr: "lang (maybe (Chr p)) prev m rest \<Longrightarrow> m = [] \<or> (\<exists>c. m = [c] \<and> p c)"
  by auto

lemma lang_fuzzy: "lang (fuzzy_pkg_pattern pkg) prev m rest \<Longrightarrow> list_all2 same_char m pkg"
  by (induction pkg arbitrary: prev m) (auto simp: fuzzy_pkg_pattern_def same_char_def split: if_splits)

lemma same_char_refl [simp]: "list_all2 same_char n n"
  by (simp add: list_all2_refl same_char_def)

lemma names_middle: "list_all2 same_char n package \<Longrightarrow> names_package package (x @ n @ y)"
  unfolding names_package_def by blast

text \<open>A single match is text of the file.\<close>

lemma single_match: "find_all rs s = [g] \<Longrightarrow> str_contains (concat g) s \<and> (\<exists>prev b. group_lang rs prev g b)"
  using find_all_sound [of g rs s] by (auto simp: str_contains_iff)

definition version_edit :: "string \<Rightarrow> string \<Rightarrow> string \<Rightarrow> string \<Rightarrow> bool" where
  "version_edit package new_version old new \<longleftrightarrow>
     (\<exists>pin was suffix written. old = pin @ was @ suffix \<and> new = pin @ written @ suffix \<and> names_package package pin \<and>
        (\<exists>d ds. was = d # ds \<and> (is_digit d \<or> d = CHR ''v'')) \<and> written \<in> {new_version, CHR ''v'' # new_version})"

lemma version_editI:
  assumes "names_package package pin" "old = pin @ was @ suffix" "new = pin @ written @ suffix"
    "was = d # ds" "is_digit d \<or> d = CHR ''v''" "written = v \<or> written = CHR ''v'' # v"
  shows "version_edit package v old new"
  unfolding version_edit_def using assms by blast

lemma requirements_edit:
  assumes "bump_requirements_txt content package v = Some (old, new)"
  shows "str_contains old content \<and> version_edit package v old new"
proof -
  from assms obtain g1 g2 where g: "find_all (requirement_pattern package) content = [[g1, g2]]" "old = g1 @ g2" "new = g1 @ v"
    by (auto simp: bump_requirements_txt_def split: list.splits)
  from single_match [OF g(1)] obtain prev b where
    m: "str_contains (concat [g1, g2]) content" "group_lang (requirement_pattern package) prev [g1, g2] b" by blast
  from m(2) have "inside (hd (requirement_pattern package)) g1" by (auto simp: requirement_pattern_def simp del: lang_simps intro: insideI)
  then have "inside (fuzzy_pkg_pattern package) g1" by (auto simp only: requirement_pattern_def list.sel dest!: inside_parts)
  then have "names_package package g1" unfolding inside_def names_package_def by (blast dest: lang_fuzzy)
  moreover from m(2) obtain d ds where "g2 = d # ds" "is_digit d"
    by (auto simp: requirement_pattern_def simp del: lang_simps dest!: lang_first)
  ultimately show ?thesis using m(1) g version_editI [of package g1 old g2 "[]" new v d ds v] by simp
qed

lemma go_mod_edit:
  assumes "bump_go_mod content package v = Some (old, new)"
  shows "str_contains old content \<and> version_edit package v old new"
proof -
  from assms obtain g1 g2 g3 where g: "find_all (go_mod_pattern package) content = [[g1, g2, g3]]" "old = g1 @ g2 @ g3"
    "new = g1 @ (if starts_with ''v'' v then v else CHR ''v'' # v)"
    by (auto simp: bump_go_mod_def split: list.splits)
  from single_match [OF g(1)] obtain prev b where
    m: "str_contains (concat [g1, g2, g3]) content" "group_lang (go_mod_pattern package) prev [g1, g2, g3] b" by blast
  from m(2) have "inside (hd (go_mod_pattern package)) g1" by (auto simp: go_mod_pattern_def simp del: lang_simps intro: insideI)
  then have "inside (exactly package) g1" by (auto simp only: go_mod_pattern_def list.sel dest!: inside_parts)
  then have "names_package package g1" unfolding inside_def names_package_def by force
  moreover from m(2) obtain d ds where "g3 = d # ds" "is_digit d" "g2 = [] \<or> g2 = ''v''"
    by (auto simp: go_mod_pattern_def simp del: lang_simps lang_maybe dest!: lang_first lang_maybe_chr)
  then obtain d' ds' where "g2 @ g3 = d' # ds'" "is_digit d' \<or> d' = CHR ''v''" by auto
  ultimately show ?thesis
    using m(1) g version_editI [of package g1 old "g2 @ g3" "[]" new _ d' ds' v] by (auto split: if_splits)
qed

lemma package_json_edit:
  assumes "bump_package_json content package v = Some (old, new)"
  shows "str_contains old content \<and> version_edit package v old new"
proof -
  from assms obtain g1 g2 g3 g4 where g: "find_all (package_json_pattern package) content = [[g1, g2, g3, g4]]"
    "old = g1 @ g2 @ g3 @ g4" "new = g1 @ g2 @ v @ g4"
    by (auto simp: bump_package_json_def split: list.splits)
  from single_match [OF g(1)] obtain prev b where
    m: "str_contains (concat [g1, g2, g3, g4]) content" "group_lang (package_json_pattern package) prev [g1, g2, g3, g4] b" by blast
  from m(2) have "inside (hd (package_json_pattern package)) g1" by (auto simp: package_json_pattern_def simp del: lang_simps intro: insideI)
  then have "inside (exactly package) g1" by (auto simp only: package_json_pattern_def list.sel dest!: inside_parts)
  then obtain x y where "g1 @ g2 = x @ package @ (y @ g2)" unfolding inside_def by force
  then have "names_package package (g1 @ g2)" by (simp add: names_middle)
  moreover from m(2) obtain d ds where "g3 = d # ds" "is_digit d"
    by (auto simp: package_json_pattern_def simp del: lang_simps lang_maybe dest!: lang_first)
  moreover have "old = (g1 @ g2) @ g3 @ g4" "new = (g1 @ g2) @ v @ g4" using g by simp_all
  ultimately show ?thesis using m(1) g(2) version_editI [of package "g1 @ g2" old g3 g4 new v d ds v] by simp
qed

lemma bumper_edit:
  "bumper_for_path path = Some bumper \<Longrightarrow> bumper content package v = Some (old, new) \<Longrightarrow>
   str_contains old content \<and> version_edit package v old new"
  by (auto simp: bumper_for_path_def MANIFEST_BUMPERS_def split: if_splits
      dest: requirements_edit package_json_edit go_mod_edit)

text \<open>A bump changes one version and nothing else.  Whatever manifest it is given, the text it writes
  differs from the file in one place, where a version, preceded by the package's name, is replaced by the
  new one.\<close>

theorem bump_changes_one_version:
  assumes "bumper_for_path path = Some bumper" and "bumper content package v = Some (old, new)"
  shows "\<exists>a pin was written b. content = a @ pin @ was @ b \<and> replace_once old new content = a @ pin @ written @ b \<and>
     names_package package pin \<and> written \<in> {v, CHR ''v'' # v} \<and> was \<noteq> []"
proof -
  from bumper_edit [OF assms] obtain pin was suffix written where
    e: "old = pin @ was @ suffix" "new = pin @ written @ suffix" "names_package package pin" "was \<noteq> []"
      "written \<in> {v, CHR ''v'' # v}" and c: "str_contains old content"
    unfolding version_edit_def by blast
  from replace_once_split [OF c] obtain a b where "content = a @ old @ b" "replace_once old new content = a @ new @ b"
    by blast
  with e have "content = a @ pin @ was @ (suffix @ b) \<and> replace_once old new content = a @ pin @ written @ (suffix @ b)"
    by simp
  with e show ?thesis by blast
qed

text \<open>The place is the first where the text occurs, not the line that was matched, so another package
  whose name ends the same way is bumped instead.\<close>

lemma bump_hits_another_package:
  "(let s = ''pytest-foo==1.0'' @ [LINE_FEED] @ ''foo==1.0'' in
    map_option (\<lambda>(old, new). replace_once old new s) (bump_requirements_txt s ''foo'' ''2.0'')) =
   Some (''pytest-foo==2.0'' @ [LINE_FEED] @ ''foo==1.0'')"
  by code_simp

text \<open>Nothing compares the recommended version with the pinned one, so a bump can be a downgrade.\<close>

lemma bump_can_downgrade:
  "bump_requirements_txt ''lib==2.0.1'' ''lib'' ''1.2.5'' = Some (''lib==2.0.1'', ''lib==1.2.5'')"
  by code_simp

subsection \<open>Patches\<close>

lemma least_by_mem: "least_by lt x xs \<in> set (x # xs)"
  by (induction xs arbitrary: x) auto

definition edits_text :: "string \<Rightarrow> string \<Rightarrow> bool" where
  "edits_text s s' \<longleftrightarrow> (\<exists>a old new b. old \<noteq> [] \<and> s = a @ old @ b \<and> s' = a @ new @ b)"

lemma replace_edits:
  assumes "str_contains old s" and "old \<noteq> []"
  shows "edits_text s (replace_once old new s)"
proof -
  from replace_once_split [OF assms(1)] obtain a b where "s = a @ old @ b" "replace_once old new s = a @ new @ b" by blast
  with assms(2) show ?thesis unfolding edits_text_def
    by (intro exI [of _ a] exI [of _ old] exI [of _ new] exI [of _ b]) simp
qed

lemma apply_edit_edits:
  assumes "proposed_edit j = Inr (Some x)" and "apply_edit content x = Inr (Some (new_content, e))"
  shows "edits_text content new_content"
proof -
  from assms obtain old new where x: "count_in old content = 1" "old \<noteq> []" "new_content = replace_once old new content"
    by (auto simp: proposed_edit_def apply_edit_def is_true_def Let_def split: if_splits json.splits)
  then show ?thesis using replace_edits count_in_contains by simp
qed

definition patch_for :: "fix_world \<Rightarrow> finding \<Rightarrow> target \<Rightarrow> patch \<Rightarrow> bool" where
  "patch_for w f t p \<longleftrightarrow> pa_file_path p = f_file_path f \<and>
     fetch_file w t (pa_ref p) (f_file_path f) = Inr (Some (pa_old_content p)) \<and>
     edits_text (pa_old_content p) (pa_new_content p)"

lemma ai_patch_for: "ai_patch w f t = Inr (Some p) \<Longrightarrow> patch_for w f t p"
  by (auto simp: ai_patch_def patch_for_def Let_def intro: apply_edit_edits split: sum.splits option.splits)

lemma sca_patch_for:
  assumes "deterministic_sca_patch w db f t = Inr (Some p)"
  shows "patch_for w f t p"
proof -
  from assms obtain package v bumper content old new where
    b: "bumper_for_path (f_file_path f) = Some bumper" "bumper content package v = Some (old, new)"
    and f: "fetch_file w t (branch_of t f) (f_file_path f) = Inr (Some content)"
    and p: "pa_file_path p = f_file_path f" "pa_old_content p = content" "pa_ref p = branch_of t f"
      "pa_new_content p = replace_once old new content"
    by (auto simp: deterministic_sca_patch_def Let_def split: sum.splits option.splits)
  from bumper_edit [OF b] have "str_contains old content" "old \<noteq> []" by (auto simp: version_edit_def)
  with f p show ?thesis by (simp add: patch_for_def replace_edits)
qed

text \<open>A patch edits text that is in the file now.  Whether the AI provider or the advisory proposed it, a
  patch is for the finding's own file as GitHub returned it a moment before, and it replaces one non-empty
  piece of that text; nothing is invented around it.\<close>

theorem patch_edits_present_text:
  assumes "build_patch w db f = Inr (Some p)"
  shows "\<exists>t. get_target db (f_target_id f) = Some t \<and> pa_file_path p = f_file_path f \<and>
     fetch_file w t (pa_ref p) (f_file_path f) = Inr (Some (pa_old_content p)) \<and>
     (\<exists>a old new b. old \<noteq> [] \<and> pa_old_content p = a @ old @ b \<and> pa_new_content p = a @ new @ b)"
proof -
  from assms obtain t where t: "get_target db (f_target_id f) = Some t"
    and "ai_patch w f t = Inr (Some p) \<or> deterministic_sca_patch w db f t = Inr (Some p)"
    by (auto simp: build_patch_def split: option.splits sum.splits if_splits)
  then have "patch_for w f t p" using ai_patch_for sca_patch_for by blast
  with t show ?thesis unfolding patch_for_def edits_text_def by blast
qed

subsection \<open>Writing to GitHub\<close>

text \<open>The writes among a list of requests, in order, each with whether GitHub accepted it.\<close>

fun is_write :: "gh_request \<Rightarrow> bool" where
  "is_write (GetRef _) = False"
| "is_write (GetContents _ _) = False"
| "is_write _ = True"

definition answered_ok :: "answer \<Rightarrow> bool" where
  "answered_ok a \<longleftrightarrow> (case a of None \<Rightarrow> False | Some (status, _) \<Rightarrow> accepted status)"

fun write_log :: "fix_world \<Rightarrow> gh_request list \<Rightarrow> gh_request list \<Rightarrow> (gh_request \<times> bool) list" where
  "write_log w sent [] = []"
| "write_log w sent (r # rs) =
     (if is_write r then [(r, answered_ok (fw_answer w sent r))] else []) @ write_log w (sent @ [r]) rs"

lemma write_log_append [simp]: "write_log w sent (xs @ ys) = write_log w sent xs @ write_log w (sent @ xs) ys"
  by (induction xs arbitrary: sent) simp_all

text \<open>Every file of a list written to a branch, in order and accepted, whatever hash each replaced.\<close>

fun accepted_puts :: "string \<Rightarrow> (string \<times> string) list \<Rightarrow> (gh_request \<times> bool) list \<Rightarrow> bool" where
  "accepted_puts branch [] ws = (ws = [])"
| "accepted_puts branch ((path, content) # files) ws =
     (\<exists>sha ws'. ws = (PutContents path content branch sha, True) # ws' \<and> accepted_puts branch files ws')"

text \<open>Some of the files of a list written to a branch, in order: the writing ended at the first that was refused,
  or before one whose present hash could not be read.\<close>

fun puts_until_refused :: "string \<Rightarrow> (string \<times> string) list \<Rightarrow> (gh_request \<times> bool) list \<Rightarrow> bool" where
  "puts_until_refused branch [] ws = False"
| "puts_until_refused branch ((path, content) # files) ws =
     (ws = [] \<or> (\<exists>sha. ws = [(PutContents path content branch sha, False)]) \<or>
      (\<exists>sha ws'. ws = (PutContents path content branch sha, True) # ws' \<and> puts_until_refused branch files ws'))"

definition puts_ended :: "exn option \<Rightarrow> string \<Rightarrow> (string \<times> string) list \<Rightarrow> (gh_request \<times> bool) list \<Rightarrow> bool" where
  "puts_ended e branch files ws \<longleftrightarrow> (case e of None \<Rightarrow> accepted_puts branch files ws | Some _ \<Rightarrow> puts_until_refused branch files ws)"

lemma puts_ended_Cons:
  "puts_ended e branch files ws \<Longrightarrow>
   puts_ended e branch ((path, content) # files) ((PutContents path content branch sha, True) # ws)"
  by (auto simp: puts_ended_def split: option.splits)

lemma put_files_writes:
  "put_files w branch files sent = (e, sent') \<Longrightarrow>
   \<exists>reqs. sent' = sent @ reqs \<and> puts_ended e branch files (write_log w sent reqs)"
proof (induction w branch files sent arbitrary: sent' rule: put_files.induct)
  case (2 w branch path content files sent)
  let ?get = "GetContents path branch"
  show ?case
  proof (cases "case fw_answer w sent ?get of None \<Rightarrow> None | Some (status, body) \<Rightarrow> existing_sha status body")
    case None
    with 2(2) have "e \<noteq> None \<and> sent' = sent @ [?get]"
      by (auto simp: Let_def split: option.splits)
    then show ?thesis by (intro exI [of _ "[?get]"]) (auto simp: puts_ended_def)
  next
    case (Some sha)
    let ?put = "PutContents path content branch sha"
    show ?thesis
    proof (cases "answered_ok (fw_answer w (sent @ [?get]) ?put)")
      case True
      with Some obtain status body put_status put_body where
        a: "fw_answer w sent ?get = Some (status, body)" "existing_sha status body = Some sha"
          "fw_answer w (sent @ [?get]) ?put = Some (put_status, put_body)" "accepted put_status"
        by (auto simp: answered_ok_def split: option.splits)
      from a 2(2) have "put_files w branch files (sent @ [?get] @ [?put]) = (e, sent')" by (simp add: Let_def)
      with a 2(1) obtain reqs where r: "sent' = (sent @ [?get] @ [?put]) @ reqs"
        "puts_ended e branch files (write_log w (sent @ [?get] @ [?put]) reqs)" by (simp add: Let_def) blast
      with True puts_ended_Cons [OF r(2)] show ?thesis by (intro exI [of _ "?get # ?put # reqs"]) simp
    next
      case False
      with Some 2(2) have "e \<noteq> None \<and> sent' = sent @ [?get] @ [?put]"
        by (auto simp: Let_def answered_ok_def split: option.splits if_splits)
      with False show ?thesis by (intro exI [of _ "[?get, ?put]"]) (auto simp: puts_ended_def)
    qed
  qed
qed (simp add: puts_ended_def)

text \<open>The branch is created from the commit GitHub names as the head of the base.\<close>

definition head_of :: "answer \<Rightarrow> json option" where
  "head_of a = (case a of Some (status, body) \<Rightarrow> if status = 200 then json_key ''sha'' (json_key ''object'' body) else None
      | None \<Rightarrow> None)"

lemma create_branch_writes:
  assumes "create_branch w ref branch sent = (e, sent')"
  shows "(\<exists>sha. head_of (fw_answer w sent (GetRef ref)) = Some sha \<and> sent' = sent @ [GetRef ref, CreateBranch branch sha] \<and>
       answered_ok (fw_answer w (sent @ [GetRef ref]) (CreateBranch branch sha)) = (e = None)) \<or>
     e \<noteq> None \<and> sent' = sent @ [GetRef ref]"
proof (cases "head_of (fw_answer w sent (GetRef ref))")
  case None
  then have "e \<noteq> None \<and> sent' = sent @ [GetRef ref]"
    using assms by (auto simp: create_branch_def head_of_def Let_def split: option.splits if_splits)
  then show ?thesis by blast
next
  case (Some sha)
  then have "sent' = sent @ [GetRef ref, CreateBranch branch sha] \<and>
      answered_ok (fw_answer w (sent @ [GetRef ref]) (CreateBranch branch sha)) = (e = None)"
    using assms by (auto simp: create_branch_def head_of_def answered_ok_def Let_def split: option.splits if_splits)
  with Some show ?thesis by blast
qed

text \<open>The writes of a fix that is reported as opened, and of one that is not: none; a branch that was refused; a
  branch and the files up to a failure; or everything, and a pull request that was refused or whose answer does
  not read.\<close>

definition fix_writes ::
  "string \<Rightarrow> string \<Rightarrow> json option \<Rightarrow> (string \<times> string) list \<Rightarrow> exn + pull \<Rightarrow> (gh_request \<times> bool) list \<Rightarrow> bool" where
  "fix_writes ref branch head files result ws \<longleftrightarrow>
     (case result of
        Inr pr \<Rightarrow> pl_branch pr = branch \<and>
          (\<exists>sha puts. head = Some sha \<and> ws = (CreateBranch branch sha, True) # puts @ [(OpenPull branch ref, True)] \<and>
             accepted_puts branch files puts)
      | Inl e \<Rightarrow> ws = [] \<or>
          (\<exists>sha. head = Some sha \<and>
             (ws = [(CreateBranch branch sha, False)] \<or>
              (\<exists>puts. ws = (CreateBranch branch sha, True) # puts \<and> puts_until_refused branch files puts) \<or>
              (\<exists>puts ok. ws = (CreateBranch branch sha, True) # puts @ [(OpenPull branch ref, ok)] \<and>
                 accepted_puts branch files puts))))"

lemma open_pull_writes:
  "open_pull w ref branch sent = (result, sent') \<Longrightarrow> sent' = sent @ [OpenPull branch ref] \<and>
   (\<forall>pr. result = Inr pr \<longrightarrow> pl_branch pr = branch \<and> answered_ok (fw_answer w sent (OpenPull branch ref)))"
  by (auto simp: open_pull_def pull_of_def answered_ok_def split: option.splits if_splits json.splits)

lemma commit_writes:
  assumes "commit_files_and_open_pr w target ref branch files sent = (result, sent')"
  shows "\<exists>reqs. sent' = sent @ reqs \<and> fix_writes ref branch (head_of (fw_answer w sent (GetRef ref))) files result (write_log w sent reqs) \<and>
    (reqs \<in> {[], [GetRef ref]} \<or> (\<exists>sha rest. reqs = GetRef ref # CreateBranch branch sha # rest))"
proof -
  consider (early) e where "result = Inl e" "sent' = sent"
    | (branch) e where "result = Inl e" "create_branch w ref branch sent = (Some e, sent')"
    | (put) sent1 e where "create_branch w ref branch sent = (None, sent1)" "put_files w branch files sent1 = (Some e, sent')"
        "result = Inl e"
    | (pull) sent1 sent2 where "create_branch w ref branch sent = (None, sent1)" "put_files w branch files sent1 = (None, sent2)"
        "open_pull w ref branch sent2 = (result, sent')"
    using assms by (auto simp: commit_files_and_open_pr_def split: sum.splits bool.splits prod.splits option.splits)
  then show ?thesis
  proof cases
    case early
    then show ?thesis by (intro exI [of _ "[]"]) (simp add: fix_writes_def)
  next
    case branch
    from create_branch_writes [OF branch(2)] show ?thesis
    proof (elim disjE exE conjE)
      fix sha assume "head_of (fw_answer w sent (GetRef ref)) = Some sha" "sent' = sent @ [GetRef ref, CreateBranch branch sha]"
        "answered_ok (fw_answer w (sent @ [GetRef ref]) (CreateBranch branch sha)) = (Some e = None)"
      with branch(1) show ?thesis by (intro exI [of _ "[GetRef ref, CreateBranch branch sha]"]) (simp add: fix_writes_def)
    next
      assume "sent' = sent @ [GetRef ref]"
      with branch(1) show ?thesis by (intro exI [of _ "[GetRef ref]"]) (simp add: fix_writes_def)
    qed
  next
    case put
    from create_branch_writes [OF put(1)] obtain sha where c: "head_of (fw_answer w sent (GetRef ref)) = Some sha"
      "sent1 = sent @ [GetRef ref, CreateBranch branch sha]" "answered_ok (fw_answer w (sent @ [GetRef ref]) (CreateBranch branch sha))"
      by auto
    from put_files_writes [OF put(2)] obtain reqs where "sent' = sent1 @ reqs"
      "puts_until_refused branch files (write_log w sent1 reqs)" by (auto simp: puts_ended_def)
    with c put(3) show ?thesis
      by (intro exI [of _ "GetRef ref # CreateBranch branch sha # reqs"]) (simp add: fix_writes_def)
  next
    case pull
    from create_branch_writes [OF pull(1)] obtain sha where c: "head_of (fw_answer w sent (GetRef ref)) = Some sha"
      "sent1 = sent @ [GetRef ref, CreateBranch branch sha]" "answered_ok (fw_answer w (sent @ [GetRef ref]) (CreateBranch branch sha))"
      by auto
    from put_files_writes [OF pull(2)] obtain reqs where r: "sent2 = sent1 @ reqs" "accepted_puts branch files (write_log w sent1 reqs)"
      by (auto simp: puts_ended_def)
    from open_pull_writes [OF pull(3)] have "sent' = sent2 @ [OpenPull branch ref]"
      "\<forall>pr. result = Inr pr \<longrightarrow> pl_branch pr = branch \<and> answered_ok (fw_answer w sent2 (OpenPull branch ref))" by blast+
    with c r show ?thesis
      by (intro exI [of _ "GetRef ref # CreateBranch branch sha # reqs @ [OpenPull branch ref]"])
        (auto simp: fix_writes_def split: sum.split)
  qed
qed

text \<open>Whatever was written went to the branch.\<close>

lemma accepted_puts_branch: "accepted_puts branch files ws \<Longrightarrow> (PutContents p c b sha, ok) \<in> set ws \<Longrightarrow> b = branch"
  by (induction branch files ws rule: accepted_puts.induct) auto

lemma puts_until_refused_branch: "puts_until_refused branch files ws \<Longrightarrow> (PutContents p c b sha, ok) \<in> set ws \<Longrightarrow> b = branch"
  by (induction branch files ws rule: puts_until_refused.induct) auto

lemma fix_writes_put:
  assumes "fix_writes ref branch head files result ws" and "(PutContents p c b sha, ok) \<in> set ws"
  shows "b = branch \<and> (\<exists>sha' ws'. ws = (CreateBranch branch sha', True) # ws')"
  using assms by (auto simp: fix_writes_def dest: accepted_puts_branch puts_until_refused_branch split: sum.splits)

text \<open>C13: A fix never touches the base branch, and a pull request shows all of it.  The writes are, in order, the
  creation of the fix's branch at the commit GitHub named as the head of the base, one write per file to that branch, and the
  pull request into the base; each is sent only when every one before it was accepted, and the first that is refused ends
  the call with an error.  A result is reported only when all of them were accepted.  Since GitHub refuses to create a
  branch whose name it has just resolved, no file is ever written to the base.\<close>

theorem fix_keeps_to_its_branch:
  assumes "commit_files_and_open_pr w target ref branch files sent = (result, sent')"
  shows "\<exists>reqs. sent' = sent @ reqs \<and>
    fix_writes ref branch (head_of (fw_answer w sent (GetRef ref))) files result (write_log w sent reqs) \<and>
    (\<forall>path content b sha ok. (PutContents path content b sha, ok) \<in> set (write_log w sent reqs) \<longrightarrow> b = branch \<and>
       ((\<forall>sha. \<not> answered_ok (fw_answer w (sent @ [GetRef ref]) (CreateBranch ref sha))) \<longrightarrow> b \<noteq> ref))"
proof -
  from commit_writes [OF assms] obtain reqs where r: "sent' = sent @ reqs"
    "fix_writes ref branch (head_of (fw_answer w sent (GetRef ref))) files result (write_log w sent reqs)"
    "reqs \<in> {[], [GetRef ref]} \<or> (\<exists>sha rest. reqs = GetRef ref # CreateBranch branch sha # rest)" by blast
  have "b = branch \<and> ((\<forall>sha. \<not> answered_ok (fw_answer w (sent @ [GetRef ref]) (CreateBranch ref sha))) \<longrightarrow> b \<noteq> ref)"
    if put: "(PutContents path content b sha, ok) \<in> set (write_log w sent reqs)" for path content b sha ok
  proof -
    from fix_writes_put [OF r(2) put] obtain sha' ws' where b: "b = branch" "write_log w sent reqs = (CreateBranch branch sha', True) # ws'"
      by blast
    from r(3) b(2) have "answered_ok (fw_answer w (sent @ [GetRef ref]) (CreateBranch branch sha'))" by auto
    with b(1) show ?thesis by blast
  qed
  with r(1,2) show ?thesis by blast
qed

subsection \<open>The suppression guard\<close>

text \<open>The comments a scanner honours, in any case: one of eight tokens wherever it stands; \<open>nosem\<close> or \<open>nolint\<close>
  where the word ends there; and \<open>pylint:\<close> and \<open>disable\<close> with only blanks between.\<close>

definition plain_tokens :: "string list" where
  "plain_tokens = [''nosemgrep'', ''noqa'', ''nosec'', ''eslint-disable'', ''checkov:skip'', ''tfsec:ignore'',
     ''gitleaks:allow'', ''trivyignore'']"

definition silences :: "string \<Rightarrow> string \<Rightarrow> bool" where
  "silences m rest \<longleftrightarrow> str_lower m \<in> set plain_tokens \<or>
     str_lower m \<in> {''nosem'', ''nolint''} \<and> \<not> word_char (next_char rest) \<or>
     (\<exists>name blanks act. m = name @ blanks @ act \<and> str_lower name = ''pylint:'' \<and> list_all is_space blanks \<and>
        str_lower act = ''disable'')"

definition carries_suppression :: "string \<Rightarrow> bool" where
  "carries_suppression s \<longleftrightarrow> (\<exists>a m rest. s = a @ m @ rest \<and> silences m rest)"

lemma search_finds:
  assumes "search r s = None" and "s = a @ m @ b" and "m \<noteq> []" and "lang r (after None a) m b"
  shows False
proof -
  from assms(3) obtain c m' where m: "m = c # m'" by (cases m) auto
  have "[m] \<in> set (groups [r] (after None a) (c # m' @ b))"
    unfolding groups_iff using assms(4) m by (intro exI [of _ b]) simp
  moreover have "groups [r] (after None a) (c # m' @ b) = []"
    using assms(1,2) m unfolding search_none find_all_def by (intro finditer_none) auto
  ultimately show False by simp
qed

lemma lower_alnum: "char_lower c \<in> {CHR ''m'', CHR ''t''} \<Longrightarrow> alnum_char c"
proof -
  assume c: "char_lower c \<in> {CHR ''m'', CHR ''t''}"
  have u: "char_upper CHR ''m'' \<noteq> CHR ''m''" "char_upper CHR ''t'' \<noteq> CHR ''t''" by code_simp+
  show ?thesis
  proof (cases "char_lower c = c")
    case True
    with c u show ?thesis unfolding alnum_char_def by auto
  qed (simp add: alnum_char_def)
qed

lemma word_end: "str_lower m \<in> {''nosem'', ''nolint''} \<Longrightarrow> word_char (after p m)"
proof -
  assume w: "str_lower m \<in> {''nosem'', ''nolint''}"
  then have m: "m \<noteq> []" by (auto simp: str_lower_def)
  then have "char_lower (last m) = last (str_lower m)" by (simp add: str_lower_def last_map)
  with w have "char_lower (last m) \<in> {CHR ''m'', CHR ''t''}" by auto
  from lower_alnum [OF this] m show ?thesis by (simp add: after_def word_char_def)
qed

lemma plain_lower: "tok \<in> set plain_tokens \<Longrightarrow> str_lower tok = tok"
  unfolding plain_tokens_def by (auto; code_simp)

lemma lang_with_end:
  "word_char (after p m) \<Longrightarrow> \<not> word_char (next_char rest) \<Longrightarrow> str_lower m = str_lower w \<Longrightarrow>
   lang (Seq (ignoring_case w) Boundary) p m rest"
  by (auto intro!: exI [of _ m])

lemma lang_SeqI: "lang r p a (b @ rest) \<Longrightarrow> lang q (after p a) b rest \<Longrightarrow> lang (Seq r q) p (a @ b) rest"
  by auto

lemma silences_lang: "silences m rest \<Longrightarrow> lang SUPPRESSION_COMMENT_PATTERNS p m rest"
proof -
  assume "silences m rest"
  then consider (plain) tok where "tok \<in> set plain_tokens" "str_lower m = str_lower tok"
    | (word) w where "w \<in> {''nosem'', ''nolint''}" "str_lower m = str_lower w" "\<not> word_char (next_char rest)"
      "word_char (after p m)"
    | (pylint) name blanks act where "m = name @ blanks @ act" "str_lower name = str_lower ''pylint:''"
      "list_all is_space blanks" "str_lower act = str_lower ''disable''"
    unfolding silences_def
  proof (elim disjE conjE exE)
    assume "str_lower m \<in> set plain_tokens"
    then show thesis by (intro plain [of "str_lower m"]) (simp_all add: plain_lower)
  next
    assume "str_lower m \<in> {''nosem'', ''nolint''}" "\<not> word_char (next_char rest)"
    moreover have "str_lower ''nosem'' = ''nosem''" "str_lower ''nolint'' = ''nolint''" by code_simp+
    ultimately show thesis using word_end by (intro word [of "str_lower m"]) auto
  next
    fix name blanks act assume "m = name @ blanks @ act" "str_lower name = ''pylint:''" "list_all is_space blanks"
      "str_lower act = ''disable''"
    moreover have "str_lower ''pylint:'' = ''pylint:''" "str_lower ''disable'' = ''disable''" by code_simp+
    ultimately show thesis using pylint by simp
  qed
  then show ?thesis
  proof cases
    case plain
    then show ?thesis by (auto simp: SUPPRESSION_COMMENT_PATTERNS_def plain_tokens_def)
  next
    case word
    from lang_with_end [OF word(4,3,2)] word(1) show ?thesis
      by (auto simp: SUPPRESSION_COMMENT_PATTERNS_def)
  next
    case pylint
    then have "lang (Seq (ignoring_case ''pylint:'') (Seq (Many is_space) (ignoring_case ''disable''))) p m rest"
      unfolding pylint(1) by (intro lang_SeqI) simp_all
    then show ?thesis by (simp add: SUPPRESSION_COMMENT_PATTERNS_def)
  qed
qed

lemma suppression_found:
  assumes "search SUPPRESSION_COMMENT_PATTERNS s = None"
  shows "\<not> carries_suppression s"
proof
  assume "carries_suppression s"
  then obtain a m rest where m: "s = a @ m @ rest" "silences m rest" unfolding carries_suppression_def by blast
  then have "m \<noteq> []" by (auto simp: silences_def str_lower_def plain_tokens_def)
  from search_finds [OF assms m(1) this silences_lang [OF m(2)]] show False .
qed

definition flagged_text :: "string \<Rightarrow> finding \<Rightarrow> string" where
  "flagged_text content f =
     (let ls = splitlines content in
      join [LF] (line_slice (max 0 (or_zero (f_line_start f) - 1))
        (min (int (length ls)) (if or_zero (f_line_end f) \<noteq> 0 then or_zero (f_line_end f) else or_zero (f_line_start f))) ls))"

lemma search_nonempty: "search SUPPRESSION_COMMENT_PATTERNS s \<noteq> Some []"
proof
  assume "search SUPPRESSION_COMMENT_PATTERNS s = Some []"
  then obtain g where g: "g \<in> set (find_all [SUPPRESSION_COMMENT_PATTERNS] s)" "concat g = []"
    by (auto simp: search_def split: list.splits)
  from find_all_sound [OF g(1)] g(2) obtain prev b where "lang SUPPRESSION_COMMENT_PATTERNS prev [] b"
    by (cases g) auto
  then show False by (auto simp: SUPPRESSION_COMMENT_PATTERNS_def str_lower_def)
qed

text \<open>C36: What the endpoint commits was checked.  When it answers with a pull request, its only writes, all accepted, are
  a branch named for the finding, the finding's own file with the text that was sent, and the pull request, for a target
  the user may see; and none of the eleven kinds of suppression comment stands on the lines the finding flags.\<close>

theorem raised_fix_is_guarded:
  assumes "raise_fix_pr_endpoint w db accessible finding_id payload sent = (Opened pr, sent')"
  shows "\<exists>f t reqs head sha. get_finding db finding_id = Some f \<and> get_target db (f_target_id f) = Some t \<and> may_see accessible t \<and>
     sent' = sent @ reqs \<and> pl_branch pr = ''toleman/fix-finding-'' @ int_text (f_id f) @ ''-'' @ int_text (fw_time w sent) \<and>
     write_log w sent reqs = [(CreateBranch (pl_branch pr) head, True),
       (PutContents (f_file_path f) (pa_new_content payload) (pl_branch pr) sha, True),
       (OpenPull (pl_branch pr) (pa_ref payload), True)] \<and>
     (or_zero (f_line_start f) = 0 \<or> \<not> carries_suppression (flagged_text (pa_new_content payload) f))"
proof -
  from assms obtain f t where f: "get_finding db finding_id = Some f" "get_target db (f_target_id f) = Some t"
    "may_see accessible t" "pa_file_path payload = f_file_path f"
    and guard: "\<not> given (find_suppression_comment (pa_new_content payload) f)"
    and open': "open_fix_pr w t f payload sent = (Inr pr, sent')"
    by (auto simp: raise_fix_pr_endpoint_def split: option.splits if_splits sum.splits exn.splits prod.splits)
  from commit_writes [OF open' [unfolded open_fix_pr_def]] f(4) obtain reqs head sha where "sent' = sent @ reqs"
    "pl_branch pr = ''toleman/fix-finding-'' @ int_text (f_id f) @ ''-'' @ int_text (fw_time w sent)"
    "write_log w sent reqs = [(CreateBranch (pl_branch pr) head, True),
       (PutContents (f_file_path f) (pa_new_content payload) (pl_branch pr) sha, True),
       (OpenPull (pl_branch pr) (pa_ref payload), True)]"
    by (auto simp: fix_writes_def)
  moreover have "or_zero (f_line_start f) = 0 \<or> search SUPPRESSION_COMMENT_PATTERNS (flagged_text (pa_new_content payload) f) = None"
    using guard search_nonempty
    by (auto simp: find_suppression_comment_def flagged_text_def given_def Let_def split: if_splits)
  ultimately show ?thesis using f suppression_found by blast
qed

text \<open>The guard reads only the flagged lines, so a comment on the line above, which semgrep honours as well,
  passes; and it does not compare with the file, so a comment that was there before blocks every fix.\<close>

lemma suppression_above_passes:
  "find_suppression_comment (''# nosemgrep'' @ [LF] @ ''f'')
     (example_finding\<lparr>f_line_start := Some 2, f_line_end := Some 2\<rparr>) = None"
  by code_simp

lemma old_comment_blocks_fix:
  "find_suppression_comment ''# noqa'' (example_finding\<lparr>f_line_start := Some 1, f_line_end := Some 1\<rparr>) = Some ''noqa''"
  by code_simp

subsection \<open>Concrete runs\<close>

definition github_answers :: "gh_request \<Rightarrow> answer" where
  "github_answers r = (case r of
     GetRef _ \<Rightarrow> Some (200, Some (JObj [(''object'', JObj [(''sha'', JStr ''a1'')])]))
   | GetContents _ _ \<Rightarrow> Some (404, None)
   | OpenPull _ _ \<Rightarrow> Some (201, Some (JObj [(''html_url'', JStr ''u''), (''number'', JInt 7)]))
   | _ \<Rightarrow> Some (201, None))"

definition example_fix_world :: "string \<Rightarrow> fix_world" where
  "example_fix_world content =
     \<lparr>fw_token = (\<lambda>_. None),
      fw_contents = (\<lambda>_ _ _. Some (200, Some (JObj [(''encoding'', JStr ''base64''), (''content'', JStr content), (''sha'', JStr ''b2'')]))),
      fw_base64 = Some, fw_ai_configured = False, fw_generate = (\<lambda>_. None), fw_loads = (\<lambda>_. None),
      fw_unified_diff = (\<lambda>_. []), fw_installation = (\<lambda>_. Inr True), fw_answer = (\<lambda>_. github_answers), fw_time = (\<lambda>_. 5)\<rparr>"

definition pinned_finding :: finding where
  "pinned_finding = (cve_finding 1 ''CVE-1'' (Some ''lib''))\<lparr>f_file_path := ''requirements.txt'', f_line_start := None\<rparr>"

definition pinned_db :: db where
  "pinned_db = plan_db [pinned_finding] [advisory_row ''CVE-1'' [(''lib'', ''1.2'')]]"

definition pinned_patch :: patch where
  "pinned_patch = \<lparr>pa_file_path = ''requirements.txt'', pa_old_content = [], pa_new_content = ''lib==1.2'', pa_ref = ''main'',
     pa_strategy = ''mcp_client'', pa_explanation = []\<rparr>"

text \<open>A request that fails on the way raises httpx's own error, which the endpoint does not catch.\<close>

lemma transport_error_escapes:
  "fst (raise_fix_pr_endpoint ((example_fix_world [])\<lparr>fw_answer := \<lambda>_ _. None\<rparr>) pinned_db None 1 pinned_patch []) = ServerError"
  by code_simp

theorem bump_changes_one_version_witness:
  "\<exists>a pin was written b. ''lib==1.0'' = a @ pin @ was @ b \<and> replace_once ''lib==1.0'' ''lib==1.2'' ''lib==1.0'' = a @ pin @ written @ b \<and>
     names_package ''lib'' pin"
proof -
  have b: "bumper_for_path ''requirements.txt'' = Some bump_requirements_txt"
    by (simp add: bumper_for_path_def MANIFEST_BUMPERS_def base_name_def)
  have e: "bump_requirements_txt ''lib==1.0'' ''lib'' ''1.2'' = Some (''lib==1.0'', ''lib==1.2'')" by code_simp
  from bump_changes_one_version [OF b e] show ?thesis by (elim exE conjE, intro exI conjI)
qed

lemma pinned_build:
  "build_patch (example_fix_world ''lib==1.0'') pinned_db pinned_finding =
   Inr (Some \<lparr>pa_file_path = ''requirements.txt'', pa_old_content = ''lib==1.0'', pa_new_content = ''lib==1.2'', pa_ref = ''main'',
     pa_strategy = ''deterministic_sca'', pa_explanation = ''Upgrade lib to 1.2, resolving CVE-1.''\<rparr>)"
  by code_simp

theorem patch_edits_present_text_witness:
  "\<exists>a old new b. old \<noteq> [] \<and> ''lib==1.0'' = a @ old @ b \<and> ''lib==1.2'' = a @ new @ b"
  using patch_edits_present_text [OF pinned_build] by auto

text \<open>A run in which GitHub refuses to create the base again and then the second file.\<close>

definition full_disk :: fix_world where
  "full_disk = (example_fix_world [])\<lparr>fw_answer := (\<lambda>_ r. case r of
     CreateBranch b _ \<Rightarrow> Some (if b = ''main'' then 422 else 201, None)
   | PutContents p _ _ _ \<Rightarrow> Some (if p = ''b'' then 409 else 201, None)
   | _ \<Rightarrow> github_answers r)\<rparr>"

theorem fix_keeps_to_its_branch_witness:
  "\<exists>reqs. snd (commit_files_and_open_pr full_disk example_target ''main'' ''fix'' [(''a'', ''x''), (''b'', ''y'')] []) = reqs \<and>
     length (write_log full_disk [] reqs) = 3 \<and>
     (\<forall>path content b sha ok. (PutContents path content b sha, ok) \<in> set (write_log full_disk [] reqs) \<longrightarrow> b \<noteq> ''main'')"
proof -
  obtain result reqs where r: "commit_files_and_open_pr full_disk example_target ''main'' ''fix'' [(''a'', ''x''), (''b'', ''y'')] [] = (result, reqs)"
    by fastforce
  have "length (write_log full_disk [] (snd (commit_files_and_open_pr full_disk example_target ''main'' ''fix''
      [(''a'', ''x''), (''b'', ''y'')] []))) = 3"
    by code_simp
  moreover have "\<forall>sent sha. \<not> answered_ok (fw_answer full_disk sent (CreateBranch ''main'' sha))"
    by (simp add: full_disk_def answered_ok_def accepted_def)
  ultimately show ?thesis using fix_keeps_to_its_branch [OF r] r by (auto simp del: split_paired_Ex)
qed

definition flagged_db :: db where
  "flagged_db = plan_db [pinned_finding\<lparr>f_line_start := Some 1\<rparr>] []"

theorem raised_fix_is_guarded_witness:
  "\<exists>pr sent head sha. raise_fix_pr_endpoint (example_fix_world []) flagged_db None 1 pinned_patch [] = (Opened pr, sent) \<and>
     write_log (example_fix_world []) [] sent = [(CreateBranch (pl_branch pr) head, True),
       (PutContents ''requirements.txt'' ''lib==1.2'' (pl_branch pr) sha, True), (OpenPull (pl_branch pr) ''main'', True)] \<and>
     \<not> carries_suppression ''lib==1.2''"
proof -
  have "case raise_fix_pr_endpoint (example_fix_world []) flagged_db None 1 pinned_patch [] of (Opened pr, sent) \<Rightarrow> True | _ \<Rightarrow> False"
    by code_simp
  then obtain pr sent where r: "raise_fix_pr_endpoint (example_fix_world []) flagged_db None 1 pinned_patch [] = (Opened pr, sent)"
    by (auto split: prod.splits api_answer.splits)
  have f: "get_finding flagged_db 1 = Some (pinned_finding\<lparr>f_line_start := Some 1\<rparr>)" by code_simp
  have "flagged_text ''lib==1.2'' (pinned_finding\<lparr>f_line_start := Some 1\<rparr>) = ''lib==1.2''" by code_simp
  moreover have "pa_new_content pinned_patch = ''lib==1.2''" "pa_ref pinned_patch = ''main''"
    "f_file_path pinned_finding = ''requirements.txt''" by (simp_all add: pinned_patch_def pinned_finding_def)
  ultimately show ?thesis using raised_fix_is_guarded [OF r] r f by (auto simp: or_zero_def)
qed

end
