(* ===== verification/RemediationPrProps.thy ===== *)
theory RemediationPrProps
  imports RemediationPr AutofixProps
begin

text \<open>
  What raising promises: no second pull request for the same fix, a sweep that finds nothing left to do, a
  batch whose every item ends, and package managers that never see the repository's own configuration.
\<close>

subsection \<open>Coverage\<close>

lemma prs_for_append [simp]: "prs_for (prs @ rows) i p = prs_for prs i p @ prs_for rows i p"
  by (simp add: prs_for_def)

lemma is_covered_iff:
  "is_covered prs i plan \<longleftrightarrow> prs_for prs i (up_package plan) \<noteq> [] \<and>
     set (plan_finding_ids plan) \<subseteq> (\<Union>r\<in>set (prs_for prs i (up_package plan)). set (case fp_finding_ids r of None \<Rightarrow> [] | Some ids \<Rightarrow> ids))"
  by (auto simp: is_covered_def already_raised_finding_ids_def split: list.splits)

lemma is_covered_append: "is_covered prs i plan \<Longrightarrow> is_covered (prs @ rows) i plan"
  by (auto simp: is_covered_iff)

lemma row_covers [simp]: "is_covered (prs @ [fix_pr_row t plan pr user now]) (t_id t) plan"
  by (simp add: is_covered_iff prs_for_def fix_pr_row_def)

text \<open>What one call does to the records.\<close>

definition raises :: "target \<Rightarrow> upgrade \<Rightarrow> fix_state \<Rightarrow> raise_outcome \<Rightarrow> fix_state \<Rightarrow> bool" where
  "raises t plan st out st' \<longleftrightarrow> fs_items st' = fs_items st \<and> fs_batches st' = fs_batches st \<and>
     (case out of
        Raised pr \<Rightarrow> \<exists>user now. fs_prs st' = fs_prs st @ [fix_pr_row t plan pr user now]
      | AlreadyRaised _ \<Rightarrow> st' = st
      | Failed _ \<Rightarrow> fs_prs st' = fs_prs st)"

lemma raise_raises: "raise_package_fix_pr w db t plan user st = (out, st') \<Longrightarrow> raises t plan st out st'"
  by (auto simp: raise_package_fix_pr_def raises_def Let_def split: if_splits prod.splits sum.splits list.splits) blast+

lemma raise_already: "raise_package_fix_pr w db t plan user st = (AlreadyRaised pr, st') \<Longrightarrow> is_covered (fs_prs st) (t_id t) plan"
  by (auto simp: raise_package_fix_pr_def Let_def split: if_splits prod.splits sum.splits list.splits)

lemma raise_covered:
  "is_covered (fs_prs st) (t_id t) plan \<Longrightarrow> raise_package_fix_pr w db t plan user st =
     (AlreadyRaised (pr_of (the (latest_raised_pr (fs_prs st) (t_id t) (up_package plan)))), st)"
  by (simp add: raise_package_fix_pr_def)

lemma least_by_snoc: "least_by lt x (xs @ [y]) = (if lt y (least_by lt x xs) then y else least_by lt x xs)"
  by (induction xs arbitrary: x) auto

subsection \<open>The sweep\<close>

text \<open>How the records and the counts grow.\<close>

definition grows :: "fix_state \<times> sweep_summary \<Rightarrow> fix_state \<times> sweep_summary \<Rightarrow> bool" where
  "grows s s' \<longleftrightarrow>
     (\<exists>rows. fs_prs (fst s') = fs_prs (fst s) @ rows \<and> sm_prs_raised (snd s') = sm_prs_raised (snd s) + length rows) \<and>
     sm_prs_failed (snd s) \<le> sm_prs_failed (snd s') \<and>
     sm_packages_considered (snd s') + sm_prs_raised (snd s) + sm_prs_skipped (snd s) + sm_prs_failed (snd s) =
       sm_packages_considered (snd s) + sm_prs_raised (snd s') + sm_prs_skipped (snd s') + sm_prs_failed (snd s')"

lemma grows_refl: "grows s s" by (simp add: grows_def)

lemma grows_trans: "grows a b \<Longrightarrow> grows b c \<Longrightarrow> grows a c"
  by (fastforce simp: grows_def)

lemma fold_grows: "(\<And>x s. grows s (f x s)) \<Longrightarrow> grows s (fold f xs s)"
proof (induction xs arbitrary: s)
  case (Cons x xs)
  from grows_trans [OF Cons.prems Cons.IH [OF Cons.prems]] show ?case by simp
qed (simp add: grows_refl)

lemma sweep_plan_grows: "grows s (sweep_plan w db t plan s)"
proof -
  obtain st sm where s: "s = (st, sm)" by (cases s)
  obtain out st' where r: "raise_package_fix_pr w db t plan ''sweep'' st = (out, st')" by fastforce
  from raise_raises [OF r] r s show ?thesis
    by (auto simp: sweep_plan_def grows_def raises_def Let_def split: raise_outcome.splits)
qed

lemma sweep_plan_covers:
  "sm_prs_failed (snd (sweep_plan w db t plan s)) = sm_prs_failed (snd s) \<Longrightarrow>
   is_covered (fs_prs (fst (sweep_plan w db t plan s))) (t_id t) plan"
proof -
  assume f: "sm_prs_failed (snd (sweep_plan w db t plan s)) = sm_prs_failed (snd s)"
  obtain st sm where s: "s = (st, sm)" by (cases s)
  obtain out st' where r: "raise_package_fix_pr w db t plan ''sweep'' st = (out, st')" by fastforce
  from raise_raises [OF r] r s f show ?thesis
    by (auto simp: sweep_plan_def raises_def Let_def split: raise_outcome.splits if_splits dest: raise_already)
qed

lemma grows_covered: "grows s s' \<Longrightarrow> is_covered (fs_prs (fst s)) i plan \<Longrightarrow> is_covered (fs_prs (fst s')) i plan"
  by (auto simp: grows_def is_covered_append)

lemma grows_failed: "grows s s' \<Longrightarrow> sm_prs_failed (snd s) \<le> sm_prs_failed (snd s')"
  by (simp add: grows_def)

text \<open>Growing steps that each cover what they were given, if nothing failed, leave everything covered.\<close>

lemma fold_covers:
  assumes grow: "\<And>x s. grows s (f x s)"
    and covers: "\<And>x s. sm_prs_failed (snd (f x s)) = sm_prs_failed (snd s) \<Longrightarrow> P x (fs_prs (fst (f x s)))"
    and keep: "\<And>x prs rows. P x prs \<Longrightarrow> P x (prs @ rows)"
  shows "sm_prs_failed (snd (fold f xs s)) = sm_prs_failed (snd s) \<Longrightarrow> \<forall>x\<in>set xs. P x (fs_prs (fst (fold f xs s)))"
proof (induction xs arbitrary: s)
  case (Cons x xs)
  have g: "grows (f x s) (fold f xs (f x s))" by (rule fold_grows) (rule grow)
  with Cons.prems grows_failed [OF g] grows_failed [OF grow [of s x]]
  have eq: "sm_prs_failed (snd (f x s)) = sm_prs_failed (snd s)"
    "sm_prs_failed (snd (fold f xs (f x s))) = sm_prs_failed (snd (f x s))" by simp_all
  obtain rows where "fs_prs (fst (fold f xs (f x s))) = fs_prs (fst (f x s)) @ rows" using g by (auto simp: grows_def)
  with covers [OF eq(1)] keep Cons.IH [OF eq(2)] show ?case by simp
qed simp

lemma sweep_target_grows: "grows s (sweep_target w db t s)"
proof -
  obtain st sm where s: "s = (st, sm)" by (cases s)
  have "grows s (st, sm\<lparr>sm_targets_opted_in := sm_targets_opted_in sm + 1\<rparr>)" by (simp add: s grows_def)
  then show ?thesis unfolding s sweep_target_def prod.case
    by (rule grows_trans) (rule fold_grows, rule sweep_plan_grows)
qed

definition target_covered :: "db \<Rightarrow> target \<Rightarrow> fix_pr list \<Rightarrow> bool" where
  "target_covered db t prs \<longleftrightarrow> (\<forall>plan\<in>set (group_remediations db (t_id t)). is_covered prs (t_id t) plan)"

lemma sweep_target_covers:
  assumes "sm_prs_failed (snd (sweep_target w db t s)) = sm_prs_failed (snd s)"
  shows "target_covered db t (fs_prs (fst (sweep_target w db t s)))"
proof -
  obtain st sm where s: "s = (st, sm)" by (cases s)
  have "\<forall>plan\<in>set (group_remediations db (t_id t)). is_covered (fs_prs (fst (fold (sweep_plan w db t)
      (group_remediations db (t_id t)) (st, sm\<lparr>sm_targets_opted_in := sm_targets_opted_in sm + 1\<rparr>)))) (t_id t) plan"
    by (rule fold_covers) (use assms s in \<open>auto simp: sweep_target_def intro: sweep_plan_grows sweep_plan_covers is_covered_append\<close>)
  then show ?thesis by (simp add: target_covered_def sweep_target_def s)
qed

text \<open>A sweep over covered plans only counts.\<close>

lemma sweep_plan_idle:
  "is_covered (fs_prs (fst s)) (t_id t) plan \<Longrightarrow>
   fst (sweep_plan w db t plan s) = fst s \<and> sm_prs_raised (snd (sweep_plan w db t plan s)) = sm_prs_raised (snd s) \<and>
   sm_prs_failed (snd (sweep_plan w db t plan s)) = sm_prs_failed (snd s)"
  by (cases s) (simp add: sweep_plan_def Let_def)

definition idle :: "fix_state \<times> sweep_summary \<Rightarrow> fix_state \<times> sweep_summary \<Rightarrow> bool" where
  "idle s s' \<longleftrightarrow> fst s' = fst s \<and> sm_prs_raised (snd s') = sm_prs_raised (snd s) \<and> sm_prs_failed (snd s') = sm_prs_failed (snd s)"

lemma fold_idle:
  "(\<And>x s'. x \<in> set xs \<Longrightarrow> fst s' = fst s \<Longrightarrow> idle s' (f x s')) \<Longrightarrow> idle s (fold f xs s)"
proof (induction xs arbitrary: s)
  case (Cons x xs)
  have 1: "idle s (f x s)" using Cons.prems by simp
  then have "idle (f x s) (fold f xs (f x s))" by (intro Cons.IH Cons.prems) (auto simp: idle_def)
  with 1 show ?case by (simp add: idle_def)
qed (simp add: idle_def)

lemma sweep_target_idle:
  assumes "target_covered db t (fs_prs (fst s))"
  shows "idle s (sweep_target w db t s)"
proof -
  obtain st sm where s: "s = (st, sm)" by (cases s)
  let ?s = "(st, sm\<lparr>sm_targets_opted_in := sm_targets_opted_in sm + 1\<rparr>)"
  have "idle ?s (fold (sweep_plan w db t) (group_remediations db (t_id t)) ?s)"
    by (rule fold_idle) (use assms s in \<open>auto simp: target_covered_def idle_def sweep_plan_idle\<close>)
  then show ?thesis by (simp add: sweep_target_def s idle_def)
qed

text \<open>C32: The sweep does its work once.  Every package it considers is counted as raised, skipped or failed,
  and it records one row for each one raised.  A sweep that had no failure leaves nothing to do: the next one
  over the same findings sends nothing, runs nothing and changes nothing.\<close>

theorem sweep_is_idempotent:
  assumes "sweep_auto_raise_prs w db st = (st', sm)"
  shows "sm_packages_considered sm = sm_prs_raised sm + sm_prs_skipped sm + sm_prs_failed sm \<and>
    length (fs_prs st') = length (fs_prs st) + sm_prs_raised sm \<and>
    (sm_prs_failed sm = 0 \<longrightarrow> fst (sweep_auto_raise_prs w' db st') = st' \<and>
      sm_prs_raised (snd (sweep_auto_raise_prs w' db st')) = 0)"
proof (intro conjI impI)
  let ?zero = "\<lambda>st. (st, \<lparr>sm_targets_considered = length (opted_in db), sm_targets_opted_in = 0, sm_packages_considered = 0,
          sm_prs_raised = 0, sm_prs_skipped = 0, sm_prs_failed = 0\<rparr>)"
  have run: "fold (sweep_target w db) (opted_in db) (?zero st) = (st', sm)"
    using assms by (simp add: sweep_auto_raise_prs_def)
  have g: "grows (?zero st) (st', sm)"
    using fold_grows [of "sweep_target w db" "?zero st" "opted_in db"] sweep_target_grows unfolding run by blast
  then show "sm_packages_considered sm = sm_prs_raised sm + sm_prs_skipped sm + sm_prs_failed sm"
    "length (fs_prs st') = length (fs_prs st) + sm_prs_raised sm"
    by (auto simp: grows_def)
  assume z: "sm_prs_failed sm = 0"
  have "\<forall>t\<in>set (opted_in db). target_covered db t (fs_prs (fst (fold (sweep_target w db) (opted_in db) (?zero st))))"
    by (rule fold_covers) (use z run in \<open>auto simp: target_covered_def is_covered_append
      intro: sweep_target_grows dest: sweep_target_covers\<close>)
  then have "\<forall>t\<in>set (opted_in db). target_covered db t (fs_prs st')" by (simp add: run)
  then have "idle (?zero st') (fold (sweep_target w' db) (opted_in db) (?zero st'))"
    by (intro fold_idle sweep_target_idle) auto
  then show "fst (sweep_auto_raise_prs w' db st') = st'" "sm_prs_raised (snd (sweep_auto_raise_prs w' db st')) = 0"
    by (simp_all add: idle_def sweep_auto_raise_prs_def)
qed

subsection \<open>The batch\<close>

definition settled :: "batch_item \<Rightarrow> bool" where
  "settled r \<longleftrightarrow> ri_completed_at r \<noteq> None \<and>
     (ri_status r = ''succeeded'' \<and> ri_pr_url r \<noteq> None \<or> ri_status r = ''failed'' \<and> ri_error r \<noteq> None)"

definition ended :: "row_id \<Rightarrow> batch_item list \<Rightarrow> bool" where
  "ended i rows \<longleftrightarrow> (\<forall>r\<in>set rows. ri_id r = i \<longrightarrow> settled r)"

text \<open>What the run of an item does to the items, and to the counts of the batch.\<close>

definition item_step :: "row_id \<Rightarrow> row_id \<Rightarrow> fix_state \<Rightarrow> fix_state \<Rightarrow> bool" where
  "item_step batch_id i st st' \<longleftrightarrow>
     (\<exists>g. fs_items st' = map g (fs_items st) \<and>
        (\<forall>r. ri_id (g r) = ri_id r \<and> ri_batch_id (g r) = ri_batch_id r \<and> (ri_id r = i \<longrightarrow> settled (g r)) \<and> (ri_id r \<noteq> i \<longrightarrow> g r = r))) \<and>
     (\<exists>h. fs_batches st' = map h (fs_batches st) \<and>
        (\<forall>b. rb_id (h b) = rb_id b \<and> (rb_id b = batch_id \<longrightarrow> rb_succeeded (h b) + rb_failed (h b) = rb_succeeded b + rb_failed b + 1)))"

lemma run_item_step: "item_step batch_id (ri_id item) st (run_item w db t plans user batch_id item st)"
proof (cases "plan_of plans (ri_package item)")
  case None
  then show ?thesis unfolding item_step_def
    by (intro conjI exI [of _ "\<lambda>r. if ri_id r = ri_id item then r\<lparr>ri_status := ''failed'', ri_error := Some NoPlanEntry,
          ri_completed_at := Some (rw_now w (fs_sent st))\<rparr> else r"]
        exI [of _ "\<lambda>b. if rb_id b = batch_id then b\<lparr>rb_failed := rb_failed b + 1\<rparr> else b"])
      (auto simp: run_item_def fail_item_def update_item_def update_batch_def settled_def)
next
  case (Some plan)
  let ?st = "update_item (ri_id item) (\<lambda>r. r\<lparr>ri_status := ''running''\<rparr>) st"
  obtain out st1 where r: "raise_package_fix_pr w db t plan user ?st = (out, st1)" by fastforce
  have frame: "fs_items st1 = fs_items ?st" "fs_batches st1 = fs_batches st"
    using raise_raises [OF r] by (auto simp: raises_def update_item_def)
  show ?thesis
  proof (cases out)
    case (Failed e)
    with Some r frame show ?thesis unfolding item_step_def
      by (intro conjI exI [of _ "\<lambda>r. if ri_id r = ri_id item then r\<lparr>ri_status := ''failed'', ri_error := Some (FixFailed e),
            ri_completed_at := Some (rw_now w (fs_sent st1))\<rparr> else r"]
          exI [of _ "\<lambda>b. if rb_id b = batch_id then b\<lparr>rb_failed := rb_failed b + 1\<rparr> else b"])
        (auto simp: run_item_def fail_item_def update_item_def update_batch_def settled_def Let_def)
  next
    case (Raised pr)
    with Some r frame show ?thesis unfolding item_step_def
      by (intro conjI exI [of _ "\<lambda>r. if ri_id r = ri_id item then r\<lparr>ri_status := ''succeeded'', ri_pr_url := Some (pl_url pr),
            ri_pr_number := Some (pl_number pr), ri_completed_at := Some (rw_now w (fs_sent st1))\<rparr> else r"]
          exI [of _ "\<lambda>b. if rb_id b = batch_id then b\<lparr>rb_succeeded := rb_succeeded b + 1\<rparr> else b"])
        (auto simp: run_item_def succeed_item_def update_item_def update_batch_def settled_def Let_def)
  next
    case (AlreadyRaised pr)
    with Some r frame show ?thesis unfolding item_step_def
      by (intro conjI exI [of _ "\<lambda>r. if ri_id r = ri_id item then r\<lparr>ri_status := ''succeeded'', ri_pr_url := Some (pl_url pr),
            ri_pr_number := Some (pl_number pr), ri_completed_at := Some (rw_now w (fs_sent st1))\<rparr> else r"]
          exI [of _ "\<lambda>b. if rb_id b = batch_id then b\<lparr>rb_succeeded := rb_succeeded b + 1\<rparr> else b"])
        (auto simp: run_item_def succeed_item_def update_item_def update_batch_def settled_def Let_def)
  qed
qed

definition batch_progress :: "row_id \<Rightarrow> batch_item list \<Rightarrow> fix_state \<Rightarrow> fix_state \<Rightarrow> bool" where
  "batch_progress batch_id items st st' \<longleftrightarrow>
     map (\<lambda>r. (ri_id r, ri_batch_id r)) (fs_items st') = map (\<lambda>r. (ri_id r, ri_batch_id r)) (fs_items st) \<and>
     (\<forall>item\<in>set items. ended (ri_id item) (fs_items st')) \<and>
     (\<forall>i. ended i (fs_items st) \<longrightarrow> ended i (fs_items st')) \<and>
     (\<exists>h. fs_batches st' = map h (fs_batches st) \<and> (\<forall>b. rb_id (h b) = rb_id b \<and>
        (rb_id b = batch_id \<longrightarrow> rb_succeeded (h b) + rb_failed (h b) = rb_succeeded b + rb_failed b + length items)))"

lemma step_progress:
  assumes "item_step batch_id (ri_id item) st st1" and "batch_progress batch_id items st1 st'"
  shows "batch_progress batch_id (item # items) st st'"
proof -
  from assms(1) obtain g h where g: "fs_items st1 = map g (fs_items st)"
      "\<And>r. ri_id (g r) = ri_id r \<and> ri_batch_id (g r) = ri_batch_id r \<and> (ri_id r = ri_id item \<longrightarrow> settled (g r)) \<and>
        (ri_id r \<noteq> ri_id item \<longrightarrow> g r = r)"
    and h: "fs_batches st1 = map h (fs_batches st)" "\<And>b. rb_id (h b) = rb_id b \<and>
        (rb_id b = batch_id \<longrightarrow> rb_succeeded (h b) + rb_failed (h b) = rb_succeeded b + rb_failed b + 1)"
    unfolding item_step_def by blast
  from assms(2) obtain h' where h': "fs_batches st' = map h' (fs_batches st1)" "\<And>b. rb_id (h' b) = rb_id b \<and>
        (rb_id b = batch_id \<longrightarrow> rb_succeeded (h' b) + rb_failed (h' b) = rb_succeeded b + rb_failed b + length items)"
    unfolding batch_progress_def by blast
  have "ended (ri_id item) (fs_items st1)" using g by (auto simp: ended_def)
  moreover have "ended i (fs_items st1)" if "ended i (fs_items st)" for i
    using that g by (cases "i = ri_id item") (auto simp: ended_def)
  moreover have "fs_batches st' = map (h' \<circ> h) (fs_batches st)" using h(1) h'(1) by simp
  moreover have "rb_id ((h' \<circ> h) b) = rb_id b \<and> (rb_id b = batch_id \<longrightarrow>
      rb_succeeded ((h' \<circ> h) b) + rb_failed ((h' \<circ> h) b) = rb_succeeded b + rb_failed b + length (item # items))" for b
    using h(2) [of b] h'(2) [of "h b"] by auto
  moreover have "map (\<lambda>r. (ri_id r, ri_batch_id r)) (fs_items st1) = map (\<lambda>r. (ri_id r, ri_batch_id r)) (fs_items st)"
    using g by (simp add: comp_def)
  ultimately show ?thesis using assms(2) unfolding batch_progress_def by auto
qed

lemma fold_progress: "batch_progress batch_id items st (fold (run_item w db t plans user batch_id) items st)"
proof (induction items arbitrary: st)
  case Nil
  show ?case unfolding batch_progress_def by (auto intro!: exI [of _ id])
next
  case (Cons item items)
  from step_progress [OF run_item_step Cons.IH] show ?case by simp
qed

lemma batch_done:
  assumes "run_raise_all_batch w db plan_fails raiser batch_id st = (BatchDone, st')"
  shows "list_all (\<lambda>r. ri_batch_id r = batch_id \<longrightarrow> settled r) (fs_items st') \<and>
    map (\<lambda>b. rb_succeeded b + rb_failed b) (filter (\<lambda>b. rb_id b = batch_id) (fs_batches st')) =
      map (\<lambda>b. rb_succeeded b + rb_failed b + length (filter (\<lambda>r. ri_batch_id r = batch_id) (fs_items st)))
        (filter (\<lambda>b. rb_id b = batch_id) (fs_batches st)) \<and>
    list_all (\<lambda>b. rb_id b = batch_id \<longrightarrow> rb_status b = ''completed'') (fs_batches st')"
proof -
  let ?items = "filter (\<lambda>r. ri_batch_id r = batch_id) (fs_items st)"
  let ?run = "\<lambda>batch target. fold (run_item w db target (group_remediations db (t_id target)) (raiser (rb_created_by batch)) batch_id)
      ?items st"
  from assms obtain batch target where b: "List.find (\<lambda>b. rb_id b = batch_id) (fs_batches st) = Some batch"
    "get_target db (rb_target_id batch) = Some target" "\<not> plan_fails"
    by (auto simp: run_raise_all_batch_def Let_def split: option.splits if_splits)
  with assms have "st' = complete_batch batch_id (rw_now w (fs_sent (?run batch target))) (?run batch target)"
    by (simp add: run_raise_all_batch_def Let_def)
  then obtain target plans user now where
    st': "st' = complete_batch batch_id now (fold (run_item w db target plans user batch_id) ?items st)" by blast
  define st1 where "st1 = fold (run_item w db target plans user batch_id) ?items st"
  have p: "batch_progress batch_id ?items st st1" unfolding st1_def by (rule fold_progress)
  then obtain h where h: "fs_batches st1 = map h (fs_batches st)" "\<And>b. rb_id (h b) = rb_id b \<and>
      (rb_id b = batch_id \<longrightarrow> rb_succeeded (h b) + rb_failed (h b) = rb_succeeded b + rb_failed b + length ?items)"
    unfolding batch_progress_def by blast
  have ids: "map (\<lambda>r. (ri_id r, ri_batch_id r)) (fs_items st1) = map (\<lambda>r. (ri_id r, ri_batch_id r)) (fs_items st)"
    using p by (simp add: batch_progress_def)
  have settled: "settled r" if r: "r \<in> set (fs_items st1)" "ri_batch_id r = batch_id" for r
  proof -
    have "(ri_id r, ri_batch_id r) \<in> set (map (\<lambda>r. (ri_id r, ri_batch_id r)) (fs_items st))"
      using r(1) ids by (metis (mono_tags, lifting) image_eqI list.set_map)
    with r(2) obtain r0 where "r0 \<in> set ?items" "ri_id r0 = ri_id r" by auto
    with p r(1) show ?thesis by (auto simp: batch_progress_def ended_def)
  qed
  have items: "fs_items st' = fs_items st1" by (simp add: st' st1_def [symmetric] complete_batch_def update_batch_def)
  have batches: "fs_batches st' = map (\<lambda>b. if rb_id b = batch_id
      then b\<lparr>rb_status := ''completed'', rb_completed_at := Some now\<rparr> else b) (fs_batches st1)"
    by (simp add: st' st1_def [symmetric] complete_batch_def update_batch_def)
  have counts: "map (\<lambda>b. rb_succeeded b + rb_failed b) (filter (\<lambda>b. rb_id b = batch_id) (fs_batches st')) =
      map (\<lambda>b. rb_succeeded b + rb_failed b + length ?items) (filter (\<lambda>b. rb_id b = batch_id) (fs_batches st))"
  proof -
    have "map (\<lambda>b. rb_succeeded b + rb_failed b) (filter (\<lambda>b. rb_id b = batch_id) (map (\<lambda>b. if rb_id b = batch_id
        then b\<lparr>rb_status := ''completed'', rb_completed_at := Some now\<rparr> else b) (map h bs))) =
      map (\<lambda>b. rb_succeeded b + rb_failed b + length ?items) (filter (\<lambda>b. rb_id b = batch_id) bs)" for bs
      using h(2) by (induction bs) auto
    then show ?thesis unfolding batches h(1) .
  qed
  have "list_all (\<lambda>r. ri_batch_id r = batch_id \<longrightarrow> settled r) (fs_items st')"
    unfolding items list_all_iff using settled by blast
  moreover have "list_all (\<lambda>b. rb_id b = batch_id \<longrightarrow> rb_status b = ''completed'') (fs_batches st')"
  proof -
    have "list_all (\<lambda>b. rb_id b = batch_id \<longrightarrow> rb_status b = ''completed'') (map (\<lambda>b. if rb_id b = batch_id
        then b\<lparr>rb_status := ''completed'', rb_completed_at := Some now\<rparr> else b) bs)" for bs
      by (induction bs) auto
    then show ?thesis unfolding batches .
  qed
  ultimately show ?thesis using counts by blast
qed

lemma batches_updated:
  "(\<And>b. P (h b)) \<Longrightarrow> list_all (\<lambda>b. rb_id b = i \<longrightarrow> P b) (map (\<lambda>b. if rb_id b = i then h b else b) bs)"
  by (induction bs) auto

lemma complete_batch_completed:
  "list_all (\<lambda>b. rb_id b = batch_id \<longrightarrow> rb_status b = ''completed'') (fs_batches (complete_batch batch_id now st))"
  by (simp add: complete_batch_def update_batch_def batches_updated)

lemma batch_not_found:
  "run_raise_all_batch w db plan_fails raiser batch_id st = (BatchNotFound, st') \<Longrightarrow>
   st' = st \<and> list_all (\<lambda>b. rb_id b \<noteq> batch_id) (fs_batches st)"
  by (auto simp: run_raise_all_batch_def Let_def list_all_iff find_None_iff split: option.splits if_splits)

lemma batch_without_target:
  "run_raise_all_batch w db plan_fails raiser batch_id st = (TargetNotFound, st') \<Longrightarrow>
   fs_items st' = fs_items st \<and> list_all (\<lambda>b. rb_id b = batch_id \<longrightarrow> rb_status b = ''completed'') (fs_batches st')"
  by (auto simp: run_raise_all_batch_def Let_def complete_batch_completed split: option.splits if_splits)
    (simp add: complete_batch_def update_batch_def)

lemma batch_without_plan:
  "run_raise_all_batch w db plan_fails raiser batch_id st = (PlanRaised, st') \<Longrightarrow> plan_fails \<and> st' = st"
  by (auto simp: run_raise_all_batch_def Let_def split: option.splits if_splits)

lemma poll_fails_stale:
  "case List.find (\<lambda>b. rb_id b = batch_id) (fs_batches st) of
     None \<Rightarrow> True
   | Some b \<Rightarrow> list_all (\<lambda>r. rb_id r = batch_id \<longrightarrow> rb_status r = ''failed'')
         (fs_batches (snd (get_batch db accessible timeout now batch_id st))) \<or>
       rb_status b \<noteq> ''running'' \<or> now < rb_started_at b + timeout"
proof (cases "List.find (\<lambda>b. rb_id b = batch_id) (fs_batches st)")
  case (Some b)
  have failed: "list_all (\<lambda>r. rb_id r = batch_id \<longrightarrow> rb_status r = ''failed'') (fs_batches (update_batch batch_id
      (\<lambda>_. b\<lparr>rb_status := ''failed'', rb_completed_at := Some now\<rparr>) st))"
    by (simp add: update_batch_def batches_updated)
  show ?thesis
  proof (cases "rb_status b = ''running'' \<and> \<not> now - rb_started_at b < timeout")
    case True
    then have "mark_stale_if_needed timeout now b = (True, b\<lparr>rb_status := ''failed'', rb_completed_at := Some now\<rparr>)"
      by (simp add: mark_stale_if_needed_def)
    then have "snd (get_batch db accessible timeout now batch_id st) =
        update_batch batch_id (\<lambda>_. b\<lparr>rb_status := ''failed'', rb_completed_at := Some now\<rparr>) st"
      using Some by (simp add: get_batch_def Let_def split: option.split)
    with Some failed show ?thesis by simp
  next
    case False
    with Some show ?thesis by auto
  qed
qed simp


subsection \<open>No second pull request\<close>

text \<open>Rows are only ever added.\<close>

definition extends :: "fix_state \<Rightarrow> fix_state \<Rightarrow> bool" where
  "extends st st' \<longleftrightarrow> (\<exists>rows. fs_prs st' = fs_prs st @ rows)"

lemma extends_refl [simp]: "extends st st" by (simp add: extends_def)
lemma extends_trans: "extends a b \<Longrightarrow> extends b c \<Longrightarrow> extends a c" by (auto simp: extends_def)
lemma extends_prs [simp]: "fs_prs st' = fs_prs st \<Longrightarrow> extends st st'" by (simp add: extends_def)

lemma update_prs [simp]: "fs_prs (update_item i g st) = fs_prs st" "fs_prs (update_batch i h st) = fs_prs st"
  by (simp_all add: update_item_def update_batch_def)

lemma raise_extends: "raise_package_fix_pr w db t plan user st = (out, st') \<Longrightarrow> extends st st'"
  by (drule raise_raises) (auto simp: raises_def extends_def split: raise_outcome.splits)

lemma run_item_extends: "extends st (run_item w db t plans user batch_id item st)"
proof (cases "plan_of plans (ri_package item)")
  case (Some plan)
  let ?st = "update_item (ri_id item) (\<lambda>r. r\<lparr>ri_status := ''running''\<rparr>) st"
  obtain out st1 where r: "raise_package_fix_pr w db t plan user ?st = (out, st1)" by fastforce
  from raise_extends [OF r] have "extends st st1" by (simp add: extends_def)
  with Some r show ?thesis
    by (simp add: run_item_def succeed_item_def fail_item_def extends_def Let_def split: raise_outcome.split)
qed (simp add: run_item_def fail_item_def)

lemma fold_extends: "(\<And>x s. extends s (f x s)) \<Longrightarrow> extends s (fold f xs s)"
proof (induction xs arbitrary: s)
  case (Cons x xs)
  from extends_trans [OF Cons.prems Cons.IH [OF Cons.prems]] show ?case by simp
qed simp

lemma batch_extends: "extends st (snd (run_raise_all_batch w db plan_fails raiser batch_id st))"
  by (auto simp: run_raise_all_batch_def complete_batch_def extends_def [of _ "update_batch _ _ _"] Let_def
      simp flip: extends_def split: option.split intro: fold_extends run_item_extends)

lemma sweep_extends: "extends st (fst (sweep_auto_raise_prs w db st))"
proof -
  have "grows s (fold (sweep_target w db) ts s)" for s ts by (rule fold_grows) (rule sweep_target_grows)
  from this [of _ "opted_in db"] show ?thesis by (fastforce simp: sweep_auto_raise_prs_def grows_def extends_def)
qed

lemma dispatch_extends: "extends st (snd (dispatch_batch queued target_id user_id packages now st))"
  by (simp add: dispatch_batch_def start_batch_def fail_dispatch_def Let_def)

lemma endpoint_extends:
  "extends st (snd (raise_package_fix_pr_endpoint w db accessible plan_fails queued user_id user_name target_id package st))"
  by (auto simp: raise_package_fix_pr_endpoint_def dispatch_extends split: option.split prod.split raise_outcome.split
      dest: raise_extends)

lemma raise_all_extends: "extends st (snd (raise_all_endpoint w db accessible plan_fails queued user_id target_id st))"
  by (simp add: raise_all_endpoint_def dispatch_extends Let_def split: option.split)

lemma get_batch_extends: "extends st (snd (get_batch db accessible timeout now batch_id st))"
  by (simp add: get_batch_def Let_def split: option.split prod.split)

text \<open>The operations on the records, each in a world and over tables of its own.\<close>

inductive fix_steps :: "fix_state \<Rightarrow> fix_state \<Rightarrow> bool" where
  here: "fix_steps st st"
| by_hand: "fix_steps st st1 \<Longrightarrow>
    fix_steps st (snd (raise_package_fix_pr_endpoint w db accessible plan_fails queued user_id user_name target_id package st1))"
| all_of_it: "fix_steps st st1 \<Longrightarrow> fix_steps st (snd (raise_all_endpoint w db accessible plan_fails queued user_id target_id st1))"
| task: "fix_steps st st1 \<Longrightarrow> fix_steps st (snd (run_raise_all_batch w db plan_fails raiser batch_id st1))"
| beat: "fix_steps st st1 \<Longrightarrow> fix_steps st (fst (sweep_auto_raise_prs w db st1))"
| polled: "fix_steps st st1 \<Longrightarrow> fix_steps st (snd (get_batch db accessible timeout now batch_id st1))"

lemma steps_extend: "fix_steps st st' \<Longrightarrow> extends st st'"
  by (induction rule: fix_steps.induct)
    (auto intro: extends_trans endpoint_extends raise_all_extends batch_extends sweep_extends get_batch_extends)

lemma least_by_newest:
  "\<forall>y\<in>set (x # xs). fp_created_at y \<le> fp_created_at (least_by (\<lambda>a b. fp_created_at b < fp_created_at a) x xs)"
proof (induction xs rule: rev_induct)
  case (snoc y ys)
  then show ?case by (auto simp: least_by_snoc)
qed simp

lemma latest_newest:
  assumes "prs_for prs i p \<noteq> []"
  obtains row where "latest_raised_pr prs i p = Some row" and "row \<in> set (prs_for prs i p)"
    and "\<forall>r\<in>set (prs_for prs i p). fp_created_at r \<le> fp_created_at row"
proof -
  from assms obtain x xs where c: "prs_for prs i p = x # xs" by (cases "prs_for prs i p") auto
  show thesis
    by (rule that [of "least_by (\<lambda>a b. fp_created_at b < fp_created_at a) x xs"])
      (unfold latest_raised_pr_def c, use least_by_mem [of _ x xs] least_by_newest [of x xs] in simp_all)
qed

lemma is_covered_mono:
  "is_covered prs i plan \<Longrightarrow> up_package plan' = up_package plan \<Longrightarrow> set (plan_finding_ids plan') \<subseteq> set (plan_finding_ids plan) \<Longrightarrow>
   is_covered prs i plan'"
  by (auto simp: is_covered_iff)

text \<open>C14: A fix is raised once.  Once a pull request was opened for a package's findings, then after any sequence of the
  program's operations (by hand, in a batch, by the sweep, a poll; whatever the tables and GitHub look like) a call
  for that package and any of those findings sends nothing, runs nothing and changes nothing.  It answers with the
  pull request recorded last for the package, by its time of creation: the one that was opened, as long as every other
  row of the package is older than it, which the clock gives until the package is raised again.\<close>

theorem raising_is_idempotent:
  assumes "raise_package_fix_pr w db t plan user st = (Raised pr, st')" and "fix_steps st' later"
    and "t_id t' = t_id t" "up_package plan' = up_package plan" "set (plan_finding_ids plan') \<subseteq> set (plan_finding_ids plan)"
  shows "\<exists>row\<in>set (prs_for (fs_prs later) (t_id t) (up_package plan)).
    raise_package_fix_pr w' db' t' plan' user' later = (AlreadyRaised (pr_of row), later) \<and>
    (\<forall>r\<in>set (prs_for (fs_prs later) (t_id t) (up_package plan)). fp_created_at r \<le> fp_created_at row) \<and>
    (\<exists>opened\<in>set (prs_for (fs_prs later) (t_id t) (up_package plan)). pr_of opened = pr \<and>
       ((\<forall>r\<in>set (prs_for (fs_prs later) (t_id t) (up_package plan)). r \<noteq> opened \<longrightarrow> fp_created_at r < fp_created_at opened) \<longrightarrow>
         row = opened))"
proof -
  from assms(1) obtain now where st': "fs_prs st' = fs_prs st @ [fix_pr_row t plan pr user now]"
    by (auto simp: raise_package_fix_pr_def Let_def split: if_splits prod.splits sum.splits list.splits)
  let ?opened = "fix_pr_row t plan pr user now" and ?rows = "prs_for (fs_prs later) (t_id t) (up_package plan)"
  from steps_extend [OF assms(2)] obtain rows where later: "fs_prs later = fs_prs st' @ rows" by (auto simp: extends_def)
  have opened: "?opened \<in> set ?rows" "pr_of ?opened = pr" by (simp_all add: later st' prs_for_def fix_pr_row_def pr_of_def)
  then have "?rows \<noteq> []" by auto
  from latest_newest [OF this] obtain row where row: "latest_raised_pr (fs_prs later) (t_id t) (up_package plan) = Some row"
    "row \<in> set ?rows" "\<forall>r\<in>set ?rows. fp_created_at r \<le> fp_created_at row" by blast
  have "is_covered (fs_prs later) (t_id t) plan" unfolding later st' by (intro is_covered_append row_covers)
  from is_covered_mono [OF this assms(4,5)] row(1) assms(3,4)
  have "raise_package_fix_pr w' db' t' plan' user' later = (AlreadyRaised (pr_of row), later)"
    by (simp add: raise_covered)
  moreover have "row = ?opened" if "\<forall>r\<in>set ?rows. r \<noteq> ?opened \<longrightarrow> fp_created_at r < fp_created_at ?opened"
    using that row(2) bspec [OF row(3) opened(1)] by fastforce
  ultimately show ?thesis using row(2,3) opened by blast
qed

subsection \<open>Package managers\<close>

definition clean :: "string list \<Rightarrow> files \<Rightarrow> bool" where
  "clean dir files \<longleftrightarrow> (\<forall>d\<in>set (levels dir). \<forall>b\<in>set UNTRUSTED_PM_CONFIG_FILES. files (in_dir d b) = None)"

lemma fold_delete: "k \<in> f ` set bs \<or> files k = None \<Longrightarrow> fold (\<lambda>b fs. fs(f b := None)) bs files k = None"
  by (induction bs arbitrary: files) auto

lemma fold_delete_all:
  "(\<exists>d\<in>set ds. k \<in> f d ` set bs) \<or> files k = None \<Longrightarrow>
   fold (\<lambda>d. fold (\<lambda>b fs. fs(f d b := None)) bs) ds files k = None"
proof (induction ds arbitrary: files)
  case (Cons d ds)
  then have "(\<exists>d\<in>set ds. k \<in> f d ` set bs) \<or> fold (\<lambda>b fs. fs(f d b := None)) bs files k = None"
    using fold_delete [of k "f d" bs files] by auto
  with Cons.IH [of "fold (\<lambda>b fs. fs(f d b := None)) bs files"] show ?case unfolding fold_simps by blast
qed simp

lemma strip_clean [simp]: "clean dir (strip_untrusted_pm_config dir files)"
  unfolding clean_def strip_untrusted_pm_config_def by (auto intro!: fold_delete_all)

definition allowed_env :: "string list" where
  "allowed_env = [''PATH'', ''HOME'', ''YARN_IGNORE_PATH'', ''LANG'', ''LC_ALL'', ''YARN_ENABLE_SCRIPTS'']"

lemma update_all_keys: "fst ` set (fold (\<lambda>(k, v). AList.update k v) extra base) = fst ` set extra \<union> fst ` set base"
  by (induction extra arbitrary: base) (simp_all add: dom_update split_beta)

lemma base_env_keys:
  "fst ` set ([(''PATH'', p), (''HOME'', h), (''YARN_IGNORE_PATH'', y)] @
     concat (map (\<lambda>k. case environ k of None \<Rightarrow> [] | Some v \<Rightarrow> [(k, v)]) [''LANG'', ''LC_ALL''])) \<subseteq> set allowed_env"
  by (cases "environ ''LANG''"; cases "environ ''LC_ALL''") (simp_all add: allowed_env_def)

lemma env_allowed:
  "fst ` set (scrubbed_pm_env w []) \<subseteq> set allowed_env"
  "fst ` set (scrubbed_pm_env w [(''YARN_ENABLE_SCRIPTS'', v)]) \<subseteq> set allowed_env"
proof -
  have "fst ` set (scrubbed_pm_env w extra) \<subseteq> fst ` set extra \<union> set allowed_env" for extra
    unfolding scrubbed_pm_env_def Let_def update_all_keys by (rule Un_mono [OF subset_refl base_env_keys])
  from this [of "[]"] this [of "[(''YARN_ENABLE_SCRIPTS'', v)]"] show
    "fst ` set (scrubbed_pm_env w []) \<subseteq> set allowed_env"
    "fst ` set (scrubbed_pm_env w [(''YARN_ENABLE_SCRIPTS'', v)]) \<subseteq> set allowed_env"
    by (simp_all add: allowed_env_def)
qed

text \<open>What each package manager is told so that it runs nothing of the repository: npm and classic yarn to ignore
  scripts, pnpm its pnpmfile as well, berry by its environment.\<close>

definition runs_no_scripts :: "string list \<Rightarrow> (string \<times> string) list \<Rightarrow> bool" where
  "runs_no_scripts cmd env \<longleftrightarrow>
     cmd = [''yarn'', ''--version''] \<or>
     take 2 cmd = [''npm'', ''install''] \<and> {''--package-lock-only'', ''--ignore-scripts''} \<subseteq> set cmd \<or>
     take 2 cmd = [''pnpm'', ''add''] \<and> {''--lockfile-only'', ''--ignore-scripts'', ''--ignore-pnpmfile''} \<subseteq> set cmd \<or>
     take 2 cmd = [''yarn'', ''add''] \<and> ''--ignore-scripts'' \<in> set cmd \<or>
     take 2 cmd = [''yarn'', ''up''] \<and> ''--mode=update-lockfile'' \<in> set cmd \<and> map_of env ''YARN_ENABLE_SCRIPTS'' = Some ''false''"

definition guarded_run :: "pm_run \<Rightarrow> bool" where
  "guarded_run = (\<lambda>(cmd, dir, env, files).
     fst ` set env \<subseteq> set allowed_env \<and> map_of env ''YARN_IGNORE_PATH'' = Some ''1'' \<and> runs_no_scripts cmd env)"

definition left_files :: "pm_outcome \<Rightarrow> files \<Rightarrow> files" where
  "left_files r files = (case r of Exited _ _ files' \<Rightarrow> files' | TimedOut files' \<Rightarrow> files' | NotInstalled \<Rightarrow> files)"

text \<open>One run over clean files, or the probe of yarn's version over clean files and then a run over what it left.\<close>

definition confined_runs :: "npm_world \<Rightarrow> pm_run list \<Rightarrow> bool" where
  "confined_runs w runs \<longleftrightarrow> list_all guarded_run runs \<and>
     (case runs of
        [] \<Rightarrow> True
      | (cmd, dir, env, files) # later \<Rightarrow> clean dir files \<and>
          (later = [] \<or> cmd = [''yarn'', ''--version''] \<and>
             (\<exists>cmd' env'. later = [(cmd', dir, env', left_files (nw_run w (cmd, dir, env, files)) files)])))"

lemma yarn_probe_leaves: "snd (yarn_major w dir env files) = left_files (nw_run w ([''yarn'', ''--version''], dir, env, files)) files"
  by (simp add: yarn_major_def left_files_def split: pm_outcome.split)

lemma env_values:
  "map_of (scrubbed_pm_env w []) ''YARN_IGNORE_PATH'' = Some ''1''"
  "map_of (scrubbed_pm_env w [(''YARN_ENABLE_SCRIPTS'', ''false'')]) ''YARN_IGNORE_PATH'' = Some ''1''"
  "map_of (scrubbed_pm_env w [(''YARN_ENABLE_SCRIPTS'', ''false'')]) ''YARN_ENABLE_SCRIPTS'' = Some ''false''"
  by (simp_all add: scrubbed_pm_env_def update_conv' Let_def)

lemma bump_confined: "clean dir files \<Longrightarrow> confined_runs w (snd (bump_lockfile w dir lockfile_name package v files))"
  using env_allowed [of w] yarn_probe_leaves [of w dir "scrubbed_pm_env w []" files] env_values [of w]
  by (auto simp: bump_lockfile_def confined_runs_def guarded_run_def runs_no_scripts_def Let_def split: prod.split)

text \<open>C25: A repository configures none of the package managers that run on it.  Whenever a lockfile is regenerated, whatever is
  in the checkout and however a package manager behaves, each one started gets no variable of the worker's environment but
  the path, the home and the locale, and is told to run nothing of the repository: npm and classic yarn no scripts,
  pnpm no scripts and no pnpmfile, berry no scripts by its environment.  The first finds none of the files that could
  redirect it (\<open>.npmrc\<close>, \<open>.yarnrc\<close>, \<open>.yarnrc.yml\<close>) in its directory or above it in the checkout; a second one runs
  only after the probe of yarn's version and sees exactly the files the probe left.  What \<open>package.json\<close> itself
  says stays: corepack takes yarn's version from its \<open>packageManager\<close>.\<close>

theorem package_managers_are_confined:
  "confined_runs w (snd (build_npm_patch_files w g target plan pairs))"
proof -
  have bump: "confined_runs w (snd (bump_lockfile w dir l p v (strip_untrusted_pm_config dir files)))" for dir l p v files
    by (rule bump_confined [OF strip_clean])
  have none: "confined_runs w []" by (simp add: confined_runs_def)
  have runs: "snd (case x of (Inl e, runs) \<Rightarrow> (E e, runs)
      | (Inr files', runs) \<Rightarrow> (case (A files', B files') of (Some m, Some k) \<Rightarrow> (R m k, runs) | _ \<Rightarrow> (N, runs))) = snd x"
    for x and E :: "'e \<Rightarrow> 'r" and A :: "'f \<Rightarrow> 'm option" and B :: "'f \<Rightarrow> 'k option" and R N
    by (simp split: prod.split sum.split option.split)
  show ?thesis
    unfolding build_npm_patch_files_def Let_def
    by (split if_split prod.split option.split sum.split; intro conjI impI allI; (simp add: runs bump none; fail)?)+
qed

subsection \<open>Concrete runs\<close>

definition example_raising_world :: pr_raising_world where
  "example_raising_world =
     \<lparr>rw_github = example_fix_world ''lib==1.0'',
      rw_npm = \<lparr>nw_clone = (\<lambda>_ _ _. Inr (\<lambda>_. None)), nw_run = (\<lambda>(_, _, _, files). Exited 0 ''1.22.0'' files),
        nw_environ = (\<lambda>_. None), nw_set_order = (\<lambda>xs. xs)\<rparr>,
      rw_now = (\<lambda>_. 9)\<rparr>"

definition example_fix_state :: fix_state where
  "example_fix_state = \<lparr>fs_prs = [], fs_batches = [], fs_items = [], fs_sent = [], fs_runs = []\<rparr>"

definition pinned_plan :: upgrade where "pinned_plan = hd (group_remediations pinned_db 1)"

definition opted_in_db :: db where
  "opted_in_db = pinned_db\<lparr>d_targets := [example_target\<lparr>t_auto_raise_fix_prs := True\<rparr>]\<rparr>"

text \<open>Only the files of one branch are committed, but every finding of the plan is recorded as covered, so
  the vulnerable pin on another branch is never raised again.\<close>

definition two_refs :: db where
  "two_refs = plan_db [pinned_finding, pinned_finding\<lparr>f_id := 2, f_branch := ''dev''\<rparr>] [advisory_row ''CVE-1'' [(''lib'', ''1.2'')]]"

lemma other_branch_is_forgotten:
  "(let (out, st) = raise_package_fix_pr example_raising_world two_refs example_target (hd (group_remediations two_refs 1)) ''sweep''
       example_fix_state
    in (map fp_finding_ids (fs_prs st), filter (\<lambda>r. case r of OpenPull _ _ \<Rightarrow> True | _ \<Rightarrow> False) (fs_sent st))) =
   ([Some [1, 2]], [OpenPull ''toleman/fix-pkg-1-lib-5'' ''main''])"
  by code_simp

lemma pinned_raise:
  "case raise_package_fix_pr example_raising_world pinned_db example_target pinned_plan ''user'' example_fix_state of
     (Raised pr, st) \<Rightarrow> True | _ \<Rightarrow> False"
  by code_simp

text \<open>The user raises lib's fix by hand; later the sweep passes, and the user tries again.\<close>

theorem raising_is_idempotent_witness:
  "\<exists>pr later row. fst (raise_package_fix_pr example_raising_world pinned_db example_target pinned_plan ''user'' example_fix_state) = Raised pr \<and>
     later = fst (sweep_auto_raise_prs example_raising_world opted_in_db
       (snd (raise_package_fix_pr example_raising_world pinned_db example_target pinned_plan ''user'' example_fix_state))) \<and>
     raise_package_fix_pr example_raising_world pinned_db example_target pinned_plan ''user'' later = (AlreadyRaised (pr_of row), later)"
proof -
  from pinned_raise obtain pr st where
    r: "raise_package_fix_pr example_raising_world pinned_db example_target pinned_plan ''user'' example_fix_state = (Raised pr, st)"
    by (auto split: prod.splits raise_outcome.splits)
  let ?later = "fst (sweep_auto_raise_prs example_raising_world opted_in_db st)"
  have "fix_steps st ?later" by (intro fix_steps.intros)
  from raising_is_idempotent [OF r this refl refl subset_refl, of example_raising_world pinned_db "''user''"]
  obtain row where "raise_package_fix_pr example_raising_world pinned_db example_target pinned_plan ''user'' ?later =
      (AlreadyRaised (pr_of row), ?later)" by blast
  with r show ?thesis by (intro exI [of _ pr] exI [of _ ?later] exI [of _ row]) simp
qed

theorem sweep_is_idempotent_witness:
  "\<exists>st. fs_prs st \<noteq> [] \<and> fst (sweep_auto_raise_prs example_raising_world opted_in_db st) = st"
proof -
  obtain st sm where r: "sweep_auto_raise_prs example_raising_world opted_in_db example_fix_state = (st, sm)" by fastforce
  have "sm_prs_raised (snd (sweep_auto_raise_prs example_raising_world opted_in_db example_fix_state)) = 1 \<and>
      sm_prs_failed (snd (sweep_auto_raise_prs example_raising_world opted_in_db example_fix_state)) = 0"
    by code_simp
  then have "sm_prs_failed sm = 0" "sm_prs_raised sm = 1" using r by simp_all
  with sweep_is_idempotent [OF r, of example_raising_world] have
    "fst (sweep_auto_raise_prs example_raising_world opted_in_db st) = st" "length (fs_prs st) \<noteq> 0" by simp_all
  then show ?thesis by (intro exI [of _ st]) auto
qed

text \<open>A batch of one package that is in the plan and one that no longer is; and one whose target is gone, which is
  completed with its item pending.\<close>

definition started :: fix_state where "started = snd (start_batch 1 5 [''lib'', ''gone''] 0 example_fix_state)"

lemma orphaned_batch_keeps_its_items:
  "(let (out, st) = run_raise_all_batch example_raising_world (pinned_db\<lparr>d_targets := []\<rparr>) False (\<lambda>_. ''user'') 1 started
    in (out, map rb_status (fs_batches st), map ri_status (fs_items st))) =
   (TargetNotFound, [''completed''], [''pending'', ''pending''])"
  by code_simp


end
