(* ===== verification/Discovery.thy ===== *)
theory Discovery
  imports Regex AiRepo ScanTask Diff
begin

text \<open>
  API discovery: \<open>scanners/discovery.py\<close> (the routes of a checkout), \<open>core/discovery_ingestion.py\<close> (the
  upsert of the endpoint table), \<open>tasks/discovery_tasks.py\<close> and the handlers of \<open>api/discovery.py\<close>.
  What the file system says of a checkout is in the record \<open>discovery_world\<close>; a run's row is kept in a
  list beside the database.
\<close>

subsection \<open>Route patterns\<close>

record discovered_endpoint =
  de_framework :: string
  de_method :: string
  de_route :: string
  de_file :: string
  de_line :: "int option"

definition spaces :: re where "spaces = Many is_space"

definition is_quote :: "char \<Rightarrow> bool" where
  "is_quote c \<longleftrightarrow> c = CHR 0x22 \<or> c = CHR 0x27"

definition quote_mark :: re where "quote_mark = Chr is_quote"

definition unquoted :: re where "unquoted = Many (\<lambda>c. \<not> is_quote c)"
definition unquoted1 :: re where "unquoted1 = Seq (Chr (\<lambda>c. \<not> is_quote c)) unquoted"

definition in_order :: "re list \<Rightarrow> re" where "in_order rs = foldr Seq rs Eps"

definition call_open :: re where "call_open = in_order [Chr ((=) (CHR ''('')), spaces]"

definition FLASK :: "re list list" where
  "FLASK =
     (let head = in_order [exactly ''@'', one_of [ignoring_case ''app'', ignoring_case ''bp'', ignoring_case ''blueprint''],
            ignoring_case ''.route'', call_open, quote_mark];
          methods = in_order [Many (\<lambda>c. c \<noteq> LINE_FEED), ignoring_case ''methods'', spaces, exactly ''='', spaces, exactly ''['']
      in [[head, unquoted1, quote_mark, methods, Many (\<lambda>c. c \<noteq> CHR '']''), exactly '']''],
          [head, unquoted1, quote_mark]])"

definition FASTAPI :: "re list list" where
  "FASTAPI =
     [[in_order [exactly ''@'', one_of [ignoring_case ''app'', ignoring_case ''router''], exactly ''.''],
       one_of (map ignoring_case [''get'', ''post'', ''put'', ''delete'', ''patch'', ''head'', ''options'']),
       in_order [call_open, quote_mark], unquoted1, quote_mark]]"

definition EXPRESS :: "re list list" where
  "EXPRESS =
     [[in_order [one_of [exactly ''app'', exactly ''router''], exactly ''.''],
       one_of (map exactly [''get'', ''post'', ''put'', ''delete'', ''patch'', ''use'']),
       in_order [call_open, quote_mark], unquoted1, quote_mark]]"

definition double_quote :: re where "double_quote = Chr (\<lambda>c. c = CHR 0x22)"
definition within_double :: re where
  "within_double = Seq (Chr (\<lambda>c. c \<noteq> CHR 0x22)) (Many (\<lambda>c. c \<noteq> CHR 0x22))"

definition GIN :: "re list list" where
  "GIN =
     [[in_order [one_of [exactly ''router'', exactly ''r'', exactly ''engine''], exactly ''.''],
       one_of (map exactly [''GET'', ''POST'', ''PUT'', ''DELETE'', ''PATCH'']),
       in_order [call_open, double_quote], within_double, double_quote]]"

definition DJANGO :: "re list list" where
  "DJANGO = [[in_order [exactly ''path'', call_open, quote_mark], unquoted, quote_mark]]"

definition SPRING :: "re list list" where
  "SPRING =
     [[in_order [exactly ''@'',
         one_of (map exactly [''GetMapping'', ''PostMapping'', ''PutMapping'', ''DeleteMapping'', ''RequestMapping'']),
         call_open, maybe (in_order [exactly ''value'', spaces, exactly ''='', spaces]), quote_mark], unquoted1, quote_mark]]"

text \<open>\<open>pattern.search(line)\<close>: a pattern whose optional tail holds a group is the list of its two forms, tried in
  that order at each position.\<close>

definition first_groups :: "re list list \<Rightarrow> char option \<Rightarrow> string \<Rightarrow> string list option" where
  "first_groups forms prev s =
     (case concat (map (\<lambda>rs. groups rs prev s) forms) of [] \<Rightarrow> None | g # _ \<Rightarrow> Some g)"

fun search_groups :: "re list list \<Rightarrow> char option \<Rightarrow> string \<Rightarrow> string list option" where
  "search_groups forms prev [] = first_groups forms prev []"
| "search_groups forms prev (c # cs) =
     (case first_groups forms prev (c # cs) of
        Some g \<Rightarrow> Some g
      | None \<Rightarrow> search_groups forms (Some c) cs)"

definition flask_method :: "string list \<Rightarrow> string" where
  "flask_method g =
     (let methods = (if length g > 3 then g ! 4 else [])
      in if methods = [] then ''GET'' else str_strip (filter (\<lambda>c. \<not> is_quote c) methods))"

definition verb_and_route :: "string list \<Rightarrow> string \<times> string" where
  "verb_and_route g = (str_upper (g ! 1), g ! 3)"

definition PATTERNS :: "(string \<times> re list list \<times> (string list \<Rightarrow> string \<times> string)) list" where
  "PATTERNS =
     [(''flask'', FLASK, \<lambda>g. (flask_method g, g ! 1)), (''fastapi'', FASTAPI, verb_and_route),
      (''express'', EXPRESS, verb_and_route), (''gin'', GIN, verb_and_route),
      (''django'', DJANGO, \<lambda>g. (''-'', g ! 1)), (''spring'', SPRING, \<lambda>g. (''-'', g ! 1))]"

text \<open>A line is tagged with the first framework whose pattern it matches.\<close>

fun route_of_line ::
  "(string \<times> re list list \<times> (string list \<Rightarrow> string \<times> string)) list \<Rightarrow> string \<Rightarrow> (string \<times> string \<times> string) option" where
  "route_of_line [] line = None"
| "route_of_line ((framework, forms, reading) # ps) line =
     (case search_groups forms None line of
        None \<Rightarrow> route_of_line ps line
      | Some g \<Rightarrow> Some (framework, reading g))"

subsection \<open>The routes of a checkout\<close>

definition SOURCE_EXTENSIONS :: "string list" where
  "SOURCE_EXTENSIONS = [''.py'', ''.js'', ''.ts'', ''.go'', ''.java'', ''.rb'']"

definition DISCOVERY_SKIP_DIRS :: "string list" where
  "DISCOVERY_SKIP_DIRS = [''.git'', ''node_modules'', ''vendor'', ''__pycache__'', ''.venv'', ''venv'', ''dist'', ''build'']"

text \<open>\<open>dw_symlink\<close>: the path is a symbolic link, or does not resolve to a place in the checkout.  \<open>dw_text\<close> is
  the text of a file that can be read.\<close>

record discovery_world =
  dw_clone :: "target \<Rightarrow> row_id \<Rightarrow> clone_result"
  dw_symlink :: "string list \<Rightarrow> bool"
  dw_text :: "string list \<Rightarrow> string option"
  dw_now :: timestamp

definition routes_of_text :: "string \<Rightarrow> string \<Rightarrow> discovered_endpoint list" where
  "routes_of_text rel_path text =
     List.map_filter (\<lambda>(line_no, line).
         map_option (\<lambda>(framework, verb, route).
             \<lparr>de_framework = framework, de_method = verb, de_route = route, de_file = rel_path, de_line = Some line_no\<rparr>)
           (route_of_line PATTERNS line))
       (zip (map int [1..<Suc (length (splitlines text))]) (splitlines text))"

definition is_source :: "discovery_world \<Rightarrow> string \<Rightarrow> tree_entry \<Rightarrow> bool" where
  "is_source w root_dir e \<longleftrightarrow>
     te_is_file e \<and> list_all (\<lambda>part. part \<notin> set DISCOVERY_SKIP_DIRS) (posix_parts root_dir @ te_parts e) \<and>
     te_parts e \<noteq> [] \<and> path_suffix (last (te_parts e)) \<in> set SOURCE_EXTENSIONS \<and> \<not> dw_symlink w (te_parts e)"

definition discover_endpoints :: "discovery_world \<Rightarrow> checkout \<Rightarrow> discovered_endpoint list" where
  "discover_endpoints w co =
     concat (map (\<lambda>e. case dw_text w (te_parts e) of
                        None \<Rightarrow> []
                      | Some text \<Rightarrow> routes_of_text (join ''/'' (te_parts e)) text)
       (filter (is_source w (co_root co)) (co_entries co)))"

subsection \<open>The endpoint table\<close>

definition endpoint_key :: "api_endpoint \<Rightarrow> string \<times> string \<times> string" where
  "endpoint_key e = (ep_method e, ep_route e, ep_file_path e)"

definition found_key :: "discovered_endpoint \<Rightarrow> string \<times> string \<times> string" where
  "found_key d = (de_method d, de_route d, de_file d)"

definition endpoints_of :: "db \<Rightarrow> row_id \<Rightarrow> string \<Rightarrow> api_endpoint list" where
  "endpoints_of db target_id branch = filter (\<lambda>e. ep_target_id e = target_id \<and> ep_branch e = branch) (d_endpoints db)"

text \<open>\<open>existing.get(key)\<close>: of the rows with the key, the last one put into the dictionary.\<close>

definition known_endpoint :: "db \<Rightarrow> row_id \<Rightarrow> string \<Rightarrow> string \<times> string \<times> string \<Rightarrow> api_endpoint option" where
  "known_endpoint db target_id branch key =
     List.find (\<lambda>e. endpoint_key e = key) (rev (endpoints_of db target_id branch))"

definition new_endpoint :: "timestamp \<Rightarrow> row_id \<Rightarrow> string \<Rightarrow> row_id \<Rightarrow> discovered_endpoint \<Rightarrow> api_endpoint" where
  "new_endpoint now target_id branch i d =
     \<lparr>ep_id = i, ep_target_id = target_id, ep_branch = branch, ep_framework = de_framework d,
      ep_method = de_method d, ep_route = de_route d, ep_file_path = de_file d, ep_line = de_line d,
      ep_first_seen = now, ep_last_seen = now, ep_excluded = False, ep_exclusion_reason = None\<rparr>"

definition upsert_endpoint ::
  "timestamp \<Rightarrow> row_id \<Rightarrow> string \<Rightarrow> discovered_endpoint \<Rightarrow> db \<times> row_id list \<Rightarrow> db \<times> row_id list" where
  "upsert_endpoint now target_id branch d = (\<lambda>(db, created).
     (case known_endpoint db target_id branch (found_key d) of
        Some e \<Rightarrow>
          (db\<lparr>d_endpoints := update_rows ep_id (ep_id e) (\<lambda>e. e\<lparr>ep_last_seen := now, ep_line := de_line d\<rparr>) (d_endpoints db)\<rparr>,
           created)
      | None \<Rightarrow>
          (let i = next_id ep_id (d_endpoints db)
           in (db\<lparr>d_endpoints := d_endpoints db @ [new_endpoint now target_id branch i d]\<rparr>, created @ [i]))))"

definition upsert_endpoints ::
  "timestamp \<Rightarrow> row_id \<Rightarrow> string \<Rightarrow> discovered_endpoint list \<Rightarrow> db \<Rightarrow> db \<times> row_id list" where
  "upsert_endpoints now target_id branch discovered db =
     fold (upsert_endpoint now target_id branch) discovered (db, [])"

subsection \<open>A discovery run\<close>

record discovery_run =
  dr_id :: row_id
  dr_target_id :: row_id
  dr_branch :: string
  dr_status :: string
  dr_error :: string
  dr_count :: nat
  dr_new_count :: nat
  dr_new_ids :: "row_id list"
  dr_started_at :: timestamp
  dr_completed_at :: "timestamp option"

type_synonym discovery_state = "db \<times> discovery_run list"

definition get_run :: "discovery_run list \<Rightarrow> row_id \<Rightarrow> discovery_run option" where
  "get_run runs i = List.find (\<lambda>r. dr_id r = i) runs"

definition fail_run :: "timestamp \<Rightarrow> string \<Rightarrow> row_id \<Rightarrow> discovery_run list \<Rightarrow> discovery_run list" where
  "fail_run now error i =
     update_rows dr_id i (\<lambda>r. r\<lparr>dr_status := ''failed'', dr_error := error, dr_completed_at := Some now\<rparr>)"

definition complete_run :: "timestamp \<Rightarrow> nat \<Rightarrow> row_id list \<Rightarrow> row_id \<Rightarrow> discovery_run list \<Rightarrow> discovery_run list" where
  "complete_run now all_count new_ids i =
     update_rows dr_id i (\<lambda>r. r\<lparr>dr_status := ''completed'', dr_count := all_count, dr_new_count := length new_ids,
       dr_new_ids := new_ids, dr_completed_at := Some now\<rparr>)"

datatype discovery_outcome =
  RunNotFound | DiscoveryTargetNotFound | DiscoveryRefused string | Discovered nat nat | DiscoveryFailed string | DiscoveryRetried

definition run_discovery ::
  "discovery_world \<Rightarrow> row_id \<Rightarrow> row_id \<Rightarrow> bool \<Rightarrow> discovery_state
     \<Rightarrow> discovery_state \<times> discovery_outcome \<times> scan_event list" where
  "run_discovery w target_id run_id last_attempt = (\<lambda>(db, runs).
     (case get_run runs run_id of
        None \<Rightarrow> ((db, runs), RunNotFound, [])
      | Some run \<Rightarrow>
          (case get_target db target_id of
             None \<Rightarrow> ((db, fail_run (dw_now w) ''target not found'' run_id runs), DiscoveryTargetNotFound, [])
           | Some t \<Rightarrow>
               (case scan_refusal_reason t of
                  Some refusal \<Rightarrow> ((db, fail_run (dw_now w) refusal run_id runs), DiscoveryRefused refusal, [])
                | None \<Rightarrow>
                    (case dw_clone w t run_id of
                       Cloned co \<Rightarrow>
                         (let (db1, new_ids) =
                                upsert_endpoints (dw_now w) target_id (t_default_branch t) (discover_endpoints w co) db;
                              all_count = length (endpoints_of db1 target_id (t_default_branch t))
                          in ((db1, complete_run (dw_now w) all_count new_ids run_id runs),
                              Discovered all_count (length new_ids), []))
                     | CloneProcessError \<Rightarrow>
                         (let error = ''git clone failed after retries'' in
                          if last_attempt
                          then ((db, fail_run (dw_now w) error run_id runs), DiscoveryRetried,
                                [ScanFailureNotice (t_id t) ''discovery'' error])
                          else ((db, runs), DiscoveryRetried, []))
                     | CloneError error \<Rightarrow>
                         ((db, fail_run (dw_now w) error run_id runs), DiscoveryFailed error,
                          [ScanFailureNotice (t_id t) ''discovery'' error]))))))"

subsection \<open>The handlers\<close>

text \<open>\<open>visible\<close> holds the workspaces the caller may read, None for an administrator.  An answer is a status
  code with what the handler did.\<close>

type_synonym scope = "row_id list option"

definition in_scope_of :: "scope \<Rightarrow> row_id \<Rightarrow> bool" where
  "in_scope_of visible ws \<longleftrightarrow> (case visible of None \<Rightarrow> True | Some ids \<Rightarrow> ws \<in> set ids)"

definition discovery_target :: "scope \<Rightarrow> db \<Rightarrow> row_id \<Rightarrow> target option" where
  "discovery_target visible db i =
     (case get_target db i of
        None \<Rightarrow> None
      | Some t \<Rightarrow> if is_deleted t \<or> \<not> in_scope_of visible (t_workspace_id t) then None else Some t)"

definition start_discovery ::
  "timestamp \<Rightarrow> scope \<Rightarrow> row_id \<Rightarrow> discovery_state \<Rightarrow> int \<times> row_id option \<times> discovery_state" where
  "start_discovery now visible target_id = (\<lambda>(db, runs).
     (case discovery_target visible db target_id of
        None \<Rightarrow> (404, None, (db, runs))
      | Some t \<Rightarrow>
          if scan_refusal_reason t \<noteq> None then (409, None, (db, runs))
          else (let i = next_id dr_id runs in
                (202, Some i, (db, runs @
                   [\<lparr>dr_id = i, dr_target_id = target_id, dr_branch = t_default_branch t, dr_status = ''running'',
                     dr_error = [], dr_count = 0, dr_new_count = 0, dr_new_ids = [], dr_started_at = now,
                     dr_completed_at = None\<rparr>])))))"

definition list_discovered_endpoints :: "scope \<Rightarrow> row_id \<Rightarrow> db \<Rightarrow> api_endpoint list option" where
  "list_discovered_endpoints visible target_id db =
     map_option (\<lambda>t. endpoints_of db target_id (t_default_branch t)) (discovery_target visible db target_id)"

definition set_endpoint_scope ::
  "scope \<Rightarrow> row_id \<Rightarrow> row_id \<Rightarrow> bool \<Rightarrow> string option \<Rightarrow> db \<Rightarrow> int \<times> db" where
  "set_endpoint_scope visible target_id endpoint_id excluded reason db =
     (case discovery_target visible db target_id of
        None \<Rightarrow> (404, db)
      | Some t \<Rightarrow>
          (case List.find (\<lambda>e. ep_id e = endpoint_id) (d_endpoints db) of
             None \<Rightarrow> (404, db)
           | Some e \<Rightarrow>
               if ep_target_id e \<noteq> target_id \<or> ep_branch e \<noteq> t_default_branch t then (404, db)
               else (200, db\<lparr>d_endpoints := update_rows ep_id endpoint_id
                      (\<lambda>e. e\<lparr>ep_excluded := excluded, ep_exclusion_reason := (if excluded then reason else None)\<rparr>)
                      (d_endpoints db)\<rparr>)))"

definition get_discovery_run ::
  "duration \<Rightarrow> timestamp \<Rightarrow> scope \<Rightarrow> row_id \<Rightarrow> row_id \<Rightarrow> discovery_state
     \<Rightarrow> (discovery_run \<times> (api_endpoint \<times> bool) list) option \<times> discovery_state" where
  "get_discovery_run timeout now visible target_id run_id = (\<lambda>(db, runs).
     (case get_run runs run_id of
        None \<Rightarrow> (None, (db, runs))
      | Some run \<Rightarrow>
          if dr_target_id run \<noteq> target_id then (None, (db, runs))
          else (let stale = (dr_status run = ''running'' \<and> now - dr_started_at run \<ge> timeout);
                    error = ''Timed out: no update received within '' @ nat_str (nat (timeout div minutes 1)) @ '' minutes'';
                    runs' = (if stale then fail_run now error run_id runs else runs)
                in case discovery_target visible db target_id of
                     None \<Rightarrow> (None, (db, runs'))
                   | Some t \<Rightarrow>
                       (let run' = (case get_run runs' run_id of None \<Rightarrow> run | Some r \<Rightarrow> r);
                            rows = (if dr_status run' = ''running'' then []
                                    else map (\<lambda>e. (e, ep_id e \<in> set (dr_new_ids run')))
                                           (endpoints_of db target_id (t_default_branch t)))
                        in (Some (run', rows), (db, runs'))))))"

end
