(* ===== verification/DiscoveryProps.thy ===== *)
theory DiscoveryProps
  imports Discovery
begin

text \<open>
  What a discovery run does to the endpoint table, and what an operator's decision about an endpoint
  survives.
\<close>

subsection \<open>The upsert\<close>

text \<open>What a later run never touches.\<close>

definition endpoint_identity :: "api_endpoint \<Rightarrow> row_id \<times> row_id \<times> string \<times> string \<times> (string \<times> string \<times> string)
    \<times> timestamp \<times> bool \<times> string option" where
  "endpoint_identity e = (ep_id e, ep_target_id e, ep_branch e, ep_framework e, endpoint_key e, ep_first_seen e,
     ep_excluded e, ep_exclusion_reason e)"

definition full_key :: "api_endpoint \<Rightarrow> row_id \<times> string \<times> string \<times> string \<times> string" where
  "full_key e = (ep_target_id e, ep_branch e, endpoint_key e)"

definition endpoints_ok :: "db \<Rightarrow> bool" where
  "endpoints_ok db \<longleftrightarrow> distinct (map ep_id (d_endpoints db)) \<and> distinct (map full_key (d_endpoints db))"

lemma next_id_above: "r \<in> set rows \<Longrightarrow> key r < next_id key rows"
proof -
  have "n \<le> fold (\<lambda>r n. max n (key r + 1)) rows n \<and> (r \<in> set rows \<longrightarrow> key r < fold (\<lambda>r n. max n (key r + 1)) rows n)"
    for rows and n :: int
  proof (induction rows arbitrary: n)
    case (Cons a rows)
    from Cons.IH [of "max n (key a + 1)"] show ?case by (auto simp del: max.bounded_iff)
  qed simp
  then show "r \<in> set rows \<Longrightarrow> key r < next_id key rows" by (simp add: next_id_def)
qed

lemma known_iff:
  "known_endpoint db tid br k = None \<longleftrightarrow> (tid, br, k) \<notin> full_key ` set (d_endpoints db)"
  by (fastforce simp: known_endpoint_def find_None_iff endpoints_of_def full_key_def)

lemma known_row:
  "known_endpoint db tid br k = Some e \<Longrightarrow> e \<in> set (d_endpoints db) \<and> full_key e = (tid, br, k)"
  using find_mem [of "\<lambda>e. endpoint_key e = k" "rev (endpoints_of db tid br)" e]
  by (auto simp: known_endpoint_def endpoints_of_def full_key_def)

text \<open>One endpoint: a row with its key is marked as seen, or a new row is added at the end.\<close>

definition mark_seen :: "timestamp \<Rightarrow> row_id \<Rightarrow> string \<Rightarrow> discovered_endpoint \<Rightarrow> api_endpoint \<Rightarrow> api_endpoint" where
  "mark_seen now tid br d e =
     (if full_key e = (tid, br, found_key d) then e\<lparr>ep_last_seen := now, ep_line := de_line d\<rparr> else e)"

lemma mark_seen_keeps [simp]:
  "endpoint_identity (mark_seen now tid br d e) = endpoint_identity e"
  "full_key (mark_seen now tid br d e) = full_key e" "ep_id (mark_seen now tid br d e) = ep_id e"
  by (simp_all add: mark_seen_def endpoint_identity_def full_key_def endpoint_key_def)

lemma upsert_endpoint_known:
  assumes "endpoints_ok db" and "(tid, br, found_key d) \<in> full_key ` set (d_endpoints db)"
  shows "upsert_endpoint now tid br d (db, created) =
    (db\<lparr>d_endpoints := map (mark_seen now tid br d) (d_endpoints db)\<rparr>, created)"
proof -
  obtain e where e: "known_endpoint db tid br (found_key d) = Some e"
    using assms(2) known_iff [of db tid br "found_key d"] by fastforce
  note row = known_row [OF e]
  have "q \<in> set (d_endpoints db) \<Longrightarrow> ep_id q = ep_id e \<longleftrightarrow> full_key q = (tid, br, found_key d)" for q
    using assms(1) row unfolding endpoints_ok_def by (metis distinct_map inj_onD)
  with e show ?thesis by (simp add: upsert_endpoint_def update_rows_def mark_seen_def)
qed

lemma upsert_endpoint_new:
  "(tid, br, found_key d) \<notin> full_key ` set (d_endpoints db) \<Longrightarrow>
   upsert_endpoint now tid br d (db, created) =
     (db\<lparr>d_endpoints := d_endpoints db @ [new_endpoint now tid br (next_id ep_id (d_endpoints db)) d]\<rparr>,
      created @ [next_id ep_id (d_endpoints db)])"
  by (simp add: upsert_endpoint_def known_iff [symmetric] Let_def)

lemma full_key_new [simp]: "full_key (new_endpoint now tid br i d) = (tid, br, found_key d)"
  by (simp add: full_key_def new_endpoint_def endpoint_key_def found_key_def)

lemma endpoint_identity_new [simp]:
  "endpoint_identity (new_endpoint now tid br i d) = (i, tid, br, de_framework d, found_key d, now, False, None)"
  by (simp add: endpoint_identity_def new_endpoint_def endpoint_key_def found_key_def)

text \<open>What holds of the table after the endpoints \<open>ds\<close> were upserted into \<open>db\<close>.\<close>

definition upserted :: "timestamp \<Rightarrow> row_id \<Rightarrow> string \<Rightarrow> db \<Rightarrow> discovered_endpoint list \<Rightarrow> db \<times> row_id list \<Rightarrow> bool" where
  "upserted now tid br db ds = (\<lambda>(db', created).
     db' = db\<lparr>d_endpoints := d_endpoints db'\<rparr> \<and> endpoints_ok db' \<and>
     (\<exists>added. map endpoint_identity (d_endpoints db') = map endpoint_identity (d_endpoints db) @ added \<and>
        map fst added = created \<and>
        (\<forall>a\<in>set added. \<exists>i fw k. a = (i, tid, br, fw, k, now, False, None))) \<and>
     full_key ` set (d_endpoints db') = full_key ` set (d_endpoints db) \<union> (\<lambda>d. (tid, br, found_key d)) ` set ds \<and>
     (\<forall>e\<in>set (d_endpoints db'). full_key e \<in> (\<lambda>d. (tid, br, found_key d)) ` set ds \<longrightarrow> ep_last_seen e = now) \<and>
     (\<forall>e\<in>set (d_endpoints db'). full_key e \<notin> (\<lambda>d. (tid, br, found_key d)) ` set ds \<longrightarrow> e \<in> set (d_endpoints db)))"

lemma upserted_step:
  assumes up: "upserted now tid br db ds st"
  shows "upserted now tid br db (ds @ [d]) (upsert_endpoint now tid br d st)"
proof -
  obtain db1 cs where st: "st = (db1, cs)" by fastforce
  from up obtain added where a: "map endpoint_identity (d_endpoints db1) = map endpoint_identity (d_endpoints db) @ added"
      "map fst added = cs" "\<forall>a\<in>set added. \<exists>i fw k. a = (i, tid, br, fw, k, now, False, None)"
    and ok: "endpoints_ok db1" and frame: "db1 = db\<lparr>d_endpoints := d_endpoints db1\<rparr>"
    and keys: "full_key ` set (d_endpoints db1) = full_key ` set (d_endpoints db) \<union> (\<lambda>d. (tid, br, found_key d)) ` set ds"
    and seen: "\<forall>e\<in>set (d_endpoints db1). full_key e \<in> (\<lambda>d. (tid, br, found_key d)) ` set ds \<longrightarrow> ep_last_seen e = now"
    and rest: "\<forall>e\<in>set (d_endpoints db1). full_key e \<notin> (\<lambda>d. (tid, br, found_key d)) ` set ds \<longrightarrow> e \<in> set (d_endpoints db)"
    by (auto simp: upserted_def st)
  show ?thesis
  proof (cases "(tid, br, found_key d) \<in> full_key ` set (d_endpoints db1)")
    case True
    let ?rows = "map (mark_seen now tid br d) (d_endpoints db1)"
    have "map endpoint_identity ?rows = map endpoint_identity (d_endpoints db) @ added" using a by (simp add: comp_def)
    moreover have "endpoints_ok (db1\<lparr>d_endpoints := ?rows\<rparr>)" using ok by (simp add: endpoints_ok_def comp_def)
    moreover have "full_key ` set ?rows = full_key ` set (d_endpoints db1)" by (simp add: image_image)
    moreover have "\<forall>e\<in>set ?rows. full_key e \<in> (\<lambda>d. (tid, br, found_key d)) ` set (ds @ [d]) \<longrightarrow> ep_last_seen e = now"
      using seen by (auto simp: mark_seen_def)
    moreover have "\<forall>e\<in>set ?rows. full_key e \<notin> (\<lambda>d. (tid, br, found_key d)) ` set (ds @ [d]) \<longrightarrow> e \<in> set (d_endpoints db)"
    proof (intro ballI impI)
      fix e assume e: "e \<in> set ?rows" "full_key e \<notin> (\<lambda>d. (tid, br, found_key d)) ` set (ds @ [d])"
      then obtain x where x: "x \<in> set (d_endpoints db1)" "e = mark_seen now tid br d x" by auto
      with e(2) have "full_key x \<notin> (\<lambda>d. (tid, br, found_key d)) ` set (ds @ [d])" by simp
      with x rest show "e \<in> set (d_endpoints db)" by (simp add: mark_seen_def)
    qed
    moreover have "db1\<lparr>d_endpoints := ?rows\<rparr> = db\<lparr>d_endpoints := ?rows\<rparr>" by (subst frame) simp
    ultimately show ?thesis
      using upsert_endpoint_known [OF ok True, of now cs] a True keys unfolding st upserted_def by auto
  next
    case False
    let ?i = "next_id ep_id (d_endpoints db1)"
    let ?new = "new_endpoint now tid br ?i d"
    let ?rows = "d_endpoints db1 @ [?new]"
    have fresh: "?i \<notin> ep_id ` set (d_endpoints db1)" using next_id_above [of _ "d_endpoints db1" ep_id] by fastforce
    have "ep_id ?new = ?i" by (simp add: new_endpoint_def)
    with fresh False ok have "endpoints_ok (db1\<lparr>d_endpoints := ?rows\<rparr>)" by (simp add: endpoints_ok_def)
    moreover have "map endpoint_identity ?rows = map endpoint_identity (d_endpoints db) @
        (added @ [(?i, tid, br, de_framework d, found_key d, now, False, None)])" using a by simp
    moreover have "full_key ` set ?rows = full_key ` set (d_endpoints db) \<union> (\<lambda>d. (tid, br, found_key d)) ` set (ds @ [d])"
      using keys by auto
    moreover have "\<forall>e\<in>set ?rows. full_key e \<in> (\<lambda>d. (tid, br, found_key d)) ` set (ds @ [d]) \<longrightarrow> ep_last_seen e = now"
      using seen False by (auto simp: new_endpoint_def image_iff)
    moreover have "\<forall>e\<in>set ?rows. full_key e \<notin> (\<lambda>d. (tid, br, found_key d)) ` set (ds @ [d]) \<longrightarrow> e \<in> set (d_endpoints db)"
      using rest by auto
    moreover have "db1\<lparr>d_endpoints := ?rows\<rparr> = db\<lparr>d_endpoints := ?rows\<rparr>" by (subst frame) simp
    moreover have "map fst (added @ [(?i, tid, br, de_framework d, found_key d, now, False, None)]) = cs @ [?i]" using a by simp
    moreover have "\<forall>a\<in>set (added @ [(?i, tid, br, de_framework d, found_key d, now, False, None)]).
        \<exists>i fw k. a = (i, tid, br, fw, k, now, False, None)" using a by (auto simp del: split_paired_Ex)
    ultimately show ?thesis
      unfolding st upserted_def upsert_endpoint_new [OF False] prod.case
      by (intro conjI exI [of _ "added @ [(?i, tid, br, de_framework d, found_key d, now, False, None)]"]) simp_all
  qed
qed

lemma upsert_endpoints_upserted:
  assumes "endpoints_ok db" shows "upserted now tid br db ds (upsert_endpoints now tid br ds db)"
proof (induction ds rule: rev_induct)
  case Nil
  then show ?case using assms by (auto simp: upserted_def upsert_endpoints_def)
next
  case (snoc d ds)
  then show ?case using upserted_step [OF snoc.IH, of d] by (simp add: upsert_endpoints_def)
qed

text \<open>C19: A discovery run is an upsert.  It adds no second row for a route the table has, keeps every row's
  identity (the operator's exclusion and its reason with it) and the rows of every other target and branch
  as they are; the rows added are exactly those of the ids it returns, new at this run and in scope; and the
  routes of the target afterwards are the old ones and those discovered, the latter seen now.\<close>

theorem rediscovery_is_an_upsert:
  assumes ok: "endpoints_ok db" and run: "upsert_endpoints now tid br ds db = (db', created)"
  shows "endpoints_ok db' \<and> db' = db\<lparr>d_endpoints := d_endpoints db'\<rparr> \<and>
    (\<exists>added. map endpoint_identity (d_endpoints db') = map endpoint_identity (d_endpoints db) @ added \<and> map fst added = created \<and>
       (\<forall>a\<in>set added. \<exists>i fw k. a = (i, tid, br, fw, k, now, False, None))) \<and>
    endpoint_key ` set (endpoints_of db' tid br) = endpoint_key ` set (endpoints_of db tid br) \<union> found_key ` set ds \<and>
    (\<forall>e\<in>set (endpoints_of db' tid br). endpoint_key e \<in> found_key ` set ds \<longrightarrow> ep_last_seen e = now) \<and>
    (\<forall>e\<in>set (d_endpoints db'). \<not> (ep_target_id e = tid \<and> ep_branch e = br) \<longrightarrow> e \<in> set (d_endpoints db))"
proof -
  have up: "upserted now tid br db ds (db', created)" using upsert_endpoints_upserted [OF ok] run by metis
  have keys: "endpoint_key ` set (endpoints_of x tid br) = {k. (tid, br, k) \<in> full_key ` set (d_endpoints x)}" for x
    by (auto simp: endpoints_of_def full_key_def)
  have "{k. (tid, br, k) \<in> full_key ` set (d_endpoints db')} =
      {k. (tid, br, k) \<in> full_key ` set (d_endpoints db)} \<union> found_key ` set ds"
    using up by (auto simp: upserted_def)
  moreover have "\<forall>e\<in>set (endpoints_of db' tid br). endpoint_key e \<in> found_key ` set ds \<longrightarrow> ep_last_seen e = now"
    using up by (fastforce simp: upserted_def endpoints_of_def full_key_def)
  moreover have "\<forall>e\<in>set (d_endpoints db'). \<not> (ep_target_id e = tid \<and> ep_branch e = br) \<longrightarrow> e \<in> set (d_endpoints db)"
    using up by (fastforce simp: upserted_def full_key_def)
  moreover have "endpoints_ok db' \<and> db' = db\<lparr>d_endpoints := d_endpoints db'\<rparr>" using up by (simp add: upserted_def)
  moreover have "\<exists>added. map endpoint_identity (d_endpoints db') = map endpoint_identity (d_endpoints db) @ added \<and>
      map fst added = created \<and> (\<forall>a\<in>set added. \<exists>i fw k. a = (i, tid, br, fw, k, now, False, None))"
    using up by (simp add: upserted_def)
  ultimately show ?thesis unfolding keys by blast
qed

definition get_users :: discovered_endpoint where
  "get_users = \<lparr>de_framework = ''flask'', de_method = ''GET'', de_route = ''/users'', de_file = ''app.py'', de_line = Some 3\<rparr>"

definition excluded_users :: api_endpoint where
  "excluded_users = (new_endpoint 5 1 ''main'' 4 get_users)\<lparr>ep_excluded := True, ep_exclusion_reason := Some ''bills per call''\<rparr>"

definition endpoint_db :: db where
  "endpoint_db = empty_db\<lparr>d_targets := [example_target], d_endpoints := [excluded_users]\<rparr>"

lemma endpoint_db_ok: "endpoints_ok endpoint_db"
  by (simp add: endpoints_ok_def endpoint_db_def empty_db_def)

theorem rediscovery_is_an_upsert_witness:
  "\<exists>db' created. upsert_endpoints 9 1 ''main'' [get_users] endpoint_db = (db', created) \<and>
     (\<forall>e\<in>set (endpoints_of db' 1 ''main''). endpoint_key e \<in> {found_key get_users} \<longrightarrow> ep_last_seen e = 9)"
proof -
  obtain db' created where r: "upsert_endpoints 9 1 ''main'' [get_users] endpoint_db = (db', created)" by fastforce
  from rediscovery_is_an_upsert [OF endpoint_db_ok r] r show ?thesis by auto
qed

end
