(* ===== verification/Url.thy ===== *)
theory Url
  imports Runner
begin

text \<open>
  The part of \<open>urllib.parse\<close> the active scanner rests on: \<open>urlsplit\<close>, and \<open>urljoin\<close> on a base whose
  scheme is \<open>http\<close> or \<open>https\<close> (the only ones a scan accepts).  None is the \<open>ValueError\<close> of a malformed
  authority.  The standard library hands an authority with brackets to \<open>ipaddress\<close> and one with
  characters outside ASCII to the Unicode tables; what those answer is the argument \<open>authority_ok\<close>.
\<close>

record url =
  u_scheme :: string
  u_netloc :: string
  u_path :: string
  u_query :: string
  u_fragment :: string

definition is_scheme_char :: "char \<Rightarrow> bool" where
  "is_scheme_char c \<longleftrightarrow> is_letter c \<or> is_digit c \<or> c \<in> set ''+-.''"

definition is_control_or_space :: "char \<Rightarrow> bool" where
  "is_control_or_space c \<longleftrightarrow> (of_char c :: nat) \<le> 32"

text \<open>Tab, line feed and carriage return are removed wherever they stand.\<close>

definition is_unsafe_byte :: "char \<Rightarrow> bool" where
  "is_unsafe_byte c \<longleftrightarrow> (let n = (of_char c :: nat) in n = 9 \<or> n = 10 \<or> n = 13)"

definition clean_url :: "string \<Rightarrow> string" where
  "clean_url s = filter (\<lambda>c. \<not> is_unsafe_byte c) (dropWhile is_control_or_space s)"

definition split_scheme :: "string \<Rightarrow> string \<Rightarrow> string \<times> string" where
  "split_scheme preset s =
     (let (front, rest) = partition_on (CHR '':'') s in
      if CHR '':'' \<in> set s \<and> front \<noteq> [] \<and> is_letter (hd front) \<and> list_all is_scheme_char front
      then (str_lower front, rest) else (preset, s))"

definition ends_netloc :: "char \<Rightarrow> bool" where "ends_netloc c \<longleftrightarrow> c \<in> set ''/?#''"

definition split_netloc :: "string \<Rightarrow> string \<times> string" where
  "split_netloc s =
     (if starts_with ''//'' s
      then (takeWhile (\<lambda>c. \<not> ends_netloc c) (drop 2 s), dropWhile (\<lambda>c. \<not> ends_netloc c) (drop 2 s))
      else ([], s))"

definition netloc_valid :: "(string \<Rightarrow> bool) \<Rightarrow> string \<Rightarrow> bool" where
  "netloc_valid authority_ok netloc \<longleftrightarrow>
     (CHR ''['' \<in> set netloc \<longleftrightarrow> CHR '']'' \<in> set netloc) \<and>
     (CHR ''['' \<in> set netloc \<or> (\<exists>c\<in>set netloc. (of_char c :: nat) > 127) \<longrightarrow> authority_ok netloc)"

definition urlsplit :: "(string \<Rightarrow> bool) \<Rightarrow> string \<Rightarrow> string \<Rightarrow> url option" where
  "urlsplit authority_ok preset s =
     (let (scheme, rest) = split_scheme preset (clean_url s);
          (netloc, rest1) = split_netloc rest;
          (rest2, fragment) = partition_on (CHR ''#'') rest1;
          (path, query) = partition_on (CHR ''?'') rest2
      in if netloc_valid authority_ok netloc
         then Some \<lparr>u_scheme = scheme, u_netloc = netloc, u_path = path, u_query = query, u_fragment = fragment\<rparr>
         else None)"

text \<open>\<open>_splitparams\<close>: the parameters of the last path segment.\<close>

definition final_segment :: "string \<Rightarrow> string" where
  "final_segment p = rev (takeWhile (\<lambda>c. c \<noteq> CHR ''/'') (rev p))"

definition split_params :: "string \<Rightarrow> string \<times> string" where
  "split_params p =
     (let seg = final_segment p; front = take (length p - length seg) p;
          (name, params) = partition_on (CHR '';'') seg
      in (front @ name, params))"

definition join_params :: "string \<Rightarrow> string \<Rightarrow> string" where
  "join_params path params = (if params = [] then path else path @ '';'' @ params)"

text \<open>\<open>urlunsplit\<close> of a URL with an authority.\<close>

definition urlunsplit :: "url \<Rightarrow> string" where
  "urlunsplit u =
     (let path = (if u_path u \<noteq> [] \<and> hd (u_path u) \<noteq> CHR ''/'' then ''/'' @ u_path u else u_path u)
      in u_scheme u @ ''://'' @ u_netloc u @ path
         @ (if u_query u = [] then [] else ''?'' @ u_query u)
         @ (if u_fragment u = [] then [] else ''#'' @ u_fragment u))"

text \<open>The dot segments.\<close>

fun resolve_dots :: "string list \<Rightarrow> string list \<Rightarrow> string list" where
  "resolve_dots out [] = out"
| "resolve_dots out (seg # segs) =
     (if seg = ''..'' then resolve_dots (butlast out) segs
      else if seg = ''.'' then resolve_dots out segs
      else resolve_dots (out @ [seg]) segs)"

definition inner_nonempty :: "string list \<Rightarrow> string list" where
  "inner_nonempty segs =
     (case segs of
        [] \<Rightarrow> []
      | [s] \<Rightarrow> [s]
      | s # ss \<Rightarrow> s # filter (\<lambda>x. x \<noteq> []) (butlast ss) @ [last ss])"

definition base_parts :: "string \<Rightarrow> string list" where
  "base_parts p = (let parts = split_on (CHR ''/'') p in if last parts \<noteq> [] then butlast parts else parts)"

definition merge_segments :: "string \<Rightarrow> string \<Rightarrow> string list" where
  "merge_segments bpath path =
     (if starts_with ''/'' path then split_on (CHR ''/'') path
      else inner_nonempty (base_parts bpath @ split_on (CHR ''/'') path))"

definition merge_paths :: "string \<Rightarrow> string \<Rightarrow> string" where
  "merge_paths bpath path =
     (let segs = merge_segments bpath path;
          out = resolve_dots [] segs @ (if last segs \<in> {''.'', ''..''} then [[]] else []);
          text = join ''/'' out
      in if text = [] then ''/'' else text)"

definition urljoin :: "(string \<Rightarrow> bool) \<Rightarrow> string \<Rightarrow> string \<Rightarrow> string option" where
  "urljoin authority_ok base route =
     (if base = [] then Some route else if route = [] then Some base
      else do {
        b \<leftarrow> urlsplit authority_ok [] base;
        r \<leftarrow> urlsplit authority_ok (u_scheme b) route;
        if u_scheme r \<noteq> u_scheme b then Some route
        else if u_netloc r \<noteq> [] then Some (urlunsplit r)
        else (let (bpath, bparams) = split_params (u_path b); (path, params) = split_params (u_path r) in
          if path = [] \<and> params = []
          then Some (urlunsplit (r\<lparr>u_netloc := u_netloc b, u_path := join_params bpath bparams,
                 u_query := (if u_query r = [] then u_query b else u_query r)\<rparr>))
          else Some (urlunsplit (r\<lparr>u_netloc := u_netloc b,
                 u_path := join_params (merge_paths bpath path) params\<rparr>))) })"

subsection \<open>Taking a URL apart after putting it together\<close>

text \<open>A URL whose parts hold none of the characters that end them.\<close>

definition plain_text :: "string \<Rightarrow> bool" where
  "plain_text s \<longleftrightarrow> (\<forall>c\<in>set s. \<not> is_unsafe_byte c)"

definition web_scheme :: "string \<Rightarrow> bool" where
  "web_scheme s \<longleftrightarrow> s = ''http'' \<or> s = ''https''"

definition url_ok :: "url \<Rightarrow> bool" where
  "url_ok u \<longleftrightarrow> web_scheme (u_scheme u) \<and> list_all (\<lambda>c. \<not> ends_netloc c) (u_netloc u) \<and>
     plain_text (u_netloc u) \<and> plain_text (u_path u) \<and> plain_text (u_query u) \<and> plain_text (u_fragment u) \<and>
     list_all (\<lambda>c. c \<notin> set ''?#'') (u_path u) \<and> CHR ''#'' \<notin> set (u_query u)"

lemma partition_on_split: "c \<notin> set a \<Longrightarrow> partition_on c (a @ c # b) = (a, b)"
  by (induction a) auto

lemma partition_on_none: "c \<notin> set s \<Longrightarrow> partition_on c s = (s, [])"
  by (induction s) auto

lemma partition_on_parts: "partition_on c s = (a, b) \<Longrightarrow> c \<notin> set a \<and> set a \<subseteq> set s \<and> set b \<subseteq> set s"
  by (induction s arbitrary: a b) (fastforce split: if_splits prod.splits)+

lemma partition_on_found: "c \<in> set s \<Longrightarrow> partition_on c s = (a, b) \<Longrightarrow> s = a @ c # b"
  by (induction s arbitrary: a b) (auto split: if_splits prod.splits)

lemma plain_append [simp]: "plain_text (a @ b) \<longleftrightarrow> plain_text a \<and> plain_text b"
  by (auto simp: plain_text_def)

lemma plain_Nil [simp]: "plain_text []"
  by (simp add: plain_text_def)

lemma plain_mono: "plain_text s \<Longrightarrow> set t \<subseteq> set s \<Longrightarrow> plain_text t"
  by (auto simp: plain_text_def)

lemma plain_clean [simp]: "plain_text (clean_url s)"
  by (auto simp: plain_text_def clean_url_def)

lemma clean_plain: "plain_text s \<Longrightarrow> s \<noteq> [] \<Longrightarrow> \<not> is_control_or_space (hd s) \<Longrightarrow> clean_url s = s"
  by (cases s) (auto simp: clean_url_def plain_text_def filter_id_conv)

lemma web_scheme_split:
  "web_scheme s \<Longrightarrow> split_scheme preset (s @ CHR '':'' # rest) = (s, rest)"
  by (auto simp: web_scheme_def split_scheme_def is_letter_def is_scheme_char_def str_lower_def
      char_lower_def Let_def)

lemma split_scheme_cases:
  assumes "split_scheme preset s = (scheme, rest)"
  shows "scheme = preset \<and> rest = s \<or>
    (\<exists>front. s = front @ CHR '':'' # rest \<and> scheme = str_lower front \<and> split_scheme other s = (scheme, rest))"
  using assms partition_on_found [of "CHR '':''" s]
  by (auto simp: split_scheme_def Let_def split: if_splits prod.splits)

lemma takeWhile_netloc:
  "list_all (\<lambda>c. \<not> ends_netloc c) n \<Longrightarrow> r = [] \<or> ends_netloc (hd r) \<Longrightarrow>
   takeWhile (\<lambda>c. \<not> ends_netloc c) (n @ r) = n \<and> dropWhile (\<lambda>c. \<not> ends_netloc c) (n @ r) = r"
  by (induction n) (cases r; auto)+

definition rooted :: "string \<Rightarrow> string" where
  "rooted p = (if p \<noteq> [] \<and> hd p \<noteq> CHR ''/'' then ''/'' @ p else p)"

lemma urlunsplit_rooted:
  "urlunsplit u = u_scheme u @ CHR '':'' # ''//'' @ u_netloc u @ rooted (u_path u)
     @ (if u_query u = [] then [] else ''?'' @ u_query u) @ (if u_fragment u = [] then [] else ''#'' @ u_fragment u)"
  by (simp add: urlunsplit_def rooted_def)

lemma rooted_chars: "set (rooted p) \<subseteq> insert (CHR ''/'') (set p)"
  by (auto simp: rooted_def)

lemma partition_tail:
  "c \<notin> set a \<Longrightarrow> partition_on c (a @ (if b = [] then [] else c # b)) = (a, b)"
  by (simp add: partition_on_split partition_on_none)

lemma urlsplit_urlunsplit:
  assumes u: "url_ok u" and ok: "netloc_valid authority_ok (u_netloc u)"
  shows "urlsplit authority_ok preset (urlunsplit u) = Some (u\<lparr>u_path := rooted (u_path u)\<rparr>)"
proof -
  let ?q = "if u_query u = [] then [] else CHR ''?'' # u_query u"
  let ?f = "if u_fragment u = [] then [] else CHR ''#'' # u_fragment u"
  let ?t = "(rooted (u_path u) @ ?q) @ ?f"
  have shape: "urlunsplit u = u_scheme u @ CHR '':'' # ''//'' @ u_netloc u @ ?t"
    by (simp add: urlunsplit_rooted)
  have path: "plain_text (rooted (u_path u))" "CHR ''?'' \<notin> set (rooted (u_path u))" "CHR ''#'' \<notin> set (rooted (u_path u))"
    using u rooted_chars [of "u_path u"]
    by (auto simp: url_ok_def plain_text_def list_all_iff is_unsafe_byte_def)
  have "plain_text (urlunsplit u)"
    using u path unfolding shape by (auto simp: url_ok_def web_scheme_def plain_text_def is_unsafe_byte_def)
  moreover have "urlunsplit u \<noteq> [] \<and> \<not> is_control_or_space (hd (urlunsplit u))"
    using u unfolding shape by (auto simp: url_ok_def web_scheme_def is_control_or_space_def)
  ultimately have clean: "clean_url (urlunsplit u) = urlunsplit u" by (simp add: clean_plain)
  have scheme: "split_scheme preset (urlunsplit u) = (u_scheme u, ''//'' @ u_netloc u @ ?t)"
    using u unfolding shape url_ok_def by (intro web_scheme_split) simp
  have "?t = [] \<or> ends_netloc (hd ?t)" by (cases "u_path u") (auto simp: rooted_def ends_netloc_def)
  then have netloc: "split_netloc (''//'' @ u_netloc u @ ?t) = (u_netloc u, ?t)"
    using u takeWhile_netloc [of "u_netloc u" ?t] by (simp add: split_netloc_def url_ok_def)
  have "CHR ''#'' \<notin> set (rooted (u_path u) @ ?q)" using u path by (auto simp: url_ok_def)
  then have frag: "partition_on (CHR ''#'') ?t = (rooted (u_path u) @ ?q, u_fragment u)" by (rule partition_tail)
  have query: "partition_on (CHR ''?'') (rooted (u_path u) @ ?q) = (rooted (u_path u), u_query u)"
    using path by (intro partition_tail)
  show ?thesis unfolding urlsplit_def clean scheme Let_def prod.case netloc frag query using ok by simp
qed

text \<open>What \<open>urlsplit\<close> returns is such a URL, but for its scheme.\<close>

lemma split_netloc_parts:
  "split_netloc s = (n, r) \<Longrightarrow> list_all (\<lambda>c. \<not> ends_netloc c) n \<and> set n \<subseteq> set s \<and> set r \<subseteq> set s"
  by (auto simp: split_netloc_def list_all_iff dest: set_takeWhileD set_dropWhileD in_set_dropD split: if_splits)

lemma split_scheme_rest: "split_scheme preset s = (scheme, rest) \<Longrightarrow> set rest \<subseteq> set s"
  using partition_on_parts [of "CHR '':''" s] by (fastforce simp: split_scheme_def Let_def split: if_splits prod.splits)

lemma urlsplit_parts:
  assumes "urlsplit authority_ok preset s = Some u" and "web_scheme (u_scheme u)"
  shows "url_ok u \<and> netloc_valid authority_ok (u_netloc u)"
proof -
  obtain scheme rest where 1: "split_scheme preset (clean_url s) = (scheme, rest)" by fastforce
  obtain netloc rest1 where 2: "split_netloc rest = (netloc, rest1)" by fastforce
  obtain rest2 fragment where 3: "partition_on (CHR ''#'') rest1 = (rest2, fragment)" by fastforce
  obtain path query where 4: "partition_on (CHR ''?'') rest2 = (path, query)" by fastforce
  have u: "u = \<lparr>u_scheme = scheme, u_netloc = netloc, u_path = path, u_query = query, u_fragment = fragment\<rparr>"
    and ok: "netloc_valid authority_ok netloc"
    using assms(1) by (auto simp: urlsplit_def 1 2 3 4 split: if_splits)
  note parts = split_scheme_rest [OF 1] split_netloc_parts [OF 2] partition_on_parts [OF 3] partition_on_parts [OF 4]
  have "set netloc \<union> set path \<union> set query \<union> set fragment \<subseteq> set (clean_url s)" using parts by blast
  then have "plain_text netloc \<and> plain_text path \<and> plain_text query \<and> plain_text fragment"
    using plain_clean [of s] by (auto simp: plain_text_def)
  moreover have "list_all (\<lambda>c. c \<notin> set ''?#'') path \<and> CHR ''#'' \<notin> set query"
    using parts by (auto simp: list_all_iff)
  ultimately show ?thesis using parts ok assms(2) unfolding u url_ok_def by simp
qed

subsection \<open>Where a joined URL points\<close>

lemma split_on_chars: "w \<in> set (split_on c s) \<Longrightarrow> set w \<subseteq> set s"
proof (induction s arbitrary: w)
  case (Cons x s)
  obtain v vs where v: "split_on c s = v # vs" by (cases "split_on c s") auto
  have "set v \<subseteq> set s" "\<And>w. w \<in> set vs \<Longrightarrow> set w \<subseteq> set s" using Cons.IH by (simp_all add: v)
  with Cons.prems v show ?case by (fastforce split: if_splits)
qed simp

lemma resolve_dots_from: "set (resolve_dots out segs) \<subseteq> set out \<union> set segs"
  by (induction out segs rule: resolve_dots.induct) (auto dest: in_set_butlastD)

lemma join_chars: "set (join sep ws) \<subseteq> set sep \<union> \<Union> (set ` set ws)"
  by (induction sep ws rule: join.induct) auto

lemma inner_nonempty_from: "set (inner_nonempty segs) \<subseteq> set segs"
proof (cases segs)
  case (Cons s ss)
  have "ss \<noteq> [] \<Longrightarrow> set (butlast ss) \<union> {last ss} \<subseteq> set ss" by (auto dest: in_set_butlastD)
  with Cons show ?thesis by (cases ss) (auto simp: inner_nonempty_def)
qed (simp add: inner_nonempty_def)

lemma base_parts_from: "set (base_parts p) \<subseteq> set (split_on (CHR ''/'') p)"
  by (auto simp: base_parts_def Let_def dest: in_set_butlastD)

lemma merge_segments_chars: "w \<in> set (merge_segments bpath path) \<Longrightarrow> set w \<subseteq> set bpath \<union> set path"
  using inner_nonempty_from [of "base_parts bpath @ split_on (CHR ''/'') path"] base_parts_from [of bpath]
    split_on_chars [of w "CHR ''/''" bpath] split_on_chars [of w "CHR ''/''" path]
  by (auto simp: merge_segments_def split: if_splits)

lemma merge_paths_chars: "set (merge_paths bpath path) \<subseteq> insert (CHR ''/'') (set bpath \<union> set path)"
proof -
  let ?segs = "merge_segments bpath path"
  let ?out = "resolve_dots [] ?segs @ (if last ?segs \<in> {''.'', ''..''} then [[]] else [])"
  have "set w \<subseteq> set bpath \<union> set path" if "w \<in> set ?out" for w
    using that resolve_dots_from [of "[]" ?segs] merge_segments_chars [of w bpath path] by (auto split: if_splits)
  then have "set (join ''/'' ?out) \<subseteq> insert (CHR ''/'') (set bpath \<union> set path)"
    using join_chars [of "''/''" ?out] by fastforce
  then show ?thesis by (simp add: merge_paths_def Let_def split del: if_split) auto
qed

lemma final_segment_chars: "set (final_segment p) \<subseteq> set p"
  using set_takeWhileD [of _ _ "rev p"] by (auto simp: final_segment_def)

lemma split_params_chars:
  assumes "split_params p = (a, b)" shows "set a \<union> set b \<subseteq> set p"
proof -
  let ?front = "take (length p - length (final_segment p)) p"
  obtain name params where cut: "partition_on (CHR '';'') (final_segment p) = (name, params)" by fastforce
  then have "a = ?front @ name" "b = params" using assms by (simp_all add: split_params_def Let_def)
  moreover have "set ?front \<subseteq> set p" by (rule set_take_subset)
  ultimately show ?thesis using partition_on_parts [OF cut] final_segment_chars [of p] by auto
qed

lemma join_params_chars: "set (join_params a b) \<subseteq> insert (CHR '';'') (set a \<union> set b)"
  by (auto simp: join_params_def)

text \<open>A path made of the characters of two good paths is good.\<close>

lemma url_ok_path:
  assumes "url_ok b" and "url_ok r" and "set p \<subseteq> {CHR ''/'', CHR '';''} \<union> set (u_path b) \<union> set (u_path r)"
    and "CHR ''#'' \<notin> set q" and "plain_text q"
  shows "url_ok (r\<lparr>u_netloc := u_netloc b, u_path := p, u_query := q\<rparr>)"
proof -
  have "plain_text (u_path b)" "plain_text (u_path r)" "list_all (\<lambda>c. c \<notin> set ''?#'') (u_path b)"
    "list_all (\<lambda>c. c \<notin> set ''?#'') (u_path r)" using assms(1,2) by (simp_all add: url_ok_def)
  then have "c \<in> set p \<Longrightarrow> \<not> is_unsafe_byte c \<and> c \<notin> set ''?#''" for c
    using assms(3) by (auto simp: plain_text_def list_all_iff is_unsafe_byte_def)
  then have "plain_text p \<and> list_all (\<lambda>c. c \<notin> set ''?#'') p" by (auto simp: plain_text_def list_all_iff)
  with assms(1,2,4,5) show ?thesis by (simp add: url_ok_def)
qed

text \<open>A joined URL is the route itself, when the route has a scheme of its own; or else it has the scheme of
  the base, and the host of the route where the route names one and of the base where it does not.\<close>

lemma urljoin_cases:
  assumes b: "urlsplit authority_ok [] base = Some b" and web: "web_scheme (u_scheme b)"
    and join: "urljoin authority_ok base route = Some u" and "route \<noteq> []"
  shows "(\<exists>r. urlsplit authority_ok (u_scheme b) route = Some r \<and> u_scheme r \<noteq> u_scheme b \<and> u = route) \<or>
    (\<exists>s. urlsplit authority_ok [] u = Some s \<and> u_scheme s = u_scheme b \<and>
       (\<exists>r. urlsplit authority_ok (u_scheme b) route = Some r \<and>
          u_netloc s = (if u_netloc r = [] then u_netloc b else u_netloc r)))"
proof -
  have "base \<noteq> []" using b web by (auto simp: urlsplit_def split_scheme_def clean_url_def web_scheme_def Let_def split: if_splits prod.splits)
  with join b \<open>route \<noteq> []\<close> obtain r where r: "urlsplit authority_ok (u_scheme b) route = Some r"
    by (auto simp: urljoin_def bind_eq_Some_conv split: if_splits)
  obtain bpath bparams where bp: "split_params (u_path b) = (bpath, bparams)" by fastforce
  obtain path params where rp: "split_params (u_path r) = (path, params)" by fastforce
  note bok = urlsplit_parts [OF b web]
  show ?thesis
  proof (cases "u_scheme r = u_scheme b")
    case True
    with r web have rok: "url_ok r \<and> netloc_valid authority_ok (u_netloc r)" by (intro urlsplit_parts) simp_all
    have merged: "\<exists>s. urlsplit authority_ok [] u = Some s \<and> u_scheme s = u_scheme b \<and> u_netloc s = u_netloc b"
      if u: "u = urlunsplit (r\<lparr>u_netloc := u_netloc b, u_path := p, u_query := q\<rparr>)"
        and p: "set p \<subseteq> {CHR ''/'', CHR '';''} \<union> set (u_path b) \<union> set (u_path r)"
        and q: "q = u_query b \<or> q = u_query r" for p q
    proof -
      have "url_ok (r\<lparr>u_netloc := u_netloc b, u_path := p, u_query := q\<rparr>)"
        using bok rok p q by (intro url_ok_path) (auto simp: url_ok_def)
      then show ?thesis unfolding u using bok True by (subst urlsplit_urlunsplit) simp_all
    qed
    show ?thesis
    proof (cases "u_netloc r = []")
      case False
      then have "u = urlunsplit r"
        using join b r \<open>base \<noteq> []\<close> \<open>route \<noteq> []\<close> True by (simp add: urljoin_def)
      with rok True False r show ?thesis by (simp add: urlsplit_urlunsplit)
    next
      case nohost: True
      show ?thesis
      proof (cases "path = [] \<and> params = []")
        case True
        then have "u = urlunsplit (r\<lparr>u_netloc := u_netloc b, u_path := join_params bpath bparams,
            u_query := (if u_query r = [] then u_query b else u_query r)\<rparr>)"
          using join b r \<open>base \<noteq> []\<close> \<open>route \<noteq> []\<close> \<open>u_scheme r = u_scheme b\<close> nohost bp rp by (simp add: urljoin_def)
        moreover have "set (join_params bpath bparams) \<subseteq> {CHR ''/'', CHR '';''} \<union> set (u_path b) \<union> set (u_path r)"
          using split_params_chars [OF bp] join_params_chars [of bpath bparams] by blast
        ultimately have "\<exists>s. urlsplit authority_ok [] u = Some s \<and> u_scheme s = u_scheme b \<and> u_netloc s = u_netloc b"
          by (rule merged) simp
        with nohost r show ?thesis by auto
      next
        case False
        then have "u = urlunsplit (r\<lparr>u_netloc := u_netloc b, u_path := join_params (merge_paths bpath path) params,
            u_query := u_query r\<rparr>)"
          using join b r \<open>base \<noteq> []\<close> \<open>route \<noteq> []\<close> \<open>u_scheme r = u_scheme b\<close> nohost bp rp
          by (auto simp: urljoin_def)
        moreover have "set (join_params (merge_paths bpath path) params) \<subseteq>
            {CHR ''/'', CHR '';''} \<union> set (u_path b) \<union> set (u_path r)"
          using split_params_chars [OF bp] split_params_chars [OF rp] join_params_chars [of "merge_paths bpath path" params]
            merge_paths_chars [of bpath path] by blast
        ultimately have "\<exists>s. urlsplit authority_ok [] u = Some s \<and> u_scheme s = u_scheme b \<and> u_netloc s = u_netloc b"
          by (rule merged) simp
        with nohost r show ?thesis by auto
      qed
    qed
  next
    case False
    then have "u = route" using join b r \<open>base \<noteq> []\<close> \<open>route \<noteq> []\<close> by (simp add: urljoin_def)
    with False r show ?thesis by blast
  qed
qed

end
