(* ===== verification/ApiScan.thy ===== *)
theory ApiScan
  imports Url Discovery ToolRegistry Schedules
begin

text \<open>
  Active scanning of a deployed API: \<open>core/api_scan_targets.py\<close> (which URLs may be probed),
  \<open>run_nuclei\<close> of \<open>scanners/runner.py\<close>, \<open>tasks/api_scan_tasks.py\<close>, \<open>describe_api_scan_readiness\<close> of
  \<open>core/scan_schedules.py\<close> and the handlers of \<open>api/api_scan.py\<close>.  Decryption, the spawned nuclei, its
  templates, the JSON decoder and HTTP are in the record \<open>api_world\<close>.
\<close>

subsection \<open>The representation of a string in a message\<close>

definition hex_digit :: "nat \<Rightarrow> char" where
  "hex_digit n = (if n < 10 then char_of (48 + n) else char_of (87 + n))"

definition repr_char :: "char \<Rightarrow> char \<Rightarrow> string" where
  "repr_char q c =
     (let n = (of_char c :: nat); bs = CHR 0x5C in
      if c = q \<or> c = bs then [bs, c]
      else if n = 9 then [bs, CHR ''t''] else if n = 10 then [bs, CHR ''n''] else if n = 13 then [bs, CHR ''r'']
      else if n < 32 \<or> 127 \<le> n \<and> n \<le> 160 \<or> n = 173 then [bs, CHR ''x'', hex_digit (n div 16), hex_digit (n mod 16)]
      else [c])"

definition py_repr :: "string \<Rightarrow> string" where
  "py_repr s =
     (let q = (if CHR 0x27 \<in> set s \<and> CHR 0x22 \<notin> set s then CHR 0x22 else CHR 0x27)
      in [q] @ concat (map (repr_char q) s) @ [q])"

subsection \<open>The scope of a scan\<close>

text \<open>An \<open>ApiScanConfigError\<close> with its text, and a \<open>ValueError\<close> of the URL parser.\<close>

datatype scan_fault = ConfigError string | UrlError

definition DESTRUCTIVE_METHODS :: "string list" where "DESTRUCTIVE_METHODS = [''DELETE'']"

record probe_scope =
  sp_urls :: "string list"
  sp_endpoints :: "api_endpoint list"
  sp_skipped :: "(api_endpoint \<times> string) list"

definition methods_of :: "api_endpoint \<Rightarrow> string list" where
  "methods_of e =
     map (\<lambda>part. str_upper (str_strip part)) (filter (\<lambda>part. str_strip part \<noteq> []) (split_on (CHR '','') (ep_method e)))"

definition base_slash :: "string \<Rightarrow> string" where
  "base_slash base = (if base \<noteq> [] \<and> last base = CHR ''/'' then base else base @ ''/'')"

definition join_route :: "(string \<Rightarrow> bool) \<Rightarrow> string \<Rightarrow> string \<Rightarrow> scan_fault + string" where
  "join_route authority_ok base_url route =
     (if str_contains ''://'' route \<or> starts_with ''//'' route
      then Inl (ConfigError (''discovered route is not a valid path, refusing to scan: '' @ py_repr route))
      else (case urljoin authority_ok (base_slash base_url) (dropWhile (\<lambda>c. c = CHR ''/'') route) of
              None \<Rightarrow> Inl UrlError
            | Some joined \<Rightarrow>
                (case (urlsplit authority_ok [] base_url, urlsplit authority_ok [] joined) of
                   (Some b, Some j) \<Rightarrow>
                     if u_netloc j \<noteq> u_netloc b
                     then Inl (ConfigError (''route '' @ py_repr route @ '' resolved outside target'' @ [CHR 0x27] @ ''s configured host (''
                            @ py_repr (u_netloc j) @ '' != '' @ py_repr (u_netloc b) @ '')''))
                     else Inr joined
                 | _ \<Rightarrow> Inl UrlError)))"

definition skip_endpoint :: "api_endpoint \<Rightarrow> string \<Rightarrow> probe_scope \<Rightarrow> probe_scope" where
  "skip_endpoint e reason sc = sc\<lparr>sp_skipped := sp_skipped sc @ [(e, reason)]\<rparr>"

definition take_endpoint :: "api_endpoint \<Rightarrow> string \<Rightarrow> probe_scope \<Rightarrow> probe_scope" where
  "take_endpoint e url sc = sc\<lparr>sp_urls := sp_urls sc @ [url], sp_endpoints := sp_endpoints sc @ [e]\<rparr>"

definition destructive_verbs :: "api_endpoint \<Rightarrow> string list" where
  "destructive_verbs e = filter (\<lambda>m. m \<in> set (methods_of e)) DESTRUCTIVE_METHODS"

text \<open>One discovered endpoint; \<open>explicit\<close> is whether the caller named endpoints by id.\<close>

definition consider_endpoint ::
  "(string \<Rightarrow> bool) \<Rightarrow> string \<Rightarrow> bool \<Rightarrow> api_endpoint \<Rightarrow> probe_scope \<Rightarrow> scan_fault + probe_scope" where
  "consider_endpoint authority_ok base_url explicit e sc =
     (if ep_excluded e then
        (let reason = (case ep_exclusion_reason e of None \<Rightarrow> ''no reason recorded''
                       | Some r \<Rightarrow> if r = [] then ''no reason recorded'' else r)
         in Inr (skip_endpoint e (''marked out of scope ('' @ reason @ '')'') sc))
      else if destructive_verbs e \<noteq> [] \<and> \<not> explicit then
        Inr (skip_endpoint e (join '', '' (sort_str (destructive_verbs e))
               @ '' is not scanned unless the endpoint is selected explicitly'') sc)
      else (case join_route authority_ok base_url (ep_route e) of
              Inl (ConfigError text) \<Rightarrow> Inr (skip_endpoint e text sc)
            | Inl UrlError \<Rightarrow> Inl UrlError
            | Inr url \<Rightarrow> Inr (take_endpoint e url sc)))"

fun scope_loop ::
  "(string \<Rightarrow> bool) \<Rightarrow> string \<Rightarrow> bool \<Rightarrow> api_endpoint list \<Rightarrow> probe_scope \<Rightarrow> scan_fault + probe_scope" where
  "scope_loop authority_ok base_url explicit [] sc = Inr sc"
| "scope_loop authority_ok base_url explicit (e # es) sc =
     (case consider_endpoint authority_ok base_url explicit e sc of
        Inl fault \<Rightarrow> Inl fault
      | Inr sc' \<Rightarrow> scope_loop authority_ok base_url explicit es sc')"

definition selected_endpoints :: "db \<Rightarrow> target \<Rightarrow> row_id list option \<Rightarrow> api_endpoint list" where
  "selected_endpoints db t endpoint_ids =
     filter (\<lambda>e. case endpoint_ids of None \<Rightarrow> True | Some ids \<Rightarrow> ep_id e \<in> set ids)
       (endpoints_of db (t_id t) (t_default_branch t))"

definition build_scan_urls ::
  "(string \<Rightarrow> bool) \<Rightarrow> db \<Rightarrow> target \<Rightarrow> row_id list option \<Rightarrow> scan_fault + probe_scope" where
  "build_scan_urls authority_ok db t endpoint_ids =
     (case t_api_base_url t of
        None \<Rightarrow> Inl (ConfigError ''target has no api_base_url configured; set it before running an active API scan'')
      | Some [] \<Rightarrow> Inl (ConfigError ''target has no api_base_url configured; set it before running an active API scan'')
      | Some base_url \<Rightarrow>
          (case urlsplit authority_ok [] base_url of
             None \<Rightarrow> Inl UrlError
           | Some b \<Rightarrow>
               if \<not> web_scheme (u_scheme b) \<or> u_netloc b = []
               then Inl (ConfigError (''target.api_base_url must be a real http(s) URL, got: '' @ py_repr base_url))
               else scope_loop authority_ok base_url (endpoint_ids \<noteq> None) (selected_endpoints db t endpoint_ids)
                      \<lparr>sp_urls = [], sp_endpoints = [], sp_skipped = []\<rparr>))"

definition build_scan_headers :: "(string \<Rightarrow> string option) \<Rightarrow> target \<Rightarrow> scan_fault + (string \<times> string) list" where
  "build_scan_headers decrypt t =
     (case (t_api_auth_header_name t, t_api_auth_header_value_ciphertext t) of
        (Some (n # name), Some (c # cipher)) \<Rightarrow>
          (case decrypt (c # cipher) of
             None \<Rightarrow> Inl (ConfigError (''this target'' @ [CHR 0x27] @ ''s API scan credential cannot be decrypted ''
                       @ ''(PLATFORM_ENCRYPTION_KEY changed?); re-enter it before scanning''))
           | Some value \<Rightarrow> Inr [(n # name, value)])
      | _ \<Rightarrow> Inr [])"

subsection \<open>Running nuclei\<close>

record nuclei_settings =
  ns_binary :: string
  ns_timeout_seconds :: int
  ns_rate_limit :: int
  ns_exclude_tags :: string

text \<open>What nuclei is started with: its arguments, the lines of the two files the arguments name, and its time.\<close>

record nuclei_run =
  nr_command :: "string list"
  nr_urls :: "string list"
  nr_header_lines :: "string list"
  nr_timeout :: int

datatype nuclei_result =
  NucleiMissing string | NucleiTimeout "string option" | NucleiExit int string string | NucleiFault string

record api_world =
  aw_authority_ok :: "string \<Rightarrow> bool"
  aw_decrypt :: "string \<Rightarrow> string option"
  aw_settings :: nuclei_settings
  aw_templates :: bool
  aw_target_file :: string
  aw_config_file :: string
  aw_spawn :: "nuclei_run \<Rightarrow> nuclei_result"
  aw_json :: "string \<Rightarrow> json option"
  aw_ingest :: ingest_world
  aw_refuses :: "parsed_item list \<Rightarrow> cve_enrichment list option"
  aw_error_text :: string
  aw_now :: timestamp

datatype nuclei_error =
  NotFound string | TimedOut "string option" | NucleiBroke string

definition scan_url_valid :: "(string \<Rightarrow> bool) \<Rightarrow> string \<Rightarrow> bool" where
  "scan_url_valid authority_ok url \<longleftrightarrow>
     (case urlsplit authority_ok [] url of
        None \<Rightarrow> False
      | Some u \<Rightarrow> web_scheme (u_scheme u) \<and> u_netloc u \<noteq> [] \<and> \<not> starts_with ''-'' url)"

definition parse_nuclei_jsonl :: "(string \<Rightarrow> json option) \<Rightarrow> string \<Rightarrow> json list" where
  "parse_nuclei_jsonl decode text =
     List.map_filter decode (filter (\<lambda>l. l \<noteq> []) (map str_strip (splitlines text)))"

definition nuclei_command :: "api_world \<Rightarrow> bool \<Rightarrow> string list" where
  "nuclei_command w with_config =
     [ns_binary (aw_settings w), ''-l'', aw_target_file w, ''-jsonl'', ''-silent'', ''-no-interactsh'',
      ''-rate-limit'', int_str (ns_rate_limit (aw_settings w)), ''-timeout'', ''5'']
     @ (if with_config then [''-config'', aw_config_file w] else [])
     @ (if aw_templates w then [''-duc''] else [])
     @ (if ns_exclude_tags (aw_settings w) = [] then [] else [''-etags'', ns_exclude_tags (aw_settings w)])"

definition nuclei_start :: "api_world \<Rightarrow> string list \<Rightarrow> (string \<times> string) list \<Rightarrow> int \<Rightarrow> nuclei_run" where
  "nuclei_start w urls headers timeout =
     \<lparr>nr_command = nuclei_command w (headers \<noteq> []), nr_urls = urls,
      nr_header_lines = map (\<lambda>(name, value). name @ '': '' @ value) headers,
      nr_timeout = (if timeout = 0 then ns_timeout_seconds (aw_settings w) else timeout)\<rparr>"

text \<open>The processes started, and the results or the exception.\<close>

definition run_nuclei ::
  "api_world \<Rightarrow> string list \<Rightarrow> (string \<times> string) list \<Rightarrow> int \<Rightarrow> nuclei_run list \<times> (nuclei_error + json list)" where
  "run_nuclei w urls headers timeout =
     (if urls = [] then ([], Inr [])
      else if \<not> list_all (scan_url_valid (aw_authority_ok w)) urls then ([], Inl (NucleiBroke (aw_error_text w)))
      else (let run = nuclei_start w urls headers timeout in
            ([run],
             case aw_spawn w run of
               NucleiMissing text \<Rightarrow> Inl (NotFound text)
             | NucleiTimeout out \<Rightarrow> Inl (TimedOut out)
             | NucleiFault text \<Rightarrow> Inl (NucleiBroke text)
             | NucleiExit code out err \<Rightarrow>
                 if code \<noteq> 0 then Inl (NucleiBroke (''nuclei exited '' @ int_str code @ '': '' @ stderr_tail err))
                 else Inr (parse_nuclei_jsonl (aw_json w) out))))"

subsection \<open>The task\<close>

definition NUCLEI_SECONDS_PER_ENDPOINT :: int where "NUCLEI_SECONDS_PER_ENDPOINT = 6"
definition NUCLEI_TIMEOUT_CEILING_SECONDS :: int where "NUCLEI_TIMEOUT_CEILING_SECONDS = 1800"

definition nuclei_timeout_for :: "nuclei_settings \<Rightarrow> nat \<Rightarrow> int" where
  "nuclei_timeout_for st url_count =
     max (ns_timeout_seconds st) (min (int url_count * NUCLEI_SECONDS_PER_ENDPOINT) NUCLEI_TIMEOUT_CEILING_SECONDS)"

definition describe_nuclei_timeout :: "api_world \<Rightarrow> int \<Rightarrow> string option \<Rightarrow> nat \<Rightarrow> string" where
  "describe_nuclei_timeout w budget out url_count =
     (let found = (case out of None \<Rightarrow> 0 | Some text \<Rightarrow> length (parse_nuclei_jsonl (aw_json w) text));
          progress =
            (if found > 0 then ''nuclei had produced '' @ nat_str found
                 @ '' finding(s) before it was killed, so it was making progress''
             else ''nuclei had produced nothing before it was killed, which usually means the host is slow or unreachable'')
      in ''nuclei scan timed out after '' @ int_str budget @ ''s covering '' @ nat_str url_count @ '' endpoint(s); '' @ progress)"

datatype api_outcome =
  ApiScanMissing | ApiTargetMissing | ApiRefused string | ApiIngested nat nat | ApiFailed string | ApiRetried
  | ApiTaskRaised

datatype api_event = NucleiStarted nuclei_run | ApiAlert alert | ApiFailureNotice row_id string

type_synonym api_result = "db \<times> api_outcome \<times> api_event list"

definition api_failed :: "target \<Rightarrow> row_id \<Rightarrow> string \<Rightarrow> api_event list \<Rightarrow> db \<Rightarrow> api_result" where
  "api_failed t i error started db = (fail_scan error i db, ApiFailed error, started @ [ApiFailureNotice (t_id t) error])"

definition no_endpoints_error :: string where
  "no_endpoints_error = ''no scannable endpoints (check api_base_url and that endpoints are discovered)''"

definition fault_text :: "api_world \<Rightarrow> scan_fault \<Rightarrow> string" where
  "fault_text w fault = (case fault of ConfigError text \<Rightarrow> text | UrlError \<Rightarrow> aw_error_text w)"

text \<open>A scan of the URLs of \<open>sc\<close>.  None: an item has a field whose type is not its column's, and the database does
  not refuse it; when it does, the handler's own commit raises.\<close>

definition api_scan_urls :: "api_world \<Rightarrow> target \<Rightarrow> row_id \<Rightarrow> bool \<Rightarrow> probe_scope \<Rightarrow> db \<Rightarrow> api_result option" where
  "api_scan_urls w t i last_attempt sc db =
     (case build_scan_headers (aw_decrypt w) t of
        Inl fault \<Rightarrow> Some (api_failed t i (fault_text w fault) [] db)
      | Inr headers \<Rightarrow>
          (let budget = nuclei_timeout_for (aw_settings w) (length (sp_urls sc));
               (runs, result) = run_nuclei w (sp_urls sc) headers budget;
               started = map NucleiStarted runs
           in case result of
                Inl (TimedOut out) \<Rightarrow>
                  (let error = describe_nuclei_timeout w budget out (length (sp_urls sc)) in
                   Some (if last_attempt
                         then (fail_scan error i db, ApiRetried, started @ [ApiFailureNotice (t_id t) error])
                         else (db, ApiRetried, started)))
              | Inl (NotFound text) \<Rightarrow>
                  Some (api_failed t i (''nuclei binary not found ('' @ text
                    @ ''); it is not bundled in the backend image yet'') started db)
              | Inl (NucleiBroke text) \<Rightarrow> Some (api_failed t i text started db)
              | Inr raw \<Rightarrow>
                  (case parse_nuclei (JArr raw) of
                     None \<Rightarrow> Some (api_failed t i (aw_error_text w) started db)
                   | Some parsed \<Rightarrow>
                       (case collect scan_item_of parsed of
                          None \<Rightarrow> map_option (\<lambda>rows. (db\<lparr>d_enrichments := rows\<rparr>, ApiTaskRaised, started)) (aw_refuses w parsed)
                        | Some items \<Rightarrow>
                            (case ingest_findings (aw_ingest w) t i ''api-scan'' (t_default_branch t) items
                                    (Some (trusted ''api-scan'')) db of
                               Inl SessionLost \<Rightarrow> Some (snd (start_run (aw_ingest w) t i ''api-scan'' (t_default_branch t) items db),
                                 ApiTaskRaised, started)
                             | Inl (ScoringError _) \<Rightarrow> Some (api_failed t i (aw_error_text w) started
                                          (partial_ingest (aw_ingest w) t i ''api-scan'' (t_default_branch t) items db))
                             | Inr (db', alerts) \<Rightarrow>
                                 Some (db', ApiIngested (length items) (length (sp_endpoints sc)),
                                       started @ map ApiAlert alerts))))))"

definition run_api_scan ::
  "api_world \<Rightarrow> row_id \<Rightarrow> row_id \<Rightarrow> row_id list option \<Rightarrow> bool \<Rightarrow> db \<Rightarrow> api_result option" where
  "run_api_scan w target_id scan_id endpoint_ids last_attempt db =
     (case get_scan db scan_id of
        None \<Rightarrow> Some (db, ApiScanMissing, [])
      | Some _ \<Rightarrow>
          (case get_target db target_id of
             None \<Rightarrow> Some (update_scan scan_id (\<lambda>s. s\<lparr>s_status := ''failed''\<rparr>) db, ApiTargetMissing, [])
           | Some t \<Rightarrow>
               (case scan_refusal_reason t of
                  Some refusal \<Rightarrow> Some (refuse_scan (aw_now w) refusal (Some scan_id) db, ApiRefused refusal, [])
                | None \<Rightarrow>
                    (case build_scan_urls (aw_authority_ok w) db t endpoint_ids of
                       Inl fault \<Rightarrow> Some (api_failed t scan_id (fault_text w fault) [] db)
                     | Inr sc \<Rightarrow>
                         if sp_urls sc = [] then Some (api_failed t scan_id no_endpoints_error [] db)
                         else api_scan_urls w t scan_id last_attempt sc db))))"

subsection \<open>May a scheduled scan run\<close>

datatype readiness = Ready | NotReady string string

definition inactive_detail :: string where
  "inactive_detail = ''This target is deactivated, so no scheduled scan will run against it.''"

definition tool_disabled_detail :: string where
  "tool_disabled_detail = ''Active API scanning (nuclei) is switched off for this workspace in Tool Marketplace, ''
     @ ''so this schedule will not probe anything.''"

definition no_base_url_detail :: string where
  "no_base_url_detail = ''No API base URL is set for this target, so nothing will be probed. ''
     @ ''Active scanning never infers a host.''"

definition no_endpoints_detail :: string where
  "no_endpoints_detail = ''No API endpoints have been discovered for this target'' @ [CHR 0x27]
     @ ''s default branch yet, so this schedule will not probe anything. Run API Discovery first.''"

text \<open>None is the \<open>ValueError\<close> of a malformed URL, which nothing here handles.\<close>

definition describe_api_scan_readiness ::
  "(string \<Rightarrow> bool) \<Rightarrow> workspace_tool_config list \<Rightarrow> db \<Rightarrow> target \<Rightarrow> readiness option" where
  "describe_api_scan_readiness authority_ok configs db t =
     (if \<not> is_dispatchable_target t then Some (NotReady ''target_inactive'' inactive_detail)
      else if \<not> is_nuclei_enabled_for_api_scan configs (t_workspace_id t)
      then Some (NotReady ''tool_disabled'' tool_disabled_detail)
      else if t_api_base_url t = None \<or> t_api_base_url t = Some []
      then Some (NotReady ''no_api_base_url'' no_base_url_detail)
      else (case build_scan_urls authority_ok db t None of
              Inl (ConfigError text) \<Rightarrow> Some (NotReady ''no_api_base_url'' text)
            | Inl UrlError \<Rightarrow> None
            | Inr sc \<Rightarrow>
                Some (if sp_urls sc = [] then NotReady ''no_endpoints'' no_endpoints_detail else Ready)))"

record api_job =
  aj_target_id :: row_id
  aj_scan_id :: row_id
  aj_endpoint_ids :: "row_id list option"

definition queue_api_scan ::
  "(string \<Rightarrow> bool) \<Rightarrow> timestamp \<Rightarrow> workspace_tool_config list \<Rightarrow> target \<Rightarrow> db \<Rightarrow> (db \<times> api_job option) option" where
  "queue_api_scan authority_ok now configs t db =
     (case describe_api_scan_readiness authority_ok configs db t of
        None \<Rightarrow> None
      | Some (NotReady _ _) \<Rightarrow> Some (db, None)
      | Some Ready \<Rightarrow>
          (let (i, db1) = new_scan now (t_id t) ''api-scan'' (t_default_branch t) db
           in Some (db1, Some \<lparr>aj_target_id = t_id t, aj_scan_id = i, aj_endpoint_ids = None\<rparr>)))"

subsection \<open>The handlers\<close>

text \<open>The role the route requires is checked before the handler; None is an unhandled exception.\<close>

definition live_target :: "db \<Rightarrow> row_id \<Rightarrow> target option" where
  "live_target db i = (case get_target db i of None \<Rightarrow> None | Some t \<Rightarrow> if is_deleted t then None else Some t)"

definition trigger_api_scan ::
  "(string \<Rightarrow> bool) \<Rightarrow> timestamp \<Rightarrow> workspace_tool_config list \<Rightarrow> row_id \<Rightarrow> row_id list option \<Rightarrow> db
     \<Rightarrow> (int \<times> db \<times> api_job option) option" where
  "trigger_api_scan authority_ok now configs target_id endpoint_ids db =
     (case live_target db target_id of
        None \<Rightarrow> Some (404, db, None)
      | Some t \<Rightarrow>
          if scan_refusal_reason t \<noteq> None then Some (409, db, None)
          else if \<not> is_nuclei_enabled_for_api_scan configs (t_workspace_id t) then Some (400, db, None)
          else (case build_scan_urls authority_ok db t endpoint_ids of
                  Inl (ConfigError _) \<Rightarrow> Some (400, db, None)
                | Inl UrlError \<Rightarrow> None
                | Inr sc \<Rightarrow>
                    if sp_urls sc = [] then Some (400, db, None)
                    else (let (i, db1) = new_scan now target_id ''api-scan'' (t_default_branch t) db
                          in Some (202, db1, Some \<lparr>aj_target_id = target_id, aj_scan_id = i, aj_endpoint_ids = endpoint_ids\<rparr>))))"

definition header_name_ok :: "string \<Rightarrow> bool" where
  "header_name_ok v \<longleftrightarrow> 1 \<le> length v \<and> length v \<le> 64 \<and> list_all (\<lambda>c. is_letter c \<or> is_digit c \<or> c = CHR ''-'') v"

text \<open>The validated pair, None for a request that is refused.\<close>

definition credential_request :: "string \<Rightarrow> string \<Rightarrow> (string \<times> string) option" where
  "credential_request header_name header_value =
     (let name = str_strip header_name in
      if \<not> header_name_ok name then None
      else if str_strip header_value = [] \<or> CHR 0x0A \<in> set header_value \<or> CHR 0x0D \<in> set header_value then None
      else Some (name, str_strip header_value))"

definition update_target :: "row_id \<Rightarrow> (target \<Rightarrow> target) \<Rightarrow> db \<Rightarrow> db" where
  "update_target i g db = db\<lparr>d_targets := update_rows t_id i g (d_targets db)\<rparr>"

definition set_api_scan_credential ::
  "(string \<Rightarrow> string) \<Rightarrow> row_id \<Rightarrow> string \<Rightarrow> string \<Rightarrow> db \<Rightarrow> int \<times> db" where
  "set_api_scan_credential encrypt target_id header_name header_value db =
     (case credential_request header_name header_value of
        None \<Rightarrow> (422, db)
      | Some (name, value) \<Rightarrow>
          (case live_target db target_id of
             None \<Rightarrow> (404, db)
           | Some _ \<Rightarrow> (200, update_target target_id (\<lambda>t. t\<lparr>t_api_auth_header_name := Some name,
                              t_api_auth_header_value_ciphertext := Some (encrypt value)\<rparr>) db)))"

definition clear_api_scan_credential :: "row_id \<Rightarrow> db \<Rightarrow> int \<times> db" where
  "clear_api_scan_credential target_id db =
     (case live_target db target_id of
        None \<Rightarrow> (404, db)
      | Some _ \<Rightarrow> (200, update_target target_id (\<lambda>t. t\<lparr>t_api_auth_header_name := None,
                         t_api_auth_header_value_ciphertext := None\<rparr>) db))"

text \<open>The answer holds the header's name, never its value.\<close>

definition get_api_scan_credential :: "scope \<Rightarrow> row_id \<Rightarrow> db \<Rightarrow> (bool \<times> string option) option" where
  "get_api_scan_credential visible target_id db =
     (case discovery_target visible db target_id of
        None \<Rightarrow> None
      | Some t \<Rightarrow>
          Some (t_api_auth_header_name t \<notin> {None, Some []} \<and> t_api_auth_header_value_ciphertext t \<notin> {None, Some []},
                t_api_auth_header_name t))"

text \<open>\<open>http_get\<close> is the status of the one request, None where the host could not be reached.\<close>

definition test_api_scan_credential ::
  "(string \<Rightarrow> string option) \<Rightarrow> (string \<Rightarrow> (string \<times> string) list \<Rightarrow> int option) \<Rightarrow> row_id \<Rightarrow> db
     \<Rightarrow> int \<times> (int \<times> bool) option" where
  "test_api_scan_credential decrypt http_get target_id db =
     (case live_target db target_id of
        None \<Rightarrow> (404, None)
      | Some t \<Rightarrow>
          (case t_api_base_url t of
             None \<Rightarrow> (400, None)
           | Some base_url \<Rightarrow>
               if base_url = [] then (400, None)
               else (case build_scan_headers decrypt t of
                       Inl _ \<Rightarrow> (400, None)
                     | Inr headers \<Rightarrow>
                         if headers = [] then (400, None)
                         else (case http_get base_url headers of
                                 None \<Rightarrow> (502, None)
                               | Some code \<Rightarrow> (200, Some (code, code \<notin> {401, 403}))))))"

end
