(* ===== verification/ApiScanProps.thy ===== *)
theory ApiScanProps
  imports ApiScan DiscoveryProps ScanTaskProps "HOL-Library.Multiset"
begin

text \<open>
  What an active scan may touch, what it may clear, and that the schedule and the button agree.
\<close>

subsection \<open>A route stays on the configured host\<close>

lemma base_slash_plain: "clean_url (base @ ''/'') = clean_url base @ ''/''"
proof (cases "\<exists>c\<in>set base. \<not> is_control_or_space c")
  case True
  then obtain c where "c \<in> set base" "\<not> is_control_or_space c" by blast
  then have "dropWhile is_control_or_space (base @ ''/'') = dropWhile is_control_or_space base @ ''/''"
    by (rule dropWhile_append1)
  then show ?thesis by (simp add: clean_url_def is_unsafe_byte_def)
next
  case False
  then have "dropWhile is_control_or_space (base @ ''/'') = dropWhile is_control_or_space ''/''"
    "dropWhile is_control_or_space base = []"
    by (simp_all add: dropWhile_append2 dropWhile_eq_Nil_conv)
  moreover have "dropWhile is_control_or_space ''/'' = ''/''" "\<not> is_unsafe_byte (CHR ''/'')"
    by (simp_all add: is_control_or_space_def is_unsafe_byte_def)
  ultimately show ?thesis by (simp only: clean_url_def) simp
qed

lemma split_scheme_slash:
  assumes "split_scheme [] s = (scheme, rest)" and "scheme \<noteq> []"
  shows "split_scheme [] (s @ ''/'') = (scheme, rest @ ''/'')"
proof -
  have "CHR '':'' \<in> set s" using assms by (auto simp: split_scheme_def Let_def split: if_splits prod.splits)
  moreover have "partition_on c s = (a, b) \<Longrightarrow> c \<in> set s \<Longrightarrow> partition_on c (s @ t) = (a, b @ t)" for c s a b t
    by (induction s arbitrary: a b) (auto split: if_splits prod.splits)
  ultimately show ?thesis using assms by (auto simp: split_scheme_def Let_def split: if_splits prod.splits)
qed

lemma split_netloc_slash:
  assumes "split_netloc s = (n, r)" and "n \<noteq> []"
  shows "fst (split_netloc (s @ ''/'')) = n"
proof -
  let ?p = "\<lambda>c. \<not> ends_netloc c"
  have s: "starts_with ''//'' s" "n = takeWhile ?p (drop 2 s)" using assms by (auto simp: split_netloc_def split: if_splits)
  then obtain r' where r': "s = ''//'' @ r'" by (auto simp: starts_with_iff)
  have "takeWhile ?p (r' @ ''/'') = takeWhile ?p r'"
    by (induction r') (auto simp: ends_netloc_def)
  with r' s show ?thesis by (simp add: split_netloc_def)
qed

lemma urlsplit_slash:
  assumes b: "urlsplit ok [] base = Some b" and web: "web_scheme (u_scheme b)" and host: "u_netloc b \<noteq> []"
  shows "\<exists>b'. urlsplit ok [] (base_slash base) = Some b' \<and> u_scheme b' = u_scheme b \<and> u_netloc b' = u_netloc b"
proof (cases "base_slash base = base")
  case False
  then have base: "base_slash base = base @ ''/''" by (simp add: base_slash_def split: if_splits)
  obtain scheme rest where 1: "split_scheme [] (clean_url base) = (scheme, rest)" by fastforce
  obtain netloc rest1 where 2: "split_netloc rest = (netloc, rest1)" by fastforce
  have u: "u_scheme b = scheme" "u_netloc b = netloc" and ok: "netloc_valid ok netloc"
    using b by (auto simp: urlsplit_def 1 2 split: if_splits prod.splits)
  have 3: "split_scheme [] (clean_url base @ ''/'') = (scheme, rest @ ''/'')"
    using split_scheme_slash [OF 1] web u by (auto simp: web_scheme_def)
  have 4: "fst (split_netloc (rest @ ''/'')) = netloc" using split_netloc_slash [OF 2] host u by simp
  show ?thesis using 3 4 ok u unfolding base urlsplit_def base_slash_plain
    by (auto split: prod.splits)
qed (use b in auto)

lemma starts_dropWhile: "starts_with ''//'' (dropWhile (\<lambda>c. c = CHR ''/'') s) \<Longrightarrow> False"
  by (induction s) (auto split: if_splits)

lemma scheme_route_is_url:
  assumes r: "urlsplit ok scheme route = Some r" and "u_scheme r \<noteq> scheme" and "plain_text route" and "u_netloc s \<noteq> []"
    and s: "urlsplit ok [] route = Some s"
  shows "str_contains ''://'' route"
proof -
  obtain sch rest where 1: "split_scheme scheme (clean_url route) = (sch, rest)" by fastforce
  have sch: "u_scheme r = sch" using r by (auto simp: urlsplit_def 1 split: if_splits prod.splits)
  from split_scheme_cases [OF 1, of "[]"] assms(2) sch obtain front where
    f: "clean_url route = front @ CHR '':'' # rest" "split_scheme [] (clean_url route) = (sch, rest)" by auto
  have "starts_with ''//'' rest"
    using s assms(4) f(2) by (auto simp: urlsplit_def split_netloc_def split: if_splits prod.splits)
  then obtain t where "rest = ''//'' @ t" by (auto simp: starts_with_iff)
  with f have clean: "clean_url route = front @ ''://'' @ t" by simp
  have "clean_url route = dropWhile is_control_or_space route"
    using assms(3) set_dropWhileD [of _ is_control_or_space route]
    by (auto simp: clean_url_def plain_text_def filter_id_conv)
  then have "route = takeWhile is_control_or_space route @ front @ ''://'' @ t"
    using clean by (metis takeWhile_dropWhile_id)
  then show ?thesis unfolding str_contains_iff by (metis append.assoc)
qed

text \<open>A URL the scanner accepts names the host of the base.  It has the scheme of the base too, unless the route
  holds a tab or a line break, which the URL parser removes after the checks have looked at it.\<close>

lemma join_route_host:
  assumes j: "join_route ok base route = Inr u" and b: "urlsplit ok [] base = Some b"
    and web: "web_scheme (u_scheme b)" and host: "u_netloc b \<noteq> []"
  shows "\<exists>s. urlsplit ok [] u = Some s \<and> u_netloc s = u_netloc b \<and> (plain_text route \<longrightarrow> u_scheme s = u_scheme b)"
proof -
  let ?path = "dropWhile (\<lambda>c. c = CHR ''/'') route"
  from j b obtain s where s: "urlsplit ok [] u = Some s" "u_netloc s = u_netloc b"
    and join: "urljoin ok (base_slash base) ?path = Some u" and clean: "\<not> str_contains ''://'' route"
    by (auto simp: join_route_def split: option.splits if_splits)
  from urlsplit_slash [OF b web host] obtain b' where
    b': "urlsplit ok [] (base_slash base) = Some b'" "u_scheme b' = u_scheme b" "u_netloc b' = u_netloc b" by blast
  have "u_scheme s = u_scheme b" if plain: "plain_text route"
  proof (cases "?path = []")
    case True
    have "base_slash base \<noteq> []" by (simp add: base_slash_def)
    with True join have "u = base_slash base" by (simp add: urljoin_def)
    with s b' show ?thesis by simp
  next
    case False
    from urljoin_cases [OF b'(1) _ join False] web b'(2)
    consider (own) r where "urlsplit ok (u_scheme b') ?path = Some r" "u_scheme r \<noteq> u_scheme b'" "u = ?path"
      | (same) s' where "urlsplit ok [] u = Some s'" "u_scheme s' = u_scheme b'" by auto
    then show ?thesis
    proof cases
      case own
      have "plain_text ?path" using plain by (auto simp: plain_text_def dest: set_dropWhileD)
      with own s host have "str_contains ''://'' ?path" by (intro scheme_route_is_url [of ok "u_scheme b'" ?path r s]) auto
      then have "str_contains ''://'' route"
        by (metis append.assoc str_contains_iff takeWhile_dropWhile_id)
      with clean show ?thesis ..
    next
      case same
      with s b' show ?thesis by simp
    qed
  qed
  with s show ?thesis by blast
qed

definition any_authority :: "string \<Rightarrow> bool" where "any_authority s = True"

definition TAB :: char where "TAB = CHR 0x09"

lemma tab_downgrades:
  "join_route any_authority ''https://a.io'' (''http:'' @ [TAB] @ ''//a.io/admin'') =
     Inr (''http:'' @ [TAB] @ ''//a.io/admin'')"
  "map_option u_scheme (urlsplit any_authority [] (''http:'' @ [TAB] @ ''//a.io/admin'')) = Some ''http''"
  by code_simp+

text \<open>A route whose first segment has a colon after a word reads as a URL with a scheme, and is refused.\<close>

lemma colon_route_is_refused:
  "\<exists>text. join_route any_authority ''https://a.io'' ''/users:batchGet'' = Inl (ConfigError text)"
  "join_route any_authority ''https://a.io/v1'' ''/users/:id'' = Inr ''https://a.io/v1/users/:id''"
proof -
  have "case join_route any_authority ''https://a.io'' ''/users:batchGet'' of Inl (ConfigError _) \<Rightarrow> True | _ \<Rightarrow> False"
    by code_simp
  then show "\<exists>text. join_route any_authority ''https://a.io'' ''/users:batchGet'' = Inl (ConfigError text)"
    by (auto split: sum.splits scan_fault.splits)
  show "join_route any_authority ''https://a.io/v1'' ''/users/:id'' = Inr ''https://a.io/v1/users/:id''"
    by code_simp
qed

subsection \<open>The scope of a scan\<close>

definition may_probe :: "(string \<Rightarrow> bool) \<Rightarrow> string \<Rightarrow> bool \<Rightarrow> string \<Rightarrow> api_endpoint \<Rightarrow> bool" where
  "may_probe ok base explicit url e \<longleftrightarrow>
     \<not> ep_excluded e \<and> (explicit \<or> ''DELETE'' \<notin> set (methods_of e)) \<and> join_route ok base (ep_route e) = Inr url"

lemma destructive_iff: "destructive_verbs e = [] \<longleftrightarrow> ''DELETE'' \<notin> set (methods_of e)"
  by (simp add: destructive_verbs_def DESTRUCTIVE_METHODS_def)

text \<open>The loop adds each endpoint to one of the two lists.\<close>

lemma consider_cases:
  assumes "consider_endpoint ok base explicit e sc = Inr sc'"
  shows "(\<exists>url. may_probe ok base explicit url e \<and> sc' = take_endpoint e url sc) \<or>
    (\<exists>reason. reason \<noteq> [] \<and> sc' = skip_endpoint e reason sc)"
proof -
  have "join_route ok base route = Inl (ConfigError msg) \<Longrightarrow> msg \<noteq> []" for route msg
    by (auto simp: join_route_def split: if_splits option.splits)
  with assms show ?thesis
    by (auto simp: consider_endpoint_def may_probe_def destructive_iff Let_def
        split: if_splits sum.splits scan_fault.splits)
qed

lemma scope_loop_accounts:
  assumes "scope_loop ok base explicit es sc = Inr sc'"
  shows "\<exists>us ps sk. sp_urls sc' = sp_urls sc @ us \<and> sp_endpoints sc' = sp_endpoints sc @ ps \<and>
    sp_skipped sc' = sp_skipped sc @ sk \<and> list_all2 (may_probe ok base explicit) us ps \<and>
    mset ps + mset (map fst sk) = mset es \<and> (\<forall>(e, reason)\<in>set sk. reason \<noteq> [])"
  using assms
proof (induction es arbitrary: sc)
  case (Cons e es)
  from Cons.prems obtain sc1 where 1: "consider_endpoint ok base explicit e sc = Inr sc1"
    and 2: "scope_loop ok base explicit es sc1 = Inr sc'" by (auto split: sum.splits)
  from Cons.IH [OF 2] obtain us ps sk where rest: "sp_urls sc' = sp_urls sc1 @ us" "sp_endpoints sc' = sp_endpoints sc1 @ ps"
    "sp_skipped sc' = sp_skipped sc1 @ sk" "list_all2 (may_probe ok base explicit) us ps"
    "mset ps + mset (map fst sk) = mset es" "\<forall>(e, reason)\<in>set sk. reason \<noteq> []" by blast
  from consider_cases [OF 1] show ?case
  proof (elim disjE exE conjE)
    fix url assume "may_probe ok base explicit url e" "sc1 = take_endpoint e url sc"
    with rest show ?thesis
      by (intro exI [of _ "url # us"] exI [of _ "e # ps"] exI [of _ sk]) (simp add: take_endpoint_def)
  next
    fix reason :: string assume "reason \<noteq> []" "sc1 = skip_endpoint e reason sc"
    with rest show ?thesis
      by (intro exI [of _ us] exI [of _ ps] exI [of _ "(e, reason) # sk"]) (simp add: skip_endpoint_def)
  qed
qed simp

lemma build_parts:
  assumes "build_scan_urls ok db t ids = Inr sc"
  shows "\<exists>base b. t_api_base_url t = Some base \<and> urlsplit ok [] base = Some b \<and> web_scheme (u_scheme b) \<and> u_netloc b \<noteq> [] \<and>
    list_all2 (may_probe ok base (ids \<noteq> None)) (sp_urls sc) (sp_endpoints sc) \<and>
    mset (sp_endpoints sc) + mset (map fst (sp_skipped sc)) = mset (selected_endpoints db t ids) \<and>
    (\<forall>(e, reason)\<in>set (sp_skipped sc). reason \<noteq> [])"
proof -
  from assms obtain base b where base: "t_api_base_url t = Some base" "urlsplit ok [] base = Some b"
      "web_scheme (u_scheme b)" "u_netloc b \<noteq> []"
    and loop: "scope_loop ok base (ids \<noteq> None) (selected_endpoints db t ids) \<lparr>sp_urls = [], sp_endpoints = [], sp_skipped = []\<rparr> = Inr sc"
    by (auto simp: build_scan_urls_def split: option.splits list.splits if_splits)
  from scope_loop_accounts [OF loop] base show ?thesis by auto
qed

definition on_host :: "(string \<Rightarrow> bool) \<Rightarrow> string \<Rightarrow> string \<Rightarrow> bool" where
  "on_host ok base url \<longleftrightarrow>
     map_option u_netloc (urlsplit ok [] url) = map_option u_netloc (urlsplit ok [] base) \<and> urlsplit ok [] url \<noteq> None"

lemma built_url:
  assumes "build_scan_urls ok db t ids = Inr sc" and "u \<in> set (sp_urls sc)"
  shows "\<exists>base. t_api_base_url t = Some base \<and> on_host ok base u \<and>
    (\<exists>e\<in>set (selected_endpoints db t ids). may_probe ok base (ids \<noteq> None) u e)"
proof -
  from build_parts [OF assms(1)] obtain base b where base: "t_api_base_url t = Some base" "urlsplit ok [] base = Some b"
      "web_scheme (u_scheme b)" "u_netloc b \<noteq> []"
    and all: "list_all2 (may_probe ok base (ids \<noteq> None)) (sp_urls sc) (sp_endpoints sc)"
    and sel: "mset (sp_endpoints sc) + mset (map fst (sp_skipped sc)) = mset (selected_endpoints db t ids)" by blast
  obtain k where "k < length (sp_urls sc)" "u = sp_urls sc ! k" using assms(2) by (auto simp: in_set_conv_nth)
  with all have "sp_endpoints sc ! k \<in> set (sp_endpoints sc)" "may_probe ok base (ids \<noteq> None) u (sp_endpoints sc ! k)"
    by (simp_all add: list_all2_conv_all_nth)
  then obtain e where e: "e \<in> set (sp_endpoints sc)" "may_probe ok base (ids \<noteq> None) u e" by blast
  have "e \<in># mset (selected_endpoints db t ids)" using e(1) by (simp flip: sel)
  then have "e \<in> set (selected_endpoints db t ids)" by simp
  moreover have "on_host ok base u"
    using join_route_host [OF _ base(2-4), of "ep_route e" u] e(2) base(2) by (auto simp: may_probe_def on_host_def)
  ultimately show ?thesis using base(1) e(2) by blast
qed

text \<open>C27: No discovered endpoint is dropped in silence.  A scope that is built puts every selected endpoint either
  among those probed or, with a reason, among those skipped; the URLs are those of the endpoints probed, in
  order; and none of these is one the operator excluded or, in a scan that names no endpoint, a DELETE route.\<close>

theorem scope_accounts_for_every_endpoint:
  assumes "build_scan_urls ok db t ids = Inr sc"
  shows "mset (sp_endpoints sc) + mset (map fst (sp_skipped sc)) = mset (selected_endpoints db t ids) \<and>
    (\<forall>(e, reason)\<in>set (sp_skipped sc). reason \<noteq> []) \<and>
    length (sp_urls sc) = length (sp_endpoints sc) \<and>
    (\<forall>k<length (sp_urls sc). join_route ok (the (t_api_base_url t)) (ep_route (sp_endpoints sc ! k)) = Inr (sp_urls sc ! k) \<and>
       \<not> ep_excluded (sp_endpoints sc ! k) \<and> (ids = None \<longrightarrow> ''DELETE'' \<notin> set (methods_of (sp_endpoints sc ! k))))"
  using build_parts [OF assms] by (auto simp: list_all2_conv_all_nth may_probe_def)

definition api_target :: target where
  "api_target = example_target\<lparr>t_api_base_url := Some ''https://a.io''\<rparr>"

definition route_row :: "row_id \<Rightarrow> string \<Rightarrow> string \<Rightarrow> api_endpoint" where
  "route_row i verb route = new_endpoint 5 1 ''main'' i
     \<lparr>de_framework = ''flask'', de_method = verb, de_route = route, de_file = ''app.py'', de_line = Some i\<rparr>"

definition api_db :: db where
  "api_db = empty_db\<lparr>d_targets := [api_target],
     d_endpoints := [route_row 1 ''GET'' ''/users'', route_row 2 ''GET, DELETE'' ''/users/all'',
       (route_row 3 ''POST'' ''/reset'')\<lparr>ep_excluded := True\<rparr>]\<rparr>"

lemma api_scope:
  "build_scan_urls any_authority api_db api_target None =
     Inr \<lparr>sp_urls = [''https://a.io/users''], sp_endpoints = [route_row 1 ''GET'' ''/users''],
       sp_skipped = [(route_row 2 ''GET, DELETE'' ''/users/all'',
           ''DELETE is not scanned unless the endpoint is selected explicitly''),
         ((route_row 3 ''POST'' ''/reset'')\<lparr>ep_excluded := True\<rparr>, ''marked out of scope (no reason recorded)'')]\<rparr>"
  by code_simp

theorem scope_accounts_for_every_endpoint_witness:
  "mset (selected_endpoints api_db api_target None) =
     {#route_row 1 ''GET'' ''/users'', route_row 2 ''GET, DELETE'' ''/users/all'',
       (route_row 3 ''POST'' ''/reset'')\<lparr>ep_excluded := True\<rparr>#}"
proof -
  have "{#route_row 1 ''GET'' ''/users''#} + mset [route_row 2 ''GET, DELETE'' ''/users/all'',
      (route_row 3 ''POST'' ''/reset'')\<lparr>ep_excluded := True\<rparr>] = mset (selected_endpoints api_db api_target None)"
    using conjunct1 [OF scope_accounts_for_every_endpoint [OF api_scope]] by simp
  then show ?thesis by (simp add: add_mset_commute)
qed

subsection \<open>What a scan sends\<close>

lemma nuclei_runs:
  "run_nuclei w urls headers budget = (runs, result) \<Longrightarrow> r \<in> set runs \<Longrightarrow>
   urls \<noteq> [] \<and> r = nuclei_start w urls headers budget \<and>
   result = (case aw_spawn w r of NucleiMissing m \<Rightarrow> Inl (NotFound m) | NucleiTimeout out \<Rightarrow> Inl (TimedOut out)
     | NucleiFault m \<Rightarrow> Inl (NucleiBroke m)
     | NucleiExit code out err \<Rightarrow>
         if code \<noteq> 0 then Inl (NucleiBroke (''nuclei exited '' @ int_str code @ '': '' @ stderr_tail err))
         else Inr (parse_nuclei_jsonl (aw_json w) out))"
  by (auto simp: run_nuclei_def Let_def split: if_splits)

lemma run_nuclei_ok:
  "run_nuclei w urls headers budget = (runs, Inr raw) \<Longrightarrow> urls \<noteq> [] \<Longrightarrow>
   \<exists>r out err. runs = [r] \<and> r = nuclei_start w urls headers budget \<and> aw_spawn w r = NucleiExit 0 out err \<and>
     raw = parse_nuclei_jsonl (aw_json w) out"
  by (auto simp: run_nuclei_def Let_def split: if_splits nuclei_result.splits)

text \<open>The ways a scan of some URLs ends: without touching a finding, or by ingesting what nuclei reported.\<close>

lemma api_scan_urls_cases:
  assumes "api_scan_urls w t i final sc db = Some (db', out, evs)" and "sp_urls sc \<noteq> []"
  obtains (same) "d_findings db' = d_findings db" "\<forall>n m. out \<noteq> ApiIngested n m"
  | (part) items where "d_findings db' = d_findings (partial_ingest (aw_ingest w) t i ''api-scan'' (t_default_branch t) items db)"
      "\<forall>n m. out \<noteq> ApiIngested n m"
  | (ingested) r stdout stderr parsed items alerts where "NucleiStarted r \<in> set evs" "aw_spawn w r = NucleiExit 0 stdout stderr"
      "parse_nuclei (JArr (parse_nuclei_jsonl (aw_json w) stdout)) = Some parsed" "collect scan_item_of parsed = Some items"
      "ingest_findings (aw_ingest w) t i ''api-scan'' (t_default_branch t) items (Some (trusted ''api-scan'')) db = Inr (db', alerts)"
      "out = ApiIngested (length items) (length (sp_endpoints sc))"
proof -
  show thesis
  proof (cases "build_scan_headers (aw_decrypt w) t")
    case (Inl fault)
    with assms show ?thesis by (intro same) (auto simp: api_scan_urls_def api_failed_def)
  next
    case (Inr headers)
    obtain runs result where run: "run_nuclei w (sp_urls sc) headers (nuclei_timeout_for (aw_settings w) (length (sp_urls sc))) = (runs, result)"
      by fastforce
    note body = assms(1) [unfolded api_scan_urls_def Inr sum.case Let_def run prod.case]
    show ?thesis
    proof (cases result)
      case (Inl e)
      with body show ?thesis
        by (cases e) (auto simp: api_failed_def split: if_splits intro!: same)
    next
      case ok: (Inr raw)
      from run_nuclei_ok [OF run [unfolded ok] assms(2)] obtain r stdout stderr where
        r: "runs = [r]" "aw_spawn w r = NucleiExit 0 stdout stderr" "raw = parse_nuclei_jsonl (aw_json w) stdout" by blast
      show ?thesis
      proof (cases "parse_nuclei (JArr raw)")
        case None
        with body ok show ?thesis by (intro same) (auto simp: api_failed_def)
      next
        case (Some parsed)
        show ?thesis
        proof (cases "collect scan_item_of parsed")
          case None
          with body ok Some show ?thesis by (intro same) auto
        next
          case items: (Some items)
          show ?thesis
          proof (cases "ingest_findings (aw_ingest w) t i ''api-scan'' (t_default_branch t) items (Some (trusted ''api-scan'')) db")
            case (Inl e)
            show ?thesis
            proof (cases e)
              case SessionLost
              with body ok Some items Inl show ?thesis by (intro same) (auto simp: start_run_def Let_def)
            next
              case (ScoringError k)
              with body ok Some items Inl show ?thesis by (intro part) (auto simp: api_failed_def)
            qed
          next
            case good: (Inr res)
            obtain db2 alerts where "res = (db2, alerts)" by fastforce
            with body ok Some items good r show ?thesis by (intro ingested) auto
          qed
        qed
      qed
    qed
  qed
qed

text \<open>What a task that reaches nuclei has established.\<close>

lemma run_api_scan_cases:
  assumes "run_api_scan w target_id scan_id ids final db = Some (db', out, evs)"
  obtains (same) "d_findings db' = d_findings db" "\<forall>n m. out \<noteq> ApiIngested n m" "\<forall>r. NucleiStarted r \<notin> set evs"
  | (probe) t sc where "get_target db target_id = Some t" "scan_refusal_reason t = None"
      "build_scan_urls (aw_authority_ok w) db t ids = Inr sc" "sp_urls sc \<noteq> []"
      "api_scan_urls w t scan_id final sc db = Some (db', out, evs)"
  using assms by (auto simp: run_api_scan_def api_failed_def split: option.splits sum.splits if_splits)

lemma api_scan_urls_start:
  assumes "api_scan_urls w t i final sc db = Some (db', out, evs)" and "NucleiStarted r \<in> set evs"
  shows "\<exists>headers. build_scan_headers (aw_decrypt w) t = Inr headers \<and>
     r = nuclei_start w (sp_urls sc) headers (nuclei_timeout_for (aw_settings w) (length (sp_urls sc)))"
proof (cases "build_scan_headers (aw_decrypt w) t")
  case (Inl fault)
  with assms show ?thesis by (auto simp: api_scan_urls_def api_failed_def)
next
  case (Inr headers)
  obtain runs result where run: "run_nuclei w (sp_urls sc) headers (nuclei_timeout_for (aw_settings w) (length (sp_urls sc))) = (runs, result)"
    by fastforce
  have "NucleiStarted r \<in> set (map NucleiStarted runs)"
    using assms [unfolded api_scan_urls_def Inr sum.case Let_def run prod.case]
    by (auto simp: api_failed_def split: sum.splits nuclei_error.splits option.splits if_splits ingest_error.splits)
  then have "r \<in> set runs" by auto
  with nuclei_runs [OF run this] Inr show ?thesis by blast
qed

text \<open>C8: An active scan stays in its scope.  A task starts nuclei only for a target that is neither deactivated nor
  deleted and has an API base URL; every URL it hands over has that URL's host and comes from a discovered
  endpoint of the target's default branch that no operator excluded, that a scan which names endpoints named,
  and that in a scan which names none was not discovered as a DELETE.  A configured credential is always sent: where it
  cannot be decrypted nothing is started.  The time given is the setting or six seconds an endpoint,
  the latter at most half an hour.\<close>

theorem api_scan_stays_in_scope:
  assumes "run_api_scan w target_id scan_id ids final db = Some (db', out, evs)" and "NucleiStarted r \<in> set evs"
  shows "\<exists>t base. get_target db target_id = Some t \<and> scan_refusal_reason t = None \<and> t_api_base_url t = Some base \<and>
    nr_urls r \<noteq> [] \<and>
    (\<forall>u\<in>set (nr_urls r). on_host (aw_authority_ok w) base u \<and>
       (\<exists>e\<in>set (d_endpoints db). ep_target_id e = t_id t \<and> ep_branch e = t_default_branch t \<and> \<not> ep_excluded e \<and>
          join_route (aw_authority_ok w) base (ep_route e) = Inr u \<and>
          (case ids of None \<Rightarrow> ''DELETE'' \<notin> set (methods_of e) | Some is \<Rightarrow> ep_id e \<in> set is))) \<and>
    (\<forall>n name c cipher. t_api_auth_header_name t = Some (n # name) \<and> t_api_auth_header_value_ciphertext t = Some (c # cipher) \<longrightarrow>
       (\<exists>secret. aw_decrypt w (c # cipher) = Some secret \<and> nr_header_lines r = [n # name @ '': '' @ secret])) \<and>
    (let st = aw_settings w in 0 < ns_timeout_seconds st \<longrightarrow>
       nr_timeout r = max (ns_timeout_seconds st) (min (6 * int (length (nr_urls r))) 1800))"
proof -
  from assms(1) show ?thesis
  proof (cases rule: run_api_scan_cases)
    case same
    with assms(2) show ?thesis by blast
  next
    case (probe t sc)
    from api_scan_urls_start [OF probe(5) assms(2)] obtain headers where
      h: "build_scan_headers (aw_decrypt w) t = Inr headers"
      and r: "r = nuclei_start w (sp_urls sc) headers (nuclei_timeout_for (aw_settings w) (length (sp_urls sc)))" by blast
    have urls: "nr_urls r = sp_urls sc" by (simp add: r nuclei_start_def)
    from probe(4) obtain u0 where "u0 \<in> set (sp_urls sc)" by (cases "sp_urls sc") auto
    from built_url [OF probe(3) this] obtain base where base: "t_api_base_url t = Some base" by blast
    have each: "on_host (aw_authority_ok w) base u \<and>
       (\<exists>e\<in>set (d_endpoints db). ep_target_id e = t_id t \<and> ep_branch e = t_default_branch t \<and> \<not> ep_excluded e \<and>
          join_route (aw_authority_ok w) base (ep_route e) = Inr u \<and>
          (case ids of None \<Rightarrow> ''DELETE'' \<notin> set (methods_of e) | Some is \<Rightarrow> ep_id e \<in> set is))"
      if "u \<in> set (nr_urls r)" for u
      using built_url [OF probe(3) that [unfolded urls]] base
      by (fastforce simp: selected_endpoints_def endpoints_of_def may_probe_def split: option.splits)
    have cred: "\<exists>secret. aw_decrypt w (c # cipher) = Some secret \<and> nr_header_lines r = [n # name @ '': '' @ secret]"
      if "t_api_auth_header_name t = Some (n # name) \<and> t_api_auth_header_value_ciphertext t = Some (c # cipher)" for n name c cipher
      using h that by (auto simp: build_scan_headers_def r nuclei_start_def split: option.splits)
    have "let st = aw_settings w in 0 < ns_timeout_seconds st \<longrightarrow>
       nr_timeout r = max (ns_timeout_seconds st) (min (6 * int (length (nr_urls r))) 1800)"
      by (auto simp: r nuclei_start_def nuclei_timeout_for_def NUCLEI_SECONDS_PER_ENDPOINT_def
          NUCLEI_TIMEOUT_CEILING_SECONDS_def Let_def mult.commute)
    then show ?thesis using probe(1,2,4) base each cred urls by (intro exI [of _ t] exI [of _ base]) simp
  qed
qed

definition nuclei_world :: "(nuclei_run \<Rightarrow> nuclei_result) \<Rightarrow> api_world" where
  "nuclei_world spawn =
     \<lparr>aw_authority_ok = any_authority, aw_decrypt = (\<lambda>c. Some ''Bearer s3cret''),
      aw_settings = \<lparr>ns_binary = ''nuclei'', ns_timeout_seconds = 300, ns_rate_limit = 10, ns_exclude_tags = ''dos,fuzz,intrusive''\<rparr>,
      aw_templates = True, aw_target_file = ''/tmp/urls.txt'', aw_config_file = ''/tmp/nuclei.yaml'', aw_spawn = spawn,
      aw_json = (\<lambda>_. None), aw_ingest = example_world, aw_refuses = (\<lambda>_. None), aw_error_text = ''error'', aw_now = 50\<rparr>"

definition quiet_nuclei :: "nuclei_run \<Rightarrow> nuclei_result" where "quiet_nuclei r = NucleiExit 0 [] []"

definition running_scan :: scan where
  "running_scan = \<lparr>s_id = 5, s_target_id = 1, s_tool = ''api-scan'', s_branch = ''main'', s_status = ''running'',
     s_started_at = 40, s_completed_at = None, s_findings_count = 0, s_error = [], s_health = HEALTH_UNKNOWN, s_health_note = []\<rparr>"

text \<open>A finding on a route no scan below probes.\<close>

definition old_api_finding :: finding where
  "old_api_finding = example_finding\<lparr>f_tool := ''api-scan'', f_file_path := ''https://a.io/admin''\<rparr>"

definition scanning_db :: db where
  "scanning_db = api_db\<lparr>d_scans := [running_scan], d_findings := [old_api_finding]\<rparr>"

definition started_runs :: "api_event list \<Rightarrow> nuclei_run list" where
  "started_runs evs = List.map_filter (\<lambda>e. case e of NucleiStarted r \<Rightarrow> Some r | _ \<Rightarrow> None) evs"

lemma started_iff: "r \<in> set (started_runs evs) \<longleftrightarrow> NucleiStarted r \<in> set evs"
  by (induction evs) (auto simp: started_runs_def map_filter_simps split: api_event.splits)

lemma api_probe:
  "map_option (\<lambda>(db', out, evs). (map nr_urls (started_runs evs), map (\<lambda>f. (f_file_path f, f_state f)) (d_findings db')))
     (run_api_scan (nuclei_world quiet_nuclei) 1 5 (Some [1]) False scanning_db) =
   Some ([[''https://a.io/users'']], [(''https://a.io/admin'', MITIGATED)])"
  by code_simp

theorem api_scan_stays_in_scope_witness:
  "\<exists>db' out evs r. run_api_scan (nuclei_world quiet_nuclei) 1 5 (Some [1]) False scanning_db = Some (db', out, evs) \<and>
     NucleiStarted r \<in> set evs \<and> nr_urls r = [''https://a.io/users''] \<and> nr_timeout r = 300"
proof -
  from api_probe obtain db' out evs where
    run: "run_api_scan (nuclei_world quiet_nuclei) 1 5 (Some [1]) False scanning_db = Some (db', out, evs)" by auto
  have "map nr_urls (started_runs evs) = [[''https://a.io/users'']]" using api_probe by (simp add: run)
  then obtain r where "started_runs evs = [r]" and urls: "nr_urls r = [''https://a.io/users'']" by auto
  then have "NucleiStarted r \<in> set evs" using started_iff [of r evs] by simp
  with urls have r: "NucleiStarted r \<in> set evs" "nr_urls r = [''https://a.io/users'']" by simp_all
  have "nr_timeout r = 300"
    using api_scan_stays_in_scope [OF run r(1)] r(2) by (auto simp: nuclei_world_def Let_def)
  with run r show ?thesis by blast
qed

subsection \<open>What a scan clears\<close>

text \<open>Nuclei ran to its end and reported nothing with the finding's fingerprint.\<close>

definition nuclei_absent :: "api_world \<Rightarrow> api_event list \<Rightarrow> finding \<Rightarrow> bool" where
  "nuclei_absent w evs f \<longleftrightarrow>
     (\<exists>r stdout stderr parsed items. NucleiStarted r \<in> set evs \<and> aw_spawn w r = NucleiExit 0 stdout stderr \<and>
        parse_nuclei (JArr (parse_nuclei_jsonl (aw_json w) stdout)) = Some parsed \<and>
        collect scan_item_of parsed = Some items \<and> f_dedup_hash f \<notin> fingerprints (aw_ingest w) ''api-scan'' items)"

text \<open>C12: An active scan clears a finding only on evidence.  An Open finding stays Open through every failure, a broken,
  missing or interrupted nuclei, an undecryptable credential, an empty scope, unless nuclei ran to its end with
  exit code 0 and reported nothing with the finding's fingerprint; and then the finding is one of the
  target's API findings on its default branch.  The other way round, a run that is ingested clears every
  such finding it did not report, whichever endpoints it was asked to probe: a scan of one selected
  endpoint clears the findings of all the others.\<close>

theorem api_scan_clears_on_evidence:
  assumes run: "run_api_scan w target_id scan_id ids final db = Some (db', out, evs)" and ok: "findings_ok db"
    and f: "f \<in> set (d_findings db)" "f_state f = OPEN"
  shows "(\<exists>f'\<in>set (d_findings db'). identity f' = identity f \<and>
       (f_state f' = OPEN \<or>
        f_state f' = MITIGATED \<and> f_target_id f = target_id \<and> f_tool f = ''api-scan'' \<and>
        (\<exists>t. get_target db target_id = Some t \<and> f_branch f = t_default_branch t) \<and> nuclei_absent w evs f)) \<and>
    (\<forall>n m t. out = ApiIngested n m \<and> get_target db target_id = Some t \<and> f_target_id f = target_id \<and>
       f_branch f = t_default_branch t \<and> f_tool f = ''api-scan'' \<and> nuclei_absent w evs f \<longrightarrow>
       (\<exists>f'\<in>set (d_findings db'). identity f' = identity f \<and> f_state f' = MITIGATED))"
  using run
proof (cases rule: run_api_scan_cases)
  case same
  with f show ?thesis by auto
next
  case (probe t sc)
  have tid: "t_id t = target_id" using find_mem [OF probe(1) [unfolded get_target_def]] by simp
  from probe(5,4) show ?thesis
  proof (cases rule: api_scan_urls_cases)
    case same
    with f show ?thesis by auto
  next
    case (part items)
    let ?part = "partial_ingest (aw_ingest w) t scan_id ''api-scan'' (t_default_branch t) items db"
    have old: "f_id f \<in> finding_ids db" using f by (simp add: finding_ids_def)
    from open_elsewhere [OF partial_refines [OF ok] ok f(1) old f(2)]
    have "\<exists>f'\<in>set (d_findings ?part). identity f' = identity f \<and> f_state f' = OPEN" by blast
    with part show ?thesis by auto
  next
    case (ingested r stdout stderr parsed items alerts)
    have seen: "reported (run_of (aw_ingest w) t scan_id ''api-scan'' (t_default_branch t) items db) items =
        fingerprints (aw_ingest w) ''api-scan'' items" by (rule reported_fingerprints)
    have may: "fst (may_mitigate items (Some (trusted ''api-scan'')))"
      by (simp add: may_mitigate_def healthy_def trusted_def)
    have "nuclei_absent w evs f" if "f_dedup_hash f \<notin> fingerprints (aw_ingest w) ''api-scan'' items"
      using that ingested(1-4) unfolding nuclei_absent_def by blast
    with ingest_open [OF ingested(5) ok f] seen tid probe(1)
    have one: "\<exists>f'\<in>set (d_findings db'). identity f' = identity f \<and>
       (f_state f' = OPEN \<or>
        f_state f' = MITIGATED \<and> f_target_id f = target_id \<and> f_tool f = ''api-scan'' \<and>
        (\<exists>t. get_target db target_id = Some t \<and> f_branch f = t_default_branch t) \<and> nuclei_absent w evs f)" by auto
    have "\<exists>f'\<in>set (d_findings db'). identity f' = identity f \<and> f_state f' = MITIGATED"
      if "f_target_id f = target_id" "f_branch f = t_default_branch t" "f_tool f = ''api-scan''" "nuclei_absent w evs f"
    proof -
      from that(4) obtain r' stdout' stderr' parsed' items' where absent: "NucleiStarted r' \<in> set evs"
          "aw_spawn w r' = NucleiExit 0 stdout' stderr'"
          "parse_nuclei (JArr (parse_nuclei_jsonl (aw_json w) stdout')) = Some parsed'"
          "collect scan_item_of parsed' = Some items'" "f_dedup_hash f \<notin> fingerprints (aw_ingest w) ''api-scan'' items'"
        unfolding nuclei_absent_def by blast
      have "r' = r" using api_scan_urls_start [OF probe(5) absent(1)] api_scan_urls_start [OF probe(5) ingested(1)] by auto
      with absent ingested have "f_dedup_hash f \<notin> fingerprints (aw_ingest w) ''api-scan'' items" by simp
      with trusted_run_clears [OF ingested(5) ok may f(1)] that tid seen f(2) show ?thesis by simp
    qed
    with one probe(1) show ?thesis by auto
  qed
qed

text \<open>A scan of the one route \<open>/users\<close> clears the finding of \<open>/admin\<close>.\<close>

lemma narrow_scan_clears_the_rest:
  "map (\<lambda>f. (f_file_path f, f_state f)) (d_findings (fst (the
     (run_api_scan (nuclei_world quiet_nuclei) 1 5 (Some [1]) False scanning_db)))) = [(''https://a.io/admin'', MITIGATED)]"
  using api_probe by auto

theorem api_scan_clears_on_evidence_witness:
  "\<exists>db' out evs. run_api_scan (nuclei_world quiet_nuclei) 1 5 (Some [1]) False scanning_db = Some (db', out, evs) \<and>
     (\<exists>f'\<in>set (d_findings db'). identity f' = identity old_api_finding)"
proof -
  from api_probe obtain db' out evs where
    run: "run_api_scan (nuclei_world quiet_nuclei) 1 5 (Some [1]) False scanning_db = Some (db', out, evs)" by auto
  have "findings_ok scanning_db" "old_api_finding \<in> set (d_findings scanning_db)" "f_state old_api_finding = OPEN"
    by (simp_all add: findings_ok_def scanning_db_def api_db_def empty_db_def old_api_finding_def example_finding_def)
  from api_scan_clears_on_evidence [OF run this] run show ?thesis by blast
qed

subsection \<open>The schedule and the button\<close>

lemma new_scan_frame [simp]:
  "d_endpoints (snd (new_scan now i tool branch db)) = d_endpoints db"
  by (simp add: new_scan_def Let_def)

lemma build_frame:
  "d_endpoints db' = d_endpoints db \<Longrightarrow> build_scan_urls ok db' t ids = build_scan_urls ok db t ids"
  by (simp add: build_scan_urls_def selected_endpoints_def endpoints_of_def split: option.splits list.splits)

lemma new_scan_found: "get_scan (snd (new_scan now i tool branch db)) (fst (new_scan now i tool branch db)) \<noteq> None"
proof -
  have "\<exists>row\<in>set (d_scans (snd (new_scan now i tool branch db))). s_id row = fst (new_scan now i tool branch db)"
    by (simp add: new_scan_def Let_def)
  then show ?thesis by (auto simp: get_scan_def find_None_iff simp del: new_scan_frame)
qed

text \<open>C35: The schedule and the button accept the same scans.  For a target of the database, the dispatcher queues an API
  scan exactly when the route would accept one of the whole target, with the same row and the same job; and the job,
  run before anything about the target changes, is not refused and has something to probe.\<close>

theorem schedule_and_button_agree:
  assumes "get_target db (t_id t) = Some t"
  shows "(queue_api_scan ok now configs t db = Some (db', Some job) \<longleftrightarrow>
      trigger_api_scan ok now configs (t_id t) None db = Some (202, db', Some job)) \<and>
    (queue_api_scan ok now configs t db = Some (db', Some job) \<and> aw_authority_ok w = ok \<longrightarrow>
      (\<exists>sc. sp_urls sc \<noteq> [] \<and>
        run_api_scan w (aj_target_id job) (aj_scan_id job) (aj_endpoint_ids job) final db' =
          api_scan_urls w t (aj_scan_id job) final sc db'))"
proof -
  let ?new = "new_scan now (t_id t) ''api-scan'' (t_default_branch t) db"
  let ?job = "\<lparr>aj_target_id = t_id t, aj_scan_id = fst ?new, aj_endpoint_ids = None\<rparr>"
  let ?go = "scan_refusal_reason t = None \<and> is_nuclei_enabled_for_api_scan configs (t_workspace_id t) \<and>
     (\<exists>sc. build_scan_urls ok db t None = Inr sc \<and> sp_urls sc \<noteq> [])"
  have live: "scan_refusal_reason t = None \<Longrightarrow> live_target db (t_id t) = Some t"
    using assms by (simp add: live_target_def refusal_iff is_deleted_def)
  have base: "build_scan_urls ok db t None = Inr sc \<Longrightarrow> t_api_base_url t \<noteq> None \<and> t_api_base_url t \<noteq> Some []" for sc
    by (auto simp: build_scan_urls_def split: option.splits list.splits)
  have queue: "queue_api_scan ok now configs t db = Some (db', Some job) \<longleftrightarrow> ?go \<and> db' = snd ?new \<and> job = ?job"
    using base
    by (auto simp: queue_api_scan_def describe_api_scan_readiness_def is_dispatchable_target_def split_beta
        split: option.splits readiness.splits sum.splits scan_fault.splits if_splits)
  have trigger: "trigger_api_scan ok now configs (t_id t) None db = Some (202, db', Some job) \<longleftrightarrow> ?go \<and> db' = snd ?new \<and> job = ?job"
    using live assms
    by (auto simp: trigger_api_scan_def split_beta live_target_def split: option.splits sum.splits scan_fault.splits if_splits)
  have "\<exists>sc. sp_urls sc \<noteq> [] \<and> run_api_scan w (aj_target_id job) (aj_scan_id job) (aj_endpoint_ids job) final db' =
      api_scan_urls w t (aj_scan_id job) final sc db'"
    if q: "?go \<and> db' = snd ?new \<and> job = ?job" and w: "aw_authority_ok w = ok"
  proof -
    from q obtain sc where sc: "build_scan_urls ok db t None = Inr sc" "sp_urls sc \<noteq> []" by blast
    have t: "get_target db' (t_id t) = Some t" using assms q by (simp add: get_target_def)
    obtain row where row: "get_scan db' (fst ?new) = Some row" using new_scan_found q by blast
    have b: "build_scan_urls ok db' t None = Inr sc" using sc(1) q build_frame [of db' db] by simp
    show ?thesis using sc t b row q w by (intro exI [of _ sc]) (simp add: run_api_scan_def)
  qed
  with queue trigger show ?thesis by blast
qed

lemma scanning_queue:
  "case queue_api_scan any_authority 60 [] api_target api_db of Some (db', Some job) \<Rightarrow> aj_scan_id job = 1 | _ \<Rightarrow> False"
  by code_simp

theorem schedule_and_button_agree_witness:
  "\<exists>db' job. trigger_api_scan any_authority 60 [] 1 None api_db = Some (202, db', Some job)"
proof -
  from scanning_queue obtain db' job where q: "queue_api_scan any_authority 60 [] api_target api_db = Some (db', Some job)"
    by (auto split: option.splits)
  have "get_target api_db (t_id api_target) = Some api_target"
    by (simp add: get_target_def api_db_def api_target_def)
  from schedule_and_button_agree [OF this, of any_authority 60 "[]" db' job] q
  have "trigger_api_scan any_authority 60 [] (t_id api_target) None api_db = Some (202, db', Some job)" by blast
  moreover have "t_id api_target = 1" by (simp add: api_target_def example_target_def)
  ultimately show ?thesis by auto
qed

subsection \<open>A scan row does not stay running\<close>

definition api_status :: "api_outcome \<Rightarrow> bool \<Rightarrow> string option" where
  "api_status out final =
     (case out of ApiIngested _ _ \<Rightarrow> Some ''completed'' | ApiRetried \<Rightarrow> if final then Some ''failed'' else None
      | ApiScanMissing \<Rightarrow> None | ApiTaskRaised \<Rightarrow> None | _ \<Rightarrow> Some ''failed'')"

lemma api_scan_row_settles:
  assumes "run_api_scan w target_id scan_id ids final db = Some (db', out, evs)" and "api_status out final = Some status"
  shows "row_has scan_id status db'"
  using assms
  by (auto simp: run_api_scan_def api_scan_urls_def api_failed_def api_status_def split_beta ingest_row Let_def
      split: option.splits sum.splits nuclei_error.splits if_splits ingest_error.splits)

subsection \<open>Two rows, one URL\<close>

text \<open>The operator excluded \<open>POST /reset\<close>; the same path discovered under another verb is still probed, and nuclei
  is given no verb.  A Spring handler annotated as a DELETE mapping is stored without its verb.\<close>

lemma excluded_url_is_probed:
  "map_option sp_urls (case build_scan_urls any_authority
     (api_db\<lparr>d_endpoints := [(route_row 3 ''POST'' ''/reset'')\<lparr>ep_excluded := True\<rparr>, route_row 4 ''GET'' ''/reset'']\<rparr>)
     api_target None of Inl _ \<Rightarrow> None | Inr sc \<Rightarrow> Some sc) = Some [''https://a.io/reset'']"
  by code_simp

lemma delete_mapping_loses_its_verb:
  "search_groups SPRING None (''@DeleteMapping('' @ [CHR 0x22] @ ''/u'' @ [CHR 0x22] @ '')'') \<noteq> None"
  "(''spring'', SPRING, \<lambda>g. (''-'', g ! 1)) \<in> set PATTERNS"
  "destructive_verbs (route_row 4 ''-'' ''/users'') = []"
proof -
  show "search_groups SPRING None (''@DeleteMapping('' @ [CHR 0x22] @ ''/u'' @ [CHR 0x22] @ '')'') \<noteq> None" by code_simp
  show "(''spring'', SPRING, \<lambda>g. (''-'', g ! 1)) \<in> set PATTERNS" by (simp add: PATTERNS_def)
  show "destructive_verbs (route_row 4 ''-'' ''/users'') = []" by code_simp
qed

end
