(* ===== verification/Dispatch.thy ===== *)
theory Dispatch
  imports ApiScan ScheduleCoverage
begin

text \<open>
  \<open>tasks/schedule_tasks.py\<close>: one tick of the dispatcher, from the materialised defaults to the jobs on
  the queue.  The schedules and the other tables are two halves of the state; the jitter of a row and the
  races on its creation are arguments, as in Schedules.
\<close>

record dispatch_state =
  ds_db :: db
  ds_schedules :: "scan_schedule list"

record dispatch_world =
  di_now :: timestamp
  di_configs :: "workspace_tool_config list"
  di_authority_ok :: "string \<Rightarrow> bool"
  di_race :: race
  di_default_draws :: "row_id \<Rightarrow> scan_schedule_type \<Rightarrow> duration"
  di_draws :: "row_id \<Rightarrow> duration"

definition sched_view :: "dispatch_state \<Rightarrow> sched_db" where
  "sched_view st = \<lparr>db_schedules = ds_schedules st, db_targets = d_targets (ds_db st), db_workspaces = d_workspaces (ds_db st)\<rparr>"

datatype scan_request = FullScan scan_job | ApiScanJob api_job

text \<open>\<open>_dispatch_for_target\<close>: the scans queued.  An exception, which only the API scan can raise, is
  logged by the loop around it and queues none.\<close>

definition dispatch_for_target ::
  "dispatch_world \<Rightarrow> scan_schedule_type \<Rightarrow> target \<Rightarrow> db \<Rightarrow> db \<times> scan_request list" where
  "dispatch_for_target w scan_type t db =
     (case scan_type of
        FULL_SCAN \<Rightarrow> (let (db1, jobs) = queue_full_scan (di_now w) (di_configs w) t db in (db1, map FullScan jobs))
      | API_SCAN \<Rightarrow>
          (case queue_api_scan (di_authority_ok w) (di_now w) (di_configs w) t db of
             Some (db1, Some job) \<Rightarrow> (db1, [ApiScanJob job])
           | Some (db1, None) \<Rightarrow> (db1, [])
           | None \<Rightarrow> (db, [])))"

fun dispatch_targets ::
  "dispatch_world \<Rightarrow> scan_schedule_type \<Rightarrow> target list \<Rightarrow> db \<Rightarrow> db \<times> scan_request list" where
  "dispatch_targets w scan_type [] db = (db, [])"
| "dispatch_targets w scan_type (t # ts) db =
     (let (db1, jobs) = dispatch_for_target w scan_type t db;
          (db2, rest) = dispatch_targets w scan_type ts db1
      in (db2, jobs @ rest))"

record dispatch_summary =
  sm_fired :: "row_id list"
  sm_already_claimed :: nat
  sm_targets_considered :: nat
  sm_jobs :: "scan_request list"

text \<open>One due row.  The row object is expired by each commit, so it is read again by its id; a row that is gone
  raises, is logged and is passed over.\<close>

definition dispatch_row ::
  "dispatch_world \<Rightarrow> row_id \<Rightarrow> dispatch_state \<times> dispatch_summary \<Rightarrow> dispatch_state \<times> dispatch_summary" where
  "dispatch_row w row_id = (\<lambda>(st, sm).
     (case List.find (\<lambda>r. ss_id r = row_id) (ds_schedules st) of
        None \<Rightarrow> (st, sm)
      | Some row \<Rightarrow>
          (case claim_due_schedule (sched_view st) row (di_now w) (di_draws w row_id) of
             (view, None) \<Rightarrow>
               (st\<lparr>ds_schedules := db_schedules view\<rparr>, sm\<lparr>sm_already_claimed := sm_already_claimed sm + 1\<rparr>)
           | (view, Some claimed) \<Rightarrow>
               (let ts = targets_covered_by view claimed;
                    (db1, jobs) = dispatch_targets w (ss_scan_type claimed) ts (ds_db st)
                in (st\<lparr>ds_db := db1,
                       ds_schedules := update_rows ss_id row_id (\<lambda>r. r\<lparr>ss_last_dispatched_count := Some (int (length jobs))\<rparr>)
                         (db_schedules view)\<rparr>,
                    sm\<lparr>sm_fired := sm_fired sm @ [row_id],
                       sm_targets_considered := sm_targets_considered sm + length ts,
                       sm_jobs := sm_jobs sm @ jobs\<rparr>)))))"

definition dispatch_due_scan_schedules :: "dispatch_world \<Rightarrow> dispatch_state \<Rightarrow> dispatch_state \<times> dispatch_summary" where
  "dispatch_due_scan_schedules w st =
     (let (view, created) = ensure_workspace_default_rows (di_race w) (sched_view st) (di_now w) (di_default_draws w);
          st1 = st\<lparr>ds_schedules := db_schedules view\<rparr>
      in fold (dispatch_row w) (map ss_id (due_schedules (sched_view st1) (di_now w)))
           (st1, \<lparr>sm_fired = [], sm_already_claimed = 0, sm_targets_considered = 0, sm_jobs = []\<rparr>))"

subsection \<open>A tick leaves nothing due\<close>

definition job_target :: "scan_request \<Rightarrow> row_id" where
  "job_target j = (case j of FullScan s \<Rightarrow> sj_target_id s | ApiScanJob a \<Rightarrow> aj_target_id a)"

lemma dispatch_tools_frame:
  assumes "dispatch_tools now t tools db = (db', jobs)"
  shows "d_targets db' = d_targets db \<and> d_workspaces db' = d_workspaces db \<and> d_endpoints db' = d_endpoints db \<and>
    d_findings db' = d_findings db \<and> length (d_scans db') = length (d_scans db) + length jobs \<and>
    (\<forall>j\<in>set jobs. sj_target_id j = t_id t)"
  using assms
  by (induction tools arbitrary: db db' jobs) (auto simp: new_scan_def Let_def split: prod.splits)

lemma dispatch_for_target_frame:
  assumes "dispatch_for_target w ty t db = (db', jobs)"
  shows "d_targets db' = d_targets db \<and> d_workspaces db' = d_workspaces db \<and> d_endpoints db' = d_endpoints db \<and>
    d_findings db' = d_findings db \<and> length (d_scans db') = length (d_scans db) + length jobs \<and>
    (\<forall>j\<in>set jobs. job_target j = t_id t)"
proof (cases ty)
  case FULL_SCAN
  with assms dispatch_tools_frame show ?thesis
    by (fastforce simp: dispatch_for_target_def queue_full_scan_def job_target_def split: prod.splits option.splits sum.splits)
next
  case API_SCAN
  with assms show ?thesis
    by (auto simp: dispatch_for_target_def queue_api_scan_def new_scan_def job_target_def Let_def
        split: option.splits readiness.splits prod.splits)
qed

lemma dispatch_targets_frame:
  assumes "dispatch_targets w ty ts db = (db', jobs)"
  shows "d_targets db' = d_targets db \<and> d_workspaces db' = d_workspaces db \<and> d_endpoints db' = d_endpoints db \<and>
    d_findings db' = d_findings db \<and> length (d_scans db') = length (d_scans db) + length jobs \<and>
    (\<forall>j\<in>set jobs. job_target j \<in> t_id ` set ts)"
  using assms
proof (induction ts arbitrary: db db' jobs)
  case (Cons t ts)
  obtain db1 js where 1: "dispatch_for_target w ty t db = (db1, js)" by fastforce
  obtain db2 rest where 2: "dispatch_targets w ty ts db1 = (db2, rest)" by fastforce
  from Cons.prems 1 2 have "db' = db2" "jobs = js @ rest" by simp_all
  with dispatch_for_target_frame [OF 1] Cons.IH [OF 2] show ?case by auto
qed simp

definition same_config :: "scan_schedule \<Rightarrow> scan_schedule \<Rightarrow> bool" where
  "same_config r r' \<longleftrightarrow> ss_id r' = ss_id r \<and> row_key r' = row_key r \<and> ss_enabled r' = ss_enabled r \<and>
     ss_interval_hours r' = ss_interval_hours r"

lemma same_config_keys:
  "same_config r r' \<Longrightarrow> ss_id r' = ss_id r \<and> ss_workspace_id r' = ss_workspace_id r \<and> ss_target_id r' = ss_target_id r \<and>
     ss_scan_type r' = ss_scan_type r \<and> valid_interval r' = valid_interval r"
  by (simp add: same_config_def row_key_def valid_interval_def)

lemma same_default:
  "list_all2 same_config rs rs' \<Longrightarrow>
   rel_option same_config (workspace_default_row \<lparr>db_schedules = rs, db_targets = a, db_workspaces = b\<rparr> ws ty)
     (workspace_default_row \<lparr>db_schedules = rs', db_targets = a', db_workspaces = b'\<rparr> ws ty)"
  unfolding workspace_default_row_def
  by (induction rule: list_all2_induct) (auto simp: dest: same_config_keys)

lemma same_overlay: "rel_option same_config q q' \<Longrightarrow> overlay base q src = overlay base q' src"
  by (cases q; cases q'; cases base) (auto simp: overlay_def same_config_def split: option.splits)

lemma same_effective:
  assumes "list_all2 same_config rs rs'" and "same_config r r'"
  shows "effective_for_row \<lparr>db_schedules = rs', db_targets = a', db_workspaces = b'\<rparr> r' =
    effective_for_row \<lparr>db_schedules = rs, db_targets = a, db_workspaces = b\<rparr> r"
proof -
  note keys = same_config_keys [OF assms(2)]
  have "overlay base (Some r) src = overlay base (Some r') src" for base src
    using assms(2) by (intro same_overlay) simp
  moreover have "overlay base (workspace_default_row \<lparr>db_schedules = rs, db_targets = a, db_workspaces = b\<rparr> ws ty) src =
      overlay base (workspace_default_row \<lparr>db_schedules = rs', db_targets = a', db_workspaces = b'\<rparr> ws ty) src" for base src ws ty
    using same_default [OF assms(1)] by (rule same_overlay)
  ultimately show ?thesis by (simp add: effective_for_row_def keys)
qed

text \<open>The schedules once the rows of the ids \<open>served\<close> have been claimed: those are not due, the others are as
  they were, and no row's configuration has changed.\<close>

definition served_rows :: "timestamp \<Rightarrow> row_id set \<Rightarrow> scan_schedule list \<Rightarrow> scan_schedule list \<Rightarrow> bool" where
  "served_rows now served rs rs' \<longleftrightarrow>
     list_all2 (\<lambda>r r'. same_config r r' \<and> (if ss_id r \<in> served then \<not> due_at r' now else r' = r)) rs rs'"

lemma distinct_same: "distinct (map f xs) \<Longrightarrow> x \<in> set xs \<Longrightarrow> y \<in> set xs \<Longrightarrow> f x = f y \<Longrightarrow> x = y"
  by (auto simp: distinct_map dest: inj_onD)

lemma list_all2_mono_strong:
  "list_all2 P xs ys \<Longrightarrow> (\<And>x y. x \<in> set xs \<Longrightarrow> P x y \<Longrightarrow> Q x y) \<Longrightarrow> list_all2 Q xs ys"
  by (induction rule: list_all2_induct) auto

lemma served_config: "served_rows now served rs rs' \<Longrightarrow> list_all2 same_config rs rs'"
  unfolding served_rows_def by (erule list_all2_mono) blast

lemma served_valid:
  assumes "served_rows now served rs rs'"
  shows "map ss_id rs' = map ss_id rs" and "list_all valid_interval rs' = list_all valid_interval rs"
  using served_config [OF assms] by (induction rule: list_all2_induct) (auto dest: same_config_keys)

lemma served_find:
  assumes "served_rows now served rs rs'" and "distinct (map ss_id rs)" and "r \<in> set rs" and "ss_id r \<notin> served"
  shows "List.find (\<lambda>q. ss_id q = ss_id r) rs' = Some r"
proof (rule find_unique)
  obtain k where k0: "k < length rs" "rs ! k = r" using assms(3) by (auto simp: in_set_conv_nth)
  have "length rs' = length rs" using served_config [OF assms(1)] by (simp add: list_all2_lengthD)
  with k0 have k: "k < length rs" "rs ! k = r" "length rs' = length rs" by simp_all
  then have "rs' ! k = r" using assms(1,4) by (auto simp: served_rows_def list_all2_conv_all_nth)
  with k show "r \<in> set rs'" by (metis nth_mem)
  show "q = r" if "q \<in> set rs'" "ss_id q = ss_id r" for q
    using that \<open>r \<in> set rs'\<close> assms(2) served_valid(1) [OF assms(1)] by (intro distinct_same [of ss_id rs' q r]) simp_all
qed simp

text \<open>One due row.\<close>

lemma dispatch_row_fires:
  assumes served: "served_rows now served rs (ds_schedules st)" and rs: "distinct (map ss_id rs)" "list_all valid_interval rs"
    and r: "r \<in> set rs" "ss_id r \<notin> served" "due_at r now" and now: "di_now w = now" and draw: "0 \<le> di_draws w (ss_id r)"
    and step: "dispatch_row w (ss_id r) (st, sm) = (st', sm')"
  shows "served_rows now (insert (ss_id r) served) rs (ds_schedules st') \<and>
    d_targets (ds_db st') = d_targets (ds_db st) \<and> d_workspaces (ds_db st') = d_workspaces (ds_db st) \<and>
    d_findings (ds_db st') = d_findings (ds_db st) \<and>
    (\<exists>jobs. sm_jobs sm' = sm_jobs sm @ jobs \<and> length (d_scans (ds_db st')) = length (d_scans (ds_db st)) + length jobs \<and>
       (\<forall>j\<in>set jobs. \<exists>t\<in>set (d_targets (ds_db st)). t_id t = job_target j \<and> t_workspace_id t = ss_workspace_id r \<and>
          scan_refusal_reason t = None)) \<and>
    sm_fired sm' = sm_fired sm @ [ss_id r] \<and> sm_already_claimed sm' = sm_already_claimed sm"
proof -
  let ?view = "sched_view st"
  let ?nxt = "compute_next_run_at ?view r now (di_draws w (ss_id r))"
  have found: "List.find (\<lambda>q. ss_id q = ss_id r) (ds_schedules st) = Some r" by (rule served_find [OF served rs(1) r(1,2)])
  note ids = served_valid [OF served]
  have "valid_interval r" using rs(2) r(1) by (simp add: list_all_iff)
  then have later: "now < ?nxt"
    using rs(2) ids(2) draw by (intro next_run_later) (simp_all add: sched_view_def)
  obtain view won where claim: "claim_due_schedule ?view r now (di_draws w (ss_id r)) = (view, won)" by fastforce
  have rows: "db_schedules view = map (\<lambda>q. if ss_id q = ss_id r \<and> due_at q now then stamp_claimed now ?nxt q else q) (ds_schedules st)"
    and tables: "db_targets view = d_targets (ds_db st)"
    using claim by (auto simp: claim_due_schedule_def Let_def sched_view_def split: if_splits)
  have won: "won = Some (stamp_claimed now ?nxt r)"
    using claim_verdict [of ?view r now "di_draws w (ss_id r)"] rs(1) ids(1) found r(3) claim
    by (simp add: row_of_def sched_view_def)
  let ?ts = "targets_covered_by view (stamp_claimed now ?nxt r)"
  obtain db1 jobs where jobs: "dispatch_targets w (ss_scan_type (stamp_claimed now ?nxt r)) ?ts (ds_db st) = (db1, jobs)" by fastforce
  from step found claim won jobs now have res:
    "st' = st\<lparr>ds_db := db1, ds_schedules := update_rows ss_id (ss_id r)
       (\<lambda>q. q\<lparr>ss_last_dispatched_count := Some (int (length jobs))\<rparr>) (db_schedules view)\<rparr>"
    "sm' = sm\<lparr>sm_fired := sm_fired sm @ [ss_id r], sm_targets_considered := sm_targets_considered sm + length ?ts,
       sm_jobs := sm_jobs sm @ jobs\<rparr>"
    by (simp_all add: dispatch_row_def)
  have "served_rows now (insert (ss_id r) served) rs (ds_schedules st')"
  proof -
    define f where "f = (\<lambda>q'. let p = (if ss_id q' = ss_id r \<and> due_at q' now then stamp_claimed now ?nxt q' else q') in
      if ss_id p = ss_id r then p\<lparr>ss_last_dispatched_count := Some (int (length jobs))\<rparr> else p)"
    let ?P = "\<lambda>served q q'. same_config q q' \<and> (if ss_id q \<in> served then \<not> due_at q' now else q' = q)"
    have one: "?P (insert (ss_id r) served) q (f q')" if q: "q \<in> set rs" and pair: "?P served q q'" for q q'
    proof (cases "ss_id q = ss_id r")
      case True
      then have "q = r" using q r(1) rs(1) by (intro distinct_same [of ss_id rs q r]) simp_all
      with pair r(2,3) later show ?thesis
        by (simp add: f_def same_config_def row_key_def stamp_claimed_def due_at_def)
    next
      case False
      with pair show ?thesis by (auto simp: f_def same_config_def)
    qed
    have "ds_schedules st' = map f (ds_schedules st)"
      using res by (simp add: update_rows_def rows f_def Let_def)
    moreover have "list_all2 (?P (insert (ss_id r) served)) rs (map f (ds_schedules st))"
      unfolding list_all2_map2 by (rule list_all2_mono_strong [OF served [unfolded served_rows_def]]) (rule one)
    ultimately show ?thesis by (simp only: served_rows_def)
  qed
  moreover have "\<forall>j\<in>set jobs. \<exists>t\<in>set (d_targets (ds_db st)). t_id t = job_target j \<and> t_workspace_id t = ss_workspace_id r \<and>
      scan_refusal_reason t = None"
    using dispatch_targets_frame [OF jobs] covered_is_target [of _ view "stamp_claimed now ?nxt r"] tables
    by (fastforce simp: stamp_claimed_def)
  ultimately show ?thesis using dispatch_targets_frame [OF jobs] res by simp
qed

lemma dispatch_rows_fire:
  assumes "served_rows (di_now w) served rs (ds_schedules st)" and "distinct (map ss_id rs)" and "list_all valid_interval rs"
    and "\<forall>i. 0 \<le> di_draws w i" and "set todo \<subseteq> set rs" and "distinct (map ss_id todo)"
    and "\<forall>r\<in>set todo. ss_id r \<notin> served \<and> due_at r (di_now w)"
    and "fold (dispatch_row w) (map ss_id todo) (st, sm) = (st', sm')"
  shows "served_rows (di_now w) (served \<union> ss_id ` set todo) rs (ds_schedules st') \<and>
    d_targets (ds_db st') = d_targets (ds_db st) \<and> d_workspaces (ds_db st') = d_workspaces (ds_db st) \<and>
    d_findings (ds_db st') = d_findings (ds_db st) \<and>
    (\<exists>jobs. sm_jobs sm' = sm_jobs sm @ jobs \<and> length (d_scans (ds_db st')) = length (d_scans (ds_db st)) + length jobs \<and>
       (\<forall>j\<in>set jobs. \<exists>r\<in>set todo. \<exists>t\<in>set (d_targets (ds_db st)). t_id t = job_target j \<and>
          t_workspace_id t = ss_workspace_id r \<and> scan_refusal_reason t = None)) \<and>
    sm_fired sm' = sm_fired sm @ map ss_id todo \<and> sm_already_claimed sm' = sm_already_claimed sm"
  using assms
proof (induction todo arbitrary: st sm served)
  case (Cons r todo)
  obtain st1 sm1 where step: "dispatch_row w (ss_id r) (st, sm) = (st1, sm1)" by fastforce
  have rest: "fold (dispatch_row w) (map ss_id todo) (st1, sm1) = (st', sm')" using Cons.prems(8) step by simp
  have one: "served_rows (di_now w) (insert (ss_id r) served) rs (ds_schedules st1) \<and>
    d_targets (ds_db st1) = d_targets (ds_db st) \<and> d_workspaces (ds_db st1) = d_workspaces (ds_db st) \<and>
    d_findings (ds_db st1) = d_findings (ds_db st) \<and>
    (\<exists>jobs. sm_jobs sm1 = sm_jobs sm @ jobs \<and> length (d_scans (ds_db st1)) = length (d_scans (ds_db st)) + length jobs \<and>
       (\<forall>j\<in>set jobs. \<exists>t\<in>set (d_targets (ds_db st)). t_id t = job_target j \<and> t_workspace_id t = ss_workspace_id r \<and>
          scan_refusal_reason t = None)) \<and>
    sm_fired sm1 = sm_fired sm @ [ss_id r] \<and> sm_already_claimed sm1 = sm_already_claimed sm"
    using Cons.prems(4-7) by (intro dispatch_row_fires [OF Cons.prems(1-3) _ _ _ refl _ step]) auto
  have later: "\<forall>q\<in>set todo. ss_id q \<notin> insert (ss_id r) served \<and> due_at q (di_now w)"
    using Cons.prems(6,7) by (force simp: image_iff)
  have two: "served_rows (di_now w) (insert (ss_id r) served \<union> ss_id ` set todo) rs (ds_schedules st') \<and>
    d_targets (ds_db st') = d_targets (ds_db st1) \<and> d_workspaces (ds_db st') = d_workspaces (ds_db st1) \<and>
    d_findings (ds_db st') = d_findings (ds_db st1) \<and>
    (\<exists>jobs. sm_jobs sm' = sm_jobs sm1 @ jobs \<and> length (d_scans (ds_db st')) = length (d_scans (ds_db st1)) + length jobs \<and>
       (\<forall>j\<in>set jobs. \<exists>r\<in>set todo. \<exists>t\<in>set (d_targets (ds_db st1)). t_id t = job_target j \<and>
          t_workspace_id t = ss_workspace_id r \<and> scan_refusal_reason t = None)) \<and>
    sm_fired sm' = sm_fired sm1 @ map ss_id todo \<and> sm_already_claimed sm' = sm_already_claimed sm1"
    using one Cons.prems(2-6) by (intro Cons.IH [OF _ _ _ _ _ _ later rest]) auto
  obtain js where js: "sm_jobs sm1 = sm_jobs sm @ js" "length (d_scans (ds_db st1)) = length (d_scans (ds_db st)) + length js"
    "\<forall>j\<in>set js. \<exists>t\<in>set (d_targets (ds_db st)). t_id t = job_target j \<and> t_workspace_id t = ss_workspace_id r \<and>
          scan_refusal_reason t = None" using one by blast
  obtain ks where ks: "sm_jobs sm' = sm_jobs sm1 @ ks" "length (d_scans (ds_db st')) = length (d_scans (ds_db st1)) + length ks"
    "\<forall>j\<in>set ks. \<exists>r\<in>set todo. \<exists>t\<in>set (d_targets (ds_db st1)). t_id t = job_target j \<and>
          t_workspace_id t = ss_workspace_id r \<and> scan_refusal_reason t = None" using two by blast
  have "\<exists>jobs. sm_jobs sm' = sm_jobs sm @ jobs \<and> length (d_scans (ds_db st')) = length (d_scans (ds_db st)) + length jobs \<and>
       (\<forall>j\<in>set jobs. \<exists>q\<in>set (r # todo). \<exists>t\<in>set (d_targets (ds_db st)). t_id t = job_target j \<and>
          t_workspace_id t = ss_workspace_id q \<and> scan_refusal_reason t = None)"
    using js ks one by (intro exI [of _ "js @ ks"]) auto
  with one two show ?case by simp
qed simp

lemma served_nothing: "served_rows now {} rs rs"
  by (simp add: served_rows_def same_config_def list_all2_same)


definition tick_world :: dispatch_world where
  "tick_world = \<lparr>di_now = 100, di_configs = [], di_authority_ok = (\<lambda>_. True), di_race = (\<lambda>_ _. None),
     di_default_draws = (\<lambda>_ _. 7), di_draws = (\<lambda>_. 0)\<rparr>"

definition tick_state :: dispatch_state where
  "tick_state = \<lparr>ds_db = empty_db\<lparr>d_targets := [example_target], d_workspaces := [\<lparr>ws_id = 7, ws_enforcement_mode = None\<rparr>]\<rparr>,
     ds_schedules = [example_default]\<rparr>"


end
