(* ===== verification/Auth.thy ===== *)
theory Auth
  imports Tables "HOL-Library.Monad_Syntax"
begin

text \<open>
  Who may do what: \<open>core/security.py\<close> (password hashes, session tokens, API tokens), \<open>api/auth.py\<close>,
  \<open>api/admin.py\<close>, \<open>api/admin_workspace_roles.py\<close>, \<open>api/api_tokens.py\<close> and \<open>core/auth_audit.py\<close>.  The
  account tables are the record \<open>auth_db\<close>; an id comes from the table's sequence and is never given out
  again, and \<open>ad_user_references\<close> lists the users that rows of other tables refer to.  HMAC, PBKDF2, SHA-256 and the encoding of a session's payload are in the record \<open>auth_world\<close>; what is
  drawn at random is an argument.  An answer is the HTTP status.
\<close>

subsection \<open>Accounts\<close>

datatype user_role = ADMIN | USER | VIEWER | DEVELOPER | SECURITY_ENGINEER

datatype workspace_role = WS_VIEWER | WS_DEVELOPER | WS_SECURITY_ENGINEER

fun WORKSPACE_ROLE_RANK :: "workspace_role \<Rightarrow> nat" where
  "WORKSPACE_ROLE_RANK WS_VIEWER = 1"
| "WORKSPACE_ROLE_RANK WS_DEVELOPER = 2"
| "WORKSPACE_ROLE_RANK WS_SECURITY_ENGINEER = 3"

fun role_value :: "user_role \<Rightarrow> string" where
  "role_value ADMIN = ''admin''" | "role_value USER = ''user''" | "role_value VIEWER = ''viewer''"
| "role_value DEVELOPER = ''developer''" | "role_value SECURITY_ENGINEER = ''security_engineer''"

fun workspace_role_value :: "workspace_role \<Rightarrow> string" where
  "workspace_role_value WS_VIEWER = ''viewer''"
| "workspace_role_value WS_DEVELOPER = ''developer''"
| "workspace_role_value WS_SECURITY_ENGINEER = ''security_engineer''"

datatype auth_event_type =
  LOGIN_SUCCESS | LOGIN_FAILED | LOGOUT | PASSWORD_CHANGED | ROLE_CHANGED | WORKSPACE_ROLE_CHANGED | WORKSPACE_ROLE_REMOVED

record user =
  us_id :: row_id
  us_email :: string
  us_name :: string
  us_password_hash :: string
  us_role :: user_role
  us_token_version :: int

record workspace_membership =
  mb_id :: row_id
  mb_user_id :: row_id
  mb_workspace_id :: row_id
  mb_role :: workspace_role

datatype token_scope = READ_SCOPE | READ_WRITE_SCOPE

record api_token =
  at_id :: row_id
  at_user_id :: row_id
  at_name :: string
  at_token_hash :: string
  at_token_prefix :: string
  at_scope :: token_scope
  at_created_at :: timestamp
  at_last_used_at :: "timestamp option"
  at_revoked_at :: "timestamp option"

record auth_audit_log =
  al_event_type :: auth_event_type
  al_actor :: string
  al_target_email :: string
  al_detail :: string
  al_ip_address :: string

record auth_db =
  ad_users :: "user list"
  ad_memberships :: "workspace_membership list"
  ad_tokens :: "api_token list"
  ad_log :: "auth_audit_log list"
  ad_workspaces :: "(row_id \<times> string) list"
  ad_user_references :: "row_id list"
  ad_user_seq :: row_id
  ad_membership_seq :: row_id
  ad_token_seq :: row_id

definition log_auth_event ::
  "auth_event_type \<Rightarrow> string \<Rightarrow> string \<Rightarrow> string \<Rightarrow> string \<Rightarrow> auth_db \<Rightarrow> auth_db" where
  "log_auth_event event_type actor target_email detail ip_address db =
     db\<lparr>ad_log := ad_log db @
        [\<lparr>al_event_type = event_type, al_actor = actor,
          al_target_email = (if target_email = [] then actor else target_email),
          al_detail = detail, al_ip_address = ip_address\<rparr>]\<rparr>"

definition get_user :: "auth_db \<Rightarrow> row_id \<Rightarrow> user option" where
  "get_user db i = List.find (\<lambda>u. us_id u = i) (ad_users db)"

definition user_by_email :: "auth_db \<Rightarrow> string \<Rightarrow> user option" where
  "user_by_email db email = List.find (\<lambda>u. us_email u = email) (ad_users db)"

definition update_user :: "row_id \<Rightarrow> (user \<Rightarrow> user) \<Rightarrow> auth_db \<Rightarrow> auth_db" where
  "update_user i g db = db\<lparr>ad_users := update_rows us_id i g (ad_users db)\<rparr>"

subsection \<open>Passwords\<close>

record session_payload =
  sn_uid :: "int option"
  sn_tv :: "int option"
  sn_exp :: "int option"

record auth_world =
  xw_local :: bool
  xw_session_secret :: string
  xw_hmac :: "string \<Rightarrow> string \<Rightarrow> string"
  xw_encode :: "session_payload \<Rightarrow> string"
  xw_decode :: "string \<Rightarrow> session_payload option"
  xw_pbkdf2 :: "string \<Rightarrow> nat list \<Rightarrow> nat list"
  xw_sha256 :: "string \<Rightarrow> string"

definition nibble_char :: "nat \<Rightarrow> char" where
  "nibble_char n = (if n < 10 then char_of (48 + n) else char_of (87 + n))"

definition to_hex :: "nat list \<Rightarrow> string" where
  "to_hex bs = concat (map (\<lambda>b. [nibble_char (b div 16), nibble_char (b mod 16)]) bs)"

definition nibble_value :: "char \<Rightarrow> nat option" where
  "nibble_value c =
     (let n = (of_char c :: nat) in
      if 48 \<le> n \<and> n \<le> 57 then Some (n - 48)
      else if 97 \<le> n \<and> n \<le> 102 then Some (n - 87)
      else if 65 \<le> n \<and> n \<le> 70 then Some (n - 55) else None)"

text \<open>\<open>bytes.fromhex\<close>, which passes over white space between bytes; None is its \<open>ValueError\<close>.\<close>

fun from_hex :: "string \<Rightarrow> nat list option" where
  "from_hex [] = Some []"
| "from_hex [c] = (if is_space c then Some [] else None)"
| "from_hex (c # d # cs) =
     (if is_space c then from_hex (d # cs)
      else do {
        a \<leftarrow> nibble_value c;
        b \<leftarrow> nibble_value d;
        bs \<leftarrow> from_hex cs;
        Some ((16 * a + b) # bs) })"

text \<open>\<open>salt or os.urandom(16)\<close>: an empty salt is replaced as well.\<close>

definition hash_password :: "auth_world \<Rightarrow> nat list \<Rightarrow> string \<Rightarrow> nat list \<Rightarrow> string" where
  "hash_password w random password salt =
     (let salt = (if salt = [] then random else salt)
      in to_hex salt @ ''$'' @ to_hex (xw_pbkdf2 w password salt))"

text \<open>None is a stored salt that is not hexadecimal, which raises.\<close>

definition verify_password :: "auth_world \<Rightarrow> nat list \<Rightarrow> string \<Rightarrow> string \<Rightarrow> bool option" where
  "verify_password w random password stored =
     (case split_on (CHR ''$'') stored of
        [salt_hex, _] \<Rightarrow>
          (case from_hex salt_hex of
             None \<Rightarrow> None
           | Some salt \<Rightarrow> Some (hash_password w random password salt = stored))
      | _ \<Rightarrow> Some False)"

subsection \<open>Sessions\<close>

definition SESSION_TTL_SECONDS :: int where "SESSION_TTL_SECONDS = 60 * 60 * 24"
definition DEFAULT_SESSION_SECRET :: string where "DEFAULT_SESSION_SECRET = ''dev-local-session-secret-change-me''"

definition sign :: "auth_world \<Rightarrow> string \<Rightarrow> string" where
  "sign w payload = xw_hmac w (xw_session_secret w) payload"

definition create_session_token :: "auth_world \<Rightarrow> timestamp \<Rightarrow> row_id \<Rightarrow> int \<Rightarrow> string" where
  "create_session_token w now user_id token_version =
     (let payload = xw_encode w \<lparr>sn_uid = Some user_id, sn_tv = Some token_version,
            sn_exp = Some (now div seconds 1 + SESSION_TTL_SECONDS)\<rparr>
      in payload @ ''.'' @ sign w payload)"

definition decode_session_token :: "auth_world \<Rightarrow> timestamp \<Rightarrow> string \<Rightarrow> (row_id \<times> int) option" where
  "decode_session_token w now token =
     (if \<not> xw_local w \<and> xw_session_secret w = DEFAULT_SESSION_SECRET then None
      else (case split_on (CHR ''.'') token of
              [payload, signature] \<Rightarrow>
                if sign w payload \<noteq> signature then None
                else (case xw_decode w payload of
                        None \<Rightarrow> None
                      | Some p \<Rightarrow>
                          if seconds (case sn_exp p of None \<Rightarrow> 0 | Some e \<Rightarrow> e) < now then None
                          else (case sn_uid p of
                                  None \<Rightarrow> None
                                | Some uid \<Rightarrow> Some (uid, case sn_tv p of None \<Rightarrow> 1 | Some v \<Rightarrow> v)))
            | _ \<Rightarrow> None))"

text \<open>The caller of a request, or its refusal.\<close>

definition current_user :: "auth_world \<Rightarrow> timestamp \<Rightarrow> string option \<Rightarrow> auth_db \<Rightarrow> int + user" where
  "current_user w now cookie db =
     (case cookie of
        None \<Rightarrow> Inl 401
      | Some token \<Rightarrow>
          if token = [] then Inl 401
          else (case decode_session_token w now token of
                  None \<Rightarrow> Inl 401
                | Some (uid, tv) \<Rightarrow>
                    (case get_user db uid of
                       None \<Rightarrow> Inl 401
                     | Some u \<Rightarrow> if tv \<noteq> us_token_version u then Inl 401 else Inr u)))"

definition require_admin :: "int + user \<Rightarrow> int + user" where
  "require_admin r = (case r of Inl e \<Rightarrow> Inl e | Inr u \<Rightarrow> if us_role u \<noteq> ADMIN then Inl 403 else Inr u)"

definition require_security_reviewer :: "int + user \<Rightarrow> int + user" where
  "require_security_reviewer r =
     (case r of Inl e \<Rightarrow> Inl e | Inr u \<Rightarrow> if us_role u \<notin> {ADMIN, SECURITY_ENGINEER} then Inl 403 else Inr u)"

text \<open>What a request answers: its status, the session cookie it sets, and the tables.\<close>

type_synonym auth_answer = "int \<times> string option \<times> auth_db"

definition bump_version :: "user \<Rightarrow> user" where
  "bump_version u = u\<lparr>us_token_version := us_token_version u + 1\<rparr>"

definition login :: "auth_world \<Rightarrow> timestamp \<Rightarrow> bool \<Rightarrow> nat list \<Rightarrow> string \<Rightarrow> string \<Rightarrow> string \<Rightarrow> auth_db \<Rightarrow> auth_answer" where
  "login w now allowed random email password client_ip db =
     (if \<not> allowed then (429, None, db)
      else (let failed = (401, None, log_auth_event LOGIN_FAILED email [] [] client_ip db) in
            case user_by_email db email of
              None \<Rightarrow> failed
            | Some u \<Rightarrow>
                (case verify_password w random password (us_password_hash u) of
                   None \<Rightarrow> (500, None, db)
                 | Some False \<Rightarrow> failed
                 | Some True \<Rightarrow>
                     (200, Some (create_session_token w now (us_id u) (us_token_version u + 1)),
                      log_auth_event LOGIN_SUCCESS (us_email u) [] [] client_ip (update_user (us_id u) bump_version db)))))"

definition logout :: "auth_world \<Rightarrow> timestamp \<Rightarrow> string option \<Rightarrow> auth_db \<Rightarrow> auth_answer" where
  "logout w now cookie db =
     (case current_user w now cookie db of
        Inl e \<Rightarrow> (e, None, db)
      | Inr u \<Rightarrow> (200, None, log_auth_event LOGOUT (us_email u) [] [] [] (update_user (us_id u) bump_version db)))"

definition update_me :: "auth_world \<Rightarrow> timestamp \<Rightarrow> string option \<Rightarrow> string \<Rightarrow> auth_db \<Rightarrow> auth_answer" where
  "update_me w now cookie name db =
     (case current_user w now cookie db of
        Inl e \<Rightarrow> (e, None, db)
      | Inr u \<Rightarrow>
          if str_strip name = [] then (400, None, db)
          else (200, None, update_user (us_id u) (\<lambda>u. u\<lparr>us_name := str_strip name\<rparr>) db))"

definition change_password ::
  "auth_world \<Rightarrow> timestamp \<Rightarrow> string option \<Rightarrow> nat list \<Rightarrow> string \<Rightarrow> string \<Rightarrow> auth_db \<Rightarrow> auth_answer" where
  "change_password w now cookie random current_password new_password db =
     (case current_user w now cookie db of
        Inl e \<Rightarrow> (e, None, db)
      | Inr u \<Rightarrow>
          (case verify_password w random current_password (us_password_hash u) of
             None \<Rightarrow> (500, None, db)
           | Some False \<Rightarrow> (400, None, db)
           | Some True \<Rightarrow>
               if length new_password < 8 then (400, None, db)
               else (200, Some (create_session_token w now (us_id u) (us_token_version u + 1)),
                     log_auth_event PASSWORD_CHANGED (us_email u) [] [] []
                       (update_user (us_id u) (\<lambda>u. bump_version (u\<lparr>us_password_hash := hash_password w random new_password []\<rparr>)) db))))"

subsection \<open>Managing users\<close>

text \<open>The routers of this section require an administrator; \<open>caller\<close> is who that is.\<close>

definition create_user ::
  "auth_world \<Rightarrow> nat list \<Rightarrow> string \<Rightarrow> string \<Rightarrow> string \<Rightarrow> user_role \<Rightarrow> auth_db \<Rightarrow> auth_answer" where
  "create_user w random email name password role db =
     (if user_by_email db email \<noteq> None then (409, None, db)
      else (200, None, db\<lparr>ad_users := ad_users db @
          [\<lparr>us_id = ad_user_seq db, us_email = email, us_name = name,
            us_password_hash = hash_password w random password [], us_role = role, us_token_version = 1\<rparr>],
          ad_user_seq := ad_user_seq db + 1\<rparr>))"

definition update_role :: "user \<Rightarrow> row_id \<Rightarrow> user_role \<Rightarrow> auth_db \<Rightarrow> auth_answer" where
  "update_role caller user_id role db =
     (case get_user db user_id of
        None \<Rightarrow> (404, None, db)
      | Some u \<Rightarrow>
          (let db1 = update_user user_id (\<lambda>u. u\<lparr>us_role := role\<rparr>) db in
           (200, None,
            if us_role u = role then db1
            else log_auth_event ROLE_CHANGED (us_email caller) (us_email u)
                   (role_value (us_role u) @ '' -> '' @ role_value role) [] db1)))"

text \<open>The foreign keys of the schema keep a user that another row refers to: the deletion raises.\<close>

definition referenced :: "row_id \<Rightarrow> auth_db \<Rightarrow> bool" where
  "referenced i db \<longleftrightarrow>
     i \<in> mb_user_id ` set (ad_memberships db) \<or> i \<in> at_user_id ` set (ad_tokens db) \<or> i \<in> set (ad_user_references db)"

definition delete_user :: "row_id \<Rightarrow> auth_db \<Rightarrow> auth_answer" where
  "delete_user user_id db =
     (case get_user db user_id of
        None \<Rightarrow> (404, None, db)
      | Some _ \<Rightarrow>
          if referenced user_id db then (500, None, db)
          else (200, None, db\<lparr>ad_users := filter (\<lambda>u. us_id u \<noteq> user_id) (ad_users db)\<rparr>))"

definition membership_of :: "auth_db \<Rightarrow> row_id \<Rightarrow> row_id \<Rightarrow> workspace_membership option" where
  "membership_of db user_id workspace_id =
     List.find (\<lambda>m. mb_user_id m = user_id \<and> mb_workspace_id m = workspace_id) (ad_memberships db)"

definition assign_membership :: "user \<Rightarrow> row_id \<Rightarrow> row_id \<Rightarrow> workspace_role \<Rightarrow> auth_db \<Rightarrow> auth_answer" where
  "assign_membership caller user_id workspace_id role db =
     (case get_user db user_id of
        None \<Rightarrow> (404, None, db)
      | Some u \<Rightarrow>
          (case map_of (ad_workspaces db) workspace_id of
             None \<Rightarrow> (404, None, db)
           | Some ws_name \<Rightarrow>
               (let old = membership_of db user_id workspace_id;
                    db1 = (case old of
                             Some m \<Rightarrow> db\<lparr>ad_memberships := update_rows mb_id (mb_id m) (\<lambda>m. m\<lparr>mb_role := role\<rparr>) (ad_memberships db)\<rparr>
                           | None \<Rightarrow> db\<lparr>ad_memberships := ad_memberships db @
                               [\<lparr>mb_id = ad_membership_seq db, mb_user_id = user_id, mb_workspace_id = workspace_id, mb_role = role\<rparr>],
                               ad_membership_seq := ad_membership_seq db + 1\<rparr>)
                in (200, None,
                    if map_option mb_role old = Some role then db1
                    else log_auth_event WORKSPACE_ROLE_CHANGED (us_email caller) (us_email u)
                           (ws_name @ '': '' @ (case old of None \<Rightarrow> ''none'' | Some m \<Rightarrow> workspace_role_value (mb_role m))
                            @ '' -> '' @ workspace_role_value role) [] db1))))"

text \<open>A membership whose user or workspace is gone is passed over.\<close>

definition list_memberships :: "row_id option \<Rightarrow> auth_db \<Rightarrow> (workspace_membership \<times> user \<times> string) list" where
  "list_memberships workspace_id db =
     List.map_filter (\<lambda>m.
       case (get_user db (mb_user_id m), map_of (ad_workspaces db) (mb_workspace_id m)) of
         (Some u, Some ws_name) \<Rightarrow> Some (m, u, ws_name)
       | _ \<Rightarrow> None)
       (filter (\<lambda>m. case workspace_id of None \<Rightarrow> True | Some ws \<Rightarrow> mb_workspace_id m = ws) (ad_memberships db))"

definition remove_membership :: "user \<Rightarrow> row_id \<Rightarrow> auth_db \<Rightarrow> auth_answer" where
  "remove_membership caller membership_id db =
     (case List.find (\<lambda>m. mb_id m = membership_id) (ad_memberships db) of
        None \<Rightarrow> (404, None, db)
      | Some m \<Rightarrow>
          (let email = (case get_user db (mb_user_id m) of None \<Rightarrow> [] | Some u \<Rightarrow> us_email u);
               ws_name = (case map_of (ad_workspaces db) (mb_workspace_id m) of Some n \<Rightarrow> n
                          | None \<Rightarrow> ''workspace '' @ (if mb_workspace_id m < 0 then CHR ''-'' # nat_str (nat (- mb_workspace_id m))
                                                    else nat_str (nat (mb_workspace_id m))))
           in (200, None,
               log_auth_event WORKSPACE_ROLE_REMOVED (us_email caller) email
                 (ws_name @ '': removed ('' @ workspace_role_value (mb_role m) @ '')'') []
                 (db\<lparr>ad_memberships := filter (\<lambda>m. mb_id m \<noteq> membership_id) (ad_memberships db)\<rparr>))))"

subsection \<open>API tokens\<close>

definition API_TOKEN_PREFIX :: string where "API_TOKEN_PREFIX = ''toleman_pat_''"

definition generate_api_token :: "auth_world \<Rightarrow> string \<Rightarrow> string \<times> string \<times> string" where
  "generate_api_token w drawn =
     (let plaintext = API_TOKEN_PREFIX @ drawn
      in (plaintext, xw_sha256 w plaintext, take (length API_TOKEN_PREFIX + 8) plaintext))"

definition hash_api_token :: "auth_world \<Rightarrow> string \<Rightarrow> string" where
  "hash_api_token w plaintext = xw_sha256 w plaintext"

text \<open>\<open>drawn\<close> is the random part.  A collision of hashes violates the unique constraint, which raises.\<close>

definition create_api_token ::
  "auth_world \<Rightarrow> timestamp \<Rightarrow> user \<Rightarrow> string \<Rightarrow> string \<Rightarrow> token_scope \<Rightarrow> auth_db \<Rightarrow> auth_answer" where
  "create_api_token w now caller drawn name scope db =
     (if str_strip name = [] then (400, None, db)
      else (case generate_api_token w drawn of
              (plaintext, token_hash, token_prefix) \<Rightarrow>
                if token_hash \<in> at_token_hash ` set (ad_tokens db) then (500, None, db)
                else (200, None, db\<lparr>ad_tokens := ad_tokens db @
                    [\<lparr>at_id = ad_token_seq db, at_user_id = us_id caller, at_name = str_strip name,
                      at_token_hash = token_hash, at_token_prefix = token_prefix, at_scope = scope,
                      at_created_at = now, at_last_used_at = None, at_revoked_at = None\<rparr>],
                    ad_token_seq := ad_token_seq db + 1\<rparr>)))"

definition list_api_tokens :: "user \<Rightarrow> auth_db \<Rightarrow> api_token list" where
  "list_api_tokens caller db = filter (\<lambda>t. at_user_id t = us_id caller) (ad_tokens db)"

definition revoke_api_token :: "timestamp \<Rightarrow> user \<Rightarrow> row_id \<Rightarrow> auth_db \<Rightarrow> auth_answer" where
  "revoke_api_token now caller token_id db =
     (case List.find (\<lambda>t. at_id t = token_id) (ad_tokens db) of
        None \<Rightarrow> (404, None, db)
      | Some t \<Rightarrow>
          if at_user_id t \<noteq> us_id caller then (404, None, db)
          else (200, None,
                if at_revoked_at t \<noteq> None then db
                else db\<lparr>ad_tokens := update_rows at_id token_id (\<lambda>t. t\<lparr>at_revoked_at := Some now\<rparr>) (ad_tokens db)\<rparr>))"

definition resolve_api_token :: "auth_world \<Rightarrow> string option \<Rightarrow> auth_db \<Rightarrow> int + api_token" where
  "resolve_api_token w authorization db =
     (case authorization of
        None \<Rightarrow> Inl 401
      | Some header \<Rightarrow>
          if \<not> starts_with ''Bearer '' header then Inl 401
          else (let plaintext = str_strip (drop 7 header) in
                case List.find (\<lambda>t. at_token_hash t = hash_api_token w plaintext) (ad_tokens db) of
                  None \<Rightarrow> Inl 401
                | Some t \<Rightarrow> if at_revoked_at t \<noteq> None then Inl 401 else Inr t))"

definition current_api_token_user ::
  "auth_world \<Rightarrow> timestamp \<Rightarrow> string option \<Rightarrow> auth_db \<Rightarrow> (int + user) \<times> auth_db" where
  "current_api_token_user w now authorization db =
     (case resolve_api_token w authorization db of
        Inl e \<Rightarrow> (Inl e, db)
      | Inr t \<Rightarrow>
          (case get_user db (at_user_id t) of
             None \<Rightarrow> (Inl 401, db)
           | Some u \<Rightarrow>
               (Inr u, db\<lparr>ad_tokens := update_rows at_id (at_id t) (\<lambda>t. t\<lparr>at_last_used_at := Some now\<rparr>) (ad_tokens db)\<rparr>)))"

definition require_api_token_write_scope :: "auth_world \<Rightarrow> string option \<Rightarrow> auth_db \<Rightarrow> int + unit" where
  "require_api_token_write_scope w authorization db =
     (case resolve_api_token w authorization db of
        Inl e \<Rightarrow> Inl e
      | Inr t \<Rightarrow> if at_scope t \<noteq> READ_WRITE_SCOPE then Inl 403 else Inr ())"

subsection \<open>Workspace roles\<close>

definition resolve_workspace_id ::
  "db \<Rightarrow> row_id option \<Rightarrow> row_id option \<Rightarrow> row_id option \<Rightarrow> row_id option" where
  "resolve_workspace_id db workspace_id target_id finding_id =
     (case workspace_id of
        Some ws \<Rightarrow> Some ws
      | None \<Rightarrow>
          (case target_id of
             Some i \<Rightarrow> map_option t_workspace_id (get_target db i)
           | None \<Rightarrow>
               (case finding_id of
                  None \<Rightarrow> None
                | Some i \<Rightarrow>
                    (case get_finding db i of
                       None \<Rightarrow> None
                     | Some f \<Rightarrow> map_option t_workspace_id (get_target db (f_target_id f))))))"

definition enforce_workspace_role ::
  "auth_db \<Rightarrow> db \<Rightarrow> user \<Rightarrow> workspace_role \<Rightarrow> row_id option \<Rightarrow> row_id option \<Rightarrow> row_id option \<Rightarrow> int + unit" where
  "enforce_workspace_role adb db u min_role workspace_id target_id finding_id =
     (if us_role u = ADMIN then Inr ()
      else (case resolve_workspace_id db workspace_id target_id finding_id of
              None \<Rightarrow> Inl 404
            | Some ws \<Rightarrow>
                (case membership_of adb (us_id u) ws of
                   None \<Rightarrow> Inl 403
                 | Some m \<Rightarrow>
                     if WORKSPACE_ROLE_RANK (mb_role m) < WORKSPACE_ROLE_RANK min_role then Inl 403 else Inr ())))"

definition accessible_workspace_ids :: "auth_db \<Rightarrow> user \<Rightarrow> row_id list option" where
  "accessible_workspace_ids adb u =
     (if us_role u = ADMIN then None
      else Some (map mb_workspace_id (filter (\<lambda>m. mb_user_id m = us_id u) (ad_memberships adb))))"

definition narrow_workspace_scope :: "auth_db \<Rightarrow> user \<Rightarrow> row_id option \<Rightarrow> int + row_id list option" where
  "narrow_workspace_scope adb u workspace_id =
     (case workspace_id of
        None \<Rightarrow> Inr (accessible_workspace_ids adb u)
      | Some ws \<Rightarrow>
          (case accessible_workspace_ids adb u of
             None \<Rightarrow> Inr (Some [ws])
           | Some ids \<Rightarrow> if ws \<notin> set ids then Inl 403 else Inr (Some [ws])))"

text \<open>\<open>require_workspace_role\<close> takes the one identifier the route names.\<close>

datatype route_resource = TargetRoute row_id | WorkspaceRoute row_id | FindingRoute row_id

definition require_workspace_role ::
  "workspace_role \<Rightarrow> route_resource \<Rightarrow> auth_db \<Rightarrow> db \<Rightarrow> int + user \<Rightarrow> int + user" where
  "require_workspace_role min_role resource adb db caller =
     (case caller of
        Inl e \<Rightarrow> Inl e
      | Inr u \<Rightarrow>
          (case (case resource of
                   TargetRoute i \<Rightarrow> enforce_workspace_role adb db u min_role None (Some i) None
                 | WorkspaceRoute i \<Rightarrow> enforce_workspace_role adb db u min_role (Some i) None None
                 | FindingRoute i \<Rightarrow> enforce_workspace_role adb db u min_role None None (Some i)) of
             Inl e \<Rightarrow> Inl e
           | Inr _ \<Rightarrow> Inr u))"

subsection \<open>A history of requests\<close>

datatype auth_request =
    Login bool "nat list" string string string
  | Logout "string option"
  | UpdateMe "string option" string
  | ChangePassword "string option" "nat list" string string
  | CreateUser "string option" "nat list" string string string user_role
  | UpdateRole "string option" row_id user_role
  | DeleteUser "string option" row_id
  | AssignMembership "string option" row_id row_id workspace_role
  | RemoveMembership "string option" row_id
  | CreateToken "string option" string string token_scope
  | RevokeToken "string option" row_id
  | UseToken "string option"

definition as_admin :: "auth_world \<Rightarrow> timestamp \<Rightarrow> string option \<Rightarrow> auth_db \<Rightarrow> (user \<Rightarrow> auth_answer) \<Rightarrow> auth_answer" where
  "as_admin w now cookie db handler =
     (case require_admin (current_user w now cookie db) of Inl e \<Rightarrow> (e, None, db) | Inr u \<Rightarrow> handler u)"

definition as_user :: "auth_world \<Rightarrow> timestamp \<Rightarrow> string option \<Rightarrow> auth_db \<Rightarrow> (user \<Rightarrow> auth_answer) \<Rightarrow> auth_answer" where
  "as_user w now cookie db handler =
     (case current_user w now cookie db of Inl e \<Rightarrow> (e, None, db) | Inr u \<Rightarrow> handler u)"

fun serve_request :: "auth_world \<Rightarrow> timestamp \<Rightarrow> auth_request \<Rightarrow> auth_db \<Rightarrow> auth_answer" where
  "serve_request w now (Login allowed random email password ip) db = login w now allowed random email password ip db"
| "serve_request w now (Logout c) db = logout w now c db"
| "serve_request w now (UpdateMe c name) db = update_me w now c name db"
| "serve_request w now (ChangePassword c random old new) db = change_password w now c random old new db"
| "serve_request w now (CreateUser c random email name password role) db =
     as_admin w now c db (\<lambda>_. create_user w random email name password role db)"
| "serve_request w now (UpdateRole c i role) db = as_admin w now c db (\<lambda>u. update_role u i role db)"
| "serve_request w now (DeleteUser c i) db = as_admin w now c db (\<lambda>_. delete_user i db)"
| "serve_request w now (AssignMembership c i ws role) db = as_admin w now c db (\<lambda>u. assign_membership u i ws role db)"
| "serve_request w now (RemoveMembership c i) db = as_admin w now c db (\<lambda>u. remove_membership u i db)"
| "serve_request w now (CreateToken c drawn name scope) db = as_user w now c db (\<lambda>u. create_api_token w now u drawn name scope db)"
| "serve_request w now (RevokeToken c i) db = as_user w now c db (\<lambda>u. revoke_api_token now u i db)"
| "serve_request w now (UseToken authorization) db =
     (case current_api_token_user w now authorization db of (Inl e, db') \<Rightarrow> (e, None, db') | (Inr _, db') \<Rightarrow> (200, None, db'))"

fun serve_requests :: "auth_world \<Rightarrow> (timestamp \<times> auth_request) list \<Rightarrow> auth_db \<Rightarrow> auth_db" where
  "serve_requests w [] db = db"
| "serve_requests w ((now, r) # rs) db = serve_requests w rs (snd (snd (serve_request w now r db)))"

end
