(* ===== verification/AuthProps.thy ===== *)
theory AuthProps
  imports AuthInv
begin

subsection \<open>Sessions\<close>

definition version_of :: "row_id \<Rightarrow> auth_db \<Rightarrow> int option" where
  "version_of i db = map_option us_token_version (get_user db i)"

text \<open>The requests that end the sessions of user \<open>i\<close>.\<close>

definition ends_sessions :: "auth_world \<Rightarrow> row_id \<Rightarrow> timestamp \<Rightarrow> auth_request \<Rightarrow> auth_db \<Rightarrow> bool" where
  "ends_sessions w i now r db \<longleftrightarrow>
     fst (serve_request w now r db) = 200 \<and>
     (case r of
        Login _ _ email _ _ \<Rightarrow> map_option us_id (user_by_email db email) = Some i
      | Logout c \<Rightarrow> (case current_user w now c db of Inl _ \<Rightarrow> False | Inr u \<Rightarrow> us_id u = i)
      | ChangePassword c _ _ _ \<Rightarrow> (case current_user w now c db of Inl _ \<Rightarrow> False | Inr u \<Rightarrow> us_id u = i)
      | DeleteUser _ j \<Rightarrow> j = i
      | _ \<Rightarrow> False)"

fun sessions_ended :: "auth_world \<Rightarrow> row_id \<Rightarrow> (timestamp \<times> auth_request) list \<Rightarrow> auth_db \<Rightarrow> bool" where
  "sessions_ended w i [] db = False"
| "sessions_ended w i ((now, r) # rs) db =
     (ends_sessions w i now r db \<or> sessions_ended w i rs (snd (snd (serve_request w now r db))))"

lemma version_log [simp]: "version_of i (log_auth_event e a t d ip db) = version_of i db"
  by (simp add: version_of_def)

lemma version_frame [simp]:
  "version_of i (db\<lparr>ad_memberships := ms\<rparr>) = version_of i db" "version_of i (db\<lparr>ad_tokens := ts\<rparr>) = version_of i db"
  "version_of i (db\<lparr>ad_memberships := ms, ad_membership_seq := n\<rparr>) = version_of i db"
  "version_of i (db\<lparr>ad_tokens := ts, ad_token_seq := n\<rparr>) = version_of i db"
  by (simp_all add: version_of_def get_user_def)

lemma version_update:
  "(\<And>u. us_id (g u) = us_id u) \<Longrightarrow> (\<And>u. us_token_version (g u) = us_token_version u + n) \<Longrightarrow>
   version_of i (update_user j g db) = (if i = j then map_option (\<lambda>v. v + n) (version_of i db) else version_of i db)"
  using get_user_id [of db i] by (cases "get_user db i") (auto simp: version_of_def get_user_update)

lemma version_same:
  "(\<And>u. us_id (g u) = us_id u) \<Longrightarrow> (\<And>u. us_token_version (g u) = us_token_version u) \<Longrightarrow>
   version_of i (update_user j g db) = version_of i db"
  using version_update [of g 0 i j db] by (simp add: option.map_ident)

lemma find_last_other: "key r \<noteq> i \<Longrightarrow> List.find (\<lambda>r. key r = i) (rows @ [r]) = List.find (\<lambda>r. key r = i) rows"
  by (induction rows) auto

lemma version_new_user:
  "i < us_id u \<Longrightarrow> version_of i (db\<lparr>ad_users := ad_users db @ [u], ad_user_seq := n\<rparr>) = version_of i db"
  by (auto simp: version_of_def get_user_def find_last_other)

lemma find_filter_other: "List.find (\<lambda>r. key r = i) (filter (\<lambda>r. key r \<noteq> j) rows) = (if i = j then None else List.find (\<lambda>r. key r = i) rows)"
  by (induction rows) auto

lemma version_delete:
  "version_of i (db\<lparr>ad_users := filter (\<lambda>u. us_id u \<noteq> j) (ad_users db)\<rparr>) = (if i = j then None else version_of i db)"
  by (simp add: version_of_def get_user_def find_filter_other)

lemma bump_frame [simp]: "us_id (bump_version u) = us_id u" "us_token_version (bump_version u) = us_token_version u + 1"
  by (simp_all add: bump_version_def)

definition session_after :: "auth_world \<Rightarrow> row_id \<Rightarrow> timestamp \<Rightarrow> auth_request \<Rightarrow> auth_db \<Rightarrow> int option" where
  "session_after w i now r db =
     (if \<not> ends_sessions w i now r db then version_of i db
      else case r of DeleteUser _ _ \<Rightarrow> None | _ \<Rightarrow> map_option (\<lambda>v. v + 1) (version_of i db))"

lemma step_login: "version_of i (snd (snd (serve_request w now (Login al rnd email pw ip) db))) = session_after w i now (Login al rnd email pw ip) db"
  by (auto simp: session_after_def ends_sessions_def login_def Let_def version_update [where n = 1] split: option.split bool.split)

lemma step_logout: "version_of i (snd (snd (serve_request w now (Logout c) db))) = session_after w i now (Logout c) db"
  by (auto simp: session_after_def ends_sessions_def logout_def version_update [where n = 1] split: sum.split)

lemma step_password: "version_of i (snd (snd (serve_request w now (ChangePassword c rnd old new) db))) = session_after w i now (ChangePassword c rnd old new) db"
  by (auto simp: session_after_def ends_sessions_def change_password_def version_update [where n = 1]
      split: sum.split option.split bool.split)

lemma step_create: "i < ad_user_seq db \<Longrightarrow> version_of i (snd (snd (serve_request w now (CreateUser c rnd e n p ro) db))) = version_of i db"
  by (auto simp: as_admin_def create_user_def version_new_user split: sum.split)

lemma step_delete: "version_of i (snd (snd (serve_request w now (DeleteUser c j) db))) = session_after w i now (DeleteUser c j) db"
  by (auto simp: session_after_def ends_sessions_def as_admin_def delete_user_def version_delete require_admin_def
      current_user_def split: sum.split option.split)

lemma step_others:
  "version_of i (snd (snd (update_me w now c n db))) = version_of i db"
  "version_of i (snd (snd (update_role u j ro db))) = version_of i db"
  "version_of i (snd (snd (assign_membership u j ws wr db))) = version_of i db"
  "version_of i (snd (snd (remove_membership u j db))) = version_of i db"
  "version_of i (snd (snd (create_api_token w now u d n sc db))) = version_of i db"
  "version_of i (snd (snd (revoke_api_token now u j db))) = version_of i db"
  "version_of i (snd (current_api_token_user w now a db)) = version_of i db"
  by (auto simp: update_me_def update_role_def assign_membership_def remove_membership_def create_api_token_def
      revoke_api_token_def current_api_token_user_def Let_def version_same split: sum.split option.split prod.split)

lemma not_ending [simp]:
  "\<not> ends_sessions w i now (UpdateMe c n) db" "\<not> ends_sessions w i now (CreateUser c rnd e n p ro) db"
  "\<not> ends_sessions w i now (UpdateRole c j ro) db" "\<not> ends_sessions w i now (AssignMembership c j ws wr) db"
  "\<not> ends_sessions w i now (RemoveMembership c j) db" "\<not> ends_sessions w i now (CreateToken c d n sc) db"
  "\<not> ends_sessions w i now (RevokeToken c j) db" "\<not> ends_sessions w i now (UseToken a) db"
  by (simp_all add: ends_sessions_def)

lemma use_version: "current_api_token_user w now a db = (x, db') \<Longrightarrow> version_of i db' = version_of i db"
  using step_others(7) [of i w now a db] by simp

lemma version_step:
  "i < ad_user_seq db \<Longrightarrow> version_of i (snd (snd (serve_request w now r db))) = session_after w i now r db"
proof (cases r)
  case (UseToken a)
  then show ?thesis by (auto simp: session_after_def split: prod.split sum.split dest: use_version)
qed (simp_all only: step_login step_logout step_password step_create step_delete,
     auto simp: session_after_def as_admin_def as_user_def step_others split: sum.split)

lemma seq_step: "ad_user_seq db \<le> ad_user_seq (snd (snd (serve_request w now r db)))"
  by (cases r)
     (auto simp: login_def logout_def update_me_def change_password_def as_admin_def as_user_def create_user_def update_role_def
        delete_user_def assign_membership_def remove_membership_def create_api_token_def revoke_api_token_def
        current_api_token_user_def Let_def split: sum.split option.split bool.split prod.split)

text \<open>Once gone, a version never comes back: versions grow and ids are not given out again.\<close>

definition session_gone :: "row_id \<Rightarrow> int \<Rightarrow> auth_db \<Rightarrow> bool" where
  "session_gone i v db \<longleftrightarrow> (\<forall>n. version_of i db = Some n \<longrightarrow> v < n)"

lemma session_gone_step: "i < ad_user_seq db \<Longrightarrow> session_gone i v db \<Longrightarrow> session_gone i v (snd (snd (serve_request w now r db)))"
  unfolding session_gone_def version_step session_after_def by (fastforce split: if_splits auth_request.splits)

lemma session_gone_run: "i < ad_user_seq db \<Longrightarrow> session_gone i v db \<Longrightarrow> session_gone i v (serve_requests w rs db)"
proof (induction w rs db rule: serve_requests.induct)
  case (2 w now r rs db)
  from 2(2) seq_step [of db w now r] have "i < ad_user_seq (snd (snd (serve_request w now r db)))" by linarith
  with 2(1) session_gone_step [OF 2(2,3)] show ?case by simp
qed simp

lemma version_run:
  "i < ad_user_seq db \<Longrightarrow> version_of i db = Some v \<Longrightarrow>
   (version_of i (serve_requests w rs db) = Some v) \<longleftrightarrow> \<not> sessions_ended w i rs db"
proof (induction w rs db rule: serve_requests.induct)
  case (2 w now r rs db)
  let ?db = "snd (snd (serve_request w now r db))"
  from 2(2) seq_step [of db w now r] have seq: "i < ad_user_seq ?db" by linarith
  show ?case
  proof (cases "ends_sessions w i now r db")
    case True
    then have "session_gone i v ?db"
      using 2(2,3) by (auto simp: session_gone_def version_step session_after_def split: auth_request.splits)
    from session_gone_run [OF seq this, of w rs] True show ?thesis by (auto simp: session_gone_def)
  next
    case False
    then have "version_of i ?db = Some v" using 2(2,3) by (simp add: version_step session_after_def)
    with 2(1) seq False show ?thesis by simp
  qed
qed simp

lemma split_on_clean: "c \<notin> set xs \<Longrightarrow> split_on c xs = [xs]"
  by (induction xs) auto

lemma split_on_sep: "c \<notin> set xs \<Longrightarrow> split_on c (xs @ c # ys) = xs # split_on c ys"
  by (induction xs) auto

lemma session_decodes:
  assumes "\<And>p. xw_decode w (xw_encode w p) = Some p" and "\<And>p. CHR ''.'' \<notin> set (xw_encode w p)"
    and "\<And>k m. CHR ''.'' \<notin> set (xw_hmac w k m)" and "xw_local w \<or> xw_session_secret w \<noteq> DEFAULT_SESSION_SECRET"
  shows "decode_session_token w later (create_session_token w now i v) =
           (if seconds (now div seconds 1 + SESSION_TTL_SECONDS) < later then None else Some (i, v))"
  using assms by (auto simp: decode_session_token_def create_session_token_def Let_def sign_def split_on_sep split_on_clean)

lemma find_by_key: "distinct (map key rows) \<Longrightarrow> r \<in> set rows \<Longrightarrow> List.find (\<lambda>x. key x = key r) rows = Some r"
  by (induction rows) auto

lemma user_by_email_id: "user_by_email db email = Some u \<Longrightarrow> auth_ok db \<Longrightarrow> get_user db (us_id u) = Some u"
  unfolding auth_ok_def keyed_def get_user_def user_by_email_def using find_mem find_by_key by metis

lemma user_below_seq: "auth_ok db \<Longrightarrow> get_user db i = Some u \<Longrightarrow> i < ad_user_seq db"
  using get_user_id [of db i u] by (auto simp: auth_ok_def keyed_def)

lemma session_accepted:
  assumes "version_of i db = Some v" and "i < ad_user_seq db"
    and "decode_session_token w later token = (if late then None else Some (i, v))" and "token \<noteq> []"
  shows "(\<exists>u. current_user w later (Some token) (serve_requests w rs db) = Inr u) \<longleftrightarrow> \<not> late \<and> \<not> sessions_ended w i rs db"
    and "current_user w later (Some token) (serve_requests w rs db) = Inr u \<Longrightarrow> us_id u = i"
  using version_run [OF assms(2,1), of w rs] assms(3,4) get_user_id [of "serve_requests w rs db" i]
  by (auto simp: current_user_def version_of_def split: option.splits if_splits)

text \<open>C3: A session cookie set by a successful login is accepted later, for the user who logged in and nobody else,
  exactly until its day is over or one of that user's sessions-ending requests (another login, a logout, a password
  change, the deletion of the account) has succeeded, whatever else was requested in between.\<close>

theorem session_lives_until_ended:
  assumes "auth_ok db0" and "serve_request w now (Login al rnd email pw ip) db0 = (200, Some token, db)"
    and "\<And>p. xw_decode w (xw_encode w p) = Some p" and "\<And>p. CHR ''.'' \<notin> set (xw_encode w p)"
    and "\<And>k m. CHR ''.'' \<notin> set (xw_hmac w k m)" and "xw_local w \<or> xw_session_secret w \<noteq> DEFAULT_SESSION_SECRET"
  shows "\<exists>i. map_option us_id (user_by_email db0 email) = Some i \<and>
      (\<forall>rs later.
        ((\<exists>u. current_user w later (Some token) (serve_requests w rs db) = Inr u) \<longleftrightarrow>
           later \<le> seconds (now div seconds 1 + SESSION_TTL_SECONDS) \<and> \<not> sessions_ended w i rs db) \<and>
        (\<forall>u. current_user w later (Some token) (serve_requests w rs db) = Inr u \<longrightarrow> us_id u = i))"
proof -
  from assms(2) obtain u where u: "user_by_email db0 email = Some u"
    and token: "token = create_session_token w now (us_id u) (us_token_version u + 1)"
    by (auto simp: login_def Let_def split: if_splits option.splits bool.splits)
  have found: "get_user db0 (us_id u) = Some u" by (rule user_by_email_id [OF u assms(1)])
  have low: "us_id u < ad_user_seq db0" by (rule user_below_seq [OF assms(1) found])
  have "ends_sessions w (us_id u) now (Login al rnd email pw ip) db0" using assms(2) u by (simp add: ends_sessions_def)
  then have v: "version_of (us_id u) db = Some (us_token_version u + 1)"
    using version_step [OF low, of w now "Login al rnd email pw ip"] assms(2) found
    by (simp add: session_after_def version_of_def)
  have seq: "us_id u < ad_user_seq db"
    using low seq_step [of db0 w now "Login al rnd email pw ip"] assms(2) by simp
  note dec = session_decodes [OF assms(3-6), of _ now "us_id u" "us_token_version u + 1", folded token]
  have "token \<noteq> []" by (simp add: token create_session_token_def Let_def)
  from session_accepted [OF v seq dec this] u show ?thesis by (auto simp: not_less)
qed

text \<open>A world for the examples: the payload's fields in unary.\<close>

definition unary :: "int option \<Rightarrow> string" where
  "unary x = (case x of None \<Rightarrow> ''n'' | Some k \<Rightarrow> (if k < 0 then CHR ''-'' else CHR ''+'') # replicate (nat \<bar>k\<bar>) (CHR ''1''))"

definition of_unary :: "string \<Rightarrow> int option" where
  "of_unary s = (case s of [] \<Rightarrow> None | c # cs \<Rightarrow>
     if c = CHR ''+'' then Some (int (length cs)) else if c = CHR ''-'' then Some (- int (length cs)) else None)"

definition account_world :: auth_world where
  "account_world = \<lparr>xw_local = True, xw_session_secret = ''k'', xw_hmac = (\<lambda>k m. ''s''),
     xw_encode = (\<lambda>p. unary (sn_uid p) @ '','' @ unary (sn_tv p) @ '','' @ unary (sn_exp p)),
     xw_decode = (\<lambda>s. case split_on (CHR '','') s of
        [a, b, c] \<Rightarrow> Some \<lparr>sn_uid = of_unary a, sn_tv = of_unary b, sn_exp = of_unary c\<rparr> | _ \<Rightarrow> None),
     xw_pbkdf2 = (\<lambda>pw salt. map of_char pw), xw_sha256 = (\<lambda>s. s)\<rparr>"

definition example_admin :: user where
  "example_admin = \<lparr>us_id = 1, us_email = ''a@b.c'', us_name = ''A'', us_password_hash = ''01$61'', us_role = ADMIN,
     us_token_version = 1\<rparr>"

definition example_accounts :: auth_db where
  "example_accounts = \<lparr>ad_users = [example_admin], ad_memberships = [], ad_tokens = [], ad_log = [], ad_workspaces = [(1, ''w'')],
     ad_user_references = [], ad_user_seq = 2, ad_membership_seq = 1, ad_token_seq = 1\<rparr>"

lemma unary_back: "of_unary (unary x) = x" "CHR '','' \<notin> set (unary x)" "CHR ''.'' \<notin> set (unary x)"
  by (auto simp: unary_def of_unary_def split: option.splits if_splits)

lemma account_world_ok:
  "xw_decode account_world (xw_encode account_world p) = Some p" "CHR ''.'' \<notin> set (xw_encode account_world p)"
  "xw_local account_world"
  by (simp_all add: account_world_def unary_back split_on_sep split_on_clean)

lemma example_accounts_ok: "auth_ok example_accounts"
  by (simp add: auth_ok_def keyed_def example_accounts_def example_admin_def)

definition example_login :: auth_request where
  "example_login = Login True [] ''a@b.c'' ''a'' ''ip''"

lemma example_verified: "verify_password account_world [] ''a'' ''01$61'' = Some True"
  by code_simp

lemma example_found: "user_by_email example_accounts ''a@b.c'' = Some example_admin"
  by (simp add: user_by_email_def example_accounts_def example_admin_def)

lemma example_login_succeeds: "\<exists>token db. serve_request account_world 0 example_login example_accounts = (200, Some token, db)"
  by (simp add: example_login_def login_def example_found example_verified example_admin_def [THEN arg_cong [of _ _ us_password_hash]])

lemma session_lives_until_ended_witness:
  "\<exists>token db. serve_request account_world 0 example_login example_accounts = (200, Some token, db) \<and>
     (\<exists>i. map_option us_id (user_by_email example_accounts ''a@b.c'') = Some i \<and>
      (\<exists>u. current_user account_world 0 (Some token) (serve_requests account_world [] db) = Inr u \<and> us_id u = i))"
proof -
  from example_login_succeeds obtain token db where
    s: "serve_request account_world 0 example_login example_accounts = (200, Some token, db)"
    by blast
  have hmac: "CHR ''.'' \<notin> set (xw_hmac account_world k m)" for k m
    by (simp add: account_world_def)
  from session_lives_until_ended [OF example_accounts_ok s [unfolded example_login_def] account_world_ok(1,2) hmac] account_world_ok(3)
  obtain i where i: "map_option us_id (user_by_email example_accounts ''a@b.c'') = Some i"
    and all: "\<forall>rs later.
        ((\<exists>u. current_user account_world later (Some token) (serve_requests account_world rs db) = Inr u) \<longleftrightarrow>
           later \<le> seconds (0 div seconds 1 + SESSION_TTL_SECONDS) \<and> \<not> sessions_ended account_world i rs db) \<and>
        (\<forall>u. current_user account_world later (Some token) (serve_requests account_world rs db) = Inr u \<longrightarrow> us_id u = i)"
    by blast
  from all [rule_format, of 0 "[]"]
  obtain u where u: "current_user account_world 0 (Some token) (serve_requests account_world [] db) = Inr u" "us_id u = i"
    by (auto simp: SESSION_TTL_SECONDS_def)
  with s i show ?thesis by blast
qed

end
