(* ===== verification/AuthGrants.thy ===== *)
theory AuthGrants
  imports AuthProps FpProps
begin

text \<open>
  Grants come from administrators and are logged, an API token stays what it was issued as, and the checks of
  the write and the read paths agree.
\<close>

subsection \<open>Grants\<close>

fun request_cookie :: "auth_request \<Rightarrow> string option" where
  "request_cookie (Login _ _ _ _ _) = None"
| "request_cookie (Logout c) = c"
| "request_cookie (UpdateMe c _) = c"
| "request_cookie (ChangePassword c _ _ _) = c"
| "request_cookie (CreateUser c _ _ _ _ _) = c"
| "request_cookie (UpdateRole c _ _) = c"
| "request_cookie (DeleteUser c _) = c"
| "request_cookie (AssignMembership c _ _ _) = c"
| "request_cookie (RemoveMembership c _) = c"
| "request_cookie (CreateToken c _ _ _) = c"
| "request_cookie (RevokeToken c _) = c"
| "request_cookie (UseToken _) = None"

definition one_more_entry :: "auth_event_type set \<Rightarrow> string \<Rightarrow> auth_db \<Rightarrow> auth_db \<Rightarrow> bool" where
  "one_more_entry kinds actor db db' \<longleftrightarrow>
     (\<exists>e. ad_log db' = ad_log db @ [e] \<and> al_event_type e \<in> kinds \<and> al_actor e = actor)"

lemma views_frame [simp]:
  "get_user (db\<lparr>ad_memberships := ms\<rparr>) = get_user db" "get_user (db\<lparr>ad_tokens := ts\<rparr>) = get_user db"
  "get_user (db\<lparr>ad_memberships := ms, ad_membership_seq := n\<rparr>) = get_user db"
  "get_user (db\<lparr>ad_tokens := ts, ad_token_seq := n\<rparr>) = get_user db"
  by (auto simp: get_user_def fun_eq_iff)

lemma find_longer: "List.find P xs = Some x \<Longrightarrow> List.find P (xs @ ys) = Some x"
  by (induction xs) (auto split: if_splits)

lemma get_new_user:
  "get_user db i = Some u \<Longrightarrow> get_user (db\<lparr>ad_users := ad_users db @ [v], ad_user_seq := n\<rparr>) i = Some u"
  by (simp add: get_user_def find_longer)

lemma get_fewer_users:
  "get_user (db\<lparr>ad_users := filter (\<lambda>u. us_id u \<noteq> j) (ad_users db)\<rparr>) i = (if i = j then None else get_user db i)"
  by (simp add: get_user_def find_filter_other)

text \<open>What a request did to an account that it neither created nor deleted.\<close>

lemma get_user_update_simple [simp]:
  "get_user (update_user j (\<lambda>u. u\<lparr>us_name := n\<rparr>) db) i = map_option (\<lambda>u. if us_id u = j then u\<lparr>us_name := n\<rparr> else u) (get_user db i)"
  "get_user (update_user j (\<lambda>u. u\<lparr>us_role := ro\<rparr>) db) i = map_option (\<lambda>u. if us_id u = j then u\<lparr>us_role := ro\<rparr> else u) (get_user db i)"
  "get_user (update_user j bump_version db) i = map_option (\<lambda>u. if us_id u = j then bump_version u else u) (get_user db i)"
  "get_user (update_user j (\<lambda>u. bump_version (u\<lparr>us_password_hash := h\<rparr>)) db) i =
     map_option (\<lambda>u. if us_id u = j then bump_version (u\<lparr>us_password_hash := h\<rparr>) else u) (get_user db i)"
  by (simp_all add: get_user_update)

lemma bump_keeps [simp]: "us_role (bump_version u) = us_role u" "us_password_hash (bump_version u) = us_password_hash u"
  "us_email (bump_version u) = us_email u"
  by (simp_all add: bump_version_def)

lemmas handlers =
  login_def logout_def update_me_def change_password_def create_user_def update_role_def delete_user_def
  assign_membership_def remove_membership_def create_api_token_def revoke_api_token_def current_api_token_user_def
  as_admin_def as_user_def require_admin_def Let_def

lemmas handler_splits = sum.splits option.splits bool.splits prod.splits if_splits

lemma admin_caller: "require_admin x = Inr u \<longleftrightarrow> x = Inr u \<and> us_role u = ADMIN"
  by (auto simp: require_admin_def split: sum.splits)

lemma log_one_more: "ad_log db' = ad_log db \<Longrightarrow> e \<in> kinds \<Longrightarrow> one_more_entry kinds a db (log_auth_event e a t d ip db')"
  by (simp add: one_more_entry_def log_auth_event_def)

lemma role_changes:
  assumes "get_user db i = Some u" and "get_user (snd (snd (serve_request w now r db))) i = Some u'" and "us_role u' \<noteq> us_role u"
  shows "\<exists>a. require_admin (current_user w now (request_cookie r) db) = Inr a \<and>
      one_more_entry {ROLE_CHANGED} (us_email a) db (snd (snd (serve_request w now r db)))"
  using assms get_user_id [of db i u]
  by (cases r) (auto simp: handlers get_new_user get_fewer_users log_one_more split: handler_splits)

lemma password_changes:
  assumes "get_user db i = Some u" and "get_user (snd (snd (serve_request w now r db))) i = Some u'"
    and "us_password_hash u' \<noteq> us_password_hash u"
  shows "current_user w now (request_cookie r) db = Inr u \<and>
      one_more_entry {PASSWORD_CHANGED} (us_email u) db (snd (snd (serve_request w now r db)))"
  using assms get_user_id [of db i u] current_user_found
  by (cases r) (fastforce simp: handlers get_new_user get_fewer_users log_one_more split: handler_splits)+

lemma user_set_changes:
  assumes "us_id ` set (ad_users (snd (snd (serve_request w now r db)))) \<noteq> us_id ` set (ad_users db)"
  shows "(\<exists>a. require_admin (current_user w now (request_cookie r) db) = Inr a) \<and>
      ad_log (snd (snd (serve_request w now r db))) = ad_log db"
  using assms
  by (cases r) (auto simp: handlers update_user_def image_update_rows split: handler_splits)

lemma same_role_update:
  "keyed mb_id n rows \<Longrightarrow> m \<in> set rows \<Longrightarrow> mb_role m = role \<Longrightarrow> update_rows mb_id (mb_id m) (\<lambda>m. m\<lparr>mb_role := role\<rparr>) rows = rows"
  unfolding keyed_def update_rows_def
  by (intro map_idI) (metis (mono_tags, lifting) distinct_map inj_onD workspace_membership.surjective workspace_membership.update_convs(4))

lemma membership_changes:
  assumes "ad_memberships (snd (snd (serve_request w now r db))) \<noteq> ad_memberships db" and "auth_ok db"
  shows "\<exists>a. require_admin (current_user w now (request_cookie r) db) = Inr a \<and>
      one_more_entry {WORKSPACE_ROLE_CHANGED, WORKSPACE_ROLE_REMOVED} (us_email a) db (snd (snd (serve_request w now r db)))"
proof -
  have same: "update_rows mb_id (mb_id m) (\<lambda>m. m\<lparr>mb_role := mb_role m'\<rparr>) (ad_memberships db) = ad_memberships db"
    if "membership_of db i ws = Some m" "mb_role m' = mb_role m" for i ws m m'
    using same_role_update [of _ "ad_memberships db" m] that assms(2) find_mem
    unfolding auth_ok_def membership_of_def by fastforce
  show ?thesis using assms(1) same
    by (cases r) (fastforce simp: handlers log_one_more split: handler_splits)+
qed

text \<open>C4: Whatever is requested, a global role or a workspace membership changes only for a request whose session is an
  administrator's, and leaves exactly one new entry in the audit log, of the right kind and under that administrator's
  address; a password hash changes only for the account's own session, and is logged under it; and an account is
  created or deleted only by an administrator, which the audit log does not record.\<close>

theorem grants_are_logged_admin_acts:
  assumes "auth_ok db" and "serve_request w now r db = (code, cookie, db')"
  shows "(\<forall>i u u'. get_user db i = Some u \<and> get_user db' i = Some u' \<and> us_role u' \<noteq> us_role u \<longrightarrow>
        (\<exists>a. require_admin (current_user w now (request_cookie r) db) = Inr a \<and> one_more_entry {ROLE_CHANGED} (us_email a) db db')) \<and>
    (ad_memberships db' \<noteq> ad_memberships db \<longrightarrow>
        (\<exists>a. require_admin (current_user w now (request_cookie r) db) = Inr a \<and>
          one_more_entry {WORKSPACE_ROLE_CHANGED, WORKSPACE_ROLE_REMOVED} (us_email a) db db')) \<and>
    (\<forall>i u u'. get_user db i = Some u \<and> get_user db' i = Some u' \<and> us_password_hash u' \<noteq> us_password_hash u \<longrightarrow>
        current_user w now (request_cookie r) db = Inr u \<and> one_more_entry {PASSWORD_CHANGED} (us_email u) db db') \<and>
    (us_id ` set (ad_users db') \<noteq> us_id ` set (ad_users db) \<longrightarrow>
        (\<exists>a. require_admin (current_user w now (request_cookie r) db) = Inr a) \<and> ad_log db' = ad_log db)"
    (is "?role \<and> ?membership \<and> ?password \<and> ?users")
proof -
  have db': "db' = snd (snd (serve_request w now r db))" using assms(2) by simp
  have ?role using role_changes [of db _ _ w now r] unfolding db' by blast
  moreover have ?membership using membership_changes [OF _ assms(1), of w now r] unfolding db' by blast
  moreover have ?password using password_changes [of db _ _ w now r] unfolding db' by blast
  moreover have ?users using user_set_changes [of w now r db] unfolding db' by blast
  ultimately show ?thesis by blast
qed

definition example_cookie :: string where
  "example_cookie = create_session_token account_world 0 1 1"

lemma example_session: "current_user account_world 0 (Some example_cookie) example_accounts = Inr example_admin"
proof -
  have d: "decode_session_token account_world 0 example_cookie = Some (1, 1)"
    using session_decodes [OF account_world_ok(1,2), of 0 0 1 1] account_world_ok(3)
    by (simp add: example_cookie_def account_world_def SESSION_TTL_SECONDS_def)
  have "example_cookie \<noteq> []" by (simp add: example_cookie_def create_session_token_def Let_def)
  with d show ?thesis by (simp add: current_user_def get_user_def example_accounts_def example_admin_def)
qed

lemma grants_are_logged_admin_acts_witness:
  "\<exists>db' a. snd (snd (serve_request account_world 0 (AssignMembership (Some example_cookie) 1 1 WS_VIEWER) example_accounts)) = db' \<and>
     require_admin (current_user account_world 0 (Some example_cookie) example_accounts) = Inr a \<and>
     one_more_entry {WORKSPACE_ROLE_CHANGED, WORKSPACE_ROLE_REMOVED} (us_email a) example_accounts db'"
proof -
  let ?r = "AssignMembership (Some example_cookie) 1 1 WS_VIEWER"
  obtain code cookie db' where s: "serve_request account_world 0 ?r example_accounts = (code, cookie, db')"
    using prod_cases3 by blast
  then have "ad_memberships db' \<noteq> ad_memberships example_accounts"
    by (simp add: as_admin_def require_admin_def example_session)
       (auto simp: example_admin_def assign_membership_def get_user_def example_accounts_def membership_of_def Let_def)
  with grants_are_logged_admin_acts [OF example_accounts_ok s] s show ?thesis by fastforce
qed

subsection \<open>API tokens\<close>

text \<open>What no request changes of a token.\<close>

definition issued :: "api_token \<Rightarrow> row_id \<times> row_id \<times> string \<times> string \<times> string \<times> token_scope \<times> timestamp" where
  "issued t = (at_id t, at_user_id t, at_name t, at_token_hash t, at_token_prefix t, at_scope t, at_created_at t)"

definition continues :: "api_token \<Rightarrow> api_token \<Rightarrow> bool" where
  "continues t t' \<longleftrightarrow> issued t' = issued t \<and> (at_revoked_at t \<noteq> None \<longrightarrow> at_revoked_at t' = at_revoked_at t)"

lemma tokens_frame: "ad_tokens (snd (snd (serve_request w now r db))) = ad_tokens db"
  if "case r of CreateToken _ _ _ _ \<Rightarrow> False | RevokeToken _ _ \<Rightarrow> False | UseToken _ \<Rightarrow> False | _ \<Rightarrow> True"
  using that by (cases r) (auto simp: handlers split: handler_splits)

lemma token_row_continues:
  "t \<in> set ts \<Longrightarrow> (at_id t = k \<Longrightarrow> continues t (g t)) \<Longrightarrow> \<exists>t'\<in>set (update_rows at_id k g ts). continues t t'"
proof -
  assume t: "t \<in> set ts" and step: "at_id t = k \<Longrightarrow> continues t (g t)"
  have "(if at_id t = k then g t else t) \<in> set (update_rows at_id k g ts)" using t by (simp add: set_update_rows)
  moreover have "continues t (if at_id t = k then g t else t)" using step by (simp add: continues_def)
  ultimately show ?thesis by blast
qed

lemma token_step:
  assumes "t \<in> set (ad_tokens db)" and "auth_ok db"
  shows "\<exists>t'\<in>set (ad_tokens (snd (snd (serve_request w now r db)))). continues t t'"
proof -
  have refl: "continues t t" by (simp add: continues_def)
  have use_row: "continues t (t\<lparr>at_last_used_at := x\<rparr>)" for x by (simp add: continues_def issued_def)
  have revoke_row: "continues t (t\<lparr>at_revoked_at := x\<rparr>)" if "at_revoked_at t = None" for x
    using that by (simp add: continues_def issued_def)
  have distinct: "distinct (map at_id (ad_tokens db))" using assms(2) by (simp add: auth_ok_def keyed_def)
  have row: "t' = t" if "t' \<in> set (ad_tokens db)" "at_id t' = at_id t" for t'
    using find_by_key [OF distinct that(1)] unfolding that(2) find_by_key [OF distinct assms(1)] by simp
  consider (revoke) c i where "r = RevokeToken c i" | (create) c d n sc where "r = CreateToken c d n sc"
    | (use) a where "r = UseToken a"
    | (same) "ad_tokens (snd (snd (serve_request w now r db))) = ad_tokens db"
    using tokens_frame [of r w now db] by (cases r) (auto simp del: serve_request.simps)
  then show ?thesis
  proof cases
    case revoke
    have "continues t (t\<lparr>at_revoked_at := Some now\<rparr>)"
      if "List.find (\<lambda>t. at_id t = i) (ad_tokens db) = Some t''" "at_revoked_at t'' = None" "at_id t = i" for t''
      using that row [of t''] find_mem [OF that(1)] revoke_row by simp
    then show ?thesis using assms(1) refl unfolding revoke
      by (auto simp: handlers split: handler_splits intro!: token_row_continues)
  next
    case create
    show ?thesis using assms(1) refl unfolding create by (auto simp: handlers split: handler_splits)
  next
    case use
    show ?thesis using assms(1) refl unfolding use
      by (auto simp: handlers split: handler_splits intro!: token_row_continues use_row)
  next
    case same
    then show ?thesis using assms(1) refl by auto
  qed
qed

lemma continues_trans: "continues t t' \<Longrightarrow> continues t' t'' \<Longrightarrow> continues t t''"
  by (auto simp: continues_def issued_def)

lemma token_run:
  "t \<in> set (ad_tokens db) \<Longrightarrow> auth_ok db \<Longrightarrow> \<exists>t'\<in>set (ad_tokens (serve_requests w rs db)). continues t t'"
proof (induction w rs db arbitrary: t rule: serve_requests.induct)
  case (1 w db)
  then show ?case by (auto simp: continues_def)
next
  case (2 w now r rs db)
  from token_step [OF 2(2,3), of w now r] obtain t1
    where t1: "t1 \<in> set (ad_tokens (snd (snd (serve_request w now r db))))" "continues t t1" by blast
  from 2(1) [OF t1(1) auth_ok_step [OF 2(3)]] continues_trans [OF t1(2)] show ?case by auto
qed

lemma resolve_hash:
  assumes "auth_ok db" and "t \<in> set (ad_tokens db)" and "hash_api_token w (str_strip p) = at_token_hash t"
  shows "resolve_api_token w (Some (''Bearer '' @ p)) db = (if at_revoked_at t \<noteq> None then Inl 401 else Inr t)"
proof -
  have "distinct (map at_token_hash (ad_tokens db))" using assms(1) by (simp add: auth_ok_def)
  from find_by_key [OF this assms(2)] show ?thesis
    by (simp add: resolve_api_token_def assms(3))
qed

text \<open>C24: Through any history of requests a token keeps its owner, name, hash, prefix, scope and issue time, and a
  revocation is never undone: presented later, it authenticates nobody but its owner, nobody at all once revoked, and
  a read token never passes the check for writing.\<close>

theorem tokens_stay_as_issued:
  assumes "auth_ok db" and "t \<in> set (ad_tokens db)" and "hash_api_token w (str_strip p) = at_token_hash t"
  shows "let db' = serve_requests w rs db; header = Some (''Bearer '' @ p) in
     (\<exists>t'\<in>set (ad_tokens db'). continues t t') \<and>
     (\<forall>now u. fst (current_api_token_user w now header db') = Inr u \<longrightarrow> us_id u = at_user_id t) \<and>
     (at_revoked_at t \<noteq> None \<longrightarrow> resolve_api_token w header db' = Inl 401) \<and>
     (at_scope t = READ_SCOPE \<longrightarrow> require_api_token_write_scope w header db' \<noteq> Inr ())"
proof -
  let ?db = "serve_requests w rs db"
  from token_run [OF assms(2,1)] obtain t' where t': "t' \<in> set (ad_tokens ?db)" "continues t t'" by blast
  then have kept: "at_token_hash t' = at_token_hash t" "at_user_id t' = at_user_id t" "at_scope t' = at_scope t"
    by (auto simp: continues_def issued_def)
  note found = resolve_hash [OF auth_ok_run [OF assms(1)] t'(1), of w p, unfolded kept(1), OF assms(3)]
  have "us_id u = at_user_id t" if "fst (current_api_token_user w now (Some (''Bearer '' @ p)) ?db) = Inr u" for now u
    using that found kept get_user_id [of ?db "at_user_id t"]
    by (auto simp: current_api_token_user_def split: if_splits option.splits)
  moreover have "resolve_api_token w (Some (''Bearer '' @ p)) ?db = Inl 401" if "at_revoked_at t \<noteq> None"
    using that found t'(2) by (simp add: continues_def)
  moreover have "require_api_token_write_scope w (Some (''Bearer '' @ p)) ?db \<noteq> Inr ()" if "at_scope t = READ_SCOPE"
    using that found kept by (auto simp: require_api_token_write_scope_def)
  ultimately show ?thesis using t' by (auto simp: Let_def)
qed

definition example_token :: api_token where
  "example_token = \<lparr>at_id = 1, at_user_id = 1, at_name = ''t'', at_token_hash = ''p'', at_token_prefix = ''p'',
     at_scope = READ_SCOPE, at_created_at = 0, at_last_used_at = None, at_revoked_at = Some 5\<rparr>"

definition example_with_token :: auth_db where
  "example_with_token = example_accounts\<lparr>ad_tokens := [example_token], ad_token_seq := 2\<rparr>"

lemma tokens_stay_as_issued_witness:
  "resolve_api_token account_world (Some ''Bearer p'')
     (serve_requests account_world [(7, RevokeToken (Some example_cookie) 1)] example_with_token) = Inl 401"
proof -
  have ok: "auth_ok example_with_token"
    by (simp add: auth_ok_def keyed_def example_with_token_def example_token_def example_accounts_def example_admin_def)
  have member: "example_token \<in> set (ad_tokens example_with_token)" by (simp add: example_with_token_def)
  have hash: "hash_api_token account_world (str_strip ''p'') = at_token_hash example_token" by code_simp
  show ?thesis
    using tokens_stay_as_issued [OF ok member hash, of "[(7, RevokeToken (Some example_cookie) 1)]"]
    by (simp add: Let_def example_token_def)
qed

subsection \<open>The checks of the write and the read paths\<close>

lemma membership_found:
  "membership_of db i ws \<noteq> None \<longleftrightarrow> ws \<in> set (map mb_workspace_id (filter (\<lambda>m. mb_user_id m = i) (ad_memberships db)))"
  unfolding membership_none by (auto simp: image_iff)

lemma viewer_is_least [simp]: "WORKSPACE_ROLE_RANK r \<noteq> 0"
  by (cases r) simp_all

text \<open>C33: The checks agree: what a caller may do at the lowest workspace role is exactly what the caller may list with
  the workspace switcher, a higher role includes the lower ones, and a route that names a target is judged by that
  target's workspace, a missing target being refused to everyone but administrators.\<close>

theorem read_and_write_checks_agree:
  "(enforce_workspace_role adb db u WS_VIEWER (Some ws) None None = Inr () \<longleftrightarrow> narrow_workspace_scope adb u (Some ws) = Inr (Some [ws])) \<and>
   (WORKSPACE_ROLE_RANK low \<le> WORKSPACE_ROLE_RANK high \<and> enforce_workspace_role adb db u high (Some ws) None None = Inr () \<longrightarrow>
      enforce_workspace_role adb db u low (Some ws) None None = Inr ()) \<and>
   require_workspace_role low (TargetRoute i) adb db (Inr u) =
     (case get_target db i of
        Some t \<Rightarrow> require_workspace_role low (WorkspaceRoute (t_workspace_id t)) adb db (Inr u)
      | None \<Rightarrow> if us_role u = ADMIN then Inr u else Inl 404)"
proof (intro conjI)
  show "enforce_workspace_role adb db u WS_VIEWER (Some ws) None None = Inr () \<longleftrightarrow> narrow_workspace_scope adb u (Some ws) = Inr (Some [ws])"
    using membership_found [of adb "us_id u" ws]
    by (auto simp: enforce_workspace_role_def narrow_workspace_scope_def accessible_workspace_ids_def resolve_workspace_id_def
        split: option.splits)
qed (auto simp: enforce_workspace_role_def require_workspace_role_def resolve_workspace_id_def split: option.splits if_splits)

definition example_engineer :: user where
  "example_engineer = \<lparr>us_id = 2, us_email = ''e@b.c'', us_name = ''E'', us_password_hash = ''01$61'', us_role = DEVELOPER,
     us_token_version = 1\<rparr>"

definition example_members :: auth_db where
  "example_members = example_accounts\<lparr>ad_users := [example_admin, example_engineer],
     ad_memberships := [\<lparr>mb_id = 1, mb_user_id = 2, mb_workspace_id = 1, mb_role = WS_SECURITY_ENGINEER\<rparr>]\<rparr>"

lemma read_and_write_checks_agree_witness:
  "enforce_workspace_role example_members triage_db example_engineer WS_DEVELOPER (Some 1) None None = Inr ()"
proof -
  have "enforce_workspace_role example_members triage_db example_engineer WS_SECURITY_ENGINEER (Some 1) None None = Inr ()"
    by (simp add: enforce_workspace_role_def resolve_workspace_id_def membership_of_def example_members_def example_engineer_def)
  with read_and_write_checks_agree [of example_members triage_db example_engineer 1 WS_DEVELOPER WS_SECURITY_ENGINEER 0]
  show ?thesis by simp
qed

end
