(* ===== verification/Spec2Isabelle.thy ===== *)
theory Spec2Isabelle
  imports Prelude ScoreProps ScheduleCoverage ScanClaims GuardrailReview RateLimit CodeGraph MalwareIngest
    SecurityScoreProps ScanTaskProps EnrichmentProps RemediationPrProps DiscoveryProps ApiScanProps Dispatch AuthGrants
begin

text \<open>
  Toleman is a DevSecOps platform: it clones a repository, runs scanners on it, merges what they
  report into a table of findings, scores and ages those findings, and blocks pull requests that
  would add new ones.  The development models the Python core of \<open>backend/app\<close>, from the command
  a scanner is started with to the row that is committed and the status GitHub is sent.

  \<^bold>\<open>The path of a scan.\<close>  \<open>tasks/schedule_tasks.py\<close> claims due rows (Schedules, ScheduleLock,
  ScheduleCoverage: \<open>core/scan_schedules.py\<close>) and \<open>tasks/scan_tasks.py\<close> queues and runs one task per
  scanner (ScanTask).  The task asks \<open>core/target_lifecycle.py\<close> whether it may run (Lifecycle),
  refreshes the AI flag (AiRepo: \<open>core/ai_repo_detection.py\<close>, \<open>core/ai_repo_status.py\<close>), runs the tool
  (Runner: \<open>scanners/runner.py\<close>), reads its JSON (Json, Parsers, ParserTable: \<open>scanners/parsers.py\<close>),
  annotates secrets (\<open>scanners/secret_context.py\<close>, in ScanTask) and ingests the items (Ingestion:
  \<open>core/ingestion.py\<close>, \<open>core/scan_health.py\<close>).  \<open>api/ingest.py\<close> is the same path from a pushed SARIF
  document.  OsvMalware and MalwareIngest (\<open>core/osv_malware.py\<close>, \<open>core/osv_malware_ingestion.py\<close>)
  are a second source of findings.

  \<^bold>\<open>What a finding is.\<close>  Models and Tables hold the rows (\<open>models/models.py\<close>) and the database record
  \<open>db\<close>.  FpLearning is the fingerprint, triage and the learnt suppression rules (\<open>core/dedup.py\<close>,
  \<open>core/triage.py\<close>, \<open>core/fp_learning.py\<close>).  Cvss, Scoring, Breakdown and ScoringConfig are the
  priority score (\<open>core/cvss.py\<close>, \<open>core/scoring.py\<close>, \<open>core/scoring_config.py\<close>, \<open>core/fixability.py\<close>);
  Sla and SecurityScore are the ageing rules and the composite health score (\<open>core/sla.py\<close>,
  \<open>core/security_score.py\<close>).

  \<^bold>\<open>Pull requests.\<close>  Diff reads GitHub's patch text, Guardrail holds policies, enforcement modes and
  attribution (\<open>core/pr_guardrail.py\<close>, \<open>core/policy.py\<close>, \<open>core/enforcement.py\<close>), GuardrailScan and
  GuardrailExec the handler, the verdict, its re-evaluation and the reviewers' requests
  (\<open>core/pr_guardrail_executor.py\<close>, \<open>api/pr_guardrail.py\<close>).  CodeGraph is the blast radius of a change
  (\<open>core/code_graph.py\<close>), RateLimit the request limiter (\<open>core/rate_limit.py\<close>), ToolRegistry which tool
  runs where (\<open>core/tool_registry.py\<close>, \<open>core/tool_usage.py\<close>).

  \<^bold>\<open>From a finding to its fix.\<close>  Enrichment is the cache of what NVD and OSV say of a CVE
  (\<open>core/nvd.py\<close>, \<open>core/osv.py\<close>, \<open>core/cve_enrichment.py\<close>), which scoring and the Fix Plan read.  Remediation
  groups the open findings of a target into package upgrades (\<open>core/remediation.py\<close>).  Autofix builds a patch of
  one file (\<open>core/autofix.py\<close>, its patterns over Regex), FixPr commits it and opens a pull request and runs the
  package managers (\<open>core/npm_lockfile_autofix.py\<close>), and RemediationPr raises the plan by hand, in a batch and in
  the sweep (\<open>core/remediation_autofix.py\<close>, \<open>tasks/remediation_tasks.py\<close>, handlers of \<open>api/findings.py\<close>).

  \<^bold>\<open>Web APIs and the clock.\<close>  Discovery finds the routes of a checkout and keeps the inventory of endpoints
  (\<open>scanners/discovery.py\<close>, \<open>core/discovery_ingestion.py\<close>, \<open>tasks/discovery_tasks.py\<close>, \<open>api/discovery.py\<close>).  ApiScan
  turns that inventory into the URLs nuclei is given (\<open>core/api_scan_targets.py\<close>, over Url, which is the standard
  library's splitting and joining of URLs), runs the scan and answers its requests (\<open>tasks/api_scan_tasks.py\<close>,
  \<open>api/api_scan.py\<close>).  Dispatch is the tick that claims every due schedule and starts what it is for
  (\<open>tasks/schedule_tasks.py\<close>).

  \<^bold>\<open>Who may do what.\<close>  Auth holds passwords, sessions, API tokens, global and workspace roles, the handlers that
  change them and the audit trail they write (\<open>core/security.py\<close>, \<open>core/auth_audit.py\<close>, \<open>api/auth.py\<close>,
  \<open>api/admin.py\<close>, \<open>api/admin_workspace_roles.py\<close>, \<open>api/api_tokens.py\<close>), with a history of requests.

  \<^bold>\<open>How code is represented.\<close>  A table is the list of its rows, a session is the record passed along and
  returned, \<open>None\<close> and exceptions are options, sums and outcome datatypes, so every early return is a
  branch.  What the code asks of the outside (a spawned process, HTTP answers, the clock, a digest, the
  clone) is a parameter or a record of parameters (\<open>ingest_world\<close>, \<open>tool_world\<close>, \<open>scan_world\<close>,
  \<open>pr_world\<close>, \<open>cve_sources\<close>, \<open>fix_world\<close>, \<open>npm_world\<close>,
  \<open>discovery_world\<close>, \<open>api_world\<close>, \<open>dispatch_world\<close>, \<open>auth_world\<close>); what it sends is a list of effects or alerts.  Python ints are \<open>int\<close>, floats exact
  rationals, times integer microseconds, strings lists of the first 256 characters.  No definition
  uses fuel: loops are structural recursion or recursion with a measure.

  \<^bold>\<open>The lemmas.\<close>  Prelude, Choice and Json hold what the components share; the locales are the additive
  section of a score (ScoreAccount), the lease of a due clock (ScheduleLock), a learner of
  suppressions (FpProps) and the strongest of several settings (Choice), each interpreted on the code's own functions.  IngestSteps states a scan
  as a relation of elementary changes, IngestProps shows that \<open>ingest_findings\<close> is a sequence of
  them, and ScanClaims derives its invariants by rule induction: triage is respected, fingerprints stay
  unique, the audit log replays to the current state, an untrusted run clears nothing, a trusted one is
  exact.  RunnerProps says what a healthy verdict rests on, ParserProps that no report loses an issue,
  and ScanTaskProps composes them: an Open finding is cleared only by a believed run of its own scanner
  on its own branch, and a scan's row ends finished or failed, save when the database refused a statement, where the
  next poll of the row fails it once it is stale.  ScoreProps is about the account of a score, ScheduleCoverage about
  which row is responsible for a target and where the dispatcher and the settings page part, GuardrailProps and
  GuardrailReview about who can block or unblock a pull request, SecurityScoreProps about the composite score.  EnrichmentProps types the cache and shows that
  of all that can go wrong in filling it only a refused commit fails a scan; RemediationProps says what the Fix Plan
  lists, recommends and leaves out; AutofixProps what a patch changes, which suppressions it may not carry, which
  branch a fix writes to and that a success had every write accepted; RemediationPrProps that a fix is raised once over
  any history, how each outcome of a batch leaves its items, that a sweep leaves nothing to do and what every run of
  a package manager is told and finds in its directory.  Regex proves its matcher sound and
  complete for the language of an expression.  DiscoveryProps shows that discovering again changes nothing an operator set;
  ApiScanProps that every URL of a scan stays on the target's host, that each endpoint is either probed or listed with
  a reason, and what a cleared finding rests on; Dispatch that a tick settles every due row once.  AuthInv keeps
  the account tables well formed through any request, AuthProps says how long a session lives, and AuthGrants who
  can grant, what is logged, what a token can do and that the two kinds of access check agree.  Theories without a theorem of the manifest
  hold definitions and the lemmas of their users.

  \<^bold>\<open>Not modelled.\<close>  The HTTP layer, cookies and headers, the read-only list, search, report and
  dashboard handlers, the GitHub App client, the clone and its credentials, locks and the download of
  the Trivy database, the AI provider, notification, Jira and SIEM transports, encryption of stored
  secrets, logging and configuration; the scripts, migrations, the MCP server and the frontend.  Of
  the modelled files the texts of UI notes and PR comments, the tool log and the timings are left out.
\<close>

end
